(* ===== verification/Prelude.thy ===== *)
theory Prelude
  imports Main "HOL-Library.Word" "HOL-Library.AList" "HOL-Library.Char_ord"
    "HOL-Library.List_Lexorder" "HOL-Library.Product_Lexorder"
begin

text \<open>
  Shared vocabulary of the development: the error monad that stands for Python exceptions,
  Python dictionaries as association lists with distinct keys (insertion order kept, as Python
  keeps it), slices, and the string methods the code uses. Text is ASCII: a string is a list of
  characters, and \<open>casefold\<close> and \<open>lower\<close> act on the letters A to Z only.
\<close>

unbundle bit_operations_syntax

named_theorems result_simps "inversion of the error monad"
named_theorems dict_simps "lookup and key laws of the dictionary operations"

section \<open>Exceptions as values\<close>

text \<open>A statement that may raise is a value of \<open>'e + 'a\<close>, \<open>Inl\<close> for the exception.\<close>

fun ebind :: "'e + 'a \<Rightarrow> ('a \<Rightarrow> 'e + 'b) \<Rightarrow> 'e + 'b" where
  "ebind (Inl e) f = Inl e"
| "ebind (Inr x) f = f x"

definition ensure :: "bool \<Rightarrow> 'e \<Rightarrow> 'e + unit" where
  "ensure b e = (if b then Inr () else Inl e)"

definition note_none :: "'e \<Rightarrow> 'a option \<Rightarrow> 'e + 'a" where
  "note_none e x = (case x of None \<Rightarrow> Inl e | Some v \<Rightarrow> Inr v)"

fun emap :: "('a \<Rightarrow> 'e + 'b) \<Rightarrow> 'a list \<Rightarrow> 'e + 'b list" where
  "emap f [] = Inr []"
| "emap f (x # xs) = ebind (f x) (\<lambda>y. ebind (emap f xs) (\<lambda>ys. Inr (y # ys)))"

fun efold :: "('a \<Rightarrow> 's \<Rightarrow> 'e + 's) \<Rightarrow> 'a list \<Rightarrow> 's \<Rightarrow> 'e + 's" where
  "efold f [] s = Inr s"
| "efold f (x # xs) s = ebind (f x s) (efold f xs)"

lemma ebind_cong [fundef_cong]:
  "m = m' \<Longrightarrow> (\<And>x. m' = Inr x \<Longrightarrow> f x = g x) \<Longrightarrow> ebind m f = ebind m' g"
  by (cases m') auto

lemma ebind_Inr_iff [result_simps]: "ebind m f = Inr y \<longleftrightarrow> (\<exists>x. m = Inr x \<and> f x = Inr y)"
  by (cases m) auto

lemma ebind_InrE: "ebind m f = Inr y \<Longrightarrow> (\<And>x. m = Inr x \<Longrightarrow> f x = Inr y \<Longrightarrow> thesis) \<Longrightarrow> thesis"
  by (cases m) auto

lemma ebind_Inr_pair:
  "ebind m (\<lambda>(a, b). f a b) = Inr y \<longleftrightarrow> (\<exists>a b. m = Inr (a, b) \<and> f a b = Inr y)"
  by (cases m) (auto split: prod.splits)

lemma ebind_Inl_iff [result_simps]:
  "ebind m f = Inl e \<longleftrightarrow> m = Inl e \<or> (\<exists>x. m = Inr x \<and> f x = Inl e)"
  by (cases m) auto

lemma ensure_Inr [simp]: "ensure b e = Inr u \<longleftrightarrow> b"
  by (simp add: ensure_def)

lemma ensure_Inl [simp]: "ensure b e = Inl e' \<longleftrightarrow> \<not> b \<and> e' = e"
  by (auto simp: ensure_def)

lemma ensure_True [simp]: "ensure True e = Inr ()"
  by (simp add: ensure_def)

lemma ensure_False [simp]: "ensure False e = Inl e"
  by (simp add: ensure_def)

lemma note_none_Inr [simp]: "note_none e x = Inr v \<longleftrightarrow> x = Some v"
  by (auto simp: note_none_def split: option.splits)

lemma note_none_Inl [simp]: "note_none e x = Inl e' \<longleftrightarrow> x = None \<and> e' = e"
  by (auto simp: note_none_def split: option.splits)

lemma note_none_Some [simp]: "note_none e (Some v) = Inr v"
  by (simp add: note_none_def)

lemma note_none_None [simp]: "note_none e None = Inl e"
  by (simp add: note_none_def)

lemma emap_Inr_iff: "emap f xs = Inr ys \<longleftrightarrow> list_all2 (\<lambda>x y. f x = Inr y) xs ys"
  by (induction xs arbitrary: ys) (auto simp: result_simps list_all2_Cons1)

lemma emap_pure: "(\<And>x. x \<in> set xs \<Longrightarrow> f x = Inr (g x)) \<Longrightarrow> emap f xs = Inr (map g xs)"
  by (induction xs) auto

lemma emap_append:
  "emap f (xs @ ys) = ebind (emap f xs) (\<lambda>us. ebind (emap f ys) (\<lambda>vs. Inr (us @ vs)))"
proof (induction xs)
  case Nil
  show ?case by (cases "emap f ys") auto
next
  case (Cons x xs)
  show ?case
    by (cases "f x"; cases "emap f xs"; cases "emap f ys") (auto simp: Cons.IH)
qed

lemma efold_append: "efold f (xs @ ys) s = ebind (efold f xs s) (efold f ys)"
proof (induction xs arbitrary: s)
  case (Cons x xs)
  show ?case by (cases "f x s") (auto simp: Cons.IH)
qed simp

text \<open>An invariant that every successful step keeps holds after the whole loop.\<close>

lemma efold_invariant:
  assumes "efold f xs s = Inr t" and "P s"
    and "\<And>x s s'. x \<in> set xs \<Longrightarrow> P s \<Longrightarrow> f x s = Inr s' \<Longrightarrow> P s'"
  shows "P t"
  using assms
proof (induction xs arbitrary: s)
  case (Cons x xs)
  from Cons.prems(1) obtain s' where s': "f x s = Inr s'" and rest: "efold f xs s' = Inr t"
    by (auto simp: result_simps)
  have "P s'" by (rule Cons.prems(3) [OF _ Cons.prems(2) s']) simp
  with rest show ?case using Cons.prems(3) by (auto intro: Cons.IH)
qed simp

section \<open>Dictionaries\<close>

type_synonym ('k, 'v) dict = "('k \<times> 'v) list"

abbreviation dict_get :: "('k, 'v) dict \<Rightarrow> 'k \<Rightarrow> 'v option" where
  "dict_get d k \<equiv> map_of d k"

definition dict_set :: "'k \<Rightarrow> 'v \<Rightarrow> ('k, 'v) dict \<Rightarrow> ('k, 'v) dict" where
  "dict_set k v d = AList.update k v d"

definition dict_pop :: "'k \<Rightarrow> ('k, 'v) dict \<Rightarrow> ('k, 'v) dict" where
  "dict_pop k d = filter (\<lambda>p. fst p \<noteq> k) d"

definition dict_setdefault :: "'k \<Rightarrow> 'v \<Rightarrow> ('k, 'v) dict \<Rightarrow> ('k, 'v) dict" where
  "dict_setdefault k v d = (case dict_get d k of None \<Rightarrow> dict_set k v d | Some _ \<Rightarrow> d)"

definition dict_update :: "('k, 'v) dict \<Rightarrow> ('k, 'v) dict \<Rightarrow> ('k, 'v) dict" where
  "dict_update d e = fold (\<lambda>(k, v). dict_set k v) e d"

definition dict_keys :: "('k, 'v) dict \<Rightarrow> 'k set" where
  "dict_keys d = fst ` set d"

definition dict_ok :: "('k, 'v) dict \<Rightarrow> bool" where
  "dict_ok d \<longleftrightarrow> distinct (map fst d)"

definition dict_get_or :: "('k, 'v) dict \<Rightarrow> 'k \<Rightarrow> 'v \<Rightarrow> 'v" where
  "dict_get_or d k v = (case dict_get d k of None \<Rightarrow> v | Some w \<Rightarrow> w)"

lemma dict_get_set [simp, dict_simps]:
  "dict_get (dict_set k v d) k' = (if k' = k then Some v else dict_get d k')"
  by (simp add: dict_set_def AList.update_conv')

lemma dict_get_pop [simp, dict_simps]:
  "dict_get (dict_pop k d) k' = (if k' = k then None else dict_get d k')"
  by (induction d) (auto simp: dict_pop_def)

lemma dict_get_setdefault [simp, dict_simps]:
  "dict_get (dict_setdefault k v d) k' =
     (if k' = k then Some (dict_get_or d k v) else dict_get d k')"
  by (auto simp: dict_setdefault_def dict_get_or_def split: option.splits)

lemma dict_keys_Nil [simp]: "dict_keys [] = {}"
  by (simp add: dict_keys_def)

lemma dict_keys_Cons [simp]: "dict_keys (p # d) = insert (fst p) (dict_keys d)"
  by (simp add: dict_keys_def)

lemma dict_keys_append [simp]: "dict_keys (d @ e) = dict_keys d \<union> dict_keys e"
  by (simp add: dict_keys_def image_Un)

lemma dict_keys_finite [simp]: "finite (dict_keys d)"
  by (simp add: dict_keys_def)

lemma dict_get_None: "dict_get d k = None \<longleftrightarrow> k \<notin> dict_keys d"
  by (simp add: dict_keys_def map_of_eq_None_iff)

lemma dict_keys_get: "k \<in> dict_keys d \<longleftrightarrow> (\<exists>v. dict_get d k = Some v)"
  by (metis dict_get_None not_None_eq)

lemma dict_keys_SomeI: "dict_get d k = Some v \<Longrightarrow> k \<in> dict_keys d"
  by (auto simp: dict_keys_get)

lemma dict_keys_set [simp, dict_simps]: "dict_keys (dict_set k v d) = insert k (dict_keys d)"
  by (simp add: dict_set_def dict_keys_def AList.dom_update)

lemma dict_keys_pop [simp, dict_simps]: "dict_keys (dict_pop k d) = dict_keys d - {k}"
  by (auto simp: dict_pop_def dict_keys_def)

lemma dict_keys_setdefault [simp, dict_simps]:
  "dict_keys (dict_setdefault k v d) = insert k (dict_keys d)"
proof (cases "dict_get d k")
  case None
  then show ?thesis by (simp add: dict_setdefault_def)
next
  case (Some w)
  then have "k \<in> dict_keys d" by (auto simp: dict_keys_get)
  with Some show ?thesis by (simp add: dict_setdefault_def insert_absorb)
qed

lemma dict_ok_Nil [simp]: "dict_ok []"
  by (simp add: dict_ok_def)

lemma dict_ok_set [simp]: "dict_ok d \<Longrightarrow> dict_ok (dict_set k v d)"
  by (simp add: dict_ok_def dict_set_def AList.distinct_update)

lemma dict_ok_pop [simp]: "dict_ok d \<Longrightarrow> dict_ok (dict_pop k d)"
  by (simp add: dict_ok_def dict_pop_def distinct_map_filter)

lemma dict_ok_setdefault [simp]: "dict_ok d \<Longrightarrow> dict_ok (dict_setdefault k v d)"
  by (simp add: dict_setdefault_def split: option.splits)

lemma dict_ok_update [simp]: "dict_ok d \<Longrightarrow> dict_ok (dict_update d e)"
  unfolding dict_update_def by (induction e arbitrary: d) auto

lemma dict_keys_update [simp]: "dict_keys (dict_update d e) = dict_keys d \<union> dict_keys e"
  unfolding dict_update_def by (induction e arbitrary: d) auto

lemma dict_get_in_set: "dict_ok d \<Longrightarrow> dict_get d k = Some v \<longleftrightarrow> (k, v) \<in> set d"
  by (simp add: dict_ok_def)

lemma dict_length_card: "dict_ok d \<Longrightarrow> length d = card (dict_keys d)"
  by (metis dict_keys_def dict_ok_def distinct_card length_map set_map)

lemma dict_pop_absent [simp]: "k \<notin> dict_keys d \<Longrightarrow> dict_pop k d = d"
  by (induction d) (auto simp: dict_pop_def)

lemma dict_length_pop: "length (dict_pop k d) \<le> length d"
  by (simp add: dict_pop_def)

lemma dict_length_set:
  "length (dict_set k v d) = (if k \<in> dict_keys d then length d else Suc (length d))"
  by (induction d) (auto simp: dict_set_def)

lemma dict_get_update_absent: "k \<notin> dict_keys e \<Longrightarrow> dict_get (dict_update d e) k = dict_get d k"
  unfolding dict_update_def by (induction e arbitrary: d) auto

lemma dict_get_update:
  "dict_ok e \<Longrightarrow> dict_get (dict_update d e) k = (case dict_get e k of None \<Rightarrow> dict_get d k | Some v \<Rightarrow> Some v)"
proof (induction e arbitrary: d)
  case Nil
  show ?case by (simp add: dict_update_def)
next
  case (Cons p e)
  obtain a b where p: "p = (a, b)" by (cases p)
  have "dict_update d (p # e) = dict_update (dict_set a b d) e"
    by (simp add: dict_update_def p)
  moreover have "dict_ok e" and a: "a \<notin> dict_keys e"
    using Cons.prems by (auto simp: dict_ok_def dict_keys_def p)
  moreover from a have "dict_get e a = None"
    by (simp add: dict_get_None)
  ultimately show ?case
    by (simp add: Cons.IH p split: option.splits)
qed

section \<open>Sets kept in insertion order\<close>

definition set_add :: "'a \<Rightarrow> 'a list \<Rightarrow> 'a list" where
  "set_add x xs = (if x \<in> set xs then xs else xs @ [x])"

definition set_discard :: "'a \<Rightarrow> 'a list \<Rightarrow> 'a list" where
  "set_discard x xs = filter (\<lambda>y. y \<noteq> x) xs"

lemma set_set_add [simp]: "set (set_add x xs) = insert x (set xs)"
  by (auto simp: set_add_def)

lemma set_set_discard [simp]: "set (set_discard x xs) = set xs - {x}"
  by (auto simp: set_discard_def)

lemma distinct_set_add [simp]: "distinct xs \<Longrightarrow> distinct (set_add x xs)"
  by (simp add: set_add_def)

lemma distinct_set_discard [simp]: "distinct xs \<Longrightarrow> distinct (set_discard x xs)"
  by (simp add: set_discard_def)

lemma set_add_not_Nil [simp]: "set_add x xs \<noteq> []"
  by (simp add: set_add_def) auto

lemma set_discard_absent [simp]: "x \<notin> set xs \<Longrightarrow> set_discard x xs = xs"
  by (auto simp: set_discard_def filter_id_conv)

lemma set_discard_Nil_iff: "set_discard x xs = [] \<longleftrightarrow> set xs \<subseteq> {x}"
  by (auto simp: set_discard_def filter_empty_conv)

text \<open>Dictionary equality as functions, for updates that commute with each other.\<close>

lemma dict_get_or_set [simp]: "dict_get_or (dict_set k v d) k' w = (if k' = k then v else dict_get_or d k' w)"
  by (simp add: dict_get_or_def)

lemma dict_get_or_pop [simp]: "dict_get_or (dict_pop k d) k' w = (if k' = k then w else dict_get_or d k' w)"
  by (simp add: dict_get_or_def)

lemma dict_get_or_Nil [simp]: "dict_get_or [] k w = w"
  by (simp add: dict_get_or_def)

lemma dict_get_or_Some: "dict_get d k = Some v \<Longrightarrow> dict_get_or d k w = v"
  by (simp add: dict_get_or_def)

lemma dict_get_or_None: "dict_get d k = None \<Longrightarrow> dict_get_or d k w = w"
  by (simp add: dict_get_or_def)

section \<open>Claims\<close>

text \<open>Registering keys one by one, where a key that is taken already is an error.\<close>

definition claim :: "('k \<Rightarrow> 'v \<Rightarrow> 'e) \<Rightarrow> 'k \<times> 'v \<Rightarrow> ('k, 'v) dict \<Rightarrow> 'e + ('k, 'v) dict" where
  "claim err = (\<lambda>(k, v) d. case dict_get d k of None \<Rightarrow> Inr (dict_set k v d) | Some p \<Rightarrow> Inl (err k p))"

lemma claim_all:
  "(\<exists>d'. efold (claim err) kvs d = Inr d') \<longleftrightarrow>
     distinct (map fst kvs) \<and> fst ` set kvs \<inter> dict_keys d = {}"
proof (induction kvs arbitrary: d)
  case (Cons kv kvs)
  obtain k v where kv: "kv = (k, v)" by (cases kv)
  show ?case
  proof (cases "dict_get d k")
    case None
    then have "k \<notin> dict_keys d" by (simp add: dict_get_None)
    with None Cons.IH [of "dict_set k v d"] show ?thesis
      by (auto simp: kv claim_def)
  next
    case (Some p)
    then show ?thesis by (auto simp: kv claim_def dict_keys_SomeI)
  qed
qed simp

section \<open>State machines\<close>

text \<open>
  What every component that changes state in steps promises: an invariant that holds at the start and
  that each step keeps. The consequence, that it holds after any sequence of steps, is proved once.
\<close>

locale state_machine =
  fixes start :: "'s \<Rightarrow> bool" and step :: "'s \<Rightarrow> 's \<Rightarrow> bool" and inv :: "'s \<Rightarrow> bool"
  assumes start_inv: "start s \<Longrightarrow> inv s"
    and step_inv: "inv s \<Longrightarrow> step s t \<Longrightarrow> inv t"
begin

lemma steps_inv: "step\<^sup>*\<^sup>* s t \<Longrightarrow> inv s \<Longrightarrow> inv t"
  by (induction rule: rtranclp_induct) (auto intro: step_inv)

lemma run_inv: "start s \<Longrightarrow> step\<^sup>*\<^sup>* s t \<Longrightarrow> inv t"
  using start_inv steps_inv by blast

lemma run_inv_always: "start s \<Longrightarrow> step\<^sup>*\<^sup>* s t \<Longrightarrow> step\<^sup>*\<^sup>* t u \<Longrightarrow> inv t \<and> inv u"
  using run_inv by (meson rtranclp_trans)

end

end
