(* ===== verification/Py_Text.thy ===== *)
theory Py_Text
  imports Prelude
begin

text \<open>
  Python text and sequences: slices, indexing that raises, and the \<open>str\<close> methods the code calls
  (\<open>strip\<close>, \<open>rstrip\<close>, \<open>casefold\<close>, \<open>split\<close>, \<open>splitlines\<close>, \<open>join\<close>, \<open>startswith\<close>, \<open>in\<close>), and
  decimal and hexadecimal numerals. Text is ASCII.
\<close>

section \<open>Slices and indexing\<close>

text \<open>\<open>xs[a:b]\<close> for non-negative bounds; out of range it is clipped, as in Python.\<close>

definition slice :: "nat \<Rightarrow> nat \<Rightarrow> 'a list \<Rightarrow> 'a list" where
  "slice a b xs = take (b - a) (drop a xs)"

text \<open>\<open>xs[a:b] = ys\<close> on a mutable sequence.\<close>

definition assign_slice :: "nat \<Rightarrow> nat \<Rightarrow> 'a list \<Rightarrow> 'a list \<Rightarrow> 'a list" where
  "assign_slice a b ys xs = take a xs @ ys @ drop b xs"

text \<open>\<open>xs[i]\<close>, which raises out of range.\<close>

definition py_nth :: "'e \<Rightarrow> 'a list \<Rightarrow> nat \<Rightarrow> 'e + 'a" where
  "py_nth e xs i = (if i < length xs then Inr (xs ! i) else Inl e)"

lemma py_nth_Inr [simp]: "py_nth e xs i = Inr x \<longleftrightarrow> i < length xs \<and> xs ! i = x"
  by (auto simp: py_nth_def)

lemma py_nth_Inl [simp]: "py_nth e xs i = Inl e' \<longleftrightarrow> length xs \<le> i \<and> e' = e"
  by (auto simp: py_nth_def)

lemma py_nth_ok [simp]: "i < length xs \<Longrightarrow> py_nth e xs i = Inr (xs ! i)"
  by (simp add: py_nth_def)

lemma py_nth_append [simp]: "py_nth e (xs @ y # ys) (length xs) = Inr y"
  by (simp add: py_nth_def)

lemma slice_length [simp]: "length (slice a b xs) = min (b - a) (length xs - a)"
  by (simp add: slice_def min_def)

lemma slice_append: "slice (length xs) (length xs + length ys) (xs @ ys @ zs) = ys"
  by (simp add: slice_def)

lemma slice_append': "a = length xs \<Longrightarrow> b = a + length ys \<Longrightarrow> slice a b (xs @ ys @ zs) = ys"
  by (simp add: slice_def)

lemma slice_0 [simp]: "slice 0 b xs = take b xs"
  by (simp add: slice_def)

section \<open>Character classes\<close>

definition char_nat :: "char \<Rightarrow> nat" where
  "char_nat c = of_char c"

definition is_upper :: "char \<Rightarrow> bool" where
  "is_upper c \<longleftrightarrow> 65 \<le> char_nat c \<and> char_nat c \<le> 90"

definition is_lower :: "char \<Rightarrow> bool" where
  "is_lower c \<longleftrightarrow> 97 \<le> char_nat c \<and> char_nat c \<le> 122"

definition is_digit :: "char \<Rightarrow> bool" where
  "is_digit c \<longleftrightarrow> 48 \<le> char_nat c \<and> char_nat c \<le> 57"

definition is_alnum :: "char \<Rightarrow> bool" where
  "is_alnum c \<longleftrightarrow> is_upper c \<or> is_lower c \<or> is_digit c"

text \<open>\<open>str.isspace\<close> on ASCII: tab to carriage return, the four separators, and blank.\<close>

definition is_space :: "char \<Rightarrow> bool" where
  "is_space c \<longleftrightarrow> (9 \<le> char_nat c \<and> char_nat c \<le> 13) \<or> (28 \<le> char_nat c \<and> char_nat c \<le> 32)"

definition lower_char :: "char \<Rightarrow> char" where
  "lower_char c = (if is_upper c then char_of (char_nat c + 32) else c)"

definition upper_char :: "char \<Rightarrow> char" where
  "upper_char c = (if is_lower c then char_of (char_nat c - 32) else c)"

definition casefold :: "string \<Rightarrow> string" where
  "casefold s = map lower_char s"

definition upper :: "string \<Rightarrow> string" where
  "upper s = map upper_char s"

lemma char_nat_less [simp]: "char_nat c < 256"
  by (simp add: char_nat_def)

lemma char_nat_of [simp]: "n < 256 \<Longrightarrow> char_nat (char_of n) = n"
  by (simp add: char_nat_def of_char_of)

lemma char_nat_inj [simp]: "char_nat c = char_nat d \<longleftrightarrow> c = d"
  by (simp add: char_nat_def)

lemma lower_char_not_upper [simp]: "\<not> is_upper (lower_char c)"
  by (auto simp: lower_char_def is_upper_def)

lemma lower_char_id [simp]: "\<not> is_upper c \<Longrightarrow> lower_char c = c"
  by (simp add: lower_char_def)

lemma lower_char_space [simp]: "is_space (lower_char c) \<longleftrightarrow> is_space c"
  by (auto simp: lower_char_def is_upper_def is_space_def)

lemma lower_char_alnum [simp]: "is_alnum (lower_char c) \<longleftrightarrow> is_alnum c"
  by (auto simp: lower_char_def is_upper_def is_alnum_def is_lower_def is_digit_def)

lemma lower_char_eq_iff:
  "\<not> is_upper d \<Longrightarrow> \<not> is_lower d \<Longrightarrow> lower_char c = d \<longleftrightarrow> c = d"
  by (auto simp: lower_char_def is_upper_def is_lower_def)

lemma casefold_idem [simp]: "casefold (casefold s) = casefold s"
  by (simp add: casefold_def)

lemma casefold_append [simp]: "casefold (s @ t) = casefold s @ casefold t"
  by (simp add: casefold_def)

lemma casefold_Nil_iff [simp]: "casefold s = [] \<longleftrightarrow> s = []"
  by (simp add: casefold_def)

lemma casefold_id: "(\<forall>c\<in>set s. \<not> is_upper c) \<Longrightarrow> casefold s = s"
  by (simp add: casefold_def map_idI)

lemma casefold_not_upper: "c \<in> set (casefold s) \<Longrightarrow> \<not> is_upper c"
  by (auto simp: casefold_def)

lemma length_casefold [simp]: "length (casefold s) = length s"
  by (simp add: casefold_def)

section \<open>Stripping\<close>

definition lstrip_by :: "(char \<Rightarrow> bool) \<Rightarrow> string \<Rightarrow> string" where
  "lstrip_by p s = dropWhile p s"

definition rstrip_by :: "(char \<Rightarrow> bool) \<Rightarrow> string \<Rightarrow> string" where
  "rstrip_by p s = rev (dropWhile p (rev s))"

definition strip_by :: "(char \<Rightarrow> bool) \<Rightarrow> string \<Rightarrow> string" where
  "strip_by p s = rstrip_by p (lstrip_by p s)"

definition strip :: "string \<Rightarrow> string" where
  "strip s = strip_by is_space s"

definition rstrip_dot :: "string \<Rightarrow> string" where
  "rstrip_dot s = rstrip_by (\<lambda>c. c = CHR ''.'') s"

lemma rstrip_by_last: "rstrip_by p s \<noteq> [] \<Longrightarrow> \<not> p (last (rstrip_by p s))"
  by (simp add: rstrip_by_def last_rev hd_dropWhile)

lemma rstrip_by_id: "s = [] \<or> \<not> p (last s) \<Longrightarrow> rstrip_by p s = s"
  by (cases s rule: rev_cases) (auto simp: rstrip_by_def)

lemma rstrip_by_idem [simp]: "rstrip_by p (rstrip_by p s) = rstrip_by p s"
  by (metis rstrip_by_id rstrip_by_last)

lemma rstrip_by_prefix: "\<exists>t. s = rstrip_by p s @ t \<and> (\<forall>c\<in>set t. p c)"
proof -
  have "s = rev (dropWhile p (rev s)) @ rev (takeWhile p (rev s))"
    by (metis rev_append rev_rev_ident takeWhile_dropWhile_id)
  then show ?thesis
    unfolding rstrip_by_def by (metis set_rev set_takeWhileD)
qed

lemma set_rstrip_by: "set (rstrip_by p s) \<subseteq> set s"
  unfolding rstrip_by_def by (metis set_dropWhileD set_rev subsetI)

lemma lstrip_by_id: "s = [] \<or> \<not> p (hd s) \<Longrightarrow> lstrip_by p s = s"
  by (cases s) (auto simp: lstrip_by_def)

lemma hd_rstrip_by: "rstrip_by p s \<noteq> [] \<Longrightarrow> hd (rstrip_by p s) = hd s"
  by (metis rstrip_by_prefix hd_append2)

lemma strip_by_hd: "strip_by p s \<noteq> [] \<Longrightarrow> \<not> p (hd (strip_by p s))"
  unfolding strip_by_def
  by (metis hd_rstrip_by lstrip_by_def hd_dropWhile rstrip_by_def dropWhile.simps(1) rev.simps(1))

lemma strip_by_last: "strip_by p s \<noteq> [] \<Longrightarrow> \<not> p (last (strip_by p s))"
  unfolding strip_by_def by (rule rstrip_by_last)

lemma strip_by_id: "s = [] \<or> \<not> p (hd s) \<and> \<not> p (last s) \<Longrightarrow> strip_by p s = s"
  unfolding strip_by_def by (auto simp: lstrip_by_id rstrip_by_id)

lemma strip_by_idem [simp]: "strip_by p (strip_by p s) = strip_by p s"
  by (metis strip_by_hd strip_by_id strip_by_last)

lemma strip_idem [simp]: "strip (strip s) = strip s"
  by (simp add: strip_def)

lemma set_strip: "set (strip s) \<subseteq> set s"
  unfolding strip_def strip_by_def lstrip_by_def
  by (meson set_dropWhileD set_rstrip_by subset_iff)

lemma strip_id: "s = [] \<or> \<not> is_space (hd s) \<and> \<not> is_space (last s) \<Longrightarrow> strip s = s"
  by (simp add: strip_def strip_by_id)

lemma casefold_dropWhile:
  "(\<And>c. p (lower_char c) = p c) \<Longrightarrow> casefold (dropWhile p s) = dropWhile p (casefold s)"
  by (induction s) (auto simp: casefold_def)

lemma casefold_rev: "casefold (rev s) = rev (casefold s)"
  by (simp add: casefold_def rev_map)

lemma casefold_rstrip_by:
  "(\<And>c. p (lower_char c) = p c) \<Longrightarrow> casefold (rstrip_by p s) = rstrip_by p (casefold s)"
  by (simp add: rstrip_by_def casefold_rev casefold_dropWhile)

lemma casefold_strip [simp]: "casefold (strip s) = strip (casefold s)"
  by (simp add: strip_def strip_by_def lstrip_by_def casefold_rstrip_by casefold_dropWhile)

lemma dot_lower_char [simp]: "lower_char c = CHR ''.'' \<longleftrightarrow> c = CHR ''.''"
  by (rule lower_char_eq_iff) (simp_all add: is_upper_def is_lower_def char_nat_def)

lemma casefold_rstrip_dot [simp]: "casefold (rstrip_dot s) = rstrip_dot (casefold s)"
  by (simp add: rstrip_dot_def casefold_rstrip_by)

lemma rstrip_dot_idem [simp]: "rstrip_dot (rstrip_dot s) = rstrip_dot s"
  by (simp add: rstrip_dot_def)

lemma rstrip_dot_last: "rstrip_dot s \<noteq> [] \<Longrightarrow> last (rstrip_dot s) \<noteq> CHR ''.''"
  unfolding rstrip_dot_def by (rule rstrip_by_last)

section \<open>Searching, splitting and joining\<close>

definition startswith :: "'a list \<Rightarrow> 'a list \<Rightarrow> bool" where
  "startswith p s \<longleftrightarrow> take (length p) s = p"

definition endswith :: "'a list \<Rightarrow> 'a list \<Rightarrow> bool" where
  "endswith p s \<longleftrightarrow> startswith (rev p) (rev s)"

text \<open>\<open>p in s\<close> for strings.\<close>

fun contains :: "'a list \<Rightarrow> 'a list \<Rightarrow> bool" where
  "contains p [] \<longleftrightarrow> p = []"
| "contains p (c # s) \<longleftrightarrow> startswith p (c # s) \<or> contains p s"

fun split_on :: "'a \<Rightarrow> 'a list \<Rightarrow> 'a list list" where
  "split_on d [] = [[]]"
| "split_on d (c # s) =
     (if c = d then [] # split_on d s
      else case split_on d s of [] \<Rightarrow> [[c]] | w # ws \<Rightarrow> (c # w) # ws)"

fun join :: "'a list \<Rightarrow> 'a list list \<Rightarrow> 'a list" where
  "join sep [] = []"
| "join sep [w] = w"
| "join sep (w # v # ws) = w @ sep @ join sep (v # ws)"

text \<open>\<open>s.split()\<close>: the words between runs of white space.\<close>

definition words_of :: "string \<Rightarrow> string list" where
  "words_of s = filter (\<lambda>w. w \<noteq> []) (split_on CHR '' '' (map (\<lambda>c. if is_space c then CHR '' '' else c) s))"

definition is_line_break :: "char \<Rightarrow> bool" where
  "is_line_break c \<longleftrightarrow> (10 \<le> char_nat c \<and> char_nat c \<le> 13) \<or> (28 \<le> char_nat c \<and> char_nat c \<le> 30)"

definition newline :: string where
  "newline = [CHR 0x0A]"

lemma startswith_append [simp]: "startswith p (p @ s)"
  by (simp add: startswith_def)

lemma startswith_iff: "startswith p s \<longleftrightarrow> (\<exists>t. s = p @ t)"
  by (metis append_take_drop_id startswith_def append_eq_conv_conj)

lemma startswith_Nil [simp]: "startswith [] s"
  by (simp add: startswith_def)

lemma endswith_iff: "endswith p s \<longleftrightarrow> (\<exists>t. s = t @ p)"
  by (metis endswith_def rev_append rev_rev_ident startswith_iff)

lemma contains_iff: "contains p s \<longleftrightarrow> (\<exists>u v. s = u @ p @ v)"
proof (induction s)
  case Nil
  then show ?case by simp
next
  case (Cons c s)
  have "(\<exists>u v. c # s = u @ p @ v) \<longleftrightarrow> startswith p (c # s) \<or> (\<exists>u v. s = u @ p @ v)"
    by (auto simp: startswith_iff Cons_eq_append_conv)
  then show ?case using Cons.IH by simp
qed

lemma contains_single [simp]: "contains [c] s \<longleftrightarrow> c \<in> set s"
  by (induction s) (auto simp: startswith_def)

lemma split_on_not_Nil [simp]: "split_on d s \<noteq> []"
  by (induction s) (auto split: list.splits)

lemma split_on_no_sep: "w \<in> set (split_on d s) \<Longrightarrow> d \<notin> set w"
  by (induction s arbitrary: w) (fastforce split: if_splits list.splits)+

lemma split_on_set: "w \<in> set (split_on d s) \<Longrightarrow> set w \<subseteq> set s"
  by (induction s arbitrary: w) (fastforce split: if_splits list.splits)+

lemma split_on_absent: "d \<notin> set s \<Longrightarrow> split_on d s = [s]"
  by (induction s) auto

lemma split_on_append: "d \<notin> set w \<Longrightarrow> split_on d (w @ d # s) = w # split_on d s"
  by (induction w) auto

lemma join_split_on: "join [d] (split_on d s) = s"
proof (induction s)
  case (Cons c s)
  then show ?case
    by (cases "split_on d s" rule: list.exhaust; cases "tl (split_on d s)") auto
qed simp

lemma split_on_join: "ws \<noteq> [] \<Longrightarrow> \<forall>w\<in>set ws. d \<notin> set w \<Longrightarrow> split_on d (join [d] ws) = ws"
  by (induction "[d]" ws rule: join.induct) (auto simp: split_on_absent split_on_append)

section \<open>Numerals\<close>

definition digit_char :: "nat \<Rightarrow> char" where
  "digit_char n = char_of (if n < 10 then 48 + n else 87 + n)"

fun nat_str :: "nat \<Rightarrow> string" where
  "nat_str n = (if n < 10 then [digit_char n] else nat_str (n div 10) @ [digit_char (n mod 10)])"

declare nat_str.simps [simp del]

definition int_str :: "int \<Rightarrow> string" where
  "int_str i = (if i < 0 then CHR ''-'' # nat_str (nat (- i)) else nat_str (nat i))"

fun hex_digits :: "nat \<Rightarrow> nat \<Rightarrow> string" where
  "hex_digits 0 n = []"
| "hex_digits (Suc w) n = hex_digits w (n div 16) @ [digit_char (n mod 16)]"

definition digit_val :: "char \<Rightarrow> nat" where
  "digit_val c = char_nat c - 48"

definition digits_val :: "string \<Rightarrow> nat" where
  "digits_val s = foldl (\<lambda>v c. 10 * v + digit_val c) 0 s"

text \<open>\<open>int(s)\<close> for text: surrounding blanks, a sign, digits with single underscores between them.\<close>

fun underscores_ok :: "string \<Rightarrow> bool" where
  "underscores_ok [] \<longleftrightarrow> False"
| "underscores_ok [c] \<longleftrightarrow> is_digit c"
| "underscores_ok (c # d # s) \<longleftrightarrow> is_digit c \<and>
     (if d = CHR ''_'' then underscores_ok s else underscores_ok (d # s))"

definition parse_nat :: "string \<Rightarrow> nat option" where
  "parse_nat s = (if underscores_ok s then Some (digits_val (filter is_digit s)) else None)"

definition parse_int :: "string \<Rightarrow> int option" where
  "parse_int s = (case strip s of
      [] \<Rightarrow> None
    | c # t \<Rightarrow> if c = CHR ''-'' then map_option (\<lambda>n. - int n) (parse_nat t)
               else if c = CHR ''+'' then map_option int (parse_nat t)
               else map_option int (parse_nat (c # t)))"

lemma digit_char_digit [simp]: "n < 10 \<Longrightarrow> is_digit (digit_char n)"
  by (simp add: is_digit_def digit_char_def)

lemma digit_val_char [simp]: "n < 10 \<Longrightarrow> digit_val (digit_char n) = n"
  by (simp add: digit_val_def digit_char_def)

lemma nat_str_not_Nil [simp]: "nat_str n \<noteq> []"
  by (subst nat_str.simps) simp

lemma nat_str_digits: "c \<in> set (nat_str n) \<Longrightarrow> is_digit c"
proof (induction n rule: nat_str.induct)
  case (1 n)
  then show ?case by (subst (asm) (2) nat_str.simps) (auto split: if_splits)
qed

lemma is_digit_not_space: "is_digit c \<Longrightarrow> \<not> is_space c"
  by (simp add: is_digit_def is_space_def)

lemma nat_str_hd_last: "\<not> is_space (hd (nat_str n))" "\<not> is_space (last (nat_str n))"
  by (meson hd_in_set is_digit_not_space last_in_set nat_str_digits nat_str_not_Nil)+

lemma digits_val_snoc: "digits_val (s @ [c]) = 10 * digits_val s + digit_val c"
  by (simp add: digits_val_def)

lemma digits_val_nat_str [simp]: "digits_val (nat_str n) = n"
proof (induction n rule: nat_str.induct)
  case (1 n)
  then show ?case
    by (subst nat_str.simps) (auto simp: digits_val_snoc, simp add: digits_val_def)
qed

lemma underscores_ok_digits: "s \<noteq> [] \<Longrightarrow> \<forall>c\<in>set s. is_digit c \<Longrightarrow> underscores_ok s"
  by (induction s rule: underscores_ok.induct) (auto simp: is_digit_def char_nat_def)

lemma parse_nat_str [simp]: "parse_nat (nat_str n) = Some n"
proof -
  have "filter is_digit (nat_str n) = nat_str n"
    using nat_str_digits by (simp add: filter_id_conv)
  then show ?thesis
    by (simp add: parse_nat_def underscores_ok_digits nat_str_digits)
qed

lemma strip_int_str [simp]: "strip (int_str i) = int_str i"
proof (rule strip_id, rule disjI2, rule conjI)
  have m: "\<not> is_space CHR ''-''" by (simp add: is_space_def char_nat_def)
  show "\<not> is_space (hd (int_str i))"
    using m by (simp add: int_str_def nat_str_hd_last)
  show "\<not> is_space (last (int_str i))"
    by (simp add: int_str_def nat_str_hd_last)
qed

lemma parse_int_str [simp]: "parse_int (int_str i) = Some i"
proof (cases "i < 0")
  case True
  then have "strip (CHR ''-'' # nat_str (nat (- i))) = CHR ''-'' # nat_str (nat (- i))"
    using strip_int_str [of i] by (simp add: int_str_def)
  with True show ?thesis by (simp add: parse_int_def int_str_def)
next
  case False
  obtain c t where ct: "nat_str (nat i) = c # t" by (metis nat_str_not_Nil neq_Nil_conv)
  then have "is_digit c" using nat_str_digits [of c "nat i"] by simp
  then have "c \<noteq> CHR ''-''" "c \<noteq> CHR ''+''" by (auto simp: is_digit_def char_nat_def)
  moreover have "strip (nat_str (nat i)) = nat_str (nat i)"
    using strip_int_str [of i] False by (simp add: int_str_def)
  moreover have "parse_nat (c # t) = Some (nat i)" using parse_nat_str [of "nat i"] ct by simp
  ultimately show ?thesis using False by (simp add: parse_int_def int_str_def ct)
qed

lemma int_str_inj [simp]: "int_str i = int_str j \<longleftrightarrow> i = j"
  by (metis option.inject parse_int_str)

lemma slash_int: "CHR ''/'' \<notin> set (int_str i)"
proof -
  have "\<not> is_digit CHR ''/''" by code_simp
  then show ?thesis using nat_str_digits by (auto simp: int_str_def)
qed

section \<open>Lines\<close>

text \<open>\<open>splitlines()\<close>: a carriage return and line feed together end one line, and a break at the end of the
  text starts no further line.\<close>

fun split_lines :: "string \<Rightarrow> string list" where
  "split_lines [] = []"
| "split_lines (c # s) =
     (if is_line_break c
      then [] # split_lines (if c = CHR 0x0D \<and> s \<noteq> [] \<and> hd s = CHR 0x0A then tl s else s)
      else case split_lines s of [] \<Rightarrow> [[c]]
           | w # ws \<Rightarrow> (c # w) # ws)"

definition rstrip :: "string \<Rightarrow> string" where
  "rstrip s = rstrip_by is_space s"

text \<open>\<open>s.replace(old, new)\<close> for one character.\<close>

definition replace_char :: "char \<Rightarrow> string \<Rightarrow> string \<Rightarrow> string" where
  "replace_char old new s = concat (map (\<lambda>c. if c = old then new else [c]) s)"

definition dquote :: string where
  "dquote = [CHR 0x22]"

definition backslash :: string where
  "backslash = [CHR 0x5C]"

end
