(* ===== verification/Quic_Wire.thy ===== *)
theory Quic_Wire
  imports Py_Text
begin

text \<open>
  The wire-format half of \<open>runtime/quic_router.py\<close>: variable-length integers, the HKDF labels of
  the public Initial keys, removal of header protection and decryption of an Initial packet,
  connection IDs, CRYPTO frames, reassembly of the handshake stream and the ClientHello parser.
  HMAC-SHA256, AES-ECB and AES-GCM are third-party code and are fields of a record that every
  function which uses them takes as an argument. Bytes are 8-bit words, non-negative Python
  integers natural numbers, and every exception is a value of \<open>quic_error\<close>.
\<close>

type_synonym byte = "8 word"
type_synonym bytes = "byte list"

datatype quic_error = Quic_Parse string | Index_Error | Unicode_Error | Overflow_Error | Value_Error

record quic_crypto =
  hmac_sha256 :: "bytes \<Rightarrow> bytes \<Rightarrow> bytes"
  aes_ecb :: "bytes \<Rightarrow> bytes \<Rightarrow> bytes"
  gcm_decrypt :: "bytes \<Rightarrow> bytes \<Rightarrow> bytes \<Rightarrow> bytes \<Rightarrow> bytes option"

section \<open>Big-endian integers and text\<close>

definition from_bytes :: "bytes \<Rightarrow> nat" where
  "from_bytes bs = foldl (\<lambda>v b. v * 256 + unat b) 0 bs"

fun be_bytes :: "nat \<Rightarrow> nat \<Rightarrow> bytes" where
  "be_bytes 0 v = []"
| "be_bytes (Suc n) v = be_bytes n (v div 256) @ [of_nat v]"

definition to_bytes :: "nat \<Rightarrow> nat \<Rightarrow> quic_error + bytes" where
  "to_bytes n v = (if v < 256 ^ n then Inr (be_bytes n v) else Inl Overflow_Error)"

definition byte_of :: "nat \<Rightarrow> quic_error + byte" where
  "byte_of n = (if n < 256 then Inr (of_nat n) else Inl Value_Error)"

definition encode_ascii :: "string \<Rightarrow> bytes" where
  "encode_ascii s = map (\<lambda>c. of_nat (char_nat c)) s"

definition decode_ascii :: "bytes \<Rightarrow> quic_error + string" where
  "decode_ascii bs =
     (if \<forall>b\<in>set bs. unat b < 128 then Inr (map (\<lambda>b. char_of (unat b)) bs) else Inl Unicode_Error)"

section \<open>Variable-length integers\<close>

definition varint :: "bytes \<Rightarrow> nat \<Rightarrow> quic_error + nat \<times> nat" where
  "varint data offset =
     (if length data \<le> offset then Inl (Quic_Parse ''truncated QUIC varint'')
      else let size = push_bit (drop_bit 6 (unat (data ! offset))) 1 in
        if length data < offset + size then Inl (Quic_Parse ''truncated QUIC varint'')
        else Inr (foldl (\<lambda>v b. push_bit 8 v OR unat b) (unat (data ! offset) AND 0x3F)
                    (slice (offset + 1) (offset + size) data),
                  offset + size))"

section \<open>Initial keys\<close>

function hkdf_loop ::
  "(bytes \<Rightarrow> bytes \<Rightarrow> bytes) \<Rightarrow> bytes \<Rightarrow> bytes \<Rightarrow> nat \<Rightarrow> bytes \<Rightarrow> bytes \<Rightarrow> nat \<Rightarrow> quic_error + bytes"
where
  "hkdf_loop hmac secret info len output block counter =
     (if length output < len then
        (if counter < 256 then
           let block' = hmac secret (block @ info @ [of_nat counter])
           in hkdf_loop hmac secret info len (output @ block') block' (counter + 1)
         else Inl Value_Error)
      else Inr (take len output))"
  by auto
termination
  by (relation "measure (\<lambda>(hmac, secret, info, len, output, block, counter). 256 - counter)") auto

declare hkdf_loop.simps [simp del]

definition hkdf_expand ::
  "(bytes \<Rightarrow> bytes \<Rightarrow> bytes) \<Rightarrow> bytes \<Rightarrow> bytes \<Rightarrow> nat \<Rightarrow> quic_error + bytes" where
  "hkdf_expand hmac secret info len = hkdf_loop hmac secret info len [] [] 1"

definition hkdf_label ::
  "(bytes \<Rightarrow> bytes \<Rightarrow> bytes) \<Rightarrow> bytes \<Rightarrow> string \<Rightarrow> nat \<Rightarrow> quic_error + bytes" where
  "hkdf_label hmac secret label len =
     (let encoded = encode_ascii (''tls13 '' @ label) in
      ebind (to_bytes 2 len) (\<lambda>l.
      ebind (byte_of (length encoded)) (\<lambda>n.
        hkdf_expand hmac secret (l @ [n] @ encoded @ [0]) len)))"

definition quic_v1 :: nat where "quic_v1 = 0x00000001"

definition quic_v2 :: nat where "quic_v2 = 0x6B3343CF"

definition salts :: "(nat, bytes) dict" where
  "salts =
     [(quic_v1, be_bytes 20 0x38762cf7f55934b34d179ae6a4c80cadccbb7f0a),
      (quic_v2, be_bytes 20 0x0dede3def700a6db819381be6e269dcbf9bd2ed9)]"

definition initial_keys :: "quic_crypto \<Rightarrow> nat \<Rightarrow> bytes \<Rightarrow> quic_error + bytes \<times> bytes \<times> bytes" where
  "initial_keys C version dcid =
     ebind (note_none (Quic_Parse (''unsupported QUIC version 0x'' @ hex_digits 8 version))
              (dict_get salts version)) (\<lambda>salt.
     let initial = hmac_sha256 C salt dcid;
         prefix = (if version = quic_v2 then ''quicv2 '' else ''quic '')
     in ebind (hkdf_label (hmac_sha256 C) initial ''client in'' 32) (\<lambda>client.
        ebind (hkdf_label (hmac_sha256 C) client (prefix @ ''key'') 16) (\<lambda>key.
        ebind (hkdf_label (hmac_sha256 C) client (prefix @ ''iv'') 12) (\<lambda>iv.
        ebind (hkdf_label (hmac_sha256 C) client (prefix @ ''hp'') 16) (\<lambda>hp.
          Inr (key, iv, hp))))))"

section \<open>Packets\<close>

text \<open>\<open>nonce[index] ^= byte\<close> for each byte; an index past the end raises.\<close>

fun xor_into :: "bytes \<Rightarrow> bytes \<Rightarrow> quic_error + bytes" where
  "xor_into nonce [] = Inr nonce"
| "xor_into [] (b # bs) = Inl Index_Error"
| "xor_into (n # ns) (b # bs) = ebind (xor_into ns bs) (\<lambda>r. Inr ((n XOR b) # r))"

text \<open>The part of \<open>decrypt_initial\<close> from the key derivation on: header protection and payload.\<close>

definition decrypt_packet :: "quic_crypto \<Rightarrow> bytes \<Rightarrow> nat \<Rightarrow> bytes \<Rightarrow> nat \<Rightarrow> nat \<Rightarrow> quic_error + bytes" where
  "decrypt_packet C datagram version dcid pn_offset packet_end =
     ebind (initial_keys C version dcid) (\<lambda>(key, iv, hp).
     let sample = slice (pn_offset + 4) (pn_offset + 20) datagram;
         mask = aes_ecb C hp sample
     in ebind (py_nth Index_Error mask 0) (\<lambda>mask0.
     let first = (datagram ! 0) XOR (mask0 AND 0x0F);
         pn_length = unat (first AND 0x03) + 1
     in ebind (emap (\<lambda>index.
                ebind (py_nth Index_Error datagram (pn_offset + index)) (\<lambda>d.
                ebind (py_nth Index_Error mask (index + 1)) (\<lambda>m. Inr (d XOR m)))) [0..<pn_length])
          (\<lambda>pn_bytes.
     let packet_number = from_bytes pn_bytes;
         header = assign_slice pn_offset (pn_offset + pn_length) pn_bytes
                    ((take (pn_offset + pn_length) datagram)[0 := first])
     in ebind (to_bytes (length iv) packet_number) (\<lambda>encoded_number.
        ebind (xor_into iv encoded_number) (\<lambda>nonce.
        let ciphertext = slice (pn_offset + pn_length) packet_end datagram
        in note_none (Quic_Parse ''unable to decrypt QUIC Initial'')
             (gcm_decrypt C key nonce ciphertext header))))))"

definition decrypt_initial :: "quic_crypto \<Rightarrow> bytes \<Rightarrow> quic_error + bytes" where
  "decrypt_initial C datagram =
     (if length datagram < 40 \<or> (datagram ! 0) AND 0x80 = 0
      then Inl (Quic_Parse ''not a QUIC long-header packet'')
      else
        let version = from_bytes (slice 1 5 datagram) in
        ebind (py_nth Index_Error datagram 5) (\<lambda>dcid_len.
        let dcid = slice 6 (6 + unat dcid_len) datagram;
            offset = 6 + unat dcid_len
        in if length datagram \<le> offset
        then Inl (Quic_Parse ''truncated destination connection id'')
        else ebind (py_nth Index_Error datagram offset) (\<lambda>scid_len.
        ebind (varint datagram (offset + 1 + unat scid_len)) (\<lambda>(token_len, offset).
        ebind (varint datagram (offset + token_len)) (\<lambda>(packet_length, pn_offset).
        let packet_end = pn_offset + packet_length in
        if length datagram < packet_end \<or> packet_end < pn_offset + 20
        then Inl (Quic_Parse ''truncated QUIC Initial packet'')
        else decrypt_packet C datagram version dcid pn_offset packet_end)))))"

definition initial_connection_ids :: "bytes \<Rightarrow> quic_error + bytes \<times> bytes" where
  "initial_connection_ids datagram =
     (if length datagram < 7 \<or> (datagram ! 0) AND 0x80 = 0
      then Inl (Quic_Parse ''not a QUIC long-header packet'')
      else
        let dcid_length = unat (datagram ! 5);
            dcid = slice 6 (6 + dcid_length) datagram;
            offset = 6 + dcid_length
        in if length datagram \<le> offset
        then Inl (Quic_Parse ''truncated destination connection id'')
        else
          let scid_length = unat (datagram ! offset);
              scid = slice (offset + 1) (offset + 1 + scid_length) datagram
          in if length dcid \<noteq> dcid_length \<or> length scid \<noteq> scid_length
          then Inl (Quic_Parse ''truncated QUIC connection id'')
          else Inr (dcid, scid))"

lemma varint_advances: "varint data offset = Inr (v, offset') \<Longrightarrow> offset < offset' \<and> offset' \<le> length data"
  by (auto simp: varint_def Let_def split: if_splits)

function crypto_loop :: "bytes \<Rightarrow> nat \<Rightarrow> (nat, bytes) dict \<Rightarrow> quic_error + (nat, bytes) dict" where
  "crypto_loop plaintext offset fragments =
     (if offset < length plaintext then
        ebind (varint plaintext offset) (\<lambda>(frame_type, offset1).
          if frame_type = 0 \<or> frame_type = 1 then crypto_loop plaintext offset1 fragments
          else if frame_type = 6 then
            ebind (varint plaintext offset1) (\<lambda>(crypto_offset, offset2).
            ebind (varint plaintext offset2) (\<lambda>(len, offset3).
              if length plaintext < offset3 + len
              then Inl (Quic_Parse ''truncated QUIC CRYPTO frame'')
              else crypto_loop plaintext (offset3 + len)
                     (dict_set crypto_offset (slice offset3 (offset3 + len) plaintext) fragments)))
          else Inr fragments)
      else Inr fragments)"
  by pat_completeness auto
termination
  by (relation "measure (\<lambda>(p, offset, fs). length p - offset)")
    (auto dest!: varint_advances intro!: diff_less_mono2)

declare crypto_loop.simps [simp del]

definition crypto_fragments :: "bytes \<Rightarrow> quic_error + (nat, bytes) dict" where
  "crypto_fragments plaintext = crypto_loop plaintext 0 []"

fun assemble_loop :: "(nat \<times> bytes) list \<Rightarrow> bytes \<Rightarrow> bytes" where
  "assemble_loop [] assembled = assembled"
| "assemble_loop ((fragment_offset, fragment) # rest) assembled =
     (if length assembled < fragment_offset then assembled
      else let overlap = length assembled - fragment_offset in
        if overlap < length fragment then assemble_loop rest (assembled @ drop overlap fragment)
        else assemble_loop rest assembled)"

definition assemble_crypto :: "(nat, bytes) dict \<Rightarrow> bytes" where
  "assemble_crypto fragments = assemble_loop (sort_key fst fragments) []"

section \<open>ClientHello\<close>

function alpn_loop :: "bytes \<Rightarrow> nat \<Rightarrow> string list \<Rightarrow> quic_error + string list" where
  "alpn_loop data cursor alpns =
     (if cursor < length data then
        let item_length = unat (data ! cursor) in
        ebind (decode_ascii (slice (cursor + 1) (cursor + 1 + item_length) data)) (\<lambda>item.
          alpn_loop data (cursor + 1 + item_length) (alpns @ [item]))
      else Inr alpns)"
  by pat_completeness auto
termination
  by (relation "measure (\<lambda>(v, cursor, a). length v - cursor)") auto

declare alpn_loop.simps [simp del]

definition hello_extension ::
  "nat \<Rightarrow> bytes \<Rightarrow> string \<times> string list \<Rightarrow> quic_error + string \<times> string list" where
  "hello_extension extension_type data = (\<lambda>(server_name, alpns).
     if extension_type = 0 \<and> 5 \<le> length data then
       ebind (decode_ascii (slice 5 (5 + from_bytes (slice 3 5 data)) data)) (\<lambda>name.
         Inr (rstrip_dot (casefold name), alpns))
     else if extension_type = 16 \<and> 2 \<le> length data then
       ebind (alpn_loop data 2 alpns) (\<lambda>alpns'. Inr (server_name, alpns'))
     else Inr (server_name, alpns))"

function extensions_loop ::
  "bytes \<Rightarrow> nat \<Rightarrow> nat \<Rightarrow> string \<times> string list \<Rightarrow> quic_error + string \<times> string list" where
  "extensions_loop body offset last_offset st =
     (if offset + 4 \<le> last_offset then
        let extension_type = from_bytes (slice offset (offset + 2) body);
            extension_length = from_bytes (slice (offset + 2) (offset + 4) body);
            data = slice (offset + 4) (offset + 4 + extension_length) body
        in ebind (hello_extension extension_type data st) (\<lambda>st'.
             extensions_loop body (offset + 4 + extension_length) last_offset st')
      else Inr st)"
  by pat_completeness auto
termination
  by (relation "measure (\<lambda>(b, offset, last_offset, st). last_offset - offset)") auto

declare extensions_loop.simps [simp del]

definition parse_client_hello :: "bytes \<Rightarrow> quic_error + string \<times> string list" where
  "parse_client_hello crypto =
     (if length crypto < 4 \<or> crypto ! 0 \<noteq> 1
      then Inl (Quic_Parse ''QUIC CRYPTO data does not start with ClientHello'')
      else
        let len = from_bytes (slice 1 4 crypto); body = slice 4 (4 + len) crypto in
        if length body \<noteq> len then Inl (Quic_Parse ''fragmented ClientHello is not yet complete'')
        else
          ebind (py_nth Index_Error body 34) (\<lambda>session_length.
          let offset1 = 35 + unat session_length;
              cipher_length = from_bytes (slice offset1 (offset1 + 2) body);
              offset2 = offset1 + 2 + cipher_length
          in ebind (py_nth Index_Error body offset2) (\<lambda>compression_length.
          let offset3 = offset2 + 1 + unat compression_length;
              extensions_length = from_bytes (slice offset3 (offset3 + 2) body);
              offset4 = offset3 + 2
          in ebind (extensions_loop body offset4 (offset4 + extensions_length) ([], [])) (\<lambda>st.
             if fst st = [] then Inl (Quic_Parse ''ClientHello does not contain SNI'')
             else Inr st))))"

definition inspect_sni :: "quic_crypto \<Rightarrow> bytes \<Rightarrow> quic_error + string \<times> string list" where
  "inspect_sni C datagram =
     ebind (decrypt_initial C datagram) (\<lambda>plaintext.
     ebind (crypto_fragments plaintext) (\<lambda>fragments.
       parse_client_hello (assemble_crypto fragments)))"

section \<open>Laws of the integer encodings\<close>

lemma from_bytes_Nil [simp]: "from_bytes [] = 0"
  by (simp add: from_bytes_def)

lemma from_bytes_snoc: "from_bytes (bs @ [b]) = from_bytes bs * 256 + unat b"
  by (simp add: from_bytes_def)

lemma from_bytes_append: "from_bytes (as @ bs) = from_bytes as * 256 ^ length bs + from_bytes bs"
proof (induction bs rule: rev_induct)
  case (snoc b bs)
  then show ?case
    by (simp flip: append_assoc add: from_bytes_snoc algebra_simps)
qed simp

lemma from_bytes_Cons: "from_bytes (b # bs) = unat b * 256 ^ length bs + from_bytes bs"
  using from_bytes_append [of "[b]" bs] by (simp add: from_bytes_def)

lemma unat_byte_less [simp]: "unat (b :: byte) < 256"
  using unsigned_less [of b] by simp

lemma from_bytes_less: "from_bytes bs < 256 ^ length bs"
proof (induction bs rule: rev_induct)
  case (snoc b bs)
  have "from_bytes bs * 256 + unat b < Suc (from_bytes bs) * 256"
    by simp
  also have "\<dots> \<le> 256 ^ length bs * 256"
    using snoc by (intro mult_right_mono) auto
  finally show ?case by (simp add: from_bytes_snoc mult.commute)
qed simp

lemma length_be_bytes [simp]: "length (be_bytes n v) = n"
  by (induction n arbitrary: v) auto

lemma unat_of_nat_byte [simp]: "unat (of_nat n :: byte) = n mod 256"
  by (simp add: unat_of_nat)

lemma from_be_bytes_mod: "from_bytes (be_bytes n v) = v mod 256 ^ n"
proof (induction n arbitrary: v)
  case (Suc n)
  have "from_bytes (be_bytes (Suc n) v) = (v div 256) mod 256 ^ n * 256 + v mod 256"
    by (simp add: from_bytes_snoc Suc.IH)
  also have "\<dots> = v mod (256 * 256 ^ n)"
    by (metis mod_mult2_eq mult.commute)
  finally show ?case by simp
qed simp

lemma from_be_bytes [simp]: "v < 256 ^ n \<Longrightarrow> from_bytes (be_bytes n v) = v"
  by (simp add: from_be_bytes_mod)

lemma be_bytes_Cons: "be_bytes (Suc n) v = of_nat (v div 256 ^ n) # be_bytes n v"
proof (induction n arbitrary: v)
  case (Suc n)
  have "be_bytes (Suc (Suc n)) v = be_bytes (Suc n) (v div 256) @ [of_nat v]" by simp
  also have "\<dots> = of_nat (v div 256 div 256 ^ n) # be_bytes n (v div 256) @ [of_nat v]"
    by (subst Suc.IH) simp
  finally show ?case by (simp add: div_mult2_eq)
qed simp

lemma to_bytes_Inr [simp]: "to_bytes n v = Inr bs \<longleftrightarrow> v < 256 ^ n \<and> bs = be_bytes n v"
  by (auto simp: to_bytes_def)

lemma byte_of_ok [simp]: "n < 256 \<Longrightarrow> byte_of n = Inr (of_nat n)"
  by (simp add: byte_of_def)

definition is_ascii :: "string \<Rightarrow> bool" where
  "is_ascii s \<longleftrightarrow> (\<forall>c\<in>set s. char_nat c < 128)"

lemma length_encode_ascii [simp]: "length (encode_ascii s) = length s"
  by (simp add: encode_ascii_def)

lemma decode_encode_ascii [simp]: "is_ascii s \<Longrightarrow> decode_ascii (encode_ascii s) = Inr s"
proof -
  assume a: "is_ascii s"
  have "map (\<lambda>c. char_of (char_nat c mod 256)) s = s"
    by (rule map_idI) (simp add: char_nat_def)
  moreover have "\<forall>c\<in>set s. char_nat c mod 256 < 128" using a by (simp add: is_ascii_def)
  ultimately show ?thesis by (simp add: decode_ascii_def encode_ascii_def comp_def)
qed

section \<open>Laws of variable-length integers\<close>

lemma shift_or_byte: "push_bit 8 v OR unat (b :: byte) = v * 256 + unat b"
proof -
  have "push_bit 8 v AND unat b = 0"
    by (rule bit_eqI) (auto simp: bit_simps dest!: bit_imp_le_length)
  then have "push_bit 8 v + unat b = push_bit 8 v OR unat b"
    by (rule disjunctive_add_eq_or)
  then show ?thesis by (simp add: push_bit_eq_mult)
qed

lemma shift_or_fold:
  "foldl (\<lambda>v (b :: byte). push_bit 8 v OR unat b) x bs = x * 256 ^ length bs + from_bytes bs"
proof (induction bs rule: rev_induct)
  case (snoc b bs)
  then show ?case by (simp add: shift_or_byte from_bytes_snoc algebra_simps)
qed simp

lemma and_63: "(n :: nat) AND 0x3F = n mod 64"
proof -
  have "n AND mask 6 = take_bit 6 n" by (simp add: take_bit_eq_mask)
  then show ?thesis by (simp add: mask_eq_exp_minus_1 take_bit_eq_mod)
qed

lemma varint_at:
  assumes "Suc (length bs) = 2 ^ (unat b div 64)"
  shows "varint (pre @ b # bs @ rest) (length pre) =
           Inr ((unat b mod 64) * 256 ^ length bs + from_bytes bs, length pre + Suc (length bs))"
proof -
  have "push_bit (drop_bit 6 (unat b)) 1 = Suc (length bs)"
    by (simp add: assms push_bit_eq_mult drop_bit_eq_div)
  moreover have "slice (Suc (length pre)) (length pre + Suc (length bs)) (pre @ b # bs @ rest) = bs"
    by (simp add: slice_def)
  ultimately show ?thesis
    by (simp add: varint_def shift_or_fold and_63 nth_append)
qed

text \<open>The shortest encoding of an integer (RFC 9000, section 16).\<close>

definition varint_class :: "nat \<Rightarrow> nat" where
  "varint_class v = (if v < 2 ^ 6 then 0 else if v < 2 ^ 14 then 1 else if v < 2 ^ 30 then 2 else 3)"

definition encode_varint :: "nat \<Rightarrow> bytes" where
  "encode_varint v =
     (let k = varint_class v in be_bytes (2 ^ k) (v + k * 2 ^ (8 * 2 ^ k - 2)))"

lemma varint_encode_class:
  assumes k: "k < 4" and v: "v < 2 ^ (8 * 2 ^ k - 2)"
  shows "varint (pre @ be_bytes (2 ^ k) (v + k * 2 ^ (8 * 2 ^ k - 2)) @ rest) (length pre) =
           Inr (v, length pre + 2 ^ k)"
proof -
  obtain n where n: "(2::nat) ^ k = Suc n" by (metis not0_implies_Suc power_eq_0_iff zero_neq_numeral)
  let ?w = "v + k * 2 ^ (8 * 2 ^ k - 2)"
  let ?m = "(256::nat) ^ n"
  have m: "(2::nat) ^ (8 * 2 ^ k - 2) = 64 * ?m"
  proof -
    have "8 * 2 ^ k - 2 = 6 + 8 * n" by (simp add: n)
    then show ?thesis by (simp add: power_add power_mult)
  qed
  have d: "?w div ?m = v div ?m + k * 64"
    using div_mult_self1 [of ?m v "k * 64"] by (simp add: m mult.assoc)
  have q: "v div ?m < 64"
    using v by (simp add: m less_mult_imp_div_less mult.commute)
  let ?b = "of_nat (?w div ?m) :: byte"
  have b: "unat ?b = v div ?m + k * 64"
    using q k unfolding d by (subst unat_of_nat_byte) simp
  have w: "?w mod ?m = v mod ?m"
    using mod_mult_self1 [of v "k * 64" ?m] by (simp add: m mult.assoc)
  have f: "from_bytes (be_bytes n ?w) = v mod ?m" by (simp only: from_be_bytes_mod w)
  have e: "be_bytes (2 ^ k) ?w = ?b # be_bytes n ?w"
    unfolding n by (rule be_bytes_Cons)
  have "varint (pre @ ?b # be_bytes n ?w @ rest) (length pre) =
      Inr ((unat ?b mod 64) * 256 ^ length (be_bytes n ?w) + from_bytes (be_bytes n ?w),
           length pre + Suc (length (be_bytes n ?w)))"
    by (rule varint_at) (use b q n in simp)
  also have "\<dots> = Inr (v div ?m * ?m + v mod ?m, length pre + 2 ^ k)"
    unfolding f b length_be_bytes using q by (simp add: n)
  finally show ?thesis using e by (simp add: div_mult_mod_eq)
qed

lemma varint_encode:
  assumes "v < 2 ^ 62"
  shows "varint (pre @ encode_varint v @ rest) (length pre) = Inr (v, length pre + length (encode_varint v))"
proof -
  have "v < 2 ^ (8 * 2 ^ varint_class v - 2)" "varint_class v < 4"
    using assms by (auto simp: varint_class_def)
  from varint_encode_class [OF this(2,1)] show ?thesis
    by (simp add: encode_varint_def Let_def)
qed

lemma varint_encode_at:
  "v < 2 ^ 62 \<Longrightarrow> n = length pre \<Longrightarrow>
     varint (pre @ encode_varint v @ rest) n = Inr (v, n + length (encode_varint v))"
  by (simp add: varint_encode)

lemma encode_varint_length: "length (encode_varint v) \<in> {1, 2, 4, 8}"
  by (auto simp: encode_varint_def varint_class_def Let_def)

lemma varint_bound:
  assumes "varint data offset = Inr (v, offset')"
  shows "v < 2 ^ 62 \<and> offset' - offset \<in> {1, 2, 4, 8}"
proof -
  let ?k = "unat (data ! offset) div 64" and ?x = "unat (data ! offset) mod 64"
  let ?bs = "slice (offset + 1) (offset + 2 ^ ?k) data"
  have k: "?k < 4" using unat_byte_less [of "data ! offset"] by linarith
  from assms have o: "offset' = offset + 2 ^ ?k" and len: "offset + 2 ^ ?k \<le> length data"
    and v: "v = ?x * 256 ^ length ?bs + from_bytes ?bs"
    by (auto simp: varint_def Let_def push_bit_eq_mult drop_bit_eq_div and_63 shift_or_fold
        shift_or_fold [simplified push_bit_eq_mult, simplified]
        split: if_splits)
  have l: "length ?bs \<le> 7"
  proof -
    have "?k \<in> {0, 1, 2, 3}" using k by auto
    then show ?thesis using len by auto
  qed
  have "v < Suc ?x * 256 ^ length ?bs"
    using from_bytes_less [of ?bs] by (simp add: v)
  also have "\<dots> \<le> 64 * 256 ^ length ?bs" by (intro mult_right_mono) (simp_all add: Suc_leI)
  also have "\<dots> \<le> 64 * 256 ^ 7" using l by (intro mult_left_mono power_increasing) auto
  finally have "v < 2 ^ 62" by simp
  moreover have "?k \<in> {0, 1, 2, 3}" using k by auto
  ultimately show ?thesis by (auto simp: o)
qed

section \<open>HKDF-Expand\<close>

text \<open>The blocks T(1), T(2), ... of RFC 5869, section 2.3.\<close>

fun hkdf_block :: "(bytes \<Rightarrow> bytes \<Rightarrow> bytes) \<Rightarrow> bytes \<Rightarrow> bytes \<Rightarrow> nat \<Rightarrow> bytes" where
  "hkdf_block hmac prk info 0 = []"
| "hkdf_block hmac prk info (Suc i) =
     hmac prk (hkdf_block hmac prk info i @ info @ [of_nat (Suc i)])"

definition hkdf_spec :: "(bytes \<Rightarrow> bytes \<Rightarrow> bytes) \<Rightarrow> bytes \<Rightarrow> bytes \<Rightarrow> nat \<Rightarrow> bytes" where
  "hkdf_spec hmac prk info len =
     take len (concat (map (hkdf_block hmac prk info) [1..<Suc ((len + 31) div 32)]))"

lemma hkdf_block_length:
  "(\<And>k m. length (hmac k m) = 32) \<Longrightarrow> 0 < i \<Longrightarrow> length (hkdf_block hmac prk info i) = 32"
  by (cases i) auto

lemma hkdf_blocks_length:
  assumes "\<And>k m. length (hmac k m) = 32"
  shows "length (concat (map (hkdf_block hmac prk info) [1..<Suc n])) = 32 * n"
  using assms by (induction n) (auto simp: hkdf_block_length)

lemma less_blocks_iff: "i < (len + 31) div 32 \<longleftrightarrow> 32 * i < (len :: nat)"
  by linarith

lemma hkdf_loop_spec:
  assumes h: "\<And>k m. length (hmac k m) = 32" and "i \<le> (len + 31) div 32"
  shows "hkdf_loop hmac prk info len (concat (map (hkdf_block hmac prk info) [1..<Suc i]))
           (hkdf_block hmac prk info i) (Suc i) =
         (if len \<le> 255 * 32 then Inr (hkdf_spec hmac prk info len)
          else if i \<le> 255 then Inl Value_Error
          else hkdf_loop hmac prk info len (concat (map (hkdf_block hmac prk info) [1..<Suc i]))
           (hkdf_block hmac prk info i) (Suc i))"
  using assms(2)
proof (induction "(len + 31) div 32 - i" arbitrary: i)
  case 0
  then have i: "i = (len + 31) div 32" by simp
  have len: "len \<le> 32 * i" and far: "len \<le> 255 * 32 \<or> 255 < i" unfolding i by presburger+
  have "len \<le> length (concat (map (hkdf_block hmac prk info) [1..<Suc i]))"
    using len by (simp only: hkdf_blocks_length [OF h])
  then have "hkdf_loop hmac prk info len (concat (map (hkdf_block hmac prk info) [1..<Suc i]))
           (hkdf_block hmac prk info i) (Suc i) = Inr (hkdf_spec hmac prk info len)"
    by (subst hkdf_loop.simps) (simp add: hkdf_spec_def flip: i)
  then show ?case using far by (metis (no_types) not_le)
next
  case (Suc d)
  then have lt: "i < (len + 31) div 32" by simp
  then have l: "length (concat (map (hkdf_block hmac prk info) [1..<Suc i])) < len"
    by (simp only: hkdf_blocks_length [OF h] less_blocks_iff)
  show ?case
  proof (cases "i < 255")
    case True
    have "hkdf_loop hmac prk info len (concat (map (hkdf_block hmac prk info) [1..<Suc i]))
           (hkdf_block hmac prk info i) (Suc i) =
         hkdf_loop hmac prk info len (concat (map (hkdf_block hmac prk info) [1..<Suc (Suc i)]))
           (hkdf_block hmac prk info (Suc i)) (Suc (Suc i))"
      using l True
      by (subst hkdf_loop.simps) (simp add: Let_def)
    with Suc.hyps(1) [of "Suc i"] Suc.hyps(2) lt True show ?thesis by auto
  next
    case False
    then have "\<not> len \<le> 255 * 32"
      using l unfolding hkdf_blocks_length [OF h] by simp
    moreover have "hkdf_loop hmac prk info len (concat (map (hkdf_block hmac prk info) [1..<Suc i]))
           (hkdf_block hmac prk info i) (Suc i) = Inl Value_Error"
      using l False
      by (subst hkdf_loop.simps) simp
    ultimately show ?thesis by (metis (no_types))
  qed
qed

lemma hkdf_expand_spec:
  assumes "\<And>k m. length (hmac k m) = 32"
  shows "hkdf_expand hmac prk info len =
    (if len \<le> 255 * 32 then Inr (hkdf_spec hmac prk info len) else Inl Value_Error)"
  using hkdf_loop_spec [OF assms, where i = 0 and len = len and prk = prk and info = info] by (simp add: hkdf_expand_def)

lemma hkdf_spec_length:
  assumes "\<And>k m. length (hmac k m) = 32"
  shows "length (hkdf_spec hmac prk info len) = len"
proof -
  have "len \<le> 32 * ((len + 31) div 32)" by presburger
  then show ?thesis
    unfolding hkdf_spec_def length_take hkdf_blocks_length [OF assms] by simp
qed

text \<open>HKDF-Expand-Label of RFC 8446, section 7.1, with an empty context.\<close>

definition hkdf_label_spec ::
  "(bytes \<Rightarrow> bytes \<Rightarrow> bytes) \<Rightarrow> bytes \<Rightarrow> string \<Rightarrow> nat \<Rightarrow> bytes" where
  "hkdf_label_spec hmac secret label len =
     hkdf_spec hmac secret
       (be_bytes 2 len @ [of_nat (6 + length label)] @ encode_ascii (''tls13 '' @ label) @ [0]) len"

lemma hkdf_label_ok:
  assumes "\<And>k m. length (hmac k m) = 32" and "length label \<le> 249" and "len \<le> 8160"
  shows "hkdf_label hmac secret label len = Inr (hkdf_label_spec hmac secret label len)"
  using assms by (simp add: hkdf_label_def hkdf_label_spec_def hkdf_expand_spec to_bytes_def)

lemma hkdf_label_spec_length:
  "(\<And>k m. length (hmac k m) = 32) \<Longrightarrow> length (hkdf_label_spec hmac secret label len) = len"
  by (simp add: hkdf_label_spec_def hkdf_spec_length)

text \<open>The key, IV and header-protection key of the client, as RFC 9001 and RFC 9369 derive them.\<close>

definition client_keys_spec :: "quic_crypto \<Rightarrow> nat \<Rightarrow> bytes \<Rightarrow> bytes \<times> bytes \<times> bytes" where
  "client_keys_spec C version dcid =
     (let secret = hkdf_label_spec (hmac_sha256 C)
            (hmac_sha256 C (the (dict_get salts version)) dcid) ''client in'' 32;
          prefix = (if version = quic_v2 then ''quicv2 '' else ''quic '')
      in (hkdf_label_spec (hmac_sha256 C) secret (prefix @ ''key'') 16,
          hkdf_label_spec (hmac_sha256 C) secret (prefix @ ''iv'') 12,
          hkdf_label_spec (hmac_sha256 C) secret (prefix @ ''hp'') 16))"

lemma initial_keys_ok:
  assumes "\<And>k m. length (hmac_sha256 C k m) = 32" and "version \<in> {quic_v1, quic_v2}"
  shows "initial_keys C version dcid = Inr (client_keys_spec C version dcid)"
proof -
  obtain salt where "dict_get salts version = Some salt"
    using assms(2) by (auto simp: salts_def quic_v1_def quic_v2_def)
  then show ?thesis
    by (simp add: initial_keys_def client_keys_spec_def hkdf_label_ok assms(1) Let_def)
qed

lemma initial_keys_unsupported:
  "version \<notin> {quic_v1, quic_v2} \<Longrightarrow>
     initial_keys C version dcid = Inl (Quic_Parse (''unsupported QUIC version 0x'' @ hex_digits 8 version))"
  by (simp add: initial_keys_def salts_def note_none_def)

section \<open>Packet protection\<close>

lemma slice_shift:
  "b \<le> length xs \<Longrightarrow> slice (length pre + a) (length pre + b) (pre @ xs @ ys) = slice a b xs"
  by (simp add: slice_def)

lemma xor_into_ok: "length bs \<le> length ns \<Longrightarrow> xor_into ns bs = Inr (map2 (XOR) ns bs @ drop (length bs) ns)"
  by (induction ns bs rule: xor_into.induct) auto

lemma nth_append_at: "n = length pre \<Longrightarrow> (pre @ x # rest) ! n = x"
  by simp

lemma xor_masked_bit7: "((f :: byte) XOR (m AND 0x0F)) AND 0x80 = f AND 0x80"
proof -
  have "(f XOR (m AND 0x0F)) AND 0x80 = (f AND 0x80) XOR (m AND (0x0F AND 0x80))"
    by (simp only: bit.conj_xor_distrib2 and.assoc)
  then show ?thesis by simp
qed

lemma pn_length_le: "unat ((f :: byte) AND 3) + 1 \<le> 4"
proof -
  have "f AND 3 \<le> 3" by (rule word_and_le1)
  then have "unat (f AND 3) \<le> unat (3 :: byte)" by (simp only: word_le_nat_alt)
  then show ?thesis by simp
qed

text \<open>The sender's side (RFC 9001, section 5): header, sealed payload and header protection.\<close>

definition initial_header :: "nat \<Rightarrow> bytes \<Rightarrow> bytes \<Rightarrow> bytes \<Rightarrow> nat \<Rightarrow> bytes" where
  "initial_header version dcid scid token packet_length =
     be_bytes 4 version @ [of_nat (length dcid)] @ dcid @ [of_nat (length scid)] @ scid @
     encode_varint (length token) @ token @ encode_varint packet_length"

lemma decrypt_initial_layout:
  assumes D: "D = b0 # initial_header version dcid scid token plen @ rest"
    and b0: "b0 AND 0x80 \<noteq> 0" and len: "40 \<le> length D" and v: "version < 2 ^ 32"
    and d: "length dcid < 256" and s: "length scid < 256" and t: "length token < 2 ^ 62"
    and p: "plen < 2 ^ 62" "20 \<le> plen" "plen \<le> length rest"
  shows "decrypt_initial C D =
    (let po = Suc (length (initial_header version dcid scid token plen))
     in decrypt_packet C D version dcid po (po + plen))"
proof -
  let ?pl = "encode_varint plen" and ?tl = "encode_varint (length token)"
  have l0: "D ! 0 = b0" by (simp add: D)
  have l1: "from_bytes (slice 1 5 D) = version"
    using v by (simp add: D initial_header_def slice_def)
  have l2: "py_nth Index_Error D 5 = Inr (of_nat (length dcid))"
    by (simp add: D initial_header_def nth_append)
  have l3: "slice 6 (6 + length dcid) D = dcid"
    by (simp add: D initial_header_def slice_def)
  have l4: "length dcid + 6 < length D"
    by (simp add: D initial_header_def)
  have l5: "py_nth Index_Error D (6 + length dcid) = Inr (of_nat (length scid))"
    by (simp add: D initial_header_def nth_append)
  let ?o1 = "6 + length dcid + 1 + length scid"
  have l6: "varint D ?o1 = Inr (length token, ?o1 + length ?tl)"
  proof -
    have "D = (b0 # be_bytes 4 version @ [of_nat (length dcid)] @ dcid @ [of_nat (length scid)] @ scid) @
        ?tl @ (token @ ?pl @ rest)" by (simp add: D initial_header_def)
    then show ?thesis using t by (simp only:) (rule varint_encode_at, simp_all)
  qed
  let ?o2 = "?o1 + length ?tl + length token"
  have l7: "varint D ?o2 = Inr (plen, ?o2 + length ?pl)"
  proof -
    have "D = (b0 # be_bytes 4 version @ [of_nat (length dcid)] @ dcid @ [of_nat (length scid)] @ scid @
        ?tl @ token) @ ?pl @ rest" by (simp add: D initial_header_def)
    then show ?thesis using p by (simp only:) (rule varint_encode_at, simp_all)
  qed
  have po: "Suc (length (initial_header version dcid scid token plen)) = ?o2 + length ?pl"
    by (simp add: initial_header_def)
  have l8: "\<not> (length D < ?o2 + length ?pl + plen \<or> ?o2 + length ?pl + plen < ?o2 + length ?pl + 20)"
    using p by (simp add: D initial_header_def)
  have ud: "unat (of_nat (length dcid) :: byte) = length dcid"
    and us: "unat (of_nat (length scid) :: byte) = length scid" using d s by simp_all
  show ?thesis
    unfolding decrypt_initial_def Let_def l0 l1 l2 ebind.simps ud l3 l5 us l6 case_prod_conv l7 po
    using len b0 l4 l8 by simp
qed

definition protect_initial ::
  "quic_crypto \<Rightarrow> (bytes \<Rightarrow> bytes \<Rightarrow> bytes \<Rightarrow> bytes \<Rightarrow> bytes) \<Rightarrow> byte \<Rightarrow> nat \<Rightarrow> bytes \<Rightarrow> bytes \<Rightarrow> bytes \<Rightarrow>
   nat \<Rightarrow> bytes \<Rightarrow> bytes" where
  "protect_initial C seal first version dcid scid token pn payload =
     (let pn_length = unat (first AND 3) + 1;
          pn_bytes = be_bytes pn_length pn;
          header = initial_header version dcid scid token (pn_length + length payload + 16)
      in case client_keys_spec C version dcid of (key, iv, hp) \<Rightarrow>
        let sealed = seal key (map2 (XOR) iv (be_bytes 12 pn)) payload (first # header @ pn_bytes);
            mask = aes_ecb C hp (slice (4 - pn_length) (20 - pn_length) sealed)
        in (first XOR (mask ! 0 AND 0x0F)) # header @
             map2 (XOR) pn_bytes (slice 1 (1 + pn_length) mask) @ sealed)"

lemma decrypt_packet_protected:
  assumes keys: "initial_keys C version dcid = Inr (key, iv, hp)" and iv: "length iv = 12"
    and msk: "msk = aes_ecb C hp (slice (4 - pnl) (20 - pnl) sealed)" "16 \<le> length msk"
    and pnl: "pnl = unat (first AND 3) + 1" and pn: "pn < 256 ^ pnl"
    and sealed: "20 \<le> pnl + length sealed"
    and ok: "gcm_decrypt C key (map2 (XOR) iv (be_bytes 12 pn)) sealed (first # h @ be_bytes pnl pn) = Some payload"
    and D: "D = (first XOR (msk ! 0 AND 0x0F)) # h @
              map2 (XOR) (be_bytes pnl pn) (slice 1 (1 + pnl) msk) @ sealed @ rest"
  shows "decrypt_packet C D version dcid (Suc (length h)) (Suc (length h) + pnl + length sealed) = Inr payload"
proof -
  let ?m = "map2 (XOR) (be_bytes pnl pn) (slice 1 (1 + pnl) msk)"
  have p4: "pnl \<le> 4" unfolding pnl by (rule pn_length_le)
  then have lm: "length ?m = pnl" using msk(2) by simp
  have sample: "slice (Suc (length h) + 4) (Suc (length h) + 20) D = slice (4 - pnl) (20 - pnl) sealed"
  proof -
    let ?pre = "(first XOR (msk ! 0 AND 0x0F)) # h @ ?m"
    have "slice (length ?pre + (4 - pnl)) (length ?pre + (20 - pnl)) (?pre @ sealed @ rest) =
        slice (4 - pnl) (20 - pnl) sealed"
      by (rule slice_shift) (use sealed in linarith)
    moreover have "length ?pre = Suc (length h) + pnl" using lm by simp
    ultimately show ?thesis using p4 by (simp add: D)
  qed
  have first: "(D ! 0) XOR (msk ! 0 AND 0x0F) = first"
    by (simp add: D xor.assoc)
  have nth: "(?m ! i) XOR (msk ! Suc i) = be_bytes pnl pn ! i" if "i < pnl" for i
    using that lm msk(2) p4 by (simp add: slice_def xor.assoc)
  have at: "D ! (Suc (length h) + i) = ?m ! i" and lt: "Suc (length h) + i < length D" if "i < pnl" for i
    using that lm by (simp_all add: D nth_append)
  have pnb: "emap (\<lambda>index. ebind (py_nth Index_Error D (Suc (length h) + index)) (\<lambda>d.
               ebind (py_nth Index_Error msk (index + 1)) (\<lambda>m. Inr (d XOR m)))) [0..<pnl] =
             Inr (be_bytes pnl pn)"
  proof -
    have "emap (\<lambda>index. ebind (py_nth Index_Error D (Suc (length h) + index)) (\<lambda>d.
               ebind (py_nth Index_Error msk (index + 1)) (\<lambda>m. Inr (d XOR m)))) [0..<pnl] =
          Inr (map (\<lambda>i. be_bytes pnl pn ! i) [0..<pnl])"
      by (rule emap_pure) (use msk(2) p4 at lt nth in simp)
    then show ?thesis using map_nth [of "be_bytes pnl pn"] by simp
  qed
  have hdr: "assign_slice (Suc (length h)) (Suc (length h) + pnl) (be_bytes pnl pn)
      ((take (Suc (length h) + pnl) D)[0 := first]) = first # h @ be_bytes pnl pn"
    using lm by (simp add: D assign_slice_def)
  have ct: "slice (Suc (length h) + pnl) (Suc (length h) + pnl + length sealed) D = sealed"
    using lm by (simp add: D slice_def)
  have pn12: "pn < 256 ^ 12"
    using pn p4 power_increasing [of pnl 12 "256 :: nat"] by simp
  have non: "xor_into iv (be_bytes 12 pn) = Inr (map2 (XOR) iv (be_bytes 12 pn))"
    by (simp add: xor_into_ok iv)
  have m0: "py_nth Index_Error msk 0 = Inr (msk ! 0)"
    by (rule py_nth_ok) (use msk(2) in linarith)
  have tb: "to_bytes 12 pn = Inr (be_bytes 12 pn)" using pn12 by (simp only: to_bytes_Inr)
  have fp: "from_bytes (be_bytes pnl pn) = pn" by (rule from_be_bytes) (rule pn)
  show ?thesis
    unfolding decrypt_packet_def keys ebind.simps case_prod_conv Let_def sample msk(1) [symmetric]
      m0 first pnl [symmetric] pnb fp iv tb non hdr ct ok
    by simp
qed

lemma client_keys_lengths:
  assumes "\<And>k m. length (hmac_sha256 C k m) = 32" and "client_keys_spec C version dcid = (key, iv, hp)"
  shows "length key = 16" "length iv = 12" "length hp = 16"
  using assms(2) by (auto simp: client_keys_spec_def Let_def hkdf_label_spec_length [OF assms(1)])

lemma decrypt_protect:
  assumes hmac: "\<And>k m. length (hmac_sha256 C k m) = 32" and aes: "\<And>k s. length (aes_ecb C k s) = 16"
    and gcm: "\<And>k n p a. gcm_decrypt C k n (seal k n p a) a = Some p"
    and tag: "\<And>k n p a. length (seal k n p a) = length p + 16"
    and version: "version \<in> {quic_v1, quic_v2}" and long: "first AND 0x80 \<noteq> 0"
    and lens: "length dcid < 256" "length scid < 256" "length token < 2 ^ 62" "length payload < 2 ^ 61"
    and pn: "pn < 256 ^ (unat (first AND 3) + 1)" and payload: "4 \<le> unat (first AND 3) + 1 + length payload"
    and size: "40 \<le> length (protect_initial C seal first version dcid scid token pn payload @ rest)"
  shows "decrypt_initial C (protect_initial C seal first version dcid scid token pn payload @ rest) = Inr payload"
proof -
  define pnl where "pnl = unat (first AND 3) + 1"
  define h where "h = initial_header version dcid scid token (pnl + length payload + 16)"
  obtain key iv hp where keys: "client_keys_spec C version dcid = (key, iv, hp)"
    by (metis prod_cases3)
  define sealed where "sealed = seal key (map2 (XOR) iv (be_bytes 12 pn)) payload (first # h @ be_bytes pnl pn)"
  define msk where "msk = aes_ecb C hp (slice (4 - pnl) (20 - pnl) sealed)"
  let ?b0 = "first XOR (msk ! 0 AND 0x0F)"
  let ?m = "map2 (XOR) (be_bytes pnl pn) (slice 1 (1 + pnl) msk)"
  have ls: "length sealed = length payload + 16" by (simp add: sealed_def tag)
  have p4: "pnl \<le> 4" unfolding pnl_def by (rule pn_length_le)
  have lm: "length ?m = pnl" using p4 by (simp add: msk_def aes)
  have D: "protect_initial C seal first version dcid scid token pn payload @ rest =
      ?b0 # h @ ?m @ sealed @ rest"
    unfolding protect_initial_def keys Let_def case_prod_conv
      pnl_def [symmetric] h_def [symmetric] sealed_def [symmetric] msk_def [symmetric]
    by simp
  have "decrypt_initial C (?b0 # h @ ?m @ sealed @ rest) =
    (let po = Suc (length h) in decrypt_packet C (?b0 # h @ ?m @ sealed @ rest) version dcid po
       (po + (pnl + length payload + 16)))"
    unfolding h_def
  proof (rule decrypt_initial_layout)
    show "?b0 AND 0x80 \<noteq> 0" unfolding xor_masked_bit7 by (rule long)
    show "40 \<le> length (?b0 # initial_header version dcid scid token (pnl + length payload + 16) @ ?m @ sealed @ rest)"
      using size unfolding D h_def .
    show "version < 2 ^ 32" using version by (auto simp: quic_v1_def quic_v2_def)
  qed (use lens p4 payload lm ls in \<open>auto simp: pnl_def\<close>)
  also have "\<dots> = decrypt_packet C (?b0 # h @ ?m @ sealed @ rest) version dcid (Suc (length h))
       (Suc (length h) + pnl + length sealed)"
    by (simp add: ls add.assoc)
  also have "\<dots> = Inr payload"
  proof (rule decrypt_packet_protected)
    show "initial_keys C version dcid = Inr (key, iv, hp)"
      using initial_keys_ok [OF hmac version] by (simp add: keys)
    show "length iv = 12" by (rule client_keys_lengths [OF hmac keys])
    show "msk = aes_ecb C hp (slice (4 - pnl) (20 - pnl) sealed)" by (rule msk_def)
    show "16 \<le> length msk" by (simp add: msk_def aes)
    show "pnl = unat (first AND 3) + 1" by (rule pnl_def)
    show "pn < 256 ^ pnl" using pn by (simp add: pnl_def)
    show "20 \<le> pnl + length sealed" using payload by (simp add: ls pnl_def)
    show "gcm_decrypt C key (map2 (XOR) iv (be_bytes 12 pn)) sealed (first # h @ be_bytes pnl pn) = Some payload"
      unfolding sealed_def by (rule gcm)
  qed (rule refl)
  finally show ?thesis by (simp only: D)
qed

section \<open>CRYPTO frames\<close>

text \<open>The frames an Initial packet carries before any other frame type (RFC 9000, section 19).\<close>

datatype quic_frame = Padding | Ping | Crypto nat bytes

fun encode_frame :: "quic_frame \<Rightarrow> bytes" where
  "encode_frame Padding = [0]"
| "encode_frame Ping = [1]"
| "encode_frame (Crypto off data) = [6] @ encode_varint off @ encode_varint (length data) @ data"

definition encode_frames :: "quic_frame list \<Rightarrow> bytes" where
  "encode_frames fs = concat (map encode_frame fs)"

fun frame_ok :: "quic_frame \<Rightarrow> bool" where
  "frame_ok (Crypto off data) \<longleftrightarrow> off < 2 ^ 62 \<and> length data < 2 ^ 62"
| "frame_ok _ \<longleftrightarrow> True"

fun store_frame :: "quic_frame \<Rightarrow> (nat, bytes) dict \<Rightarrow> (nat, bytes) dict" where
  "store_frame (Crypto off data) fragments = dict_set off data fragments"
| "store_frame _ fragments = fragments"

text \<open>What may follow: nothing, or a frame of another type, at which the scan stops.\<close>

definition scan_stops :: "bytes \<Rightarrow> bool" where
  "scan_stops rest \<longleftrightarrow> rest = [] \<or> unat (hd rest) < 64 \<and> hd rest \<notin> {0, 1, 6}"

lemma varint_byte:
  "unat b < 64 \<Longrightarrow> n = length pre \<Longrightarrow> varint (pre @ b # rest) n = Inr (unat b, Suc n)"
  using varint_at [of "[]" b pre rest] by simp

lemma crypto_loop_frames:
  assumes "\<forall>f\<in>set fs. frame_ok f" and "scan_stops rest"
  shows "crypto_loop (pre @ encode_frames fs @ rest) (length pre) d = Inr (fold store_frame fs d)"
  using assms(1)
proof (induction fs arbitrary: pre d)
  case Nil
  show ?case
  proof (cases rest)
    case Nil
    then show ?thesis by (subst crypto_loop.simps) (simp add: encode_frames_def)
  next
    case (Cons b r)
    with assms(2) have b: "unat b < 64" "b \<noteq> 0" "b \<noteq> 1" "b \<noteq> 6" by (auto simp: scan_stops_def)
    then have "unat b \<noteq> 0" "unat b \<noteq> 1" "unat b \<noteq> 6"
      by (auto simp: word_unat_eq_iff)
    then show ?thesis
      by (subst crypto_loop.simps) (simp add: encode_frames_def Cons varint_byte [OF b(1) refl])
  qed
next
  case (Cons f fs)
  let ?rest = "encode_frames fs @ rest"
  have split: "encode_frames (f # fs) @ rest = encode_frame f @ ?rest" by (simp add: encode_frames_def)
  have ih: "crypto_loop (pre @ encode_frame f @ ?rest) (length pre + length (encode_frame f)) d' =
      Inr (fold store_frame fs d')" for d'
    using Cons.IH [of "pre @ encode_frame f" d'] Cons.prems by simp
  show ?case
  proof (cases f)
    case (Crypto off data)
    with Cons.prems have o: "off < 2 ^ 62" and l: "length data < 2 ^ 62" by auto
    let ?lo = "length (encode_varint off)" and ?ll = "length (encode_varint (length data))"
    let ?D = "pre @ encode_frame f @ ?rest"
    have t: "varint ?D (length pre) = Inr (6, Suc (length pre))"
      using varint_byte [of 6 "length pre" pre] by (simp add: Crypto)
    have vo: "varint ?D (Suc (length pre)) = Inr (off, Suc (length pre) + ?lo)"
      using varint_encode_at [OF o, of "Suc (length pre)" "pre @ [6]"
          "encode_varint (length data) @ data @ ?rest"]
      by (simp add: Crypto)
    have vl: "varint ?D (Suc (length pre) + ?lo) = Inr (length data, Suc (length pre) + ?lo + ?ll)"
      using varint_encode_at [OF l, of "Suc (length pre) + ?lo" "pre @ [6] @ encode_varint off"
          "data @ ?rest"]
      by (simp add: Crypto)
    have sl: "slice (Suc (length pre) + ?lo + ?ll) (Suc (length pre) + ?lo + ?ll + length data) ?D = data"
      by (simp add: Crypto slice_def)
    have "crypto_loop ?D (length pre) d =
        crypto_loop ?D (Suc (length pre) + ?lo + ?ll + length data) (dict_set off data d)"
      by (subst crypto_loop.simps) (simp only: t vo vl sl ebind.simps case_prod_conv, simp add: Crypto)
    also have "\<dots> = crypto_loop ?D (length pre + length (encode_frame f)) (store_frame f d)"
      by (simp add: Crypto add_ac)
    finally show ?thesis unfolding split ih by simp
  next
    case Padding
    have "crypto_loop (pre @ encode_frame f @ ?rest) (length pre) d =
        crypto_loop (pre @ encode_frame f @ ?rest) (length pre + length (encode_frame f)) d"
      by (subst crypto_loop.simps) (simp add: Padding varint_byte)
    then show ?thesis unfolding split ih by (simp add: Padding)
  next
    case Ping
    have "crypto_loop (pre @ encode_frame f @ ?rest) (length pre) d =
        crypto_loop (pre @ encode_frame f @ ?rest) (length pre + length (encode_frame f)) d"
      by (subst crypto_loop.simps) (simp add: Ping varint_byte)
    then show ?thesis unfolding split ih by (simp add: Ping)
  qed
qed

lemma crypto_fragments_frames:
  "\<forall>f\<in>set fs. frame_ok f \<Longrightarrow> scan_stops rest \<Longrightarrow>
     crypto_fragments (encode_frames fs @ rest) = Inr (fold store_frame fs [])"
  using crypto_loop_frames [of fs rest "[]" "[]"] by (simp add: crypto_fragments_def)

section \<open>Reassembly of the handshake stream\<close>

text \<open>Every fragment is a piece of the stream.\<close>

definition pieces_of :: "bytes \<Rightarrow> (nat \<times> bytes) list \<Rightarrow> bool" where
  "pieces_of stream ps \<longleftrightarrow>
     (\<forall>(off, data)\<in>set ps. off + length data \<le> length stream \<and> data = take (length data) (drop off stream))"

definition covered :: "(nat \<times> bytes) list \<Rightarrow> nat \<Rightarrow> bool" where
  "covered ps i \<longleftrightarrow> (\<exists>(off, data)\<in>set ps. off \<le> i \<and> i < off + length data)"

lemma covered_Cons [simp]: "covered (p # ps) i \<longleftrightarrow> fst p \<le> i \<and> i < fst p + length (snd p) \<or> covered ps i"
  by (cases p) (simp add: covered_def)

lemma covered_Nil [simp]: "\<not> covered [] i"
  by (simp add: covered_def)

lemma covered_sort [simp]: "covered (sort_key f ps) = covered ps"
  by (simp add: covered_def fun_eq_iff)

lemma pieces_of_Cons [simp]:
  "pieces_of s (p # ps) \<longleftrightarrow> fst p + length (snd p) \<le> length s \<and>
     snd p = take (length (snd p)) (drop (fst p) s) \<and> pieces_of s ps"
  by (cases p) (simp add: pieces_of_def)

lemma pieces_of_sort [simp]: "pieces_of s (sort_key f ps) = pieces_of s ps"
  by (simp add: pieces_of_def)

lemma take_overlap:
  assumes "off \<le> n" "n < off + length d" "off + length d \<le> length s" "d = take (length d) (drop off s)"
  shows "take n s @ drop (n - off) d = take (off + length d) s"
proof -
  have "drop (n - off) d = take (off + length d - n) (drop n s)"
    using arg_cong [OF assms(4), of "drop (n - off)"] assms(1,2) by (simp add: drop_take add.commute)
  then show ?thesis
    using assms(1,2) take_add [of n "off + length d - n" s] by simp
qed

lemma assemble_loop_prefix:
  assumes "sorted (map fst ps)" and "pieces_of s ps" and "n \<le> length s"
  shows "\<exists>m. n \<le> m \<and> m \<le> length s \<and> assemble_loop ps (take n s) = take m s \<and>
             (\<forall>i. n \<le> i \<longrightarrow> i < m \<longrightarrow> covered ps i) \<and> \<not> covered ps m"
  using assms
proof (induction ps arbitrary: n)
  case Nil
  then show ?case by (intro exI [of _ n]) auto
next
  case (Cons p ps)
  obtain off d where p: "p = (off, d)" by (cases p)
  have later: "off \<le> off'" if "(off', d') \<in> set ps" for off' d'
    using that Cons.prems(1) by (force simp: p)
  show ?case
  proof (cases "n < off")
    case True
    then have "\<not> covered (p # ps) n" using later by (force simp: p covered_def)
    with True Cons.prems(3) show ?thesis by (intro exI [of _ n]) (simp add: p)
  next
    case False
    define n' where "n' = max n (off + length d)"
    have step: "assemble_loop (p # ps) (take n s) = assemble_loop ps (take n' s)"
    proof (cases "n < off + length d")
      case True
      then show ?thesis
        using False Cons.prems(2,3) take_overlap [of off n d s] by (simp add: p n'_def Let_def)
    next
      case n: False
      then show ?thesis using False Cons.prems(3) by (simp add: p n'_def Let_def) linarith
    qed
    have "n' \<le> length s" using Cons.prems(2,3) by (simp add: p n'_def)
    then obtain m where m: "n' \<le> m" "m \<le> length s" "assemble_loop ps (take n' s) = take m s"
      "\<forall>i. n' \<le> i \<longrightarrow> i < m \<longrightarrow> covered ps i" "\<not> covered ps m"
      using Cons.IH [of n'] Cons.prems(1,2) by auto
    moreover have "\<forall>i. n \<le> i \<longrightarrow> i < m \<longrightarrow> covered (p # ps) i"
      using False m(4) by (auto simp: p n'_def)
    moreover have "\<not> covered (p # ps) m"
      using m(1,5) by (auto simp: p n'_def)
    moreover have "n \<le> m" using m(1) by (simp add: n'_def)
    ultimately show ?thesis unfolding step by blast
  qed
qed

text \<open>The result is the longest prefix of the stream that the fragments cover.\<close>

lemma assemble_crypto_prefix:
  assumes "pieces_of s fragments"
  shows "\<exists>m. assemble_crypto fragments = take m s \<and> m \<le> length s \<and>
             (\<forall>i<m. covered fragments i) \<and> \<not> covered fragments m"
proof -
  have "sorted (map fst (sort_key fst fragments))" by simp
  from assemble_loop_prefix [OF this, of s 0] assms show ?thesis
    by (simp add: assemble_crypto_def) blast
qed

lemma assemble_crypto_complete:
  assumes "pieces_of s fragments" and "\<forall>i<length s. covered fragments i"
  shows "assemble_crypto fragments = s"
  using assemble_crypto_prefix [OF assms(1)] assms(2) by (metis le_neq_implies_less take_all_iff order_refl)

section \<open>ClientHello encoding\<close>

definition encode_extension :: "nat \<times> bytes \<Rightarrow> bytes" where
  "encode_extension = (\<lambda>(t, data). be_bytes 2 t @ be_bytes 2 (length data) @ data)"

definition extension_ok :: "nat \<times> bytes \<Rightarrow> bool" where
  "extension_ok = (\<lambda>(t, data). t < 65536 \<and> length data < 65536)"

definition encode_extensions :: "(nat \<times> bytes) list \<Rightarrow> bytes" where
  "encode_extensions exts = concat (map encode_extension exts)"

text \<open>\<open>preamble\<close> is the two-byte version and the 32 random bytes (RFC 8446, section 4.1.2).\<close>

definition hello_body :: "bytes \<Rightarrow> bytes \<Rightarrow> bytes \<Rightarrow> bytes \<Rightarrow> (nat \<times> bytes) list \<Rightarrow> bytes" where
  "hello_body preamble session ciphers compression exts =
     preamble @ [of_nat (length session)] @ session @ be_bytes 2 (length ciphers) @ ciphers @
     [of_nat (length compression)] @ compression @
     be_bytes 2 (length (encode_extensions exts)) @ encode_extensions exts"

definition client_hello :: "bytes \<Rightarrow> bytes \<Rightarrow> bytes \<Rightarrow> bytes \<Rightarrow> (nat \<times> bytes) list \<Rightarrow> bytes" where
  "client_hello preamble session ciphers compression exts =
     (let body = hello_body preamble session ciphers compression exts
      in [1] @ be_bytes 3 (length body) @ body)"

definition sni_data :: "string \<Rightarrow> bytes" where
  "sni_data name = be_bytes 2 (length name + 3) @ [0] @ be_bytes 2 (length name) @ encode_ascii name"

definition alpn_items :: "string list \<Rightarrow> bytes" where
  "alpn_items protos = concat (map (\<lambda>p. of_nat (length p) # encode_ascii p) protos)"

definition alpn_data :: "string list \<Rightarrow> bytes" where
  "alpn_data protos = be_bytes 2 (length (alpn_items protos)) @ alpn_items protos"

lemma extensions_loop_encoded:
  assumes "\<forall>e\<in>set exts. extension_ok e"
  shows "extensions_loop (pre @ encode_extensions exts) (length pre)
           (length pre + length (encode_extensions exts)) st =
         efold (\<lambda>(t, data). hello_extension t data) exts st"
  using assms
proof (induction exts arbitrary: pre st)
  case Nil
  then show ?case by (subst extensions_loop.simps) (simp add: encode_extensions_def)
next
  case (Cons e exts)
  obtain t d where e: "e = (t, d)" by (cases e)
  with Cons.prems have b: "t < 65536" "length d < 65536" by (simp_all add: extension_ok_def)
  let ?r = "encode_extensions exts"
  let ?X = "encode_extension (t, d)"
  let ?D = "pre @ ?X @ ?r"
  have split: "encode_extensions (e # exts) = ?X @ ?r" by (simp add: encode_extensions_def e)
  have s1: "from_bytes (slice (length pre) (length pre + 2) ?D) = t"
    using b by (simp add: encode_extension_def slice_def)
  have s2: "from_bytes (slice (length pre + 2) (length pre + 4) ?D) = length d"
    using b by (simp add: encode_extension_def slice_def)
  have s3: "slice (length pre + 4) (length pre + 4 + length d) ?D = d"
    by (simp add: encode_extension_def slice_def)
  have lX: "length pre + 4 + length d = length (pre @ ?X)" by (simp add: encode_extension_def)
  have ih: "extensions_loop ?D (length (pre @ ?X)) (length pre + length (?X @ ?r)) =
      efold (\<lambda>(t, data). hello_extension t data) exts"
    using Cons.IH [of "pre @ ?X"] Cons.prems by (simp add: add.assoc fun_eq_iff)
  have "extensions_loop ?D (length pre) (length pre + length (?X @ ?r)) st =
      ebind (hello_extension t d st) (extensions_loop ?D (length (pre @ ?X)) (length pre + length (?X @ ?r)))"
    by (subst extensions_loop.simps)
      (simp only: s1 s2 s3 Let_def, simp only: lX, simp add: encode_extension_def)
  then show ?case unfolding split ih by (simp add: e)
qed

lemma alpn_loop_items:
  assumes "\<forall>p\<in>set protos. is_ascii p \<and> length p < 256"
  shows "alpn_loop (pre @ alpn_items protos) (length pre) acc = Inr (acc @ protos)"
  using assms
proof (induction protos arbitrary: pre acc)
  case Nil
  then show ?case by (subst alpn_loop.simps) (simp add: alpn_items_def)
next
  case (Cons p protos)
  let ?D = "pre @ of_nat (length p) # encode_ascii p @ alpn_items protos"
  have split: "alpn_items (p # protos) = of_nat (length p) # encode_ascii p @ alpn_items protos"
    by (simp add: alpn_items_def)
  have n: "unat (?D ! length pre) = length p" using Cons.prems by simp
  have s: "slice (length pre + 1) (length pre + 1 + length p) ?D = encode_ascii p"
    by (simp add: slice_def)
  have ih: "alpn_loop ?D (length pre + 1 + length p) (acc @ [p]) = Inr (acc @ [p] @ protos)"
    using Cons.IH [of "pre @ of_nat (length p) # encode_ascii p" "acc @ [p]"] Cons.prems by simp
  have "is_ascii p" using Cons.prems by simp
  then show ?case
    unfolding split by (subst alpn_loop.simps) (simp only: n s Let_def, simp add: ih [simplified])
qed

lemma hello_extension_alpn:
  "\<forall>p\<in>set protos. is_ascii p \<and> length p < 256 \<Longrightarrow>
     hello_extension 16 (alpn_data protos) (sn, al) = Inr (sn, al @ protos)"
  using alpn_loop_items [of protos "be_bytes 2 (length (alpn_items protos))" al]
  by (simp add: hello_extension_def alpn_data_def)

lemma hello_extension_sni:
  assumes "is_ascii name" "length name < 65536"
  shows "hello_extension 0 (sni_data name) (sn, al) = Inr (rstrip_dot (casefold name), al)"
proof -
  have "slice 3 5 (sni_data name) = be_bytes 2 (length name)"
    by (simp add: sni_data_def slice_def)
  moreover have "slice 5 (5 + length name) (sni_data name) = encode_ascii name"
    by (simp add: sni_data_def slice_def)
  ultimately show ?thesis using assms by (simp add: hello_extension_def) (simp add: sni_data_def)
qed

lemma hello_extension_other:
  "t \<noteq> 0 \<Longrightarrow> t \<noteq> 16 \<Longrightarrow> hello_extension t data st = Inr st"
  by (cases st) (simp add: hello_extension_def)

lemma efold_other_extensions:
  "\<forall>e\<in>set exts. fst e \<noteq> 0 \<and> fst e \<noteq> 16 \<Longrightarrow>
     efold (\<lambda>(t, data). hello_extension t data) exts st = Inr st"
  by (induction exts) (auto simp: hello_extension_other)

definition hello_sizes_ok :: "bytes \<Rightarrow> bytes \<Rightarrow> bytes \<Rightarrow> bytes \<Rightarrow> (nat \<times> bytes) list \<Rightarrow> bool" where
  "hello_sizes_ok preamble session ciphers compression exts \<longleftrightarrow>
     length preamble = 34 \<and> length session < 256 \<and> length ciphers < 65536 \<and> length compression < 256 \<and>
     (\<forall>e\<in>set exts. extension_ok e) \<and> length (encode_extensions exts) < 65536"

lemma parse_client_hello_encoded:
  assumes ok: "hello_sizes_ok pre ses cip cmp exts"
  shows "parse_client_hello (client_hello pre ses cip cmp exts @ rest) =
    ebind (efold (\<lambda>(t, data). hello_extension t data) exts ([], [])) (\<lambda>st.
      if fst st = [] then Inl (Quic_Parse ''ClientHello does not contain SNI'') else Inr st)"
proof -
  let ?B = "hello_body pre ses cip cmp exts" and ?E = "encode_extensions exts"
  let ?D = "client_hello pre ses cip cmp exts @ rest"
  have sz: "length pre = 34" "length ses < 256" "length cip < 65536" "length cmp < 256"
    "length ?E < 65536" and ex: "\<forall>e\<in>set exts. extension_ok e"
    using ok by (auto simp: hello_sizes_ok_def)
  have lb: "length ?B < 256 ^ 3" using sz by (simp add: hello_body_def)
  have len: "from_bytes (slice 1 4 ?D) = length ?B"
    using lb by (simp add: client_hello_def Let_def slice_def)
  have body: "slice 4 (4 + length ?B) ?D = ?B"
    by (simp add: client_hello_def Let_def slice_def)
  have head: "\<not> (length ?D < 4 \<or> ?D ! 0 \<noteq> 1)" by (simp add: client_hello_def Let_def)
  have b1: "py_nth Index_Error ?B 34 = Inr (of_nat (length ses))"
    using sz(1) by (simp add: hello_body_def nth_append)
  have u1: "unat (of_nat (length ses) :: byte) = length ses" using sz(2) by simp
  let ?o1 = "35 + length ses"
  have b2: "from_bytes (slice ?o1 (?o1 + 2) ?B) = length cip"
    using sz(1,3) by (simp add: hello_body_def slice_def)
  let ?o2 = "?o1 + 2 + length cip"
  have b3: "py_nth Index_Error ?B ?o2 = Inr (of_nat (length cmp))"
    using sz(1) by (simp add: hello_body_def nth_append)
  have u2: "unat (of_nat (length cmp) :: byte) = length cmp" using sz(4) by simp
  let ?o3 = "?o2 + 1 + length cmp"
  have b4: "from_bytes (slice ?o3 (?o3 + 2) ?B) = length ?E"
  proof -
    let ?p = "pre @ [of_nat (length ses)] @ ses @ be_bytes 2 (length cip) @ cip @
       [of_nat (length cmp)] @ cmp"
    have "slice ?o3 (?o3 + 2) (?p @ be_bytes 2 (length ?E) @ ?E) = be_bytes 2 (length ?E)"
      by (rule slice_append') (use sz(1) in simp_all)
    moreover have "?B = ?p @ be_bytes 2 (length ?E) @ ?E" by (simp add: hello_body_def)
    ultimately show ?thesis using sz(5) by (simp only: from_be_bytes) simp
  qed
  let ?pre = "pre @ [of_nat (length ses)] @ ses @ be_bytes 2 (length cip) @ cip @
     [of_nat (length cmp)] @ cmp @ be_bytes 2 (length ?E)"
  have "?B = ?pre @ ?E" and "?o3 + 2 = length ?pre"
    using sz(1) by (simp_all add: hello_body_def)
  then have loop: "extensions_loop ?B (?o3 + 2) (?o3 + 2 + length ?E) ([], []) =
      efold (\<lambda>(t, data). hello_extension t data) exts ([], [])"
    by (simp only: extensions_loop_encoded [OF ex])
  show ?thesis
    unfolding parse_client_hello_def Let_def len body b1 ebind.simps u1 b2 b3 u2 b4 loop
    using head by simp
qed

section \<open>From frames to the server name\<close>

fun crypto_parts :: "quic_frame list \<Rightarrow> (nat \<times> bytes) list" where
  "crypto_parts [] = []"
| "crypto_parts (Crypto off data # fs) = (off, data) # crypto_parts fs"
| "crypto_parts (_ # fs) = crypto_parts fs"

lemma fold_store_frame:
  "fold store_frame fs d = dict_update d (crypto_parts fs)"
  by (induction fs arbitrary: d rule: crypto_parts.induct) (auto simp: dict_update_def)

lemma dict_update_set:
  assumes "dict_ok e"
  shows "set (dict_update [] e) = set e"
proof -
  have "dict_ok (dict_update [] e)" by simp
  then have "(k, v) \<in> set (dict_update [] e) \<longleftrightarrow> (k, v) \<in> set e" for k v
    using dict_get_in_set [of "dict_update [] e" k v] dict_get_in_set [OF assms, of k v]
      dict_get_update [OF assms, of "[]" k]
    by (auto split: option.splits)
  then show ?thesis by auto
qed

lemma assemble_crypto_frames:
  assumes "distinct (map fst (crypto_parts fs))" and "pieces_of s (crypto_parts fs)"
    and "\<forall>i<length s. covered (crypto_parts fs) i"
  shows "assemble_crypto (fold store_frame fs []) = s"
proof -
  have "set (fold store_frame fs []) = set (crypto_parts fs)"
    using assms(1) by (simp add: fold_store_frame dict_update_set dict_ok_def)
  then show ?thesis
    using assms(2,3) by (intro assemble_crypto_complete) (simp_all add: pieces_of_def covered_def)
qed

definition hello_extensions ::
  "(nat \<times> bytes) list \<Rightarrow> string \<Rightarrow> (nat \<times> bytes) list \<Rightarrow> string list \<Rightarrow> (nat \<times> bytes) list \<Rightarrow> (nat \<times> bytes) list"
where
  "hello_extensions before name between protos after =
     before @ [(0, sni_data name)] @ between @ [(16, alpn_data protos)] @ after"

definition plain_extensions :: "(nat \<times> bytes) list \<Rightarrow> bool" where
  "plain_extensions exts \<longleftrightarrow> (\<forall>e\<in>set exts. fst e \<noteq> 0 \<and> fst e \<noteq> 16)"

definition names_ok :: "string \<Rightarrow> string list \<Rightarrow> bool" where
  "names_ok name protos \<longleftrightarrow> is_ascii name \<and> length name < 65536 \<and> rstrip_dot name \<noteq> [] \<and>
     (\<forall>p\<in>set protos. is_ascii p \<and> length p < 256)"

lemma parse_hello_names:
  assumes sizes: "hello_sizes_ok pre ses cip cmp (hello_extensions before name between protos after)"
    and plain: "plain_extensions before" "plain_extensions between" "plain_extensions after"
    and names: "names_ok name protos"
  shows "parse_client_hello
      (client_hello pre ses cip cmp (hello_extensions before name between protos after) @ rest) =
    Inr (rstrip_dot (casefold name), protos)"
proof -
  have "efold (\<lambda>(t, data). hello_extension t data) (hello_extensions before name between protos after) ([], []) =
      Inr (rstrip_dot (casefold name), protos)"
    using plain names
    by (simp add: hello_extensions_def efold_append efold_other_extensions plain_extensions_def
        hello_extension_sni hello_extension_alpn names_ok_def)
  moreover have "rstrip_dot (casefold name) \<noteq> []"
    using names by (metis casefold_rstrip_dot casefold_Nil_iff names_ok_def)
  ultimately show ?thesis by (simp add: parse_client_hello_encoded [OF sizes])
qed

lemma inspect_sni_protected:
  assumes crypto: "\<And>k m. length (hmac_sha256 C k m) = 32" "\<And>k s. length (aes_ecb C k s) = 16"
      "\<And>k n p a. gcm_decrypt C k n (seal k n p a) a = Some p"
      "\<And>k n p a. length (seal k n p a) = length p + 16"
    and packet: "version \<in> {quic_v1, quic_v2}" "first AND 0x80 \<noteq> 0"
      "length dcid < 256" "length scid < 256" "length token < 2 ^ 62" "length (encode_frames fs @ tail) < 2 ^ 61"
      "pn < 256 ^ (unat (first AND 3) + 1)" "4 \<le> unat (first AND 3) + 1 + length (encode_frames fs @ tail)"
      "40 \<le> length (protect_initial C seal first version dcid scid token pn (encode_frames fs @ tail) @ rest)"
    and frames: "\<forall>f\<in>set fs. frame_ok f" "scan_stops tail" "distinct (map fst (crypto_parts fs))"
      "pieces_of stream (crypto_parts fs)" "\<forall>i<length stream. covered (crypto_parts fs) i"
    and hello: "stream = client_hello pre ses cip cmp (hello_extensions before name between protos after)"
      "hello_sizes_ok pre ses cip cmp (hello_extensions before name between protos after)"
      "plain_extensions before" "plain_extensions between" "plain_extensions after" "names_ok name protos"
  shows "inspect_sni C (protect_initial C seal first version dcid scid token pn (encode_frames fs @ tail) @ rest) =
    Inr (rstrip_dot (casefold name), protos)"
proof -
  have "decrypt_initial C
      (protect_initial C seal first version dcid scid token pn (encode_frames fs @ tail) @ rest) =
      Inr (encode_frames fs @ tail)"
    using crypto packet by (rule decrypt_protect)
  moreover have "crypto_fragments (encode_frames fs @ tail) = Inr (fold store_frame fs [])"
    using frames(1,2) by (rule crypto_fragments_frames)
  moreover have "assemble_crypto (fold store_frame fs []) = stream"
    using frames(3-5) by (rule assemble_crypto_frames)
  moreover have "parse_client_hello stream = Inr (rstrip_dot (casefold name), protos)"
    using parse_hello_names [OF hello(2-6), of "[]"] hello(1) by simp
  ultimately show ?thesis by (simp add: inspect_sni_def)
qed

section \<open>Properties\<close>

text \<open>Reading a variable-length integer back: at the place where the shortest encoding of a
  value below 2^62 was written, \<open>_varint\<close> returns the value and the offset of the next byte.\<close>

theorem varint_roundtrip:
  assumes "v < 2 ^ 62"
  shows "varint (pre @ encode_varint v @ rest) (length pre) = Inr (v, length pre + length (encode_varint v))"
  using assms by (rule varint_encode)

theorem varint_roundtrip_witness:
  "varint ([0xC0] @ encode_varint 494878333 @ [7]) (length [0xC0 :: byte]) =
     Inr (494878333, length [0xC0 :: byte] + length (encode_varint 494878333))"
  by (rule varint_roundtrip) simp

text \<open>\<open>_hkdf_expand\<close> computes HKDF-Expand of RFC 5869 for every output length the RFC allows
  (255 hash lengths), and raises for every longer one.\<close>

theorem hkdf_expand_rfc5869:
  assumes "\<And>k m. length (hmac k m) = 32"
  shows "hkdf_expand hmac prk info len =
    (if len \<le> 255 * 32 then Inr (hkdf_spec hmac prk info len) else Inl Value_Error)"
  using assms by (rule hkdf_expand_spec)

definition toy_hmac :: "bytes \<Rightarrow> bytes \<Rightarrow> bytes" where
  "toy_hmac k m = replicate 31 (hd (k @ m @ [1])) @ [of_nat (length m)]"

theorem hkdf_expand_rfc5869_witness:
  "hkdf_expand toy_hmac [3] [5, 6] 42 =
    (if (42 :: nat) \<le> 255 * 32 then Inr (hkdf_spec toy_hmac [3] [5, 6] 42) else Inl Value_Error)"
  by (rule hkdf_expand_rfc5869) (simp add: toy_hmac_def)

text \<open>C26. Decryption undoes protection: whatever a client seals into an Initial packet, for both QUIC
  versions, every packet-number length and every token, \<open>decrypt_initial\<close> returns, also when other
  packets follow in the datagram. AES-GCM is assumed to open what it sealed and to add a 16-byte tag.\<close>

theorem initial_packet_roundtrip:
  assumes "\<And>k m. length (hmac_sha256 C k m) = 32" and "\<And>k s. length (aes_ecb C k s) = 16"
    and "\<And>k n p a. gcm_decrypt C k n (seal k n p a) a = Some p"
    and "\<And>k n p a. length (seal k n p a) = length p + 16"
    and "version \<in> {quic_v1, quic_v2}" and "first AND 0x80 \<noteq> 0"
    and "length dcid < 256" "length scid < 256" "length token < 2 ^ 62" "length payload < 2 ^ 61"
    and "pn < 256 ^ (unat (first AND 3) + 1)" and "4 \<le> unat (first AND 3) + 1 + length payload"
    and "40 \<le> length (protect_initial C seal first version dcid scid token pn payload @ rest)"
  shows "decrypt_initial C (protect_initial C seal first version dcid scid token pn payload @ rest) = Inr payload"
  using assms by (rule decrypt_protect)

definition toy_crypto :: quic_crypto where
  "toy_crypto = \<lparr>hmac_sha256 = toy_hmac, aes_ecb = (\<lambda>k s. replicate 16 (of_nat (length k))),
     gcm_decrypt = (\<lambda>k n c a. if length c < 16 then None else Some (take (length c - 16) c))\<rparr>"

definition toy_seal :: "bytes \<Rightarrow> bytes \<Rightarrow> bytes \<Rightarrow> bytes \<Rightarrow> bytes" where
  "toy_seal k n p a = p @ replicate 16 0"

theorem initial_packet_roundtrip_witness:
  "decrypt_initial toy_crypto
     (protect_initial toy_crypto toy_seal 0xC3 quic_v1 [1, 2, 3] [] [9] 7 [6, 0, 1, 1] @ replicate 40 0) =
   Inr [6, 0, 1, 1]"
  by (rule initial_packet_roundtrip) (simp_all add: toy_crypto_def toy_hmac_def toy_seal_def)

text \<open>Reassembly is exact: when every fragment is a piece of the client's handshake stream, in
  whatever order and with whatever overlap the pieces came, \<open>assemble_crypto\<close> returns the longest
  prefix of the stream all of whose bytes have arrived.\<close>

theorem assemble_longest_prefix:
  assumes "pieces_of stream fragments"
  shows "\<exists>m. assemble_crypto fragments = take m stream \<and> m \<le> length stream \<and>
             (\<forall>i<m. covered fragments i) \<and> \<not> covered fragments m"
  using assms by (rule assemble_crypto_prefix)

theorem assemble_longest_prefix_witness:
  "\<exists>m. assemble_crypto [(3, [4, 5]), (0, [1, 2, 3, 4 :: byte])] = take m [1, 2, 3, 4, 5] \<and>
       m \<le> length [1, 2, 3, 4, 5 :: byte] \<and>
       (\<forall>i<m. covered [(3, [4, 5]), (0, [1, 2, 3, 4 :: byte])] i) \<and>
       \<not> covered [(3, [4, 5]), (0, [1, 2, 3, 4 :: byte])] m"
  by (rule assemble_longest_prefix) (simp add: pieces_of_def)

text \<open>C25. End to end: for an Initial packet whose CRYPTO frames carry, in any order and split, a
  ClientHello with a server name and a list of protocols, \<open>inspect_sni\<close> returns that name, case-folded
  and without trailing dots, and the protocols in the client's order, whatever other extensions,
  frames before and bytes after it the packet has.\<close>

theorem inspect_sni_roundtrip:
  assumes crypto: "\<And>k m. length (hmac_sha256 C k m) = 32" "\<And>k s. length (aes_ecb C k s) = 16"
      "\<And>k n p a. gcm_decrypt C k n (seal k n p a) a = Some p"
      "\<And>k n p a. length (seal k n p a) = length p + 16"
    and packet: "version \<in> {quic_v1, quic_v2}" "first AND 0x80 \<noteq> 0"
      "length dcid < 256" "length scid < 256" "length token < 2 ^ 62" "length (encode_frames fs @ tail) < 2 ^ 61"
      "pn < 256 ^ (unat (first AND 3) + 1)" "4 \<le> unat (first AND 3) + 1 + length (encode_frames fs @ tail)"
      "40 \<le> length (protect_initial C seal first version dcid scid token pn (encode_frames fs @ tail) @ rest)"
    and frames: "\<forall>f\<in>set fs. frame_ok f" "scan_stops tail" "distinct (map fst (crypto_parts fs))"
      "pieces_of stream (crypto_parts fs)" "\<forall>i<length stream. covered (crypto_parts fs) i"
    and hello: "stream = client_hello pre ses cip cmp (hello_extensions before name between protos after)"
      "hello_sizes_ok pre ses cip cmp (hello_extensions before name between protos after)"
      "plain_extensions before" "plain_extensions between" "plain_extensions after" "names_ok name protos"
  shows "inspect_sni C (protect_initial C seal first version dcid scid token pn (encode_frames fs @ tail) @ rest) =
    Inr (rstrip_dot (casefold name), protos)"
  by (rule inspect_sni_protected [OF crypto packet frames hello])

definition toy_hello :: bytes where
  "toy_hello = client_hello (replicate 34 0) [] [0, 1] [0]
     (hello_extensions [] ''Example.COM.'' [(43, [2])] [''h3''] [])"

theorem inspect_sni_roundtrip_witness:
  "inspect_sni toy_crypto (protect_initial toy_crypto toy_seal 0xC0 quic_v2 [1, 2, 3] [] [] 7
     (encode_frames [Ping, Crypto 4 (drop 4 toy_hello), Padding, Crypto 0 (take 4 toy_hello)] @ []) @ replicate 40 0) =
   Inr (rstrip_dot (casefold ''Example.COM.''), [''h3''])"
proof (rule inspect_sni_roundtrip [where stream = toy_hello])
  have l: "length toy_hello = 82"
    by (simp add: toy_hello_def client_hello_def hello_body_def hello_extensions_def encode_extensions_def
        encode_extension_def sni_data_def alpn_data_def alpn_items_def)
  show "toy_hello = client_hello (replicate 34 0) [] [0, 1] [0]
     (hello_extensions [] ''Example.COM.'' [(43, [2])] [''h3''] [])" by (rule toy_hello_def)
  show "\<forall>i<length toy_hello.
      covered (crypto_parts [Ping, Crypto 4 (drop 4 toy_hello), Padding, Crypto 0 (take 4 toy_hello)]) i"
    by (auto simp: l)
  show "names_ok ''Example.COM.'' [''h3'']"
    by (simp add: names_ok_def is_ascii_def char_nat_def rstrip_dot_def rstrip_by_def)
qed (simp_all add: toy_crypto_def toy_hmac_def toy_seal_def encode_frames_def scan_stops_def pieces_of_def
    plain_extensions_def hello_sizes_ok_def hello_extensions_def extension_ok_def
    encode_extensions_def encode_extension_def sni_data_def alpn_data_def alpn_items_def toy_hello_def
    client_hello_def hello_body_def encode_varint_def varint_class_def)

end
