(* ===== verification/Py_Value.thy ===== *)
theory Py_Value
  imports Py_Text
begin

text \<open>
  Dynamically typed values: the JSON documents and database columns that the code passes around as
  \<open>dict[str, Any]\<close>. Floats do not occur in the modelled code and are left out. Exceptions carry
  the message the code gives them.
\<close>

datatype pyval = PNone | PBool bool | PInt int | PStr string | PList "pyval list"
  | PDict "(string \<times> pyval) list"

datatype py_error = ValueError string | TypeError string | KeyError string | AttributeError string
  | AuthorizationError string | OwnershipError string | DomainValidationError string | CollisionError string | OSError string | RuntimeError string | LookupError string | PermissionError string

type_synonym payload = "(string, pyval) dict"

fun truthy :: "pyval \<Rightarrow> bool" where
  "truthy PNone \<longleftrightarrow> False"
| "truthy (PBool b) \<longleftrightarrow> b"
| "truthy (PInt i) \<longleftrightarrow> i \<noteq> 0"
| "truthy (PStr s) \<longleftrightarrow> s \<noteq> []"
| "truthy (PList xs) \<longleftrightarrow> xs \<noteq> []"
| "truthy (PDict d) \<longleftrightarrow> d \<noteq> []"

text \<open>\<open>bool\<close> is a subclass of \<open>int\<close>: \<open>True == 1\<close>.\<close>

fun num_val :: "pyval \<Rightarrow> int option" where
  "num_val (PInt i) = Some i"
| "num_val (PBool b) = Some (of_bool b)"
| "num_val _ = None"

text \<open>\<open>int(x)\<close>.\<close>

fun py_int :: "pyval \<Rightarrow> py_error + int" where
  "py_int (PInt i) = Inr i"
| "py_int (PBool b) = Inr (of_bool b)"
| "py_int (PStr s) = note_none (ValueError ''invalid literal for int()'') (parse_int s)"
| "py_int _ = Inl (TypeError ''int() argument must be a string or a number'')"

text \<open>\<open>repr\<close> and \<open>str\<close>.\<close>

definition escape_char :: "char \<Rightarrow> char \<Rightarrow> string" where
  "escape_char quote c =
     (if c = quote \<or> c = CHR 0x5C then [CHR 0x5C, c]
      else if char_nat c = 10 then [CHR 0x5C, CHR ''n'']
      else if char_nat c = 13 then [CHR 0x5C, CHR ''r'']
      else if char_nat c = 9 then [CHR 0x5C, CHR ''t'']
      else if char_nat c < 32 \<or> 127 \<le> char_nat c
      then [CHR 0x5C, CHR ''x''] @ hex_digits 2 (char_nat c)
      else [c])"

definition str_repr :: "string \<Rightarrow> string" where
  "str_repr s =
     (let quote = (if CHR 0x27 \<in> set s \<and> CHR 0x22 \<notin> set s
                   then CHR 0x22 else CHR 0x27)
      in [quote] @ concat (map (escape_char quote) s) @ [quote])"

fun py_repr :: "pyval \<Rightarrow> string" where
  "py_repr PNone = ''None''"
| "py_repr (PBool b) = (if b then ''True'' else ''False'')"
| "py_repr (PInt i) = int_str i"
| "py_repr (PStr s) = str_repr s"
| "py_repr (PList xs) = ''['' @ join '', '' (map py_repr xs) @ '']''"
| "py_repr (PDict d) = ''{'' @ join '', '' (map (\<lambda>(k, v). str_repr k @ '': '' @ py_repr v) d) @ ''}''"

fun py_str :: "pyval \<Rightarrow> string" where
  "py_str (PStr s) = s"
| "py_str v = py_repr v"

text \<open>\<open>x or y\<close>, and \<open>d.get(key)\<close> on a dictionary.\<close>

definition py_or :: "pyval \<Rightarrow> pyval \<Rightarrow> pyval" where
  "py_or x y = (if truthy x then x else y)"

definition pget :: "string \<Rightarrow> payload \<Rightarrow> pyval" where
  "pget k d = dict_get_or d k PNone"

text \<open>\<open>for x in v\<close> and \<open>v.get(key, default)\<close>, which raise on values of another type.\<close>

fun py_iter :: "pyval \<Rightarrow> py_error + pyval list" where
  "py_iter (PList xs) = Inr xs"
| "py_iter (PDict d) = Inr (map (\<lambda>p. PStr (fst p)) d)"
| "py_iter (PStr s) = Inr (map (\<lambda>c. PStr [c]) s)"
| "py_iter _ = Inl (TypeError ''object is not iterable'')"

fun py_get :: "string \<Rightarrow> pyval \<Rightarrow> pyval \<Rightarrow> py_error + pyval" where
  "py_get key dflt (PDict d) = Inr (dict_get_or d key dflt)"
| "py_get key dflt _ = Inl (AttributeError ''get'')"

fun as_str :: "pyval \<Rightarrow> string option" where
  "as_str (PStr s) = Some s"
| "as_str _ = None"

fun as_list :: "pyval \<Rightarrow> pyval list option" where
  "as_list (PList xs) = Some xs"
| "as_list _ = None"

fun as_dict :: "pyval \<Rightarrow> payload option" where
  "as_dict (PDict d) = Some d"
| "as_dict _ = None"

section \<open>Fields of pydantic models\<close>

text \<open>
  How pydantic, in its default mode, reads a field of type \<open>int\<close>, \<open>str\<close>, \<open>bool\<close> or \<open>dict[str, Any]\<close>
  from a value, as its documentation gives it. A failed field is a \<open>ValidationError\<close>, which is a \<open>ValueError\<close>.
\<close>

fun field_int :: "pyval \<Rightarrow> py_error + int" where
  "field_int (PInt i) = Inr i"
| "field_int (PBool b) = Inr (of_bool b)"
| "field_int (PStr s) = note_none (ValueError ''int_parsing'') (parse_int s)"
| "field_int _ = Inl (ValueError ''int_type'')"

fun field_str :: "pyval \<Rightarrow> py_error + string" where
  "field_str (PStr s) = Inr s"
| "field_str _ = Inl (ValueError ''string_type'')"

fun field_bool :: "pyval \<Rightarrow> py_error + bool" where
  "field_bool (PBool b) = Inr b"
| "field_bool (PInt i) = (if i = 0 then Inr False else if i = 1 then Inr True else Inl (ValueError ''bool_parsing''))"
| "field_bool (PStr s) =
     (if casefold s \<in> set [''1'', ''on'', ''t'', ''true'', ''y'', ''yes''] then Inr True
      else if casefold s \<in> set [''0'', ''off'', ''f'', ''false'', ''n'', ''no''] then Inr False
      else Inl (ValueError ''bool_parsing''))"
| "field_bool _ = Inl (ValueError ''bool_type'')"

fun field_dict :: "pyval \<Rightarrow> py_error + payload" where
  "field_dict (PDict d) = Inr d"
| "field_dict _ = Inl (ValueError ''dict_type'')"

text \<open>A field with a default, and a field without one.\<close>

definition optional_field :: "(pyval \<Rightarrow> py_error + 'a) \<Rightarrow> 'a \<Rightarrow> string \<Rightarrow> payload \<Rightarrow> py_error + 'a" where
  "optional_field f dflt key d = (case dict_get d key of None \<Rightarrow> Inr dflt | Some v \<Rightarrow> f v)"

definition required_field :: "(pyval \<Rightarrow> py_error + 'a) \<Rightarrow> string \<Rightarrow> payload \<Rightarrow> py_error + 'a" where
  "required_field f key d = (case dict_get d key of None \<Rightarrow> Inl (ValueError ''missing'') | Some v \<Rightarrow> f v)"

lemma field_str_iff [simp]: "field_str v = Inr s \<longleftrightarrow> v = PStr s"
  by (cases v) auto

lemma num_val_bool [simp]: "num_val (PBool b) = Some i \<longleftrightarrow> i = of_bool b"
  by auto

lemma as_str_Some [simp]: "as_str v = Some s \<longleftrightarrow> v = PStr s"
  by (cases v) auto

lemma as_list_Some [simp]: "as_list v = Some s \<longleftrightarrow> v = PList s"
  by (cases v) auto

lemma as_dict_Some [simp]: "as_dict v = Some s \<longleftrightarrow> v = PDict s"
  by (cases v) auto

lemma truthy_str [simp]: "v = PStr s \<Longrightarrow> truthy v \<longleftrightarrow> s \<noteq> []"
  by simp

section \<open>Tables\<close>

text \<open>A table is the list of its rows in the order of their ids; a new row gets the id after the greatest one, as
  SQLite gives it.\<close>

definition next_id :: "('a \<Rightarrow> int) \<Rightarrow> 'a list \<Rightarrow> int" where
  "next_id key rows = 1 + fold max (map key rows) 0"

definition update_where :: "('a \<Rightarrow> bool) \<Rightarrow> ('a \<Rightarrow> 'a) \<Rightarrow> 'a list \<Rightarrow> 'a list" where
  "update_where p f rows = map (\<lambda>r. if p r then f r else r) rows"

text \<open>\<open>dict(x or {})\<close> on the values a JSON object field has.\<close>

definition dict_or_empty :: "pyval \<Rightarrow> py_error + payload" where
  "dict_or_empty v = (if truthy v then note_none (TypeError ''dict()'') (as_dict v) else Inr [])"

definition required_text :: "string \<Rightarrow> payload \<Rightarrow> py_error + string" where
  "required_text key p = map_sum id py_str (note_none (KeyError key) (dict_get p key))"

lemma fold_max: "(\<forall>x\<in>set xs. x \<le> fold max xs (a::int)) \<and> a \<le> fold max xs a"
proof (induction xs arbitrary: a)
  case (Cons x xs)
  from Cons.IH [of "max x a"] show ?case by auto
qed simp

lemma next_id_fresh: "next_id key rows \<notin> key ` set rows"
  using fold_max [of "map key rows" 0] by (fastforce simp: next_id_def)

lemma map_update_where: "(\<And>r. p r \<Longrightarrow> key (f r) = key r) \<Longrightarrow> map key (update_where p f rows) = map key rows"
  by (simp add: update_where_def)

end
