(* ===== verification/Quic_Router.thy ===== *)
theory Quic_Router
  imports Complex_Main Quic_Wire Py_Value
begin

text \<open>
  The state half of \<open>runtime/quic_router.py\<close>: \<open>Route\<close>, \<open>Session\<close>, the protocol that receives from
  an upstream and \<open>QuicRouter\<close> with its session indexes, its pending Initial packets, the pause of
  public ingress and its two periodic tasks. The event loop runs one callback at a time, so every
  callback, and every stretch of the coroutine \<open>_open\<close> between two \<open>await\<close>s, is one function on the
  state; the step relation interleaves them freely. \<open>time.monotonic()\<close> is an argument. Packets that
  the router sends and upstream sockets that it closes are appended to the trace \<open>outputs\<close>; log
  messages are left out. A dictionary or set of the code is a list with distinct keys.
\<close>

declare split_paired_All [simp del] split_paired_Ex [simp del]

section \<open>State\<close>

type_synonym addr = "string \<times> int"
type_synonym session_key = "addr \<times> bytes"

record route =
  rt_server_name :: string
  rt_target :: pyval
  rt_target_port :: pyval
  rt_alpn :: pyval
  rt_idle_timeout :: pyval

record session =
  s_upstream :: nat
  s_timeout :: pyval
  s_client :: addr
  s_client_scid :: bytes
  s_server_cids :: "bytes list"
  s_last_seen :: rat
  s_opened_at :: rat
  s_received :: nat

text \<open>A coroutine \<open>_open\<close>: created by \<open>_spawn\<close>, or waiting in \<open>create_datagram_endpoint\<close>.\<close>

datatype task_phase = Spawned | Connecting

record open_task =
  t_phase :: task_phase
  t_addr :: addr
  t_route :: route
  t_client_scid :: bytes
  t_initial_dcid :: bytes

datatype router_output = Send_Upstream nat bytes | Send_Client addr bytes | Close_Upstream nat

text \<open>\<open>transport\<close> is \<open>None\<close> before \<open>connection_made\<close>, else whether the listener socket is read.\<close>

record router =
  transport :: "bool option"
  sessions :: "(session_key, session) dict"
  sessions_by_addr :: "(addr, session_key list) dict"
  sessions_by_server_cid :: "(bytes, session_key) dict"
  server_cid_length_counts :: "(nat, nat) dict"
  server_cid_lengths :: "nat list"
  pending :: "(session_key, bytes list) dict"
  pending_crypto :: "(session_key, (nat, bytes) dict) dict"
  pending_seen :: "(session_key, rat) dict"
  pending_started :: "(session_key, rat) dict"
  opening_keys :: "session_key list"
  routes :: "(string, route) dict"
  config_mtime :: rat
  tasks :: "(session_key, open_task) dict"
  awaiting_first_upstream :: "session_key list"
  ingress_pause_timers :: "(session_key, rat) dict"
  outputs :: "router_output list"

definition init_router :: router where
  "init_router = \<lparr>transport = None, sessions = [], sessions_by_addr = [], sessions_by_server_cid = [],
     server_cid_length_counts = [], server_cid_lengths = [], pending = [], pending_crypto = [],
     pending_seen = [], pending_started = [], opening_keys = [], routes = [], config_mtime = -1, tasks = [],
     awaiting_first_upstream = [], ingress_pause_timers = [], outputs = []\<rparr>"

definition session_key_of :: "addr \<Rightarrow> bytes \<Rightarrow> session_key" where
  "session_key_of a initial_dcid = (a, initial_dcid)"

definition emit :: "router_output \<Rightarrow> router \<Rightarrow> router" where
  "emit out st = st\<lparr>outputs := outputs st @ [out]\<rparr>"

section \<open>Pausing public ingress\<close>

definition first_upstream_pause_timeout :: rat where
  "first_upstream_pause_timeout = 1 / 4"

definition pause_ingress_for_first_upstream :: "rat \<Rightarrow> session_key \<Rightarrow> router \<Rightarrow> router" where
  "pause_ingress_for_first_upstream now key st =
     (if key \<in> set (awaiting_first_upstream st) then st
      else
        let st1 = st\<lparr>awaiting_first_upstream := set_add key (awaiting_first_upstream st)\<rparr>;
            st2 = (if length (awaiting_first_upstream st1) = 1 \<and> transport st1 \<noteq> None
                   then st1\<lparr>transport := Some False\<rparr> else st1)
        in st2\<lparr>ingress_pause_timers :=
                 dict_set key (now + first_upstream_pause_timeout) (ingress_pause_timers st2)\<rparr>)"

definition release_ingress_pause :: "session_key \<Rightarrow> router \<Rightarrow> router" where
  "release_ingress_pause key st =
     (if key \<notin> set (awaiting_first_upstream st) then st
      else
        let st1 = st\<lparr>awaiting_first_upstream := set_discard key (awaiting_first_upstream st),
                     ingress_pause_timers := dict_pop key (ingress_pause_timers st)\<rparr>
        in if awaiting_first_upstream st1 = [] \<and> transport st1 \<noteq> None
           then st1\<lparr>transport := Some True\<rparr> else st1)"

section \<open>Session indexes\<close>

definition index_server_connection_id :: "session_key \<Rightarrow> bytes \<Rightarrow> router \<Rightarrow> router" where
  "index_server_connection_id key server_scid st =
     (case dict_get (sessions st) key of
        None \<Rightarrow> st
      | Some session \<Rightarrow>
          (case dict_get (sessions_by_server_cid st) server_scid of
             Some owner \<Rightarrow> st
           | None \<Rightarrow>
               let cid_length = length server_scid;
                   counts = dict_set cid_length (dict_get_or (server_cid_length_counts st) cid_length 0 + 1)
                              (server_cid_length_counts st)
               in st\<lparr>sessions := dict_set key
                        (session\<lparr>s_server_cids := set_add server_scid (s_server_cids session)\<rparr>) (sessions st),
                     sessions_by_server_cid := dict_set server_scid key (sessions_by_server_cid st),
                     server_cid_length_counts := counts,
                     server_cid_lengths := rev (sort (map fst counts))\<rparr>))"

definition remove_server_cid_length :: "nat \<Rightarrow> router \<Rightarrow> router" where
  "remove_server_cid_length cid_length st =
     (let count = dict_get_or (server_cid_length_counts st) cid_length 0;
          counts = (if count \<le> 1 then dict_pop cid_length (server_cid_length_counts st)
                    else dict_set cid_length (count - 1) (server_cid_length_counts st))
      in st\<lparr>server_cid_length_counts := counts, server_cid_lengths := rev (sort (map fst counts))\<rparr>)"

definition unindex_server_connection_id :: "session_key \<Rightarrow> bytes \<Rightarrow> router \<Rightarrow> router" where
  "unindex_server_connection_id key server_cid st =
     (if dict_get (sessions_by_server_cid st) server_cid = Some key
      then remove_server_cid_length (length server_cid)
             (st\<lparr>sessions_by_server_cid := dict_pop server_cid (sessions_by_server_cid st)\<rparr>)
      else st)"

definition add_session :: "session_key \<Rightarrow> session \<Rightarrow> router \<Rightarrow> router" where
  "add_session key session st =
     (let st1 = st\<lparr>sessions := dict_set key session (sessions st),
                   sessions_by_addr := dict_set (s_client session)
                     (set_add key (dict_get_or (sessions_by_addr st) (s_client session) []))
                     (sessions_by_addr st)\<rparr>
      in fold (index_server_connection_id key) (s_server_cids session) st1)"

definition discard_from_addr :: "addr \<Rightarrow> session_key \<Rightarrow> router \<Rightarrow> router" where
  "discard_from_addr client key st =
     (case dict_get (sessions_by_addr st) client of
        None \<Rightarrow> st
      | Some keys \<Rightarrow>
          let keys' = set_discard key keys
          in if keys' = [] then st\<lparr>sessions_by_addr := dict_pop client (sessions_by_addr st)\<rparr>
             else st\<lparr>sessions_by_addr := dict_set client keys' (sessions_by_addr st)\<rparr>)"

definition remove_session :: "bool \<Rightarrow> session_key \<Rightarrow> router \<Rightarrow> router" where
  "remove_session close key st =
     (case dict_get (sessions st) key of
        None \<Rightarrow> st
      | Some session \<Rightarrow>
          let st1 = release_ingress_pause key (st\<lparr>sessions := dict_pop key (sessions st)\<rparr>);
              st2 = discard_from_addr (s_client session) key st1;
              st3 = fold (unindex_server_connection_id key) (s_server_cids session) st2
          in if close then emit (Close_Upstream (s_upstream session)) st3 else st3)"

definition register_server_connection_id :: "session_key \<Rightarrow> bytes \<Rightarrow> router \<Rightarrow> router" where
  "register_server_connection_id key datagram st =
     (if datagram = [] \<or> (datagram ! 0) AND 0x80 = 0 then st
      else case initial_connection_ids datagram of
        Inl _ \<Rightarrow> st
      | Inr (_, server_scid) \<Rightarrow>
          if server_scid = [] then st
          else (case dict_get (sessions st) key of
                  None \<Rightarrow> st
                | Some _ \<Rightarrow> index_server_connection_id key server_scid st))"

text \<open>The first length, longest first, whose connection ID belongs to a session of this client.\<close>

fun match_server_cid ::
  "nat list \<Rightarrow> bytes \<Rightarrow> (bytes, session_key) dict \<Rightarrow> session_key list \<Rightarrow> session_key option" where
  "match_server_cid [] data cids keys = None"
| "match_server_cid (n # ns) data cids keys =
     (case dict_get cids (slice 1 (1 + n) data) of
        None \<Rightarrow> match_server_cid ns data cids keys
      | Some key \<Rightarrow> if key \<in> set keys then Some key else match_server_cid ns data cids keys)"

definition session_for_datagram :: "bytes \<Rightarrow> addr \<Rightarrow> router \<Rightarrow> session_key option" where
  "session_for_datagram data client st =
     (if data = [] then None
      else if (data ! 0) AND 0x80 \<noteq> 0 then
        (case initial_connection_ids data of
           Inl _ \<Rightarrow> None
         | Inr (dcid, _) \<Rightarrow>
             let by_dcid = (if session_key_of client dcid \<in> dict_keys (sessions st)
                            then Some (session_key_of client dcid) else None)
             in case dict_get (sessions_by_server_cid st) dcid of
                  None \<Rightarrow> by_dcid
                | Some key \<Rightarrow>
                    (case dict_get (sessions st) key of
                       None \<Rightarrow> by_dcid
                     | Some session \<Rightarrow> if s_client session = client then Some key else by_dcid))
      else
        let keys = dict_get_or (sessions_by_addr st) client []
        in case match_server_cid (server_cid_lengths st) data (sessions_by_server_cid st) keys of
             Some key \<Rightarrow> Some key
           | None \<Rightarrow> if length keys = 1 then Some (hd keys) else None)"

section \<open>Routes\<close>

definition route_fields :: "string list" where
  "route_fields = [''server_name'', ''target'', ''target_port'', ''alpn'', ''idle_timeout_seconds'']"

text \<open>\<open>Route(**raw)\<close> followed by the normalised name it is stored under; the dataclass does not
  check the types of its fields, but \<open>casefold\<close> exists on text only.\<close>

definition route_of_raw :: "pyval \<Rightarrow> py_error + string \<times> route" where
  "route_of_raw raw =
     (case raw of
        PDict d \<Rightarrow>
          if \<not> (\<forall>p\<in>set d. fst p \<in> set route_fields) then Inl (TypeError ''unexpected keyword argument'')
          else
            ebind (note_none (TypeError ''missing argument'') (dict_get d ''server_name'')) (\<lambda>name.
            ebind (note_none (TypeError ''missing argument'') (dict_get d ''target'')) (\<lambda>target.
            ebind (note_none (TypeError ''missing argument'') (dict_get d ''target_port'')) (\<lambda>port.
            ebind (note_none (AttributeError ''casefold'') (as_str name)) (\<lambda>server_name.
              Inr (rstrip_dot (casefold server_name),
                   \<lparr>rt_server_name = server_name, rt_target = target, rt_target_port = port,
                    rt_alpn = dict_get_or d ''alpn'' (PStr ''h3''),
                    rt_idle_timeout = dict_get_or d ''idle_timeout_seconds'' (PInt 1800)\<rparr>)))))
      | _ \<Rightarrow> Inl (TypeError ''argument after ** must be a mapping''))"

definition load_routes :: "pyval \<Rightarrow> py_error + (string, route) dict" where
  "load_routes document =
     ebind (py_get ''listeners'' (PList []) document) (\<lambda>ls.
     ebind (py_iter ls) (\<lambda>listeners.
       efold (\<lambda>listener acc.
           ebind (py_get ''routes'' (PList []) listener) (\<lambda>rs.
           ebind (py_iter rs) (\<lambda>raws.
             efold (\<lambda>raw acc. ebind (route_of_raw raw) (\<lambda>(name, route). Inr (dict_set name route acc)))
               raws acc)))
         listeners []))"

fun reload_retains :: "py_error \<Rightarrow> bool" where
  "reload_retains (OSError _) \<longleftrightarrow> True"
| "reload_retains (ValueError _) \<longleftrightarrow> True"
| "reload_retains (TypeError _) \<longleftrightarrow> True"
| "reload_retains _ \<longleftrightarrow> False"

text \<open>\<open>modified\<close> is what \<open>stat().st_mtime\<close> gives, \<open>document\<close> what reading and parsing the file gives.\<close>

definition reload :: "py_error + rat \<Rightarrow> py_error + pyval \<Rightarrow> router \<Rightarrow> py_error + router" where
  "reload modified document st =
     (case ebind modified (\<lambda>m.
        if m = config_mtime st then Inr st
        else ebind document (\<lambda>doc. ebind (load_routes doc) (\<lambda>rs.
               Inr (st\<lparr>routes := rs, config_mtime := m\<rparr>)))) of
        Inr st' \<Rightarrow> Inr st'
      | Inl e \<Rightarrow> if reload_retains e then Inr st else Inl e)"

definition connection_made :: "py_error + rat \<Rightarrow> py_error + pyval \<Rightarrow> router \<Rightarrow> py_error + router" where
  "connection_made modified document st = reload modified document (st\<lparr>transport := Some True\<rparr>)"

definition connection_lost :: "router \<Rightarrow> router" where
  "connection_lost st =
     fold (\<lambda>(key, session). emit (Close_Upstream (s_upstream session))) (sessions st)
       (st\<lparr>ingress_pause_timers := [], awaiting_first_upstream := [], tasks := [],
           opening_keys := filter (\<lambda>key. case dict_get (tasks st) key of
              Some t \<Rightarrow> t_phase t = Spawned | None \<Rightarrow> True) (opening_keys st)\<rparr>)"

section \<open>Datagrams from clients\<close>

definition drop_pending :: "session_key \<Rightarrow> router \<Rightarrow> router" where
  "drop_pending key st =
     st\<lparr>pending := dict_pop key (pending st), pending_crypto := dict_pop key (pending_crypto st),
        pending_seen := dict_pop key (pending_seen st), pending_started := dict_pop key (pending_started st)\<rparr>"

text \<open>The body of the \<open>try\<close> and what follows it. An exception leaves the state it was raised in:
  \<open>QuicParseError\<close>, \<open>IndexError\<close> and \<open>UnicodeError\<close> are caught, any other goes to the event loop.\<close>

definition inspect_pending ::
  "quic_crypto \<Rightarrow> bytes \<Rightarrow> addr \<Rightarrow> bytes \<Rightarrow> bytes \<Rightarrow> router \<Rightarrow> router" where
  "inspect_pending C data client initial_dcid client_scid st =
     (let key = session_key_of client initial_dcid in
      case ebind (decrypt_initial C data) crypto_fragments of
        Inl _ \<Rightarrow> st
      | Inr fragments \<Rightarrow>
          let crypto = dict_update (dict_get_or (pending_crypto st) key []) fragments;
              st1 = st\<lparr>pending_crypto := dict_set key crypto (pending_crypto st)\<rparr>
          in case parse_client_hello (assemble_crypto crypto) of
            Inl _ \<Rightarrow> st1
          | Inr (server_name, alpns) \<Rightarrow>
              let st2 = st1\<lparr>pending_crypto := dict_pop key (pending_crypto st1),
                            pending_seen := dict_pop key (pending_seen st1)\<rparr>;
                  refused = st2\<lparr>pending := dict_pop key (pending st2),
                                pending_started := dict_pop key (pending_started st2)\<rparr>
              in case dict_get (routes st) server_name of
                None \<Rightarrow> refused
              | Some route \<Rightarrow>
                  if rt_alpn route \<notin> PStr ` set alpns then refused
                  else st2\<lparr>opening_keys := set_add key (opening_keys st2),
                           tasks := dict_set key \<lparr>t_phase = Spawned, t_addr = client, t_route = route,
                                      t_client_scid = client_scid, t_initial_dcid = initial_dcid\<rparr> (tasks st2)\<rparr>)"

definition receive_initial ::
  "quic_crypto \<Rightarrow> rat \<Rightarrow> bytes \<Rightarrow> addr \<Rightarrow> bytes \<Rightarrow> bytes \<Rightarrow> router \<Rightarrow> router" where
  "receive_initial C now data client initial_dcid client_scid st =
     (let key = session_key_of client initial_dcid in
      if key \<in> set (opening_keys st) then
        let queue = dict_get_or (pending st) key [];
            queue' = (if length queue < 8 then queue @ [data] else queue)
        in st\<lparr>pending := dict_set key queue' (pending st)\<rparr>
      else if key \<notin> dict_keys (pending st) \<and> 2048 \<le> length (pending st) then st
      else
        let queue = dict_get_or (pending st) key [];
            st1 = st\<lparr>pending := dict_setdefault key [] (pending st),
                     pending_started := dict_setdefault key now (pending_started st),
                     pending_seen := dict_set key now (pending_seen st)\<rparr>
        in if 8 \<le> length queue then drop_pending key st1
           else inspect_pending C data client initial_dcid client_scid
                  (st1\<lparr>pending := dict_set key (queue @ [data]) (pending st1)\<rparr>))"

definition datagram_received :: "quic_crypto \<Rightarrow> rat \<Rightarrow> bytes \<Rightarrow> addr \<Rightarrow> router \<Rightarrow> router" where
  "datagram_received C now data client st =
     (case session_for_datagram data client st of
        Some key \<Rightarrow>
          (case dict_get (sessions st) key of
             None \<Rightarrow> st
           | Some session \<Rightarrow>
               emit (Send_Upstream (s_upstream session) data)
                 (st\<lparr>sessions := dict_set key (session\<lparr>s_last_seen := now\<rparr>) (sessions st)\<rparr>))
      | None \<Rightarrow>
          if data = [] \<or> (data ! 0) AND 0x80 = 0 then st
          else (case initial_connection_ids data of
                  Inl _ \<Rightarrow> st
                | Inr (initial_dcid, client_scid) \<Rightarrow>
                    receive_initial C now data client initial_dcid client_scid st))"

section \<open>Opening an upstream\<close>

definition finish_open :: "session_key \<Rightarrow> router \<Rightarrow> router" where
  "finish_open key st = st\<lparr>opening_keys := set_discard key (opening_keys st), tasks := dict_pop key (tasks st)\<rparr>"

text \<open>\<open>_open\<close> up to its \<open>await\<close>.\<close>

definition open_start :: "session_key \<Rightarrow> router \<Rightarrow> router" where
  "open_start key st =
     (case dict_get (tasks st) key of
        None \<Rightarrow> st
      | Some task \<Rightarrow>
          if key \<in> dict_keys (sessions st) then finish_open key st
          else st\<lparr>tasks := dict_set key (task\<lparr>t_phase := Connecting\<rparr>) (tasks st)\<rparr>)"

text \<open>\<open>_open\<close> after \<open>create_datagram_endpoint\<close> returned the socket \<open>handle\<close>.\<close>

definition open_connected :: "rat \<Rightarrow> nat \<Rightarrow> session_key \<Rightarrow> router \<Rightarrow> router" where
  "open_connected now handle key st =
     (case dict_get (tasks st) key of
        None \<Rightarrow> st
      | Some task \<Rightarrow>
          let st1 = add_session key
                \<lparr>s_upstream = handle, s_timeout = rt_idle_timeout (t_route task), s_client = t_addr task,
                 s_client_scid = t_client_scid task, s_server_cids = [], s_last_seen = now,
                 s_opened_at = now, s_received = 0\<rparr> st;
              st2 = st1\<lparr>pending_crypto := dict_pop key (pending_crypto st1),
                        pending_seen := dict_pop key (pending_seen st1),
                        pending_started := dict_pop key (pending_started st1)\<rparr>;
              st3 = pause_ingress_for_first_upstream now key st2;
              queue = dict_get_or (pending st3) key [];
              st4 = fold (\<lambda>datagram. emit (Send_Upstream handle datagram)) queue
                      (st3\<lparr>pending := dict_pop key (pending st3)\<rparr>)
          in finish_open key st4)"

text \<open>\<open>_open\<close> when \<open>create_datagram_endpoint\<close> raised \<open>OSError\<close> or \<open>ValueError\<close>.\<close>

definition open_failed :: "session_key \<Rightarrow> router \<Rightarrow> router" where
  "open_failed key st =
     (case dict_get (tasks st) key of
        None \<Rightarrow> st
      | Some task \<Rightarrow> finish_open key (release_ingress_pause key (drop_pending key st)))"

text \<open>\<open>_open\<close> when it raised anything else, as for a target that is not text or a port out of range: only the \<open>finally\<close> runs.\<close>

definition open_aborted :: "session_key \<Rightarrow> router \<Rightarrow> router" where
  "open_aborted key st = (case dict_get (tasks st) key of None \<Rightarrow> st | Some task \<Rightarrow> finish_open key st)"

section \<open>Datagrams from upstreams\<close>

definition upstream_received :: "rat \<Rightarrow> session_key \<Rightarrow> bytes \<Rightarrow> router \<Rightarrow> router" where
  "upstream_received now key data st =
     (case dict_get (sessions st) key of
        None \<Rightarrow> st
      | Some session \<Rightarrow>
          let session1 = session\<lparr>s_received := s_received session + 1\<rparr>;
              st1 = register_server_connection_id key data
                      (st\<lparr>sessions := dict_set key session1 (sessions st)\<rparr>);
              st2 = (if transport st1 \<noteq> None then emit (Send_Client (s_client session1) data) st1 else st1);
              st3 = (if s_received session1 = 1 then release_ingress_pause key st2 else st2)
          in (case dict_get (sessions st3) key of
                None \<Rightarrow> st3
              | Some session3 \<Rightarrow>
                  st3\<lparr>sessions := dict_set key (session3\<lparr>s_last_seen := now\<rparr>) (sessions st3)\<rparr>))"

section \<open>The reaper\<close>

definition reap_pending :: "rat \<Rightarrow> router \<Rightarrow> router" where
  "reap_pending now st =
     fold (\<lambda>(key, last_seen) st. if now - last_seen > 10 then drop_pending key st else st)
       (pending_seen st) st"

text \<open>A timeout that is not a number makes the comparison raise, which ends the task; the flag says
  whether it goes on.\<close>

fun reap_sessions :: "rat \<Rightarrow> (session_key \<times> session) list \<Rightarrow> router \<Rightarrow> router \<times> bool" where
  "reap_sessions now [] st = (st, True)"
| "reap_sessions now ((key, session) # rest) st =
     (case num_val (s_timeout session) of
        None \<Rightarrow> (st, False)
      | Some t \<Rightarrow>
          if now - s_last_seen session > of_int t then reap_sessions now rest (remove_session True key st)
          else reap_sessions now rest st)"

definition reap :: "rat \<Rightarrow> router \<Rightarrow> router \<times> bool" where
  "reap now st = (let st1 = reap_pending now st in reap_sessions now (sessions st1) st1)"

section \<open>The running router\<close>

text \<open>One step is one callback of the event loop. A pause timer fires at or after its deadline; the
  environment chooses datagrams, socket handles, times and the configuration file.\<close>

inductive router_step :: "quic_crypto \<Rightarrow> router \<Rightarrow> router \<Rightarrow> bool" for C where
  client_datagram: "router_step C st (datagram_received C now data client st)"
| start: "dict_get (tasks st) key = Some t \<Longrightarrow> t_phase t = Spawned \<Longrightarrow> router_step C st (open_start key st)"
| connected: "dict_get (tasks st) key = Some t \<Longrightarrow> t_phase t = Connecting \<Longrightarrow>
    router_step C st (open_connected now handle key st)"
| failed: "dict_get (tasks st) key = Some t \<Longrightarrow> t_phase t = Connecting \<Longrightarrow>
    router_step C st (open_failed key st)"
| aborted: "dict_get (tasks st) key = Some t \<Longrightarrow> t_phase t = Connecting \<Longrightarrow>
    router_step C st (open_aborted key st)"
| upstream_datagram: "router_step C st (upstream_received now key data st)"
| pause_timeout: "dict_get (ingress_pause_timers st) key = Some deadline \<Longrightarrow> deadline \<le> now \<Longrightarrow>
    router_step C st (release_ingress_pause key st)"
| reaper: "router_step C st (fst (reap now st))"
| reloaded: "reload modified document st = Inr st' \<Longrightarrow> router_step C st st'"

definition router_started :: "router \<Rightarrow> bool" where
  "router_started st \<longleftrightarrow> (\<exists>modified document. connection_made modified document init_router = Inr st)"

definition router_reachable :: "quic_crypto \<Rightarrow> router \<Rightarrow> bool" where
  "router_reachable C st \<longleftrightarrow> (\<exists>s. router_started s \<and> (router_step C)\<^sup>*\<^sup>* s st)"

inductive_cases router_stepE: "router_step C st st'"

section \<open>Invariants\<close>

text \<open>Each predicate relates the fields it names, so that an operation which leaves them alone keeps it.\<close>

definition sessions_ok :: "(session_key, session) dict \<Rightarrow> bool" where
  "sessions_ok ss \<longleftrightarrow> dict_ok ss \<and>
     (\<forall>key s. dict_get ss key = Some s \<longrightarrow> s_client s = fst key \<and> distinct (s_server_cids s))"

definition addr_index_ok ::
  "(session_key, session) dict \<Rightarrow> (addr, session_key list) dict \<Rightarrow> bool" where
  "addr_index_ok ss ba \<longleftrightarrow> dict_ok ba \<and>
     (\<forall>a. dict_get ba a \<noteq> Some [] \<and> distinct (dict_get_or ba a []) \<and>
          set (dict_get_or ba a []) = {key \<in> dict_keys ss. fst key = a})"

definition cid_index_ok :: "(session_key, session) dict \<Rightarrow> (bytes, session_key) dict \<Rightarrow> bool" where
  "cid_index_ok ss bc \<longleftrightarrow> dict_ok bc \<and>
     (\<forall>c key. dict_get bc c = Some key \<longleftrightarrow>
        (\<exists>s. dict_get ss key = Some s \<and> c \<in> set (s_server_cids s)))"

definition cid_counts_ok :: "(bytes, session_key) dict \<Rightarrow> (nat, nat) dict \<Rightarrow> nat list \<Rightarrow> bool" where
  "cid_counts_ok bc cc cl \<longleftrightarrow> dict_ok cc \<and> cl = rev (sort (map fst cc)) \<and>
     (\<forall>n. dict_get cc n \<noteq> Some 0 \<and> dict_get_or cc n 0 = card {c \<in> dict_keys bc. length c = n})"

definition pending_ok ::
  "(session_key, bytes list) dict \<Rightarrow> (session_key, (nat, bytes) dict) dict \<Rightarrow> (session_key, rat) dict \<Rightarrow>
   (session_key, rat) dict \<Rightarrow> session_key list \<Rightarrow> (session_key, open_task) dict \<Rightarrow>
   (session_key, session) dict \<Rightarrow> bool" where
  "pending_ok pd pc ps pst op tk ss \<longleftrightarrow>
     dict_ok pd \<and> dict_ok ps \<and> dict_ok tk \<and> distinct op \<and> length pd \<le> 2048 \<and>
     (\<forall>key q. dict_get pd key = Some q \<longrightarrow> q \<noteq> [] \<and> length q \<le> 8) \<and>
     dict_keys pst = dict_keys pd \<and> dict_keys ps \<union> set op \<subseteq> dict_keys pd \<and>
     dict_keys ps \<inter> set op = {} \<and> dict_keys pc \<subseteq> dict_keys ps \<and> dict_keys pd \<inter> dict_keys ss = {} \<and>
     dict_keys tk = set op \<and>
     (\<forall>key t. dict_get tk key = Some t \<longrightarrow> t_addr t = fst key \<and> t_initial_dcid t = snd key)"

definition pause_ok ::
  "bool option \<Rightarrow> session_key list \<Rightarrow> (session_key, rat) dict \<Rightarrow> (session_key, session) dict \<Rightarrow> bool" where
  "pause_ok tr aw tm ss \<longleftrightarrow> distinct aw \<and> dict_ok tm \<and> dict_keys tm = set aw \<and>
     set aw \<subseteq> dict_keys ss \<and> (\<forall>r. tr = Some r \<longrightarrow> r = (aw = []))"

definition router_ok :: "router \<Rightarrow> bool" where
  "router_ok st \<longleftrightarrow> sessions_ok (sessions st) \<and>
     addr_index_ok (sessions st) (sessions_by_addr st) \<and>
     cid_index_ok (sessions st) (sessions_by_server_cid st) \<and>
     cid_counts_ok (sessions_by_server_cid st) (server_cid_length_counts st) (server_cid_lengths st) \<and>
     pending_ok (pending st) (pending_crypto st) (pending_seen st) (pending_started st)
       (opening_keys st) (tasks st) (sessions st) \<and>
     pause_ok (transport st) (awaiting_first_upstream st) (ingress_pause_timers st) (sessions st)"

named_theorems router_fields "the fields an operation leaves alone"

lemma emit_fields [simp, router_fields]:
  "transport (emit out st) = transport st" "sessions (emit out st) = sessions st"
  "sessions_by_addr (emit out st) = sessions_by_addr st"
  "sessions_by_server_cid (emit out st) = sessions_by_server_cid st"
  "server_cid_length_counts (emit out st) = server_cid_length_counts st"
  "server_cid_lengths (emit out st) = server_cid_lengths st"
  "pending (emit out st) = pending st" "pending_crypto (emit out st) = pending_crypto st"
  "pending_seen (emit out st) = pending_seen st" "pending_started (emit out st) = pending_started st"
  "opening_keys (emit out st) = opening_keys st" "routes (emit out st) = routes st"
  "tasks (emit out st) = tasks st" "awaiting_first_upstream (emit out st) = awaiting_first_upstream st"
  "ingress_pause_timers (emit out st) = ingress_pause_timers st"
  "outputs (emit out st) = outputs st @ [out]" "config_mtime (emit out st) = config_mtime st"
  by (simp_all add: emit_def)

lemma router_ok_emit [simp]: "router_ok (emit out st) = router_ok st"
  by (simp add: router_ok_def)

lemma fold_emit: "fold (\<lambda>d. emit (f d)) ds st = st\<lparr>outputs := outputs st @ map f ds\<rparr>"
  by (induction ds arbitrary: st) (simp_all add: emit_def)

subsection \<open>The pause\<close>

lemma release_fields:
  assumes "pause_ok (transport st) (awaiting_first_upstream st) (ingress_pause_timers st) ss"
  shows "awaiting_first_upstream (release_ingress_pause key st) = set_discard key (awaiting_first_upstream st)"
    and "ingress_pause_timers (release_ingress_pause key st) = dict_pop key (ingress_pause_timers st)"
    and "transport (release_ingress_pause key st) =
      map_option (\<lambda>_. set_discard key (awaiting_first_upstream st) = []) (transport st)"
  using assms by (cases "transport st"; auto simp: release_ingress_pause_def pause_ok_def Let_def)+

lemma pause_ok_release:
  assumes "pause_ok tr aw tm ss" and "set aw - {key} \<subseteq> dict_keys ss'"
  shows "pause_ok (map_option (\<lambda>_. set_discard key aw = []) tr) (set_discard key aw) (dict_pop key tm) ss'"
  using assms by (auto simp: pause_ok_def)

lemma pause_ok_pause:
  assumes "pause_ok (transport st) (awaiting_first_upstream st) (ingress_pause_timers st) (sessions st)"
    and "key \<in> dict_keys (sessions st)"
  shows "pause_ok (transport (pause_ingress_for_first_upstream now key st))
    (awaiting_first_upstream (pause_ingress_for_first_upstream now key st))
    (ingress_pause_timers (pause_ingress_for_first_upstream now key st)) (sessions st)"
  using assms
  by (cases "awaiting_first_upstream st")
    (auto simp: pause_ingress_for_first_upstream_def pause_ok_def Let_def set_add_def)

lemma pause_fields [simp, router_fields]:
  "sessions (pause_ingress_for_first_upstream now key st) = sessions st"
  "sessions_by_addr (pause_ingress_for_first_upstream now key st) = sessions_by_addr st"
  "sessions_by_server_cid (pause_ingress_for_first_upstream now key st) = sessions_by_server_cid st"
  "server_cid_length_counts (pause_ingress_for_first_upstream now key st) = server_cid_length_counts st"
  "server_cid_lengths (pause_ingress_for_first_upstream now key st) = server_cid_lengths st"
  "pending (pause_ingress_for_first_upstream now key st) = pending st"
  "pending_crypto (pause_ingress_for_first_upstream now key st) = pending_crypto st"
  "pending_seen (pause_ingress_for_first_upstream now key st) = pending_seen st"
  "pending_started (pause_ingress_for_first_upstream now key st) = pending_started st"
  "opening_keys (pause_ingress_for_first_upstream now key st) = opening_keys st"
  "tasks (pause_ingress_for_first_upstream now key st) = tasks st"
  "routes (pause_ingress_for_first_upstream now key st) = routes st"
  "outputs (pause_ingress_for_first_upstream now key st) = outputs st"
  by (simp_all add: pause_ingress_for_first_upstream_def Let_def)

lemma release_frame [simp, router_fields]:
  "sessions (release_ingress_pause key st) = sessions st"
  "sessions_by_addr (release_ingress_pause key st) = sessions_by_addr st"
  "sessions_by_server_cid (release_ingress_pause key st) = sessions_by_server_cid st"
  "server_cid_length_counts (release_ingress_pause key st) = server_cid_length_counts st"
  "server_cid_lengths (release_ingress_pause key st) = server_cid_lengths st"
  "pending (release_ingress_pause key st) = pending st"
  "pending_crypto (release_ingress_pause key st) = pending_crypto st"
  "pending_seen (release_ingress_pause key st) = pending_seen st"
  "pending_started (release_ingress_pause key st) = pending_started st"
  "opening_keys (release_ingress_pause key st) = opening_keys st"
  "tasks (release_ingress_pause key st) = tasks st"
  "routes (release_ingress_pause key st) = routes st"
  "outputs (release_ingress_pause key st) = outputs st"
  by (simp_all add: release_ingress_pause_def Let_def)

lemma router_ok_release: "router_ok st \<Longrightarrow> router_ok (release_ingress_pause key st)"
  using release_fields [of st "sessions st" key]
    pause_ok_release [of "transport st" "awaiting_first_upstream st" "ingress_pause_timers st"
      "sessions st" key "sessions st"]
  by (auto simp: router_ok_def pause_ok_def)

subsection \<open>Server connection IDs\<close>

lemma card_insert_class:
  assumes "finite S" "x \<notin> S"
  shows "card {c. (c = x \<or> c \<in> S) \<and> f c = n} =
    (if f x = n then Suc (card {c \<in> S. f c = n}) else card {c \<in> S. f c = n})"
proof -
  have "{c. (c = x \<or> c \<in> S) \<and> f c = n} = (if f x = n then insert x {c \<in> S. f c = n} else {c \<in> S. f c = n})"
    by auto
  then show ?thesis using assms by simp
qed

lemma card_remove_class:
  assumes "finite S" "x \<in> S"
  shows "card {c \<in> S - {x}. f c = n} = (if f x = n then card {c \<in> S. f c = n} - 1 else card {c \<in> S. f c = n})"
proof -
  have "{c \<in> S - {x}. f c = n} = (if f x = n then {c \<in> S. f c = n} - {x} else {c \<in> S. f c = n})"
    by auto
  then show ?thesis using assms by simp
qed

lemma cid_counts_ok_index:
  assumes "cid_counts_ok bc cc cl" "c \<notin> dict_keys bc"
  shows "cid_counts_ok (dict_set c key bc) (dict_set (length c) (dict_get_or cc (length c) 0 + 1) cc)
     (rev (sort (map fst (dict_set (length c) (dict_get_or cc (length c) 0 + 1) cc))))"
  using assms by (auto simp: cid_counts_ok_def card_insert_class)

lemma cid_counts_ok_unindex:
  assumes ok: "cid_counts_ok bc cc cl" and c: "c \<in> dict_keys bc"
  defines "n \<equiv> length c"
  defines "cc' \<equiv> (if dict_get_or cc n 0 \<le> 1 then dict_pop n cc else dict_set n (dict_get_or cc n 0 - 1) cc)"
  shows "cid_counts_ok (dict_pop c bc) cc' (rev (sort (map fst cc')))"
proof -
  have "dict_get_or cc m 0 = card {c \<in> dict_keys bc. length c = m}" for m
    using ok by (simp add: cid_counts_ok_def)
  moreover have "card {c' \<in> dict_keys bc - {c}. length c' = m} =
      (if n = m then card {c \<in> dict_keys bc. length c = m} - 1 else card {c \<in> dict_keys bc. length c = m})" for m
    unfolding n_def by (rule card_remove_class) (use c in auto)
  ultimately show ?thesis
    using ok by (auto simp: cid_counts_ok_def cc'_def)
qed

lemma cid_index_okD:
  "cid_index_ok ss bc \<Longrightarrow> dict_get ss key = Some s \<Longrightarrow> c \<in> set (s_server_cids s) \<Longrightarrow> dict_get bc c = Some key"
  unfolding cid_index_ok_def by blast

lemma router_ok_index:
  assumes "router_ok st" shows "router_ok (index_server_connection_id key c st)"
proof (cases "dict_get (sessions st) key")
  case None
  with assms show ?thesis by (simp add: index_server_connection_id_def)
next
  case (Some s)
  show ?thesis
  proof (cases "dict_get (sessions_by_server_cid st) c")
    case None
    have key: "key \<in> dict_keys (sessions st)" using Some by (rule dict_keys_SomeI)
    let ?ss = "dict_set key (s\<lparr>s_server_cids := set_add c (s_server_cids s)\<rparr>) (sessions st)"
    have c: "c \<notin> dict_keys (sessions_by_server_cid st)" using None by (simp add: dict_get_None)
    have keys: "dict_keys ?ss = dict_keys (sessions st)" using key by auto
    have "sessions_ok ?ss" "addr_index_ok ?ss (sessions_by_addr st)"
      using assms Some unfolding router_ok_def sessions_ok_def addr_index_ok_def keys by auto
    moreover have "c \<notin> set (s_server_cids s')" if "dict_get (sessions st) k = Some s'" for k s'
      using assms None cid_index_okD [of "sessions st" "sessions_by_server_cid st" k s' c] that
      by (auto simp: router_ok_def)
    then have "cid_index_ok ?ss (dict_set c key (sessions_by_server_cid st))"
      using assms Some None unfolding router_ok_def cid_index_ok_def by auto
    moreover have "cid_counts_ok (dict_set c key (sessions_by_server_cid st))
      (dict_set (length c) (dict_get_or (server_cid_length_counts st) (length c) 0 + 1) (server_cid_length_counts st))
      (rev (sort (map fst (dict_set (length c) (dict_get_or (server_cid_length_counts st) (length c) 0 + 1)
         (server_cid_length_counts st)))))"
      using assms c by (intro cid_counts_ok_index) (auto simp: router_ok_def)
    moreover have "pending_ok (pending st) (pending_crypto st) (pending_seen st) (pending_started st)
       (opening_keys st) (tasks st) ?ss"
      "pause_ok (transport st) (awaiting_first_upstream st) (ingress_pause_timers st) ?ss"
      using assms unfolding router_ok_def pending_ok_def pause_ok_def keys by auto
    ultimately show ?thesis
      using Some None by (simp add: index_server_connection_id_def router_ok_def Let_def)
  next
    case Owner: (Some k)
    with assms Some show ?thesis by (simp add: index_server_connection_id_def)
  qed
qed

lemma router_ok_register:
  "router_ok st \<Longrightarrow> router_ok (register_server_connection_id key data st)"
  by (simp add: register_server_connection_id_def router_ok_index split: sum.split option.split prod.split)

subsection \<open>Removing a session\<close>

lemma unindex_frame [simp, router_fields]:
  "transport (unindex_server_connection_id key c st) = transport st"
  "sessions (unindex_server_connection_id key c st) = sessions st"
  "sessions_by_addr (unindex_server_connection_id key c st) = sessions_by_addr st"
  "pending (unindex_server_connection_id key c st) = pending st"
  "pending_crypto (unindex_server_connection_id key c st) = pending_crypto st"
  "pending_seen (unindex_server_connection_id key c st) = pending_seen st"
  "pending_started (unindex_server_connection_id key c st) = pending_started st"
  "opening_keys (unindex_server_connection_id key c st) = opening_keys st"
  "tasks (unindex_server_connection_id key c st) = tasks st"
  "routes (unindex_server_connection_id key c st) = routes st"
  "awaiting_first_upstream (unindex_server_connection_id key c st) = awaiting_first_upstream st"
  "ingress_pause_timers (unindex_server_connection_id key c st) = ingress_pause_timers st"
  "outputs (unindex_server_connection_id key c st) = outputs st"
  by (simp_all add: unindex_server_connection_id_def remove_server_cid_length_def Let_def)

lemma fold_frame: "(\<And>x s. g (f x s) = g s) \<Longrightarrow> g (fold f xs st) = g st"
  by (induction xs arbitrary: st) auto

lemma fold_unindex:
  fixes key :: session_key and cids :: "bytes list" and st :: router
  assumes "cid_counts_ok (sessions_by_server_cid st) (server_cid_length_counts st) (server_cid_lengths st)"
    and "dict_ok (sessions_by_server_cid st)"
  defines "st' \<equiv> fold (unindex_server_connection_id key) cids st"
  shows "cid_counts_ok (sessions_by_server_cid st') (server_cid_length_counts st') (server_cid_lengths st') \<and>
    dict_ok (sessions_by_server_cid st') \<and>
    (\<forall>c. dict_get (sessions_by_server_cid st') c =
      (if c \<in> set cids \<and> dict_get (sessions_by_server_cid st) c = Some key then None
       else dict_get (sessions_by_server_cid st) c))"
  using assms(1,2) unfolding st'_def
proof (induction cids arbitrary: st)
  case (Cons c cids)
  let ?st = "unindex_server_connection_id key c st"
  have "cid_counts_ok (sessions_by_server_cid ?st) (server_cid_length_counts ?st) (server_cid_lengths ?st)"
  proof (cases "dict_get (sessions_by_server_cid st) c = Some key")
    case True
    then show ?thesis
      using cid_counts_ok_unindex [OF Cons.prems(1), of c]
      by (simp add: unindex_server_connection_id_def remove_server_cid_length_def Let_def dict_keys_SomeI
          split del: if_split cong: if_cong)
  next
    case False
    with Cons.prems(1) show ?thesis by (simp add: unindex_server_connection_id_def)
  qed
  moreover have "dict_ok (sessions_by_server_cid ?st)"
    using Cons.prems by (simp add: unindex_server_connection_id_def remove_server_cid_length_def Let_def)
  ultimately have "cid_counts_ok (sessions_by_server_cid (fold (unindex_server_connection_id key) cids ?st))
      (server_cid_length_counts (fold (unindex_server_connection_id key) cids ?st))
      (server_cid_lengths (fold (unindex_server_connection_id key) cids ?st)) \<and>
    dict_ok (sessions_by_server_cid (fold (unindex_server_connection_id key) cids ?st)) \<and>
    (\<forall>c. dict_get (sessions_by_server_cid (fold (unindex_server_connection_id key) cids ?st)) c =
      (if c \<in> set cids \<and> dict_get (sessions_by_server_cid ?st) c = Some key then None
       else dict_get (sessions_by_server_cid ?st) c))"
    by (rule Cons.IH)
  moreover have "dict_get (sessions_by_server_cid ?st) c' =
      (if c' = c \<and> dict_get (sessions_by_server_cid st) c = Some key then None
       else dict_get (sessions_by_server_cid st) c')" for c'
    by (simp add: unindex_server_connection_id_def remove_server_cid_length_def Let_def)
  ultimately show ?case by auto
qed simp

lemma discard_from_addr_fields [simp, router_fields]:
  "transport (discard_from_addr a key st) = transport st"
  "sessions (discard_from_addr a key st) = sessions st"
  "sessions_by_server_cid (discard_from_addr a key st) = sessions_by_server_cid st"
  "server_cid_length_counts (discard_from_addr a key st) = server_cid_length_counts st"
  "server_cid_lengths (discard_from_addr a key st) = server_cid_lengths st"
  "pending (discard_from_addr a key st) = pending st"
  "pending_crypto (discard_from_addr a key st) = pending_crypto st"
  "pending_seen (discard_from_addr a key st) = pending_seen st"
  "pending_started (discard_from_addr a key st) = pending_started st"
  "opening_keys (discard_from_addr a key st) = opening_keys st"
  "tasks (discard_from_addr a key st) = tasks st"
  "routes (discard_from_addr a key st) = routes st"
  "awaiting_first_upstream (discard_from_addr a key st) = awaiting_first_upstream st"
  "ingress_pause_timers (discard_from_addr a key st) = ingress_pause_timers st"
  "outputs (discard_from_addr a key st) = outputs st"
  by (simp_all add: discard_from_addr_def Let_def split: option.split)

lemma addr_index_discard:
  assumes "addr_index_ok ss (sessions_by_addr st)"
  shows "addr_index_ok (dict_pop key ss) (sessions_by_addr (discard_from_addr (fst key) key st))"
proof -
  have g: "dict_get (sessions_by_addr (discard_from_addr (fst key) key st)) a =
      (if a = fst key
       then (if set_discard key (dict_get_or (sessions_by_addr st) a []) = [] then None
             else Some (set_discard key (dict_get_or (sessions_by_addr st) a [])))
       else dict_get (sessions_by_addr st) a)" for a
    by (auto simp: discard_from_addr_def Let_def dict_get_or_def set_discard_def split: option.split)
  have go: "dict_get_or (sessions_by_addr (discard_from_addr (fst key) key st)) a [] =
      (if a = fst key then set_discard key (dict_get_or (sessions_by_addr st) a [])
       else dict_get_or (sessions_by_addr st) a [])" for a
    by (simp add: dict_get_or_def g)
  have "dict_ok (sessions_by_addr (discard_from_addr (fst key) key st))"
    using assms by (simp add: discard_from_addr_def addr_index_ok_def Let_def split: option.split)
  then show ?thesis
    using assms unfolding addr_index_ok_def g go by (simp split: if_split) blast
qed

lemma cid_index_detach:
  assumes idx: "cid_index_ok ss bc" and s: "dict_get ss key = Some session" and ok: "dict_ok bc'"
    and g: "\<And>c. dict_get bc' c =
      (if c \<in> set (s_server_cids session) \<and> dict_get bc c = Some key then None else dict_get bc c)"
  shows "cid_index_ok (dict_pop key ss) bc'"
  unfolding cid_index_ok_def
proof (intro conjI allI iffI)
  fix c k
  assume bc': "dict_get bc' c = Some k"
  then have bc: "dict_get bc c = Some k" by (simp add: g split: if_splits)
  then obtain s' where s': "dict_get ss k = Some s'" "c \<in> set (s_server_cids s')"
    using idx unfolding cid_index_ok_def by blast
  have "k \<noteq> key" using bc' bc s s' by (auto simp: g)
  with s' show "\<exists>s. dict_get (dict_pop key ss) k = Some s \<and> c \<in> set (s_server_cids s)" by simp
next
  fix c k
  assume "\<exists>s. dict_get (dict_pop key ss) k = Some s \<and> c \<in> set (s_server_cids s)"
  then obtain s' where "k \<noteq> key" "dict_get ss k = Some s'" "c \<in> set (s_server_cids s')"
    by (auto split: if_splits)
  with cid_index_okD [OF idx] show "dict_get bc' c = Some k" by (simp add: g)
qed (rule ok)

definition detached :: "session_key \<Rightarrow> session \<Rightarrow> router \<Rightarrow> router" where
  "detached key session st =
     fold (unindex_server_connection_id key) (s_server_cids session)
       (discard_from_addr (s_client session) key
          (release_ingress_pause key (st\<lparr>sessions := dict_pop key (sessions st)\<rparr>)))"

lemma remove_session_Some:
  "dict_get (sessions st) key = Some session \<Longrightarrow>
   remove_session close key st =
     (if close then emit (Close_Upstream (s_upstream session)) (detached key session st) else detached key session st)"
  by (simp add: remove_session_def detached_def Let_def)

lemma detached_fields:
  assumes "router_ok st"
  shows "sessions (detached key session st) = dict_pop key (sessions st)"
    "pending (detached key session st) = pending st"
    "pending_crypto (detached key session st) = pending_crypto st"
    "pending_seen (detached key session st) = pending_seen st"
    "pending_started (detached key session st) = pending_started st"
    "opening_keys (detached key session st) = opening_keys st"
    "tasks (detached key session st) = tasks st"
    "routes (detached key session st) = routes st"
    "outputs (detached key session st) = outputs st"
    "awaiting_first_upstream (detached key session st) = set_discard key (awaiting_first_upstream st)"
    "ingress_pause_timers (detached key session st) = dict_pop key (ingress_pause_timers st)"
    "transport (detached key session st) =
       map_option (\<lambda>_. set_discard key (awaiting_first_upstream st) = []) (transport st)"
    "sessions_by_addr (detached key session st) =
       sessions_by_addr (discard_from_addr (s_client session) key
          (release_ingress_pause key (st\<lparr>sessions := dict_pop key (sessions st)\<rparr>)))"
  using assms release_fields [of "st\<lparr>sessions := dict_pop key (sessions st)\<rparr>" "sessions st" key]
  by (simp_all add: detached_def fold_frame [where f = "unindex_server_connection_id key"] router_ok_def)

lemma router_ok_detached:
  assumes ok: "router_ok st" and s: "dict_get (sessions st) key = Some session"
  shows "router_ok (detached key session st)"
proof -
  let ?st = "detached key session st"
  note f = detached_fields [OF ok, of key session]
  have c: "s_client session = fst key" using ok s by (simp add: router_ok_def sessions_ok_def)
  have "sessions_ok (sessions ?st)"
    using ok by (auto simp: f router_ok_def sessions_ok_def)
  moreover have "addr_index_ok (sessions ?st) (sessions_by_addr ?st)"
    unfolding f c using ok by (intro addr_index_discard) (simp add: router_ok_def)
  moreover have "cid_index_ok (sessions ?st) (sessions_by_server_cid ?st) \<and>
      cid_counts_ok (sessions_by_server_cid ?st) (server_cid_length_counts ?st) (server_cid_lengths ?st)"
  proof -
    let ?m = "discard_from_addr (s_client session) key
       (release_ingress_pause key (st\<lparr>sessions := dict_pop key (sessions st)\<rparr>))"
    have m: "sessions_by_server_cid ?m = sessions_by_server_cid st"
      "server_cid_length_counts ?m = server_cid_length_counts st" "server_cid_lengths ?m = server_cid_lengths st"
      by simp_all
    have idx: "cid_index_ok (sessions st) (sessions_by_server_cid st)"
      and cnt: "cid_counts_ok (sessions_by_server_cid st) (server_cid_length_counts st) (server_cid_lengths st)"
      using ok by (simp_all add: router_ok_def)
    have u: "cid_counts_ok (sessions_by_server_cid ?st) (server_cid_length_counts ?st) (server_cid_lengths ?st)"
      "dict_ok (sessions_by_server_cid ?st)"
      "dict_get (sessions_by_server_cid ?st) c' =
        (if c' \<in> set (s_server_cids session) \<and> dict_get (sessions_by_server_cid st) c' = Some key then None
         else dict_get (sessions_by_server_cid st) c')" for c'
      using fold_unindex [of ?m key "s_server_cids session"] cnt idx
      unfolding detached_def m by (simp_all add: cid_index_ok_def)
    have "cid_index_ok (dict_pop key (sessions st)) (sessions_by_server_cid ?st)"
      using idx s u(2) u(3) by (rule cid_index_detach)
    with u(1) show ?thesis by (simp add: f)
  qed
  moreover have "pending_ok (pending ?st) (pending_crypto ?st) (pending_seen ?st) (pending_started ?st)
      (opening_keys ?st) (tasks ?st) (sessions ?st)"
    using ok unfolding f by (auto simp: router_ok_def pending_ok_def)
  moreover have "pause_ok (transport ?st) (awaiting_first_upstream ?st) (ingress_pause_timers ?st) (sessions ?st)"
    unfolding f using ok by (intro pause_ok_release [where ss = "sessions st"]) (auto simp: router_ok_def pause_ok_def)
  ultimately show ?thesis by (simp add: router_ok_def)
qed

lemma router_ok_remove: "router_ok st \<Longrightarrow> router_ok (remove_session close key st)"
  by (cases "dict_get (sessions st) key")
    (simp_all add: remove_session_Some router_ok_detached, simp add: remove_session_def)

subsection \<open>Pending packets\<close>

lemma pending_queue_opening:
  assumes "pending_ok pd pc ps pst op tk ss" and "key \<in> set op"
    and "q' \<noteq> []" and "length q' \<le> 8"
  shows "pending_ok (dict_set key q' pd) pc ps pst op tk ss"
proof -
  have "key \<in> dict_keys pd" using assms by (auto simp: pending_ok_def)
  then show ?thesis
    using assms by (auto simp: pending_ok_def dict_length_set insert_absorb)
qed

lemma pending_queue_nonempty:
  "pending_ok pd pc ps pst op tk ss \<Longrightarrow> key \<in> dict_keys pd \<Longrightarrow>
     dict_get_or pd key [] \<noteq> [] \<and> length (dict_get_or pd key []) \<le> 8"
  by (auto simp: pending_ok_def dict_get_or_def dict_keys_get)

lemma pending_accept:
  assumes ok: "pending_ok pd pc ps pst op tk ss" and key: "key \<notin> set op" "key \<notin> dict_keys ss"
    and room: "key \<in> dict_keys pd \<or> length pd < 2048" and q: "q \<noteq> []" "length q \<le> 8"
  shows "pending_ok (dict_set key q (dict_setdefault key [] pd)) pc (dict_set key now ps)
    (dict_setdefault key now pst) op tk ss"
proof -
  have "dict_ok pd" using ok by (simp add: pending_ok_def)
  then have "length (dict_set key q (dict_setdefault key [] pd)) = card (insert key (dict_keys pd))"
    "length pd = card (dict_keys pd)"
    by (simp_all add: dict_length_card)
  then have "length (dict_set key q (dict_setdefault key [] pd)) \<le> 2048"
    using room ok by (cases "key \<in> dict_keys pd") (auto simp: pending_ok_def insert_absorb)
  then show ?thesis using ok key q by (auto simp: pending_ok_def)
qed

lemma pending_drop:
  assumes "pending_ok pd pc ps pst op tk ss"
  shows "pending_ok (dict_pop key pd) (dict_pop key pc) (dict_pop key ps) (dict_pop key pst)
    (set_discard key op) (dict_pop key tk) ss"
  using assms dict_length_pop [of key pd] by (auto simp: pending_ok_def)

lemma pending_drop_waiting:
  assumes "pending_ok pd pc ps pst op tk ss" and "key \<notin> set op"
  shows "pending_ok (dict_pop key pd) (dict_pop key pc) (dict_pop key ps) (dict_pop key pst) op tk ss"
proof -
  have "dict_pop key tk = tk" "set_discard key op = op"
    using assms by (auto simp: pending_ok_def)
  with pending_drop [OF assms(1), of key] show ?thesis by simp
qed

lemma pending_crypto_set:
  "pending_ok pd pc ps pst op tk ss \<Longrightarrow> key \<in> dict_keys ps \<Longrightarrow> pending_ok pd (dict_set key f pc) ps pst op tk ss"
  by (auto simp: pending_ok_def)

lemma pending_open:
  assumes "pending_ok pd pc ps pst op tk ss" and "key \<in> dict_keys ps"
    and "t_addr t = fst key" "t_initial_dcid t = snd key"
  shows "pending_ok pd (dict_pop key pc) (dict_pop key ps) pst (set_add key op) (dict_set key t tk) ss"
  using assms by (auto simp: pending_ok_def)

lemma pending_connected:
  assumes "pending_ok pd pc ps pst op tk ss"
  shows "pending_ok (dict_pop key pd) (dict_pop key pc) (dict_pop key ps) (dict_pop key pst)
    (set_discard key op) (dict_pop key tk) (dict_set key s ss)"
  using pending_drop [OF assms, of key] by (auto simp: pending_ok_def)

lemma drop_pending_fields [simp, router_fields]:
  "transport (drop_pending key st) = transport st" "sessions (drop_pending key st) = sessions st"
  "sessions_by_addr (drop_pending key st) = sessions_by_addr st"
  "sessions_by_server_cid (drop_pending key st) = sessions_by_server_cid st"
  "server_cid_length_counts (drop_pending key st) = server_cid_length_counts st"
  "server_cid_lengths (drop_pending key st) = server_cid_lengths st"
  "pending (drop_pending key st) = dict_pop key (pending st)"
  "pending_crypto (drop_pending key st) = dict_pop key (pending_crypto st)"
  "pending_seen (drop_pending key st) = dict_pop key (pending_seen st)"
  "pending_started (drop_pending key st) = dict_pop key (pending_started st)"
  "opening_keys (drop_pending key st) = opening_keys st" "tasks (drop_pending key st) = tasks st"
  "routes (drop_pending key st) = routes st" "outputs (drop_pending key st) = outputs st"
  "awaiting_first_upstream (drop_pending key st) = awaiting_first_upstream st"
  "ingress_pause_timers (drop_pending key st) = ingress_pause_timers st"
  by (simp_all add: drop_pending_def)

lemma router_ok_drop_pending:
  "router_ok st \<Longrightarrow> key \<notin> set (opening_keys st) \<Longrightarrow> router_ok (drop_pending key st)"
  by (simp add: router_ok_def pending_drop_waiting)

lemma router_ok_inspect:
  assumes ok: "router_ok st" and seen: "session_key_of client dcid \<in> dict_keys (pending_seen st)"
  shows "router_ok (inspect_pending C data client dcid scid st)"
proof -
  let ?key = "session_key_of client dcid"
  have pend: "pending_ok (pending st) (pending_crypto st) (pending_seen st) (pending_started st)
      (opening_keys st) (tasks st) (sessions st)"
    using ok by (simp add: router_ok_def)
  have no: "?key \<notin> set (opening_keys st)" using pend seen by (auto simp: pending_ok_def)
  have pop: "dict_pop k (dict_set k v d) = dict_pop k d" for k v and d :: "(session_key, (nat, bytes) dict) dict"
    by (induction d) (auto simp: dict_pop_def dict_set_def)
  show ?thesis
    using ok pending_crypto_set [OF pend seen] pending_drop_waiting [OF pend no]
      pending_open [OF pend seen]
    by (auto simp: inspect_pending_def Let_def router_ok_def pop session_key_of_def
        split: sum.split option.split)
qed

lemma router_ok_receive_initial:
  assumes ok: "router_ok st" and new: "session_key_of client dcid \<notin> dict_keys (sessions st)"
  shows "router_ok (receive_initial C now data client dcid scid st)"
proof -
  let ?key = "session_key_of client dcid"
  let ?q = "dict_get_or (pending st) ?key []"
  have pend: "pending_ok (pending st) (pending_crypto st) (pending_seen st) (pending_started st)
      (opening_keys st) (tasks st) (sessions st)"
    using ok by (simp add: router_ok_def)
  consider (waiting) "?key \<in> set (opening_keys st)"
    | (full) "?key \<notin> set (opening_keys st)" "?key \<notin> dict_keys (pending st)" "2048 \<le> length (pending st)"
    | (overflow) "?key \<notin> set (opening_keys st)" "?key \<in> dict_keys (pending st) \<or> length (pending st) < 2048"
        "8 \<le> length ?q"
    | (accept) "?key \<notin> set (opening_keys st)" "?key \<in> dict_keys (pending st) \<or> length (pending st) < 2048"
        "length ?q < 8"
    by linarith
  then show ?thesis
  proof cases
    case waiting
    then have "?key \<in> dict_keys (pending st)" using pend by (auto simp: pending_ok_def)
    then have "?q \<noteq> [] \<and> length ?q \<le> 8" by (rule pending_queue_nonempty [OF pend])
    then show ?thesis
      using ok waiting pending_queue_opening [OF pend waiting]
      by (simp add: receive_initial_def Let_def router_ok_def)
  next
    case full
    with ok show ?thesis by (simp add: receive_initial_def)
  next
    case overflow
    have pop: "dict_pop k (dict_setdefault k v d) = dict_pop k d"
      "dict_pop k (dict_set k v d) = dict_pop k d" for k v and d :: "('k, 'v) dict"
      by (induction d) (auto simp: dict_pop_def dict_set_def dict_setdefault_def split: option.split)
    have "router_ok (drop_pending ?key st)" using ok overflow(1) by (rule router_ok_drop_pending)
    then show ?thesis using overflow
      by (auto simp: receive_initial_def Let_def router_ok_def pop)
  next
    case accept
    let ?st1 = "st\<lparr>pending_started := dict_setdefault ?key now (pending_started st),
        pending_seen := dict_set ?key now (pending_seen st),
        pending := dict_set ?key (?q @ [data]) (dict_setdefault ?key [] (pending st))\<rparr>"
    have "router_ok ?st1"
      using ok pending_accept [OF pend accept(1) new accept(2), of "?q @ [data]"] accept(3)
      by (simp add: router_ok_def)
    then have "router_ok (inspect_pending C data client dcid scid ?st1)"
      by (rule router_ok_inspect) simp
    then show ?thesis using accept by (auto simp: receive_initial_def Let_def)
  qed
qed

lemma session_for_datagram_live:
  assumes "router_ok st" and "session_for_datagram data client st = Some key"
  shows "\<exists>s. dict_get (sessions st) key = Some s \<and> s_client s = client"
proof -
  have keyed: "\<exists>s. dict_get (sessions st) k = Some s \<and> s_client s = client"
    if "k \<in> dict_keys (sessions st)" "fst k = client" for k
    using assms(1) that by (auto simp: router_ok_def sessions_ok_def dict_keys_get)
  have by_dcid: "\<exists>s. dict_get (sessions st) (client, d) = Some s \<and> s_client s = client"
    if "(client, d) \<in> dict_keys (sessions st)" for d
    by (rule keyed [OF that]) simp
  have owned: "k \<in> dict_keys (sessions st) \<and> fst k = client"
    if "k \<in> set (dict_get_or (sessions_by_addr st) client [])" for k
    using assms(1) that by (auto simp: router_ok_def addr_index_ok_def)
  have m: "k \<in> set keys" if "match_server_cid ns data cids keys = Some k" for ns data cids keys k
    using that by (induction ns) (auto split: option.splits if_splits)
  show ?thesis
  proof (cases "(data ! 0) AND 0x80 \<noteq> 0")
    case True
    with assms(2) show ?thesis
      by (auto simp: session_for_datagram_def session_key_of_def Let_def intro: by_dcid
          split: if_splits sum.splits option.splits)
  next
    case False
    let ?keys = "dict_get_or (sessions_by_addr st) client []"
    have "key \<in> set ?keys"
      using assms(2) False
      by (auto simp: session_for_datagram_def Let_def dest: m split: if_splits option.splits)
        (metis One_nat_def hd_in_set length_0_conv nat.distinct(1))
    then show ?thesis using owned keyed by blast
  qed
qed

lemma router_ok_session_update:
  assumes "router_ok st" and "dict_get (sessions st) key = Some s"
    and "s_client s' = s_client s" "s_server_cids s' = s_server_cids s"
  shows "router_ok (st\<lparr>sessions := dict_set key s' (sessions st)\<rparr>)"
proof -
  let ?ss = "dict_set key s' (sessions st)"
  have keys: "dict_keys ?ss = dict_keys (sessions st)" using assms(2) by (auto simp: dict_keys_SomeI)
  have "sessions_ok ?ss" using assms by (simp add: router_ok_def sessions_ok_def)
  moreover have "addr_index_ok ?ss (sessions_by_addr st)"
    using assms(1) unfolding router_ok_def addr_index_ok_def keys by blast
  moreover have "(\<exists>x. dict_get ?ss k = Some x \<and> c \<in> set (s_server_cids x)) \<longleftrightarrow>
      (\<exists>x. dict_get (sessions st) k = Some x \<and> c \<in> set (s_server_cids x))" for k c
    using assms(2,4) by auto
  then have "cid_index_ok ?ss (sessions_by_server_cid st)"
    using assms(1) unfolding router_ok_def cid_index_ok_def by blast
  moreover have "pending_ok (pending st) (pending_crypto st) (pending_seen st) (pending_started st)
      (opening_keys st) (tasks st) ?ss"
    "pause_ok (transport st) (awaiting_first_upstream st) (ingress_pause_timers st) ?ss"
    using assms(1) unfolding router_ok_def pending_ok_def pause_ok_def keys by blast+
  ultimately show ?thesis using assms(1) by (simp add: router_ok_def)
qed

lemma router_ok_datagram:
  assumes ok: "router_ok st"
  shows "router_ok (datagram_received C now data client st)"
proof (cases "session_for_datagram data client st")
  case (Some key)
  then obtain s where s: "dict_get (sessions st) key = Some s"
    using session_for_datagram_live [OF ok] by blast
  with Some show ?thesis
    by (simp add: datagram_received_def router_ok_session_update [OF ok s])
next
  case None
  show ?thesis
  proof (cases "data = [] \<or> (data ! 0) AND 0x80 = 0")
    case True
    with None ok show ?thesis by (simp add: datagram_received_def)
  next
    case long: False
    show ?thesis
    proof (cases "initial_connection_ids data")
      case (Inl e)
      with None ok show ?thesis by (simp add: datagram_received_def)
    next
      case (Inr ids)
      obtain dcid scid where ids: "ids = (dcid, scid)" by (cases ids)
      have "session_key_of client dcid \<notin> dict_keys (sessions st)"
        using None long Inr
        by (auto simp: session_for_datagram_def ids Let_def split: if_splits option.splits)
      with None long Inr ok show ?thesis
        by (simp add: datagram_received_def ids router_ok_receive_initial)
    qed
  qed
qed

subsection \<open>Every step keeps the invariant\<close>

lemma finish_open_fields [simp, router_fields]:
  "transport (finish_open key st) = transport st" "sessions (finish_open key st) = sessions st"
  "sessions_by_addr (finish_open key st) = sessions_by_addr st"
  "sessions_by_server_cid (finish_open key st) = sessions_by_server_cid st"
  "server_cid_length_counts (finish_open key st) = server_cid_length_counts st"
  "server_cid_lengths (finish_open key st) = server_cid_lengths st"
  "pending (finish_open key st) = pending st" "pending_crypto (finish_open key st) = pending_crypto st"
  "pending_seen (finish_open key st) = pending_seen st"
  "pending_started (finish_open key st) = pending_started st"
  "opening_keys (finish_open key st) = set_discard key (opening_keys st)"
  "tasks (finish_open key st) = dict_pop key (tasks st)"
  "routes (finish_open key st) = routes st" "outputs (finish_open key st) = outputs st"
  "awaiting_first_upstream (finish_open key st) = awaiting_first_upstream st"
  "ingress_pause_timers (finish_open key st) = ingress_pause_timers st"
  by (simp_all add: finish_open_def)

lemma task_not_session:
  "router_ok st \<Longrightarrow> dict_get (tasks st) key = Some t \<Longrightarrow> key \<notin> dict_keys (sessions st)"
  by (auto simp: router_ok_def pending_ok_def dest!: dict_keys_SomeI)

lemma router_ok_open_start:
  assumes ok: "router_ok st"
  shows "router_ok (open_start key st)"
proof (cases "dict_get (tasks st) key")
  case (Some t)
  have "router_ok (st\<lparr>tasks := dict_set key (t\<lparr>t_phase := Connecting\<rparr>) (tasks st)\<rparr>)"
    using ok Some by (auto simp: router_ok_def pending_ok_def dict_keys_SomeI)
  then show ?thesis
    using task_not_session [OF ok Some] Some by (simp add: open_start_def)
qed (use ok in \<open>simp add: open_start_def\<close>)

lemma addr_index_add:
  assumes "addr_index_ok ss ba" and "key = (a, d)"
  shows "addr_index_ok (dict_set key s ss) (dict_set a (set_add key (dict_get_or ba a [])) ba)"
proof -
  have "set (dict_get_or ba b []) = {k \<in> dict_keys ss. fst k = b}" for b
    using assms(1) by (simp add: addr_index_ok_def)
  then show ?thesis using assms unfolding addr_index_ok_def by auto
qed

lemma cid_index_add:
  assumes "cid_index_ok ss bc" and "key \<notin> dict_keys ss" and "s_server_cids s = []"
  shows "cid_index_ok (dict_set key s ss) bc"
proof -
  have "dict_get ss key = None" using assms(2) by (simp add: dict_get_None)
  then have "(\<exists>x. dict_get (dict_set key s ss) k = Some x \<and> c \<in> set (s_server_cids x)) \<longleftrightarrow>
      (\<exists>x. dict_get ss k = Some x \<and> c \<in> set (s_server_cids x))" for k c
    using assms(3) by auto
  then show ?thesis using assms(1) unfolding cid_index_ok_def by blast
qed

lemma add_session_plain:
  "s_server_cids s = [] \<Longrightarrow> add_session key s st =
     st\<lparr>sessions := dict_set key s (sessions st),
        sessions_by_addr := dict_set (s_client s)
          (set_add key (dict_get_or (sessions_by_addr st) (s_client s) [])) (sessions_by_addr st)\<rparr>"
  by (simp add: add_session_def)

definition opened_session :: "rat \<Rightarrow> nat \<Rightarrow> open_task \<Rightarrow> session" where
  "opened_session now handle t =
     \<lparr>s_upstream = handle, s_timeout = rt_idle_timeout (t_route t), s_client = t_addr t,
       s_client_scid = t_client_scid t, s_server_cids = [], s_last_seen = now, s_opened_at = now,
       s_received = 0\<rparr>"

lemma opened_session_fields [simp]:
  "s_client (opened_session now handle t) = t_addr t" "s_server_cids (opened_session now handle t) = []"
  "s_upstream (opened_session now handle t) = handle" "s_received (opened_session now handle t) = 0"
  "s_last_seen (opened_session now handle t) = now"
  "s_timeout (opened_session now handle t) = rt_idle_timeout (t_route t)"
  by (simp_all add: opened_session_def)

lemma open_connected_Some:
  assumes "dict_get (tasks st) key = Some t"
  shows "open_connected now handle key st =
    (let st2 = st\<lparr>sessions := dict_set key (opened_session now handle t) (sessions st),
        sessions_by_addr := dict_set (t_addr t)
          (set_add key (dict_get_or (sessions_by_addr st) (t_addr t) [])) (sessions_by_addr st),
        pending_crypto := dict_pop key (pending_crypto st),
        pending_seen := dict_pop key (pending_seen st), pending_started := dict_pop key (pending_started st)\<rparr>;
        st3 = pause_ingress_for_first_upstream now key st2
     in finish_open key (st3\<lparr>pending := dict_pop key (pending st3),
          outputs := outputs st3 @ map (Send_Upstream handle) (dict_get_or (pending st3) key [])\<rparr>))"
  using assms by (simp add: open_connected_def add_session_plain opened_session_def Let_def fold_emit)

lemma open_connected_ok:
  assumes ok: "router_ok st" and t: "dict_get (tasks st) key = Some t"
  shows "router_ok (open_connected now handle key st)"
proof -
  let ?ss = "dict_set key (opened_session now handle t) (sessions st)"
  have new: "key \<notin> dict_keys (sessions st)" using ok t by (rule task_not_session)
  have a: "t_addr t = fst key" using ok t by (simp add: router_ok_def pending_ok_def)
  have "sessions_ok ?ss"
    using ok a by (simp add: router_ok_def sessions_ok_def)
  moreover have "addr_index_ok ?ss (dict_set (fst key)
      (set_add key (dict_get_or (sessions_by_addr st) (fst key) [])) (sessions_by_addr st))"
    using ok by (intro addr_index_add [where d = "snd key"]) (simp_all add: router_ok_def)
  moreover have "cid_index_ok ?ss (sessions_by_server_cid st)"
    using ok new by (simp add: router_ok_def cid_index_add)
  moreover have "pending_ok (dict_pop key (pending st)) (dict_pop key (pending_crypto st))
      (dict_pop key (pending_seen st)) (dict_pop key (pending_started st))
      (set_discard key (opening_keys st)) (dict_pop key (tasks st)) ?ss"
    using ok by (simp add: router_ok_def pending_connected)
  moreover have "pause_ok (transport (pause_ingress_for_first_upstream now key st'))
      (awaiting_first_upstream (pause_ingress_for_first_upstream now key st'))
      (ingress_pause_timers (pause_ingress_for_first_upstream now key st')) ?ss"
    if "sessions st' = ?ss" "transport st' = transport st"
      "awaiting_first_upstream st' = awaiting_first_upstream st"
      "ingress_pause_timers st' = ingress_pause_timers st" for st'
  proof -
    have "pause_ok (transport st') (awaiting_first_upstream st') (ingress_pause_timers st') (sessions st')"
      using ok that by (auto simp: router_ok_def pause_ok_def)
    then show ?thesis
      using pause_ok_pause [of st' key now] that(1) by simp
  qed
  ultimately show ?thesis
    using ok by (simp add: open_connected_Some [OF t] router_ok_def Let_def a)
qed

lemma router_ok_open_connected: "router_ok st \<Longrightarrow> router_ok (open_connected now handle key st)"
  by (cases "dict_get (tasks st) key") (simp_all add: open_connected_ok, simp add: open_connected_def)

lemma router_ok_open_failed:
  assumes ok: "router_ok st"
  shows "router_ok (open_failed key st)"
proof (cases "dict_get (tasks st) key")
  case (Some t)
  let ?st = "release_ingress_pause key st"
  have "router_ok ?st" using ok by (rule router_ok_release)
  moreover have "release_ingress_pause key (drop_pending key st) = drop_pending key ?st"
    by (simp add: release_ingress_pause_def drop_pending_def Let_def)
  ultimately show ?thesis
    using pending_drop [of "pending st" "pending_crypto st" "pending_seen st" "pending_started st"
        "opening_keys st" "tasks st" "sessions st" key]
    by (simp add: open_failed_def Some router_ok_def)
qed (use ok in \<open>simp add: open_failed_def\<close>)

lemma router_ok_open_aborted:
  assumes ok: "router_ok st"
  shows "router_ok (open_aborted key st)"
proof (cases "dict_get (tasks st) key")
  case (Some t)
  then show ?thesis using ok by (auto simp: open_aborted_def router_ok_def pending_ok_def)
qed (use ok in \<open>simp add: open_aborted_def\<close>)

lemma register_preserves_session:
  assumes "dict_get (sessions st) key = Some s"
  shows "\<exists>s'. dict_get (sessions (register_server_connection_id key data st)) key = Some s' \<and>
    s_client s' = s_client s \<and> s_upstream s' = s_upstream s \<and> s_received s' = s_received s \<and>
    s_timeout s' = s_timeout s"
  using assms
  by (auto simp: register_server_connection_id_def index_server_connection_id_def Let_def
      split: sum.split option.split)

lemma router_ok_if: "router_ok x \<Longrightarrow> router_ok y \<Longrightarrow> router_ok (if b then x else y)"
  by simp

lemma router_ok_upstream:
  assumes ok: "router_ok st"
  shows "router_ok (upstream_received now key data st)"
proof (cases "dict_get (sessions st) key")
  case (Some s)
  let ?s1 = "s\<lparr>s_received := s_received s + 1\<rparr>"
  let ?st1 = "register_server_connection_id key data (st\<lparr>sessions := dict_set key ?s1 (sessions st)\<rparr>)"
  have st1: "router_ok ?st1"
    using router_ok_register router_ok_session_update [OF ok Some, of ?s1] by simp
  obtain s' where s': "dict_get (sessions ?st1) key = Some s'"
    using register_preserves_session [of "st\<lparr>sessions := dict_set key ?s1 (sessions st)\<rparr>" key ?s1 data] by auto
  let ?st2 = "if transport ?st1 \<noteq> None then emit (Send_Client (s_client ?s1) data) ?st1 else ?st1"
  let ?st3 = "if s_received ?s1 = 1 then release_ingress_pause key ?st2 else ?st2"
  have st3: "router_ok ?st3"
    by (intro router_ok_if router_ok_release) (simp_all only: router_ok_emit st1)
  have g3: "dict_get (sessions ?st3) key = Some s'"
    using s' by (simp only: if_distrib [where f = sessions] release_frame emit_fields if_cancel)
  have "upstream_received now key data st = ?st3\<lparr>sessions := dict_set key (s'\<lparr>s_last_seen := now\<rparr>) (sessions ?st3)\<rparr>"
    unfolding upstream_received_def Some option.case Let_def g3 ..
  also have "router_ok \<dots>" by (rule router_ok_session_update [OF st3 g3]) simp_all
  finally show ?thesis .
qed (use ok in \<open>simp add: upstream_received_def\<close>)

lemma router_ok_reap_pending:
  assumes ok: "router_ok st"
  shows "router_ok (reap_pending now st)"
proof -
  let ?f = "\<lambda>(key, last_seen) st. if now - last_seen > 10 then drop_pending key st else st"
  have "router_ok (fold ?f ps st)" if "router_ok st" "\<forall>p\<in>set ps. fst p \<notin> set (opening_keys st)" for ps st
    using that
  proof (induction ps arbitrary: st)
    case (Cons p ps)
    then show ?case
      by (cases p) (auto simp: router_ok_drop_pending intro!: Cons.IH)
  qed simp
  moreover have "\<forall>p\<in>set (pending_seen st). fst p \<notin> set (opening_keys st)"
    using ok by (auto simp: router_ok_def pending_ok_def dict_keys_def)
  ultimately show ?thesis unfolding reap_pending_def using ok by blast
qed

lemma router_ok_reap_sessions: "router_ok st \<Longrightarrow> router_ok (fst (reap_sessions now ss st))"
  by (induction now ss st rule: reap_sessions.induct) (auto simp: router_ok_remove split: option.split)

lemma router_ok_reap: "router_ok st \<Longrightarrow> router_ok (fst (reap now st))"
  by (simp add: reap_def Let_def router_ok_reap_pending router_ok_reap_sessions)

lemma router_ok_reload: "reload modified document st = Inr st' \<Longrightarrow> router_ok st \<Longrightarrow> router_ok st'"
  by (auto simp: reload_def result_simps router_ok_def split: sum.splits if_splits)

lemma router_ok_started: "router_started st \<Longrightarrow> router_ok st"
proof -
  have "router_ok (init_router\<lparr>transport := Some True\<rparr>)"
    by (simp add: router_ok_def init_router_def sessions_ok_def addr_index_ok_def cid_index_ok_def
        cid_counts_ok_def pending_ok_def pause_ok_def)
  then show "router_started st \<Longrightarrow> router_ok st"
    by (auto simp: router_started_def connection_made_def dest: router_ok_reload)
qed

lemma router_ok_step: "router_ok st \<Longrightarrow> router_step C st st' \<Longrightarrow> router_ok st'"
  by (erule router_stepE)
    (simp_all add: router_ok_datagram router_ok_open_start router_ok_open_connected router_ok_open_failed router_ok_open_aborted
      router_ok_upstream router_ok_release router_ok_reap router_ok_reload)

interpretation router_machine: state_machine router_started "router_step C" router_ok for C
  by unfold_locales (rule router_ok_started, assumption, rule router_ok_step)

lemma router_reachable_ok: "router_reachable C st \<Longrightarrow> router_ok st"
  unfolding router_reachable_def using router_machine.run_inv by blast

section \<open>Which session a short-header packet belongs to\<close>

text \<open>The connection IDs of a client's sessions that the packet starts with.\<close>

definition matching_cid :: "router \<Rightarrow> addr \<Rightarrow> bytes \<Rightarrow> bytes \<Rightarrow> session_key \<Rightarrow> bool" where
  "matching_cid st client data c key \<longleftrightarrow>
     (\<exists>s. dict_get (sessions st) key = Some s \<and> s_client s = client \<and> c \<in> set (s_server_cids s)) \<and>
     slice 1 (1 + length c) data = c"

lemma match_server_cid_first:
  assumes "match_server_cid ns data cids keys = Some k"
  shows "\<exists>n\<in>set ns. dict_get cids (slice 1 (1 + n) data) = Some k \<and> k \<in> set keys \<and>
    (sorted (rev ns) \<longrightarrow> (\<forall>m\<in>set ns. \<forall>k'. dict_get cids (slice 1 (1 + m) data) = Some k' \<longrightarrow> k' \<in> set keys \<longrightarrow> m \<le> n))"
  using assms
proof (induction ns)
  case (Cons n ns)
  show ?case
  proof (cases "\<exists>k'. dict_get cids (slice 1 (1 + n) data) = Some k' \<and> k' \<in> set keys")
    case True
    then have "dict_get cids (slice 1 (1 + n) data) = Some k" "k \<in> set keys"
      using Cons.prems by auto
    then show ?thesis by (auto simp: sorted_append)
  next
    case False
    then have "match_server_cid ns data cids keys = Some k"
      using Cons.prems by (auto split: option.splits)
    from Cons.IH [OF this] obtain n' where n': "n' \<in> set ns"
      "dict_get cids (slice 1 (1 + n') data) = Some k" "k \<in> set keys"
      "sorted (rev ns) \<longrightarrow> (\<forall>m\<in>set ns. \<forall>k'. dict_get cids (slice 1 (1 + m) data) = Some k' \<longrightarrow>
         k' \<in> set keys \<longrightarrow> m \<le> n')" by blast
    show ?thesis
    proof (intro bexI [of _ n'] conjI impI ballI allI)
      fix m k'
      assume a: "sorted (rev (n # ns))" "m \<in> set (n # ns)"
        "dict_get cids (slice 1 (1 + m) data) = Some k'" "k' \<in> set keys"
      then have "m \<noteq> n" using False by blast
      moreover have "sorted (rev ns)" using a(1) by (simp add: sorted_append)
      ultimately show "m \<le> n'" using n'(4) a by auto
    qed (use n' in simp_all)
  qed
qed simp

lemma match_server_cid_None:
  "match_server_cid ns data cids keys = None \<longleftrightarrow>
     (\<forall>n\<in>set ns. \<forall>k. dict_get cids (slice 1 (1 + n) data) = Some k \<longrightarrow> k \<notin> set keys)"
  by (induction ns) (auto split: option.splits)

lemma slice_1_prefix: "length c = min n (length data - 1) \<Longrightarrow> c = slice 1 (1 + n) data \<Longrightarrow>
    slice 1 (1 + length c) data = c"
  by (simp add: slice_def min_def split: if_splits)

lemma slice_1_length: "length (slice 1 (1 + n) data) = min n (length data - 1)"
  by simp

lemma short_header_lookup:
  assumes ok: "router_ok st"
  defines "cids \<equiv> sessions_by_server_cid st" and "ns \<equiv> server_cid_lengths st"
    and "keys \<equiv> \<lambda>client. dict_get_or (sessions_by_addr st) client []"
  shows "sorted (rev ns)" and "c \<in> dict_keys cids \<Longrightarrow> length c \<in> set ns"
    and "k \<in> set (keys client) \<longleftrightarrow> (\<exists>s. dict_get (sessions st) k = Some s \<and> s_client s = client)"
    and "dict_get cids c = Some k \<longleftrightarrow> (\<exists>s. dict_get (sessions st) k = Some s \<and> c \<in> set (s_server_cids s))"
    and "distinct (keys client)"
proof -
  have cnt: "cid_counts_ok cids (server_cid_length_counts st) ns"
    and idx: "cid_index_ok (sessions st) cids" and adr: "addr_index_ok (sessions st) (sessions_by_addr st)"
    and ses: "sessions_ok (sessions st)"
    using ok by (simp_all add: router_ok_def cids_def ns_def)
  show "sorted (rev ns)" using cnt by (simp add: cid_counts_ok_def)
  show "length c \<in> set ns" if "c \<in> dict_keys cids"
  proof -
    have "{c' \<in> dict_keys cids. length c' = length c} \<noteq> {}" using that by auto
    then have "card {c' \<in> dict_keys cids. length c' = length c} \<noteq> 0" by simp
    then have "dict_get_or (server_cid_length_counts st) (length c) 0 \<noteq> 0"
      using cnt by (simp add: cid_counts_ok_def)
    then have "length c \<in> dict_keys (server_cid_length_counts st)"
      by (auto simp: dict_get_or_def dict_keys_get split: option.splits)
    then show ?thesis using cnt by (simp add: cid_counts_ok_def dict_keys_def)
  qed
  show "k \<in> set (keys client) \<longleftrightarrow> (\<exists>s. dict_get (sessions st) k = Some s \<and> s_client s = client)"
    using adr ses unfolding addr_index_ok_def sessions_ok_def keys_def by (auto simp: dict_keys_get)
  show "dict_get cids c = Some k \<longleftrightarrow> (\<exists>s. dict_get (sessions st) k = Some s \<and> c \<in> set (s_server_cids s))"
    using idx unfolding cid_index_ok_def by blast
  show "distinct (keys client)" using adr by (simp add: addr_index_ok_def keys_def)
qed

lemma short_header_longest:
  assumes ok: "router_ok st" and data: "data \<noteq> []" "(data ! 0) AND 0x80 = 0"
    and c: "matching_cid st client data c key"
    and longest: "\<And>c' key'. matching_cid st client data c' key' \<Longrightarrow> length c' \<le> length c"
  shows "session_for_datagram data client st = Some key"
proof -
  note lk = short_header_lookup [OF ok]
  let ?keys = "dict_get_or (sessions_by_addr st) client []"
  let ?m = "match_server_cid (server_cid_lengths st) data (sessions_by_server_cid st) ?keys"
  obtain s where s: "dict_get (sessions st) key = Some s" "s_client s = client" "c \<in> set (s_server_cids s)"
    and pre: "slice 1 (1 + length c) data = c"
    using c by (auto simp: matching_cid_def)
  have own: "dict_get (sessions_by_server_cid st) c = Some key" using lk(4) s by blast
  have n: "length c \<in> set (server_cid_lengths st)" by (rule lk(2)) (rule dict_keys_SomeI [OF own])
  have k: "key \<in> set ?keys" using lk(3) s by blast
  have own': "dict_get (sessions_by_server_cid st) (slice 1 (1 + length c) data) = Some key"
    unfolding pre by (rule own)
  have "?m \<noteq> None"
  proof
    assume "?m = None"
    then have "\<forall>k. dict_get (sessions_by_server_cid st) (slice 1 (1 + length c) data) = Some k \<longrightarrow> k \<notin> set ?keys"
      using n unfolding match_server_cid_None by blast
    with own' k show False by blast
  qed
  then obtain k' where m: "?m = Some k'" by blast
  from match_server_cid_first [OF m] obtain n' where
    n': "dict_get (sessions_by_server_cid st) (slice 1 (1 + n') data) = Some k'" "k' \<in> set ?keys"
    and le: "sorted (rev (server_cid_lengths st)) \<longrightarrow> (\<forall>m\<in>set (server_cid_lengths st). \<forall>k'.
      dict_get (sessions_by_server_cid st) (slice 1 (1 + m) data) = Some k' \<longrightarrow> k' \<in> set ?keys \<longrightarrow> m \<le> n')"
    by blast
  have n'c: "length c \<le> n'" using le lk(1) n own' k by blast
  let ?c' = "slice 1 (1 + n') data"
  have lc': "length ?c' = min n' (length data - 1)" by simp
  have lc: "length c \<le> length data - 1" using arg_cong [OF pre, of length] by simp
  obtain s' where s': "dict_get (sessions st) k' = Some s'" "?c' \<in> set (s_server_cids s')" "s_client s' = client"
    using lk(3) [of k' client] lk(4) [of ?c' k'] n' by (metis option.inject)
  have "matching_cid st client data ?c' k'"
    unfolding matching_cid_def using s' slice_1_prefix [OF lc' refl] by blast
  then have "length ?c' \<le> length c" by (rule longest)
  then have "length ?c' = length c" using lc' lc n'c by linarith
  then have "?c' = c" using slice_1_prefix [OF lc' refl] pre by metis
  then have "k' = key" using n'(1) own by (metis option.inject)
  with m data show ?thesis by (simp add: session_for_datagram_def)
qed

lemma short_header_unmatched:
  assumes ok: "router_ok st" and data: "data \<noteq> []" "(data ! 0) AND 0x80 = 0"
    and none: "\<And>c key. \<not> matching_cid st client data c key"
  shows "session_for_datagram data client st = Some key \<longleftrightarrow>
    (\<exists>s. dict_get (sessions st) key = Some s \<and> s_client s = client) \<and>
    (\<forall>key' s. dict_get (sessions st) key' = Some s \<longrightarrow> s_client s = client \<longrightarrow> key' = key)"
proof -
  note lk = short_header_lookup [OF ok]
  let ?keys = "dict_get_or (sessions_by_addr st) client []"
  have "match_server_cid (server_cid_lengths st) data (sessions_by_server_cid st) ?keys = None"
    unfolding match_server_cid_None
  proof (intro ballI allI impI notI)
    fix n k
    let ?c = "slice 1 (1 + n) data"
    assume o: "dict_get (sessions_by_server_cid st) ?c = Some k" and k: "k \<in> set ?keys"
    obtain s where "dict_get (sessions st) k = Some s" "?c \<in> set (s_server_cids s)" "s_client s = client"
      using lk(3) [of k client] lk(4) [of ?c k] o k by (metis option.inject)
    then have "matching_cid st client data ?c k"
      unfolding matching_cid_def using slice_1_prefix [of ?c n data, OF slice_1_length refl] by blast
    with none show False by blast
  qed
  then have "session_for_datagram data client st = Some key \<longleftrightarrow> length ?keys = 1 \<and> hd ?keys = key"
    using data by (simp add: session_for_datagram_def Let_def)
  also have "\<dots> \<longleftrightarrow> key \<in> set ?keys \<and> (\<forall>k\<in>set ?keys. k = key)"
  proof
    assume "length ?keys = 1 \<and> hd ?keys = key"
    then show "key \<in> set ?keys \<and> (\<forall>k\<in>set ?keys. k = key)"
      by (metis One_nat_def length_0_conv length_Suc_conv list.sel(1) list.set_intros(1) singletonD
          empty_set list.simps(15))
  next
    assume a: "key \<in> set ?keys \<and> (\<forall>k\<in>set ?keys. k = key)"
    then have "set ?keys = {key}" by blast
    then have "card (set ?keys) = 1" by simp
    then have "length ?keys = 1" using distinct_card [OF lk(5) [of client]] by simp
    moreover from this have "?keys \<noteq> []" by force
    then have "hd ?keys \<in> set ?keys" by (rule hd_in_set)
    ultimately show "length ?keys = 1 \<and> hd ?keys = key" using a by blast
  qed
  also have "\<dots> \<longleftrightarrow> (\<exists>s. dict_get (sessions st) key = Some s \<and> s_client s = client) \<and>
      (\<forall>key' s. dict_get (sessions st) key' = Some s \<longrightarrow> s_client s = client \<longrightarrow> key' = key)"
    unfolding Ball_def lk(3) by blast
  finally show ?thesis .
qed

section \<open>Effects of the operations\<close>

lemma dict_set_new: "k \<notin> dict_keys d \<Longrightarrow> dict_set k v d = d @ [(k, v)]"
  by (induction d) (auto simp: dict_set_def)

lemma dict_update_append: "dict_ok (d @ e) \<Longrightarrow> dict_update d e = d @ e"
proof (induction e arbitrary: d)
  case (Cons p e)
  obtain k v where p: "p = (k, v)" by (cases p)
  have "k \<notin> dict_keys d" using Cons.prems by (auto simp: p dict_ok_def dict_keys_def)
  then have "dict_update d (p # e) = dict_update (d @ [p]) e"
    by (simp add: dict_update_def p dict_set_new)
  also have "\<dots> = d @ p # e" using Cons.IH [of "d @ [p]"] Cons.prems by simp
  finally show ?case .
qed (simp add: dict_update_def)

lemma crypto_loop_dict_ok: "crypto_loop p n d = Inr d' \<Longrightarrow> dict_ok d \<Longrightarrow> dict_ok d'"
proof (induction p n d rule: crypto_loop.induct)
  case (1 p n d)
  show ?case
  proof (cases "n < length p")
    case False
    with "1.prems" show ?thesis by (subst (asm) crypto_loop.simps) simp
  next
    case lt: True
    then obtain v n1 where v: "varint p n = Inr (v, n1)"
      using "1.prems"(1) by (subst (asm) crypto_loop.simps) (auto simp: ebind_Inr_pair)
    note step = "1.prems"(1) [unfolded crypto_loop.simps [of p n], simplified lt v, simplified]
    consider "v = 0 \<or> v = 1" | "v = 6" | "v \<noteq> 0 \<and> v \<noteq> 1 \<and> v \<noteq> 6" by blast
    then show ?thesis
    proof cases
      case 1
      then show ?thesis using "1.IH"(1) [OF lt v refl] step "1.prems"(2) by auto
    next
      case 2
      with step obtain off n2 len n3 where m: "varint p n1 = Inr (off, n2)" "varint p n2 = Inr (len, n3)"
        "\<not> length p < n3 + len"
        "crypto_loop p (n3 + len) (dict_set off (slice n3 (n3 + len) p) d) = Inr d'"
        by (auto simp: ebind_Inr_pair split: if_splits)
      have "\<not> (v = 0 \<or> v = 1)" using 2 by simp
      from "1.IH"(2) [OF lt v refl this 2 m(1) refl m(2) refl m(3,4)] "1.prems"(2) show ?thesis by simp
    next
      case 3
      with step "1.prems"(2) show ?thesis by simp
    qed
  qed
qed

lemma crypto_fragments_dict_ok: "crypto_fragments p = Inr d \<Longrightarrow> dict_ok d"
  by (simp add: crypto_fragments_def crypto_loop_dict_ok)

lemma inspect_pending_opening:
  assumes "k \<in> set (opening_keys (inspect_pending C data client dcid scid st))" "k \<notin> set (opening_keys st)"
  shows "\<exists>fragments server_name alpns route. k = (client, dcid) \<and>
    ebind (decrypt_initial C data) crypto_fragments = Inr fragments \<and>
    parse_client_hello (assemble_crypto (dict_update (dict_get_or (pending_crypto st) k []) fragments)) =
      Inr (server_name, alpns) \<and>
    dict_get (routes st) server_name = Some route \<and> rt_alpn route \<in> PStr ` set alpns \<and>
    dict_get (tasks (inspect_pending C data client dcid scid st)) k =
      Some \<lparr>t_phase = Spawned, t_addr = client, t_route = route, t_client_scid = scid, t_initial_dcid = dcid\<rparr>"
  using assms
  by (auto simp: inspect_pending_def Let_def session_key_of_def split: sum.splits option.splits if_splits)

lemma receive_initial_opening:
  assumes "k \<in> set (opening_keys (receive_initial C now data client dcid scid st))" "k \<notin> set (opening_keys st)"
  shows "\<exists>fragments server_name alpns route. k = (client, dcid) \<and>
    ebind (decrypt_initial C data) crypto_fragments = Inr fragments \<and>
    parse_client_hello (assemble_crypto (dict_update (dict_get_or (pending_crypto st) k []) fragments)) =
      Inr (server_name, alpns) \<and>
    dict_get (routes st) server_name = Some route \<and> rt_alpn route \<in> PStr ` set alpns \<and>
    dict_get (tasks (receive_initial C now data client dcid scid st)) k =
      Some \<lparr>t_phase = Spawned, t_addr = client, t_route = route, t_client_scid = scid, t_initial_dcid = dcid\<rparr>"
  using assms inspect_pending_opening [of k C data client dcid scid]
  by (fastforce simp: receive_initial_def Let_def split: if_splits)

lemma datagram_received_opening:
  assumes "k \<in> set (opening_keys (datagram_received C now data client st))" "k \<notin> set (opening_keys st)"
  shows "\<exists>dcid scid fragments server_name alpns route. k = (client, dcid) \<and>
    initial_connection_ids data = Inr (dcid, scid) \<and>
    ebind (decrypt_initial C data) crypto_fragments = Inr fragments \<and>
    parse_client_hello (assemble_crypto (dict_update (dict_get_or (pending_crypto st) k []) fragments)) =
      Inr (server_name, alpns) \<and>
    dict_get (routes st) server_name = Some route \<and> rt_alpn route \<in> PStr ` set alpns \<and>
    dict_get (tasks (datagram_received C now data client st)) k =
      Some \<lparr>t_phase = Spawned, t_addr = client, t_route = route, t_client_scid = scid, t_initial_dcid = dcid\<rparr>"
  using assms
  by (auto simp: datagram_received_def split: option.splits if_splits sum.splits
      dest!: receive_initial_opening)

lemma receive_initial_outputs [simp]: "outputs (receive_initial C now data client dcid scid st) = outputs st"
  by (auto simp: receive_initial_def inspect_pending_def Let_def split: sum.split option.split)

lemma datagram_received_outputs:
  "outputs (datagram_received C now data client st) =
     (case session_for_datagram data client st of
        None \<Rightarrow> outputs st
      | Some key \<Rightarrow> (case dict_get (sessions st) key of
          None \<Rightarrow> outputs st | Some s \<Rightarrow> outputs st @ [Send_Upstream (s_upstream s) data]))"
  by (auto simp: datagram_received_def split: option.split sum.split)

lemma release_all:
  assumes "router_ok st" and "transport st \<noteq> None" and "awaiting_first_upstream st = ks"
  shows "transport (fold release_ingress_pause ks st) = Some True"
  using assms
proof (induction ks arbitrary: st)
  case Nil
  then show ?case by (auto simp: router_ok_def pause_ok_def)
next
  case (Cons k ks)
  note f = release_fields [of st "sessions st" k]
  have p: "pause_ok (transport st) (awaiting_first_upstream st) (ingress_pause_timers st) (sessions st)"
    using Cons.prems(1) by (simp add: router_ok_def)
  have "awaiting_first_upstream (release_ingress_pause k st) = ks"
    using f(1) [OF p] p Cons.prems(3) by (auto simp: pause_ok_def set_discard_def filter_id_conv)
  then show ?case
    using Cons.IH [OF router_ok_release [OF Cons.prems(1), of k]] f(3) [OF p] Cons.prems(2) by simp
qed

lemma remove_session_sessions [simp]: "sessions (remove_session close key st) = dict_pop key (sessions st)"
  by (auto simp: remove_session_def Let_def dict_get_None split: option.split
      simp: fold_frame [where f = "unindex_server_connection_id key"])

lemma reap_sessions_sessions:
  assumes "\<forall>(key, s)\<in>set ss. num_val (s_timeout s) \<noteq> None"
  shows "snd (reap_sessions now ss st) \<and>
    dict_get (sessions (fst (reap_sessions now ss st))) key =
      (if \<exists>s t. (key, s) \<in> set ss \<and> num_val (s_timeout s) = Some t \<and> now - s_last_seen s > of_int t
       then None else dict_get (sessions st) key)"
  using assms by (induction now ss st rule: reap_sessions.induct) (auto split: option.split)

lemma reap_pending_get:
  fixes now :: rat
  assumes "dict_ok (pending_seen st)"
  defines "expired \<equiv> \<lambda>key. \<exists>t. dict_get (pending_seen st) key = Some t \<and> now - t > 10"
  shows "sessions (reap_pending now st) = sessions st \<and>
    dict_get (pending (reap_pending now st)) key = (if expired key then None else dict_get (pending st) key) \<and>
    dict_get (pending_seen (reap_pending now st)) key = (if expired key then None else dict_get (pending_seen st) key)"
proof -
  let ?f = "\<lambda>(key, last_seen) st. if now - last_seen > 10 then drop_pending key st else st"
  have "sessions (fold ?f ps s) = sessions s \<and>
      dict_get (pending (fold ?f ps s)) key =
        (if \<exists>t. (key, t) \<in> set ps \<and> now - t > 10 then None else dict_get (pending s) key) \<and>
      dict_get (pending_seen (fold ?f ps s)) key =
        (if \<exists>t. (key, t) \<in> set ps \<and> now - t > 10 then None else dict_get (pending_seen s) key)" for ps s
    by (induction ps arbitrary: s) auto
  from this [of "pending_seen st" st] show ?thesis
    using dict_get_in_set [OF assms(1)] by (simp add: reap_pending_def expired_def)
qed

section \<open>Opening a session\<close>

lemma connection_ids_layout:
  assumes D: "D = b0 # initial_header version dcid scid token plen @ rest" and b0: "b0 AND 0x80 \<noteq> 0"
    and d: "length dcid < 256" and s: "length scid < 256"
  shows "initial_connection_ids D = Inr (dcid, scid)"
proof -
  let ?pl = "encode_varint plen" and ?tl = "encode_varint (length token)"
  have l0: "D ! 0 = b0" by (simp add: D)
  have l2: "D ! 5 = of_nat (length dcid)"
    by (simp add: D initial_header_def nth_append)
  have ud: "unat (of_nat (length dcid) :: byte) = length dcid"
    and us: "unat (of_nat (length scid) :: byte) = length scid" using d s by simp_all
  have l3: "slice 6 (6 + length dcid) D = dcid" by (simp add: D initial_header_def slice_def)
  have l4: "length dcid + 6 < length D" by (simp add: D initial_header_def)
  have l5: "D ! (6 + length dcid) = of_nat (length scid)"
    by (simp add: D initial_header_def nth_append)
  have l6: "slice (6 + length dcid + 1) (6 + length dcid + 1 + length scid) D = scid"
  proof -
    have "D = (b0 # be_bytes 4 version @ [of_nat (length dcid)] @ dcid @ [of_nat (length scid)]) @ scid @
        (?tl @ token @ ?pl @ rest)" by (simp add: D initial_header_def)
    then show ?thesis by (simp only:) (rule slice_append', simp_all)
  qed
  show ?thesis
    unfolding initial_connection_ids_def Let_def l0 l2 ud l3 l5 us l6 using b0 l4 by simp
qed

lemma connection_ids_protected:
  assumes "first AND 0x80 \<noteq> 0" "length dcid < 256" "length scid < 256"
  shows "initial_connection_ids (protect_initial C seal first version dcid scid token pn payload @ rest) =
    Inr (dcid, scid)"
proof -
  obtain key iv hp where k: "client_keys_spec C version dcid = (key, iv, hp)" by (metis prod_cases3)
  obtain m p body where eq: "protect_initial C seal first version dcid scid token pn payload @ rest =
      (first XOR (m AND 0x0F)) # initial_header version dcid scid token p @ body"
    unfolding protect_initial_def Let_def k case_prod_conv by (simp only: append_Cons append_assoc)
  show ?thesis
    unfolding eq
  proof (rule connection_ids_layout [OF refl])
    show "(first XOR (m AND 0x0F)) AND 0x80 \<noteq> 0" unfolding xor_masked_bit7 by (rule assms(1))
  qed (rule assms)+
qed

lemma inspect_sni_fragments:
  assumes "inspect_sni C data = Inr names"
  shows "\<exists>fragments. ebind (decrypt_initial C data) crypto_fragments = Inr fragments \<and>
    parse_client_hello (assemble_crypto (dict_update [] fragments)) = Inr names"
proof -
  from assms obtain p f where "decrypt_initial C data = Inr p" "crypto_fragments p = Inr f"
    "parse_client_hello (assemble_crypto f) = Inr names"
    by (auto simp: inspect_sni_def result_simps)
  moreover from this have "dict_update [] f = f"
    using dict_update_append [of "[]" f] crypto_fragments_dict_ok by simp
  ultimately show ?thesis by simp
qed

lemma session_for_new_initial:
  assumes "initial_connection_ids data = Inr (dcid, scid)"
    and "(client, dcid) \<notin> dict_keys (sessions st)" and "dict_get (sessions_by_server_cid st) dcid = None"
  shows "session_for_datagram data client st = None" "data \<noteq> []" "(data ! 0) AND 0x80 \<noteq> 0"
proof -
  show d: "data \<noteq> []" "(data ! 0) AND 0x80 \<noteq> 0"
    using assms(1) by (auto simp: initial_connection_ids_def split: if_splits)
  show "session_for_datagram data client st = None"
    using assms d by (simp add: session_for_datagram_def session_key_of_def Let_def)
qed

lemma receive_initial_opens:
  fixes now :: rat and scid :: bytes
  assumes "(client, dcid) \<notin> set (opening_keys st)" "(client, dcid) \<notin> dict_keys (pending st)"
    and "(client, dcid) \<notin> dict_keys (pending_crypto st)" "length (pending st) < 2048"
    and sni: "inspect_sni C data = Inr (server_name, alpns)"
    and route: "dict_get (routes st) server_name = Some route" "rt_alpn route \<in> PStr ` set alpns"
  defines "st1 \<equiv> receive_initial C now data client dcid scid st"
  shows "dict_get (pending st1) (client, dcid) = Some [data]"
    and "dict_get (tasks st1) (client, dcid) = Some \<lparr>t_phase = Spawned, t_addr = client, t_route = route,
      t_client_scid = scid, t_initial_dcid = dcid\<rparr>"
    and "sessions st1 = sessions st" "sessions_by_addr st1 = sessions_by_addr st" "transport st1 = transport st"
    and "awaiting_first_upstream st1 = awaiting_first_upstream st" "outputs st1 = outputs st"
    and "sessions_by_server_cid st1 = sessions_by_server_cid st"
proof -
  obtain fs where fs: "ebind (decrypt_initial C data) crypto_fragments = Inr fs"
    "parse_client_hello (assemble_crypto (dict_update [] fs)) = Inr (server_name, alpns)"
    using inspect_sni_fragments [OF sni] by blast
  have g: "dict_get_or (pending st) (client, dcid) [] = []" "dict_get_or (pending_crypto st) (client, dcid) [] = []"
    using assms(2,3) by (simp_all add: dict_get_or_def flip: dict_get_None)
  note defs = st1_def receive_initial_def inspect_pending_def session_key_of_def Let_def
  show "dict_get (pending st1) (client, dcid) = Some [data]"
    "dict_get (tasks st1) (client, dcid) = Some \<lparr>t_phase = Spawned, t_addr = client, t_route = route,
      t_client_scid = scid, t_initial_dcid = dcid\<rparr>"
    "sessions st1 = sessions st" "sessions_by_addr st1 = sessions_by_addr st" "transport st1 = transport st"
    "awaiting_first_upstream st1 = awaiting_first_upstream st" "outputs st1 = outputs st"
    "sessions_by_server_cid st1 = sessions_by_server_cid st"
    using assms(1-4) fs g route by (simp_all add: defs)
qed

text \<open>The three callbacks that turn an accepted Initial into a session, without others in between.\<close>

definition open_through :: "quic_crypto \<Rightarrow> rat \<Rightarrow> nat \<Rightarrow> bytes \<Rightarrow> addr \<Rightarrow> bytes \<Rightarrow> router \<Rightarrow> router" where
  "open_through C now handle data client dcid st =
     open_connected now handle (client, dcid)
       (open_start (client, dcid) (datagram_received C now data client st))"

lemma pause_transport:
  assumes "pause_ok (transport st) (awaiting_first_upstream st) tm ss" "key \<notin> set (awaiting_first_upstream st)"
  shows "transport (pause_ingress_for_first_upstream now key st) = map_option (\<lambda>_. False) (transport st)"
  using assms
  by (cases "transport st"; cases "awaiting_first_upstream st")
    (auto simp: pause_ingress_for_first_upstream_def Let_def set_add_def pause_ok_def)

lemma open_through_effect:
  fixes now :: rat and handle :: nat
  assumes ok: "router_ok st"
    and ids: "initial_connection_ids data = Inr (dcid, scid)"
    and new: "(client, dcid) \<notin> dict_keys (sessions st)" "dict_get (sessions_by_server_cid st) dcid = None"
      "(client, dcid) \<notin> dict_keys (pending st)" "length (pending st) < 2048"
    and sni: "inspect_sni C data = Inr (server_name, alpns)"
    and route: "dict_get (routes st) server_name = Some route" "rt_alpn route \<in> PStr ` set alpns"
  defines "st3 \<equiv> open_through C now handle data client dcid st"
  shows "\<exists>s. sessions st3 = dict_set (client, dcid) s (sessions st) \<and> s_client s = client \<and>
      s_upstream s = handle \<and> s_timeout s = rt_idle_timeout route \<and> s_server_cids s = [] \<and> s_received s = 0"
    and "outputs st3 = outputs st @ [Send_Upstream handle data]"
    and "sessions_by_server_cid st3 = sessions_by_server_cid st"
    and "(client, dcid) \<notin> dict_keys (pending st3)" and "(client, dcid) \<notin> set (opening_keys st3)"
    and "transport st3 = map_option (\<lambda>_. False) (transport st)"
proof -
  let ?key = "(client, dcid)"
  let ?t = "\<lparr>t_phase = Spawned, t_addr = client, t_route = route, t_client_scid = scid, t_initial_dcid = dcid\<rparr>"
  have p: "?key \<notin> set (opening_keys st)" "?key \<notin> dict_keys (pending_crypto st)"
    using ok new(3) by (auto simp: router_ok_def pending_ok_def)
  let ?st1 = "receive_initial C now data client dcid scid st"
  note r = receive_initial_opens [OF p(1) new(3) p(2) new(4) sni route, where now = now and scid = scid]
  have st1: "datagram_received C now data client st = ?st1"
    using session_for_new_initial [OF ids new(1,2)] ids by (simp add: datagram_received_def)
  let ?st2 = "?st1\<lparr>tasks := dict_set ?key (?t\<lparr>t_phase := Connecting\<rparr>) (tasks ?st1)\<rparr>"
  have st2: "open_start ?key ?st1 = ?st2"
    using r new(1) by (simp add: open_start_def)
  have t2: "dict_get (tasks ?st2) ?key = Some (?t\<lparr>t_phase := Connecting\<rparr>)" by simp
  have q: "dict_get_or (pending ?st2) ?key [] = [data]" using r(1) by (simp add: dict_get_or_def)
  have aw: "?key \<notin> set (awaiting_first_upstream st)"
    using ok new(1) by (auto simp: router_ok_def pause_ok_def)
  have pk: "pause_ok (transport st) (awaiting_first_upstream st) (ingress_pause_timers st) (sessions st)"
    using ok by (simp add: router_ok_def)
  note st3 = st3_def [unfolded open_through_def st1 st2 open_connected_Some [OF t2] Let_def]
  show "\<exists>s. sessions st3 = dict_set ?key s (sessions st) \<and> s_client s = client \<and>
      s_upstream s = handle \<and> s_timeout s = rt_idle_timeout route \<and> s_server_cids s = [] \<and> s_received s = 0"
    by (intro exI [of _ "opened_session now handle (?t\<lparr>t_phase := Connecting\<rparr>)"]) (simp add: st3 r)
  show "outputs st3 = outputs st @ [Send_Upstream handle data]"
    using q r by (simp add: st3)
  show "sessions_by_server_cid st3 = sessions_by_server_cid st" using r by (simp add: st3)
  show "?key \<notin> dict_keys (pending st3)" "?key \<notin> set (opening_keys st3)"
    by (simp_all add: st3)
  show "transport st3 = map_option (\<lambda>_. False) (transport st)"
    unfolding st3 using r(5,6) pk aw by (simp, subst pause_transport) simp_all
qed

lemma router_reachable_step: "router_reachable C st \<Longrightarrow> router_step C st st' \<Longrightarrow> router_reachable C st'"
  unfolding router_reachable_def by (meson rtranclp.rtrancl_into_rtrancl)

lemma open_through_reachable:
  assumes reach: "router_reachable C st"
    and ids: "initial_connection_ids data = Inr (dcid, scid)"
    and new: "(client, dcid) \<notin> dict_keys (sessions st)" "dict_get (sessions_by_server_cid st) dcid = None"
      "(client, dcid) \<notin> dict_keys (pending st)" "length (pending st) < 2048"
    and sni: "inspect_sni C data = Inr (server_name, alpns)"
    and route: "dict_get (routes st) server_name = Some route" "rt_alpn route \<in> PStr ` set alpns"
  shows "router_reachable C (open_through C now handle data client dcid st)"
proof -
  have ok: "router_ok st" using reach by (rule router_reachable_ok)
  have p: "(client, dcid) \<notin> set (opening_keys st)" "(client, dcid) \<notin> dict_keys (pending_crypto st)"
    using ok new(3) by (auto simp: router_ok_def pending_ok_def)
  let ?st1 = "datagram_received C now data client st"
  note r = receive_initial_opens [OF p(1) new(3) p(2) new(4) sni route, where now = now and scid = scid]
  have eq: "?st1 = receive_initial C now data client dcid scid st"
    using session_for_new_initial [OF ids new(1,2)] ids by (simp add: datagram_received_def)
  have "router_reachable C ?st1"
    using reach by (rule router_reachable_step) (rule router_step.client_datagram)
  then have "router_reachable C (open_start (client, dcid) ?st1)"
    by (rule router_reachable_step) (rule router_step.start, use r eq in simp, simp)
  then show ?thesis
    unfolding open_through_def
    by (rule router_reachable_step)
      (rule router_step.connected, use r eq new(1) in \<open>simp add: open_start_def\<close>, simp)
qed

section \<open>Responses from the upstream\<close>

lemma index_by_cid:
  assumes "dict_get (sessions st) key = Some s"
  shows "dict_get (sessions_by_server_cid (index_server_connection_id key c st)) c =
    Some (case dict_get (sessions_by_server_cid st) c of None \<Rightarrow> key | Some owner \<Rightarrow> owner)"
  using assms by (simp add: index_server_connection_id_def Let_def split: option.split)

lemma index_frame [simp, router_fields]:
  "transport (index_server_connection_id key c st) = transport st"
  "awaiting_first_upstream (index_server_connection_id key c st) = awaiting_first_upstream st"
  "ingress_pause_timers (index_server_connection_id key c st) = ingress_pause_timers st"
  "outputs (index_server_connection_id key c st) = outputs st"
  "pending (index_server_connection_id key c st) = pending st"
  by (simp_all add: index_server_connection_id_def Let_def split: option.split)

lemma register_frame [simp, router_fields]:
  "transport (register_server_connection_id key data st) = transport st"
  "awaiting_first_upstream (register_server_connection_id key data st) = awaiting_first_upstream st"
  "ingress_pause_timers (register_server_connection_id key data st) = ingress_pause_timers st"
  "outputs (register_server_connection_id key data st) = outputs st"
  "pending (register_server_connection_id key data st) = pending st"
  by (simp_all add: register_server_connection_id_def split: option.split sum.split prod.split)

lemma register_by_cid:
  assumes "dict_get (sessions st) key = Some s" "initial_connection_ids data = Inr (d, c)" "c \<noteq> []"
  shows "register_server_connection_id key data st = index_server_connection_id key c st"
proof -
  have "data \<noteq> []" "(data ! 0) AND 0x80 \<noteq> 0"
    using assms(2) by (auto simp: initial_connection_ids_def split: if_splits)
  with assms show ?thesis by (simp add: register_server_connection_id_def)
qed

lemma upstream_received_fields:
  fixes now :: rat and data :: bytes
  assumes s: "dict_get (sessions st) key = Some s"
  defines "st' \<equiv> upstream_received now key data st"
    and "st1 \<equiv> register_server_connection_id key data
      (st\<lparr>sessions := dict_set key (s\<lparr>s_received := s_received s + 1\<rparr>) (sessions st)\<rparr>)"
  shows "outputs st' = outputs st @ (if transport st = None then [] else [Send_Client (s_client s) data])"
    and "sessions_by_server_cid st' = sessions_by_server_cid st1"
    and "awaiting_first_upstream st' =
      (if s_received s = 0 then set_discard key (awaiting_first_upstream st) else awaiting_first_upstream st)"
proof -
  let ?st0 = "st\<lparr>sessions := dict_set key (s\<lparr>s_received := s_received s + 1\<rparr>) (sessions st)\<rparr>"
  obtain s' where s': "dict_get (sessions st1) key = Some s'"
    using register_preserves_session [of ?st0 key "s\<lparr>s_received := s_received s + 1\<rparr>" data]
    by (auto simp: st1_def)
  note d = st'_def upstream_received_def s option.case Let_def st1_def [symmetric]
  have st1: "transport st1 = transport st" "outputs st1 = outputs st"
    "awaiting_first_upstream st1 = awaiting_first_upstream st"
    by (simp_all add: st1_def)
  have r: "awaiting_first_upstream (release_ingress_pause key x) = set_discard key (awaiting_first_upstream x)" for x
    by (simp add: release_ingress_pause_def Let_def)
  show "outputs st' = outputs st @ (if transport st = None then [] else [Send_Client (s_client s) data])"
    unfolding d using s' st1 by simp
  show "sessions_by_server_cid st' = sessions_by_server_cid st1"
    unfolding d using s' by simp
  show "awaiting_first_upstream st' =
      (if s_received s = 0 then set_discard key (awaiting_first_upstream st) else awaiting_first_upstream st)"
    unfolding d using s' st1 by (simp add: r)
qed

section \<open>A concrete run\<close>

definition web_document :: pyval where
  "web_document = PDict [(''listeners'', PList [PDict [(''routes'', PList [PDict
     [(''server_name'', PStr ''example.com''), (''target'', PStr ''10.0.0.5''), (''target_port'', PInt 8443)]])]])]"

definition web_router :: router where
  "web_router = init_router\<lparr>transport := Some True, routes := [(''example.com'',
     \<lparr>rt_server_name = ''example.com'', rt_target = PStr ''10.0.0.5'', rt_target_port = PInt 8443,
      rt_alpn = PStr ''h3'', rt_idle_timeout = PInt 1800\<rparr>)], config_mtime := 5\<rparr>"

definition web_client :: addr where "web_client = (''203.0.113.9'', 50000)"

definition web_packet :: bytes where
  "web_packet = protect_initial toy_crypto toy_seal 0xC0 quic_v1 [1, 2, 3] [] [] 7
     (encode_frames [Crypto 0 toy_hello] @ []) @ replicate 40 0"

definition web_session_router :: router where
  "web_session_router = open_through toy_crypto 100 7 web_packet web_client [1, 2, 3] web_router"

text \<open>The upstream answers with a long-header packet whose source connection ID is 9, 9.\<close>

definition web_response_router :: router where
  "web_response_router =
     upstream_received 101 (web_client, [1, 2, 3]) [0xC0, 0, 0, 0, 1, 0, 2, 9, 9] web_session_router"

lemma web_router_reachable: "router_reachable C web_router"
proof -
  have "connection_made (Inr 5) (Inr web_document) init_router = Inr web_router"
    by (simp add: connection_made_def reload_def web_document_def load_routes_def route_of_raw_def
        route_fields_def init_router_def web_router_def dict_get_or_def dict_set_def casefold_def
        lower_char_def is_upper_def char_nat_def rstrip_dot_def rstrip_by_def)
  then show ?thesis unfolding router_reachable_def router_started_def by blast
qed

lemma toy_hello_length: "length toy_hello = 82"
  by (simp add: toy_hello_def client_hello_def hello_body_def hello_extensions_def encode_extensions_def
      encode_extension_def sni_data_def alpn_data_def alpn_items_def)

lemma example_name: "rstrip_dot (casefold ''Example.COM.'') = ''example.com''"
  by code_simp

lemma web_packet_sni: "inspect_sni toy_crypto web_packet = Inr (''example.com'', [''h3''])"
proof -
  have "inspect_sni toy_crypto web_packet = Inr (rstrip_dot (casefold ''Example.COM.''), [''h3''])"
    unfolding web_packet_def
  proof (rule inspect_sni_protected [where stream = toy_hello])
    show "toy_hello = client_hello (replicate 34 0) [] [0, 1] [0]
       (hello_extensions [] ''Example.COM.'' [(43, [2])] [''h3''] [])" by (rule toy_hello_def)
    show "names_ok ''Example.COM.'' [''h3'']"
      by (simp add: names_ok_def is_ascii_def char_nat_def rstrip_dot_def rstrip_by_def)
  qed (simp_all add: toy_crypto_def toy_hmac_def toy_seal_def encode_frames_def scan_stops_def pieces_of_def
      plain_extensions_def hello_sizes_ok_def hello_extensions_def extension_ok_def toy_hello_length
      encode_extensions_def encode_extension_def sni_data_def alpn_data_def alpn_items_def
      encode_varint_def varint_class_def)
  then show ?thesis by (simp only: example_name)
qed

lemma web_packet_ids: "initial_connection_ids web_packet = Inr ([1, 2, 3], [])"
  unfolding web_packet_def by (rule connection_ids_protected) simp_all

lemma web_router_new:
  "(web_client, d) \<notin> dict_keys (sessions web_router)" "dict_get (sessions_by_server_cid web_router) d = None"
  "(web_client, d) \<notin> dict_keys (pending web_router)" "length (pending web_router) < 2048"
  "dict_get (routes web_router) ''example.com'' = Some \<lparr>rt_server_name = ''example.com'',
     rt_target = PStr ''10.0.0.5'', rt_target_port = PInt 8443, rt_alpn = PStr ''h3'', rt_idle_timeout = PInt 1800\<rparr>"
  "transport web_router = Some True" "sessions web_router = []" "sessions_by_server_cid web_router = []"
  "outputs web_router = []"
  by (simp_all add: web_router_def init_router_def)

lemma web_session_reachable: "router_reachable toy_crypto web_session_router"
  unfolding web_session_router_def
  by (rule open_through_reachable [OF web_router_reachable web_packet_ids web_router_new(1-4) web_packet_sni
        web_router_new(5)]) simp

lemma web_session_effect:
  "\<exists>s. sessions web_session_router = [((web_client, [1, 2, 3]), s)] \<and> s_client s = web_client \<and>
     s_upstream s = 7 \<and> s_timeout s = PInt 1800 \<and> s_server_cids s = [] \<and> s_received s = 0"
  "sessions_by_server_cid web_session_router = []" "transport web_session_router = Some False"
proof -
  note e = open_through_effect [OF router_reachable_ok [OF web_router_reachable] web_packet_ids
      web_router_new(1-4) web_packet_sni web_router_new(5), where now = 100 and handle = 7,
      folded web_session_router_def]
  show "\<exists>s. sessions web_session_router = [((web_client, [1, 2, 3]), s)] \<and> s_client s = web_client \<and>
     s_upstream s = 7 \<and> s_timeout s = PInt 1800 \<and> s_server_cids s = [] \<and> s_received s = 0"
    using e(1) by (simp add: web_router_new dict_set_new)
  show "sessions_by_server_cid web_session_router = []" "transport web_session_router = Some False"
    using e(3,6) by (simp_all add: web_router_new)
qed

lemma web_response_reachable: "router_reachable toy_crypto web_response_router"
  unfolding web_response_router_def
  by (rule router_reachable_step [OF web_session_reachable]) (rule router_step.upstream_datagram)

lemma web_response_ids:
  "initial_connection_ids [0xC0, 0, 0, 0, 1, 0, 2, 9, 9] = Inr ([], [9, 9])"
  by (simp add: initial_connection_ids_def slice_def)

lemma web_response_effect:
  "\<exists>s. sessions web_response_router = [((web_client, [1, 2, 3]), s)] \<and> s_client s = web_client \<and>
     s_server_cids s = [[9, 9]] \<and> s_timeout s = PInt 1800 \<and> s_last_seen s = 101"
proof -
  obtain s where s: "sessions web_session_router = [((web_client, [1, 2, 3]), s)]" "s_client s = web_client"
    "s_server_cids s = []" "s_timeout s = PInt 1800"
    using web_session_effect(1) by blast
  then show ?thesis
    by (simp add: web_response_router_def upstream_received_def register_server_connection_id_def
        web_response_ids index_server_connection_id_def web_session_effect(2,3) Let_def dict_set_def set_add_def)
qed

text \<open>A queue that nobody looks after: its key is neither waiting for a ClientHello nor being opened.\<close>

definition waiting_part :: "router \<Rightarrow> (session_key, bytes list) dict \<times> (session_key, rat) dict \<times> session_key list" where
  "waiting_part st = (pending st, pending_seen st, opening_keys st)"

definition orphans :: "router \<Rightarrow> session_key set" where
  "orphans st = (case waiting_part st of (pd, ps, op) \<Rightarrow> dict_keys pd - dict_keys ps - set op)"

lemma in_orphans: "k \<in> orphans st \<longleftrightarrow> k \<in> dict_keys (pending st) \<and> k \<notin> dict_keys (pending_seen st) \<and> k \<notin> set (opening_keys st)"
  by (auto simp: orphans_def waiting_part_def)

lemma orphans_reload: "reload modified document st = Inr st' \<Longrightarrow> orphans st' = orphans st"
  by (auto simp: reload_def result_simps orphans_def waiting_part_def split: sum.splits if_splits)

lemma orphans_started: "router_started st \<Longrightarrow> orphans st = {}"
proof -
  have "orphans (init_router\<lparr>transport := Some True\<rparr>) = {}" by (simp add: orphans_def waiting_part_def init_router_def)
  then show "router_started st \<Longrightarrow> orphans st = {}" by (auto simp: router_started_def connection_made_def dest: orphans_reload)
qed

lemma orphans_inspect:
  assumes "session_key_of client dcid \<in> dict_keys (pending_seen st)" and "k \<in> orphans (inspect_pending C data client dcid scid st)"
  shows "k \<in> orphans st"
  using assms
  by (cases k) (auto simp: inspect_pending_def Let_def in_orphans split: sum.splits option.splits if_splits)

lemma orphans_drop: "k \<in> orphans (drop_pending key st) \<Longrightarrow> k \<in> orphans st"
  by (auto simp: in_orphans)

lemma orphans_receive:
  assumes ok: "router_ok st" and k: "k \<in> orphans (receive_initial C now data client dcid scid st)"
  shows "k \<in> orphans st"
proof -
  let ?key = "session_key_of client dcid"
  let ?q = "dict_get_or (pending st) ?key []"
  let ?st1 = "st\<lparr>pending := dict_setdefault ?key [] (pending st),
        pending_started := dict_setdefault ?key now (pending_started st),
        pending_seen := dict_set ?key now (pending_seen st)\<rparr>"
  let ?st2 = "?st1\<lparr>pending := dict_set ?key (?q @ [data]) (pending ?st1)\<rparr>"
  have sub: "set (opening_keys st) \<subseteq> dict_keys (pending st)" using ok by (auto simp: router_ok_def pending_ok_def)
  show ?thesis
  proof (cases "?key \<in> set (opening_keys st)")
    case True
    then have "receive_initial C now data client dcid scid st
        = st\<lparr>pending := dict_set ?key (if length ?q < 8 then ?q @ [data] else ?q) (pending st)\<rparr>"
      by (simp add: receive_initial_def Let_def)
    then show ?thesis using k True by (auto simp: in_orphans)
  next
    case waiting: False
    show ?thesis
    proof (cases "?key \<notin> dict_keys (pending st) \<and> 2048 \<le> length (pending st)")
      case True
      then show ?thesis using k waiting by (simp add: receive_initial_def Let_def)
    next
      case False
      then have "receive_initial C now data client dcid scid st
          = (if 8 \<le> length ?q then drop_pending ?key ?st1 else inspect_pending C data client dcid scid ?st2)"
        using waiting by (auto simp: receive_initial_def Let_def)
      moreover have "k \<in> orphans st" if "k \<in> orphans (drop_pending ?key ?st1)"
        using that by (auto simp: in_orphans)
      moreover have "k \<in> orphans st" if "k \<in> orphans (inspect_pending C data client dcid scid ?st2)"
      proof -
        have "k \<in> orphans ?st2" using that by (intro orphans_inspect [of client dcid ?st2]) simp_all
        then show ?thesis by (auto simp: in_orphans)
      qed
      ultimately show ?thesis using k by (simp split: if_splits)
    qed
  qed
qed

lemma waiting_pause [simp]: "waiting_part (pause_ingress_for_first_upstream now key st) = waiting_part st"
  by (simp add: pause_ingress_for_first_upstream_def waiting_part_def Let_def)

lemma orphans_connected: "k \<in> orphans (open_connected now handle key st) \<Longrightarrow> k \<in> orphans st"
proof (cases "dict_get (tasks st) key")
  case (Some t)
  let ?st2 = "st\<lparr>sessions := dict_set key (opened_session now handle t) (sessions st),
        sessions_by_addr := dict_set (t_addr t)
          (set_add key (dict_get_or (sessions_by_addr st) (t_addr t) [])) (sessions_by_addr st),
        pending_crypto := dict_pop key (pending_crypto st),
        pending_seen := dict_pop key (pending_seen st), pending_started := dict_pop key (pending_started st)\<rparr>"
  have "waiting_part (pause_ingress_for_first_upstream now key ?st2) = waiting_part ?st2" by simp
  moreover assume "k \<in> orphans (open_connected now handle key st)"
  ultimately show ?thesis
    by (auto simp: open_connected_Some [OF Some] Let_def in_orphans waiting_part_def)
qed (simp add: open_connected_def)

lemma waiting_index [simp]: "waiting_part (index_server_connection_id key c st) = waiting_part st"
  by (simp add: index_server_connection_id_def waiting_part_def Let_def split: option.split)

lemma waiting_remove [simp]: "waiting_part (remove_session close key st) = waiting_part st"
  by (auto simp: remove_session_def waiting_part_def Let_def fold_frame [where f = "unindex_server_connection_id key"] split: option.split)

lemma waiting_upstream: "waiting_part (upstream_received now key data st) = waiting_part st"
proof -
  have "waiting_part (register_server_connection_id key data s) = waiting_part s" for s
    by (simp add: register_server_connection_id_def split: sum.split option.split prod.split)
  moreover have "waiting_part (emit out s) = waiting_part s" "waiting_part (release_ingress_pause key s) = waiting_part s"
    "waiting_part (s\<lparr>sessions := ss\<rparr>) = waiting_part s" for s out ss
    by (simp_all add: waiting_part_def)
  ultimately show ?thesis by (simp add: upstream_received_def Let_def split: option.split)
qed

lemma orphans_reap: "orphans (fst (reap now st)) = orphans st"
proof -
  have "waiting_part (fst (reap_sessions now ss s)) = waiting_part s" for ss s
    by (induction now ss s rule: reap_sessions.induct) (auto split: option.split)
  moreover have "orphans (reap_pending now st) = orphans st"
  proof -
    let ?f = "\<lambda>(key, last_seen) st. if now - last_seen > 10 then drop_pending key st else st"
    have "orphans (fold ?f ps s) = orphans st" if "fst ` set ps \<subseteq> dict_keys (pending_seen st)" "orphans s = orphans st" for ps s
      using that
    proof (induction ps arbitrary: s)
      case (Cons p ps)
      have "k \<in> orphans (?f p s) \<longleftrightarrow> k \<in> orphans s" for k
      proof -
        have "fst p \<notin> orphans s" using Cons.prems by (auto simp: in_orphans)
        then show ?thesis by (cases p) (auto simp: in_orphans)
      qed
      then have "orphans (?f p s) = orphans st" using Cons.prems(2) by blast
      with Cons.IH Cons.prems(1) show ?case by simp
    qed simp
    then show ?thesis by (simp add: reap_pending_def dict_keys_def)
  qed
  ultimately show ?thesis by (simp add: reap_def Let_def orphans_def)
qed

lemma orphans_datagram: "router_ok st \<Longrightarrow> k \<in> orphans (datagram_received C now data client st) \<Longrightarrow> k \<in> orphans st"
  using orphans_receive [of st k C now data client]
  by (auto simp: datagram_received_def in_orphans emit_fields split: option.splits sum.splits if_splits)

text \<open>Only the exit of \<open>_open\<close> by another exception leaves an orphan.\<close>

lemma orphans_step:
  assumes ok: "router_ok st" and step: "router_step C st st'"
  shows "orphans st' \<subseteq> orphans st \<or>
    (\<exists>key t. dict_get (tasks st) key = Some t \<and> t_phase t = Connecting \<and> st' = open_aborted key st \<and> orphans st' = insert key (orphans st))"
  using step
proof (rule router_stepE)
  fix now data client assume "st' = datagram_received C now data client st"
  then show ?thesis using orphans_datagram [OF ok] by blast
next
  fix key t assume "st' = open_start key st" "dict_get (tasks st) key = Some t"
  then have "orphans st' = orphans st" using task_not_session [OF ok] by (simp add: open_start_def orphans_def waiting_part_def)
  then show ?thesis by blast
next
  fix key t now handle assume "st' = open_connected now handle key st"
  then show ?thesis using orphans_connected by blast
next
  fix key t assume "st' = open_failed key st"
  then have "orphans st' \<subseteq> orphans st" by (auto simp: open_failed_def in_orphans split: option.split)
  then show ?thesis ..
next
  fix key t assume t: "st' = open_aborted key st" "dict_get (tasks st) key = Some t" "t_phase t = Connecting"
  have "key \<in> set (opening_keys st)" "key \<in> dict_keys (pending st)" "key \<notin> dict_keys (pending_seen st)"
    using ok dict_keys_SomeI [OF t(2)] by (auto simp: router_ok_def pending_ok_def)
  then have "orphans st' = insert key (orphans st)" using t by (auto simp: open_aborted_def in_orphans)
  with t show ?thesis by blast
next
  fix now key data assume "st' = upstream_received now key data st"
  then show ?thesis by (simp add: orphans_def waiting_upstream)
next
  fix key deadline now assume "st' = release_ingress_pause key st"
  then show ?thesis by (simp add: orphans_def waiting_part_def)
next
  fix now assume "st' = fst (reap now st)"
  then show ?thesis by (simp add: orphans_reap)
next
  fix modified document assume "reload modified document st = Inr st'"
  then show ?thesis by (simp add: orphans_reload)
qed

text \<open>The reaper does not collect an orphan, and 2048 of them close the router to new connections.\<close>

lemma orphan_never_reaped:
  "orphans (fst (reap now st)) = orphans st"
  "2048 \<le> length (pending st) \<Longrightarrow> router_ok st \<Longrightarrow> session_key_of client dcid \<notin> dict_keys (pending st) \<Longrightarrow>
     receive_initial C now data client dcid scid st = st"
proof -
  assume "2048 \<le> length (pending st)" "router_ok st" "session_key_of client dcid \<notin> dict_keys (pending st)"
  moreover from this have "session_key_of client dcid \<notin> set (opening_keys st)" by (auto simp: router_ok_def pending_ok_def)
  ultimately show "receive_initial C now data client dcid scid st = st" by (simp add: receive_initial_def Let_def)
qed (rule orphans_reap)

section \<open>Properties\<close>

text \<open>C17. In every reachable state of the router its tables agree: a session is filed under its own client,
  the index by address lists exactly the sessions of that address and has no empty entry, the index by
  server connection ID is the inverse of the sessions' own lists, the length counters count that index,
  a connection is never both waiting for its ClientHello and being opened and never also a session, what
  waits or is being opened has a queue, at most 2048 queues exist with at most 8 packets each, and ingress
  is paused exactly while a session waits for its first response. A queue that is neither waiting nor being
  opened is an orphan: the router starts with none, and one callback alone makes one, and just the one of its
  key, namely an \<open>_open\<close> that ended by an exception other than \<open>OSError\<close> and \<open>ValueError\<close>.\<close>

theorem router_invariant:
  assumes "router_reachable C st"
  shows "router_ok st \<and> (router_started st \<longrightarrow> orphans st = {}) \<and>
    (\<forall>st'. router_step C st st' \<longrightarrow> router_ok st' \<and>
      (orphans st' \<subseteq> orphans st \<or>
       (\<exists>key t. dict_get (tasks st) key = Some t \<and> t_phase t = Connecting \<and> st' = open_aborted key st \<and>
          orphans st' = insert key (orphans st))))"
  using router_reachable_ok [OF assms] router_reachable_ok [OF router_reachable_step [OF assms]]
    orphans_started orphans_step by blast

theorem router_invariant_witness:
  "router_ok web_response_router \<and> router_ok (fst (reap 102 web_response_router))"
  using router_invariant [OF web_response_reachable] router_step.reaper by blast

text \<open>C13. Client isolation: a datagram from a client makes the router send nothing, or send that datagram,
  unchanged and once, to the upstream of a session that belongs to the same client address.\<close>

theorem client_isolation:
  assumes "router_reachable C st"
  shows "outputs (datagram_received C now data client st) = outputs st \<or>
    (\<exists>key s. dict_get (sessions st) key = Some s \<and> s_client s = client \<and>
       outputs (datagram_received C now data client st) = outputs st @ [Send_Upstream (s_upstream s) data])"
proof (cases "session_for_datagram data client st")
  case None
  then show ?thesis by (simp add: datagram_received_outputs)
next
  case (Some key)
  with session_for_datagram_live [OF router_reachable_ok [OF assms]] obtain s where
    "dict_get (sessions st) key = Some s" "s_client s = client" by blast
  with Some show ?thesis by (auto simp: datagram_received_outputs)
qed

theorem client_isolation_witness:
  "outputs (datagram_received toy_crypto 102 [0x40, 9] web_client web_session_router) = outputs web_session_router \<or>
    (\<exists>key s. dict_get (sessions web_session_router) key = Some s \<and> s_client s = web_client \<and>
       outputs (datagram_received toy_crypto 102 [0x40, 9] web_client web_session_router) =
         outputs web_session_router @ [Send_Upstream (s_upstream s) [0x40, 9]])"
  by (rule client_isolation) (rule web_session_reachable)

text \<open>C35. Affinity of short-header packets: among the server connection IDs of this client's sessions that
  the packet starts with, the longest decides which session the packet goes to.\<close>

theorem short_header_affinity:
  assumes "router_reachable C st" and "data \<noteq> []" and "(data ! 0) AND 0x80 = 0"
    and "matching_cid st client data c key"
    and "\<And>c' key'. matching_cid st client data c' key' \<Longrightarrow> length c' \<le> length c"
  shows "session_for_datagram data client st = Some key"
  using router_reachable_ok [OF assms(1)] assms(2-5) by (rule short_header_longest)

theorem short_header_affinity_witness:
  "session_for_datagram [0x40, 9, 9, 1] web_client web_response_router = Some (web_client, [1, 2, 3])"
proof -
  obtain s where s: "sessions web_response_router = [((web_client, [1, 2, 3]), s)]" "s_client s = web_client"
    "s_server_cids s = [[9, 9]]"
    using web_response_effect by blast
  show ?thesis
    by (rule short_header_affinity [OF web_response_reachable, where c = "[9, 9]"])
      (use s in \<open>auto simp: matching_cid_def slice_def split: if_splits\<close>)
qed

text \<open>Nothing is opened unasked: the only connection a datagram can put into the opening state is its
  own, and only when the handshake bytes collected for it parse to a server name that a configured route
  has and that offers the route's application protocol; the task carries that route.\<close>

theorem opening_needs_route:
  "set (opening_keys (datagram_received C now data client st)) - set (opening_keys st) \<subseteq>
     {key. \<exists>dcid scid fragments server_name alpns route. key = (client, dcid) \<and>
        initial_connection_ids data = Inr (dcid, scid) \<and>
        ebind (decrypt_initial C data) crypto_fragments = Inr fragments \<and>
        parse_client_hello (assemble_crypto (dict_update (dict_get_or (pending_crypto st) key []) fragments)) =
          Inr (server_name, alpns) \<and>
        dict_get (routes st) server_name = Some route \<and> rt_alpn route \<in> PStr ` set alpns \<and>
        dict_get (tasks (datagram_received C now data client st)) key =
          Some \<lparr>t_phase = Spawned, t_addr = client, t_route = route, t_client_scid = scid, t_initial_dcid = dcid\<rparr>}"
  using datagram_received_opening by blast

text \<open>C36. Back pressure never gets stuck: in a reachable state with a socket, public ingress is read
  exactly when no session waits for its first response, every waiting key is a live session with a pending
  timer, and once the timers have fired ingress is read again.\<close>

theorem ingress_pause_released:
  assumes "router_reachable C st" and "transport st = Some reading"
  shows "(reading \<longleftrightarrow> awaiting_first_upstream st = []) \<and>
    dict_keys (ingress_pause_timers st) = set (awaiting_first_upstream st) \<and>
    set (awaiting_first_upstream st) \<subseteq> dict_keys (sessions st) \<and>
    transport (fold release_ingress_pause (awaiting_first_upstream st) st) = Some True"
  using router_reachable_ok [OF assms(1)] assms(2) release_all [of st "awaiting_first_upstream st"]
  by (auto simp: router_ok_def pause_ok_def)

theorem ingress_pause_released_witness:
  "(False \<longleftrightarrow> awaiting_first_upstream web_session_router = []) \<and>
    dict_keys (ingress_pause_timers web_session_router) = set (awaiting_first_upstream web_session_router) \<and>
    set (awaiting_first_upstream web_session_router) \<subseteq> dict_keys (sessions web_session_router) \<and>
    transport (fold release_ingress_pause (awaiting_first_upstream web_session_router) web_session_router) = Some True"
  by (rule ingress_pause_released [OF web_session_reachable]) (rule web_session_effect(3))

text \<open>From Initial to session: a first packet whose server name and protocol a route accepts, on a
  connection that is new, ends as a session of that client on the socket that was opened, the packet is
  forwarded to it exactly once and in front of everything later, nothing of the connection stays pending,
  and ingress is paused.\<close>

theorem initial_opens_session:
  assumes "router_reachable C st" and "initial_connection_ids data = Inr (dcid, scid)"
    and "(client, dcid) \<notin> dict_keys (sessions st)" "dict_get (sessions_by_server_cid st) dcid = None"
      "(client, dcid) \<notin> dict_keys (pending st)" "length (pending st) < 2048"
    and "inspect_sni C data = Inr (server_name, alpns)"
    and "dict_get (routes st) server_name = Some route" "rt_alpn route \<in> PStr ` set alpns"
  shows "\<exists>s. sessions (open_through C now handle data client dcid st) = dict_set (client, dcid) s (sessions st) \<and>
      s_client s = client \<and> s_upstream s = handle \<and> s_timeout s = rt_idle_timeout route \<and>
      outputs (open_through C now handle data client dcid st) = outputs st @ [Send_Upstream handle data] \<and>
      (client, dcid) \<notin> dict_keys (pending (open_through C now handle data client dcid st)) \<and>
      (client, dcid) \<notin> set (opening_keys (open_through C now handle data client dcid st)) \<and>
      transport (open_through C now handle data client dcid st) = map_option (\<lambda>_. False) (transport st)"
  using open_through_effect [OF router_reachable_ok [OF assms(1)] assms(2-9), of now handle] by blast

theorem initial_opens_session_witness:
  "\<exists>s. sessions (open_through toy_crypto 100 7 web_packet web_client [1, 2, 3] web_router) =
        dict_set (web_client, [1, 2, 3]) s (sessions web_router) \<and>
      s_client s = web_client \<and> s_upstream s = 7 \<and> s_timeout s = PInt 1800 \<and>
      outputs (open_through toy_crypto 100 7 web_packet web_client [1, 2, 3] web_router) =
        outputs web_router @ [Send_Upstream 7 web_packet] \<and>
      (web_client, [1, 2, 3]) \<notin> dict_keys (pending (open_through toy_crypto 100 7 web_packet web_client [1, 2, 3] web_router)) \<and>
      (web_client, [1, 2, 3]) \<notin> set (opening_keys (open_through toy_crypto 100 7 web_packet web_client [1, 2, 3] web_router)) \<and>
      transport (open_through toy_crypto 100 7 web_packet web_client [1, 2, 3] web_router) =
        map_option (\<lambda>_. False) (transport web_router)"
  using initial_opens_session [OF web_router_reachable web_packet_ids web_router_new(1-4) web_packet_sni
      web_router_new(5), where now = 100 and handle = 7] by simp

text \<open>A datagram from an upstream goes to the client of its session and to nobody else; the first one
  ends the session's wait; and the source connection ID of a long-header packet is bound to the session
  unless another session owns it already, which then keeps it.\<close>

theorem upstream_response:
  assumes "router_reachable C st" and "dict_get (sessions st) key = Some s" and "transport st \<noteq> None"
    and "initial_connection_ids data = Inr (d, c)" and "c \<noteq> []"
  shows "outputs (upstream_received now key data st) = outputs st @ [Send_Client (s_client s) data] \<and>
    (s_received s = 0 \<longrightarrow> key \<notin> set (awaiting_first_upstream (upstream_received now key data st))) \<and>
    dict_get (sessions_by_server_cid (upstream_received now key data st)) c =
      Some (case dict_get (sessions_by_server_cid st) c of None \<Rightarrow> key | Some owner \<Rightarrow> owner) \<and>
    s_client s = fst key"
proof -
  let ?st0 = "st\<lparr>sessions := dict_set key (s\<lparr>s_received := s_received s + 1\<rparr>) (sessions st)\<rparr>"
  note u = upstream_received_fields [OF assms(2), of now data]
  have "dict_get (sessions_by_server_cid (register_server_connection_id key data ?st0)) c =
      Some (case dict_get (sessions_by_server_cid st) c of None \<Rightarrow> key | Some owner \<Rightarrow> owner)"
    using register_by_cid [of ?st0 key _ data d c] index_by_cid [of ?st0 key _ c] assms(4,5) by simp
  moreover have "s_client s = fst key"
    using router_reachable_ok [OF assms(1)] assms(2) by (simp add: router_ok_def sessions_ok_def)
  ultimately show ?thesis using u assms(3) by simp
qed

theorem upstream_response_witness:
  "\<exists>s :: session. outputs (upstream_received 101 (web_client, [1, 2, 3]) [0xC0, 0, 0, 0, 1, 0, 2, 9, 9] web_session_router) =
      outputs web_session_router @ [Send_Client (s_client s) [0xC0, 0, 0, 0, 1, 0, 2, 9, 9]] \<and>
    (s_received s = 0 \<longrightarrow> (web_client, [1, 2, 3]) \<notin> set (awaiting_first_upstream
       (upstream_received 101 (web_client, [1, 2, 3]) [0xC0, 0, 0, 0, 1, 0, 2, 9, 9] web_session_router))) \<and>
    dict_get (sessions_by_server_cid
       (upstream_received 101 (web_client, [1, 2, 3]) [0xC0, 0, 0, 0, 1, 0, 2, 9, 9] web_session_router)) [9, 9] =
      Some (case dict_get (sessions_by_server_cid web_session_router) [9, 9] of
              None \<Rightarrow> (web_client, [1, 2, 3]) | Some owner \<Rightarrow> owner) \<and>
    s_client s = fst (web_client, [1, 2, 3 :: byte])"
proof -
  obtain s where s: "dict_get (sessions web_session_router) (web_client, [1, 2, 3]) = Some s"
    using web_session_effect(1) by auto
  show ?thesis
    by (rule exI [of _ s], rule upstream_response [OF web_session_reachable s])
      (simp_all add: web_session_effect(3) web_response_ids)
qed

text \<open>The reaper is exact: when every session's timeout is a number, one round closes the sessions that
  have been idle for longer than their timeout and forgets the unfinished handshakes older than ten
  seconds, and keeps every other session, queue and handshake as it was.\<close>

theorem reaper_exact:
  assumes "router_reachable C st" and "\<forall>key s. dict_get (sessions st) key = Some s \<longrightarrow> num_val (s_timeout s) \<noteq> None"
  shows "snd (reap now st) \<and>
    dict_get (sessions (fst (reap now st))) key =
      (case dict_get (sessions st) key of None \<Rightarrow> None
       | Some s \<Rightarrow> if now - s_last_seen s > of_int (the (num_val (s_timeout s))) then None else Some s) \<and>
    dict_get (pending (reap_pending now st)) key =
      (if \<exists>t. dict_get (pending_seen st) key = Some t \<and> now - t > 10 then None else dict_get (pending st) key)"
proof -
  have ok: "router_ok st" by (rule router_reachable_ok [OF assms(1)])
  then have d: "dict_ok (sessions st)" "dict_ok (pending_seen st)"
    by (simp_all add: router_ok_def sessions_ok_def pending_ok_def)
  note p = reap_pending_get [OF d(2), of now key]
  have num: "\<forall>(key, s)\<in>set (sessions st). num_val (s_timeout s) \<noteq> None"
    using assms(2) dict_get_in_set [OF d(1)] by blast
  have "(\<exists>s t. (key, s) \<in> set (sessions st) \<and> num_val (s_timeout s) = Some t \<and> now - s_last_seen s > of_int t) \<longleftrightarrow>
      (\<exists>s. dict_get (sessions st) key = Some s \<and> now - s_last_seen s > of_int (the (num_val (s_timeout s))))"
    unfolding dict_get_in_set [OF d(1), symmetric]
  proof
    assume "\<exists>s. dict_get (sessions st) key = Some s \<and> now - s_last_seen s > of_int (the (num_val (s_timeout s)))"
    then obtain s where s: "dict_get (sessions st) key = Some s"
      "now - s_last_seen s > of_int (the (num_val (s_timeout s)))" by blast
    moreover obtain t where "num_val (s_timeout s) = Some t" using assms(2) s(1) by blast
    ultimately show "\<exists>s t. dict_get (sessions st) key = Some s \<and> num_val (s_timeout s) = Some t \<and>
        now - s_last_seen s > of_int t" by auto
  qed auto
  then show ?thesis
    using reap_sessions_sessions [OF num, of now "reap_pending now st" key] p
    by (auto simp: reap_def Let_def split: option.split)
qed

theorem reaper_exact_witness:
  "snd (reap 2000 web_response_router) \<and>
    dict_get (sessions (fst (reap 2000 web_response_router))) (web_client, [1, 2, 3]) =
      (case dict_get (sessions web_response_router) (web_client, [1, 2, 3]) of None \<Rightarrow> None
       | Some s \<Rightarrow> if 2000 - s_last_seen s > of_int (the (num_val (s_timeout s))) then None else Some s) \<and>
    dict_get (pending (reap_pending 2000 web_response_router)) (web_client, [1, 2, 3]) =
      (if \<exists>t. dict_get (pending_seen web_response_router) (web_client, [1, 2, 3]) = Some t \<and> 2000 - t > 10 then None
       else dict_get (pending web_response_router) (web_client, [1, 2, 3]))"
proof -
  obtain s where s: "sessions web_response_router = [((web_client, [1, 2, 3]), s)]" "s_timeout s = PInt 1800"
    using web_response_effect by blast
  show ?thesis
    by (rule reaper_exact [OF web_response_reachable]) (use s in \<open>auto split: if_splits\<close>)
qed

end
