(* ===== verification/Ip_Address.thy ===== *)
theory Ip_Address
  imports Py_Text
begin

text \<open>
  What the code uses of Python's \<open>ipaddress\<close>: \<open>ip_address\<close> and \<open>ip_network(..., strict=False)\<close>
  on text, and the canonical text of the result. \<open>None\<close> stands for the \<open>ValueError\<close> they raise.
\<close>

section \<open>IPv4\<close>

definition parse_octet :: "string \<Rightarrow> nat option" where
  "parse_octet s =
     (if s = [] \<or> \<not> (\<forall>c\<in>set s. is_digit c) \<or> 3 < length s \<or> (s \<noteq> ''0'' \<and> hd s = CHR ''0'') then None
      else if 255 < digits_val s then None else Some (digits_val s))"

definition ipv4_value :: "nat list \<Rightarrow> nat" where
  "ipv4_value octets = foldl (\<lambda>v d. v * 256 + d) 0 octets"

definition parse_ipv4 :: "string \<Rightarrow> nat option" where
  "parse_ipv4 s =
     (let octets = map parse_octet (split_on CHR ''.'' s) in
      if length octets \<noteq> 4 \<or> None \<in> set octets then None
      else Some (ipv4_value (map the octets)))"

definition ipv4_str :: "nat \<Rightarrow> string" where
  "ipv4_str v = join ''.'' (map nat_str
     [v div 2 ^ 24 mod 256, v div 2 ^ 16 mod 256, v div 2 ^ 8 mod 256, v mod 256])"

section \<open>IPv6\<close>

definition is_hex :: "char \<Rightarrow> bool" where
  "is_hex c \<longleftrightarrow> is_digit c \<or> (97 \<le> char_nat c \<and> char_nat c \<le> 102) \<or> (65 \<le> char_nat c \<and> char_nat c \<le> 70)"

definition hex_val :: "char \<Rightarrow> nat" where
  "hex_val c = (if is_digit c then char_nat c - 48
     else if 97 \<le> char_nat c then char_nat c - 87 else char_nat c - 55)"

definition parse_hextet :: "string \<Rightarrow> nat option" where
  "parse_hextet s = (if s = [] \<or> 4 < length s \<or> \<not> (\<forall>c\<in>set s. is_hex c) then None
     else Some (foldl (\<lambda>v c. 16 * v + hex_val c) 0 s))"

fun hex_str :: "nat \<Rightarrow> string" where
  "hex_str n = (if n < 16 then [digit_char n] else hex_str (n div 16) @ [digit_char (n mod 16)])"

declare hex_str.simps [simp del]

text \<open>The groups to read, with an embedded IPv4 tail turned into two groups.\<close>

definition ipv6_parts :: "string \<Rightarrow> string list option" where
  "ipv6_parts s =
     (let parts = split_on CHR '':'' s in
      if s = [] \<or> length parts < 3 then None
      else if CHR ''.'' \<in> set (last parts) then
        (case parse_ipv4 (last parts) of
           None \<Rightarrow> None
         | Some v \<Rightarrow> Some (butlast parts @ [hex_str (v div 2 ^ 16 mod 2 ^ 16), hex_str (v mod 2 ^ 16)]))
      else Some parts)"

definition ipv6_groups :: "string list \<Rightarrow> string list option" where
  "ipv6_groups parts =
     (if 9 < length parts then None
      else
        let empties = filter (\<lambda>i. parts ! i = []) [1..<length parts - 1] in
        if 1 < length empties then None
        else if empties = [] then
          (if length parts \<noteq> 8 \<or> hd parts = [] \<or> last parts = [] then None else Some parts)
        else
          let skip = hd empties; hi = skip; lo = length parts - skip - 1;
              hi' = (if hd parts = [] then hi - 1 else hi);
              lo' = (if last parts = [] then lo - 1 else lo)
          in if (hd parts = [] \<and> hi' \<noteq> 0) \<or> (last parts = [] \<and> lo' \<noteq> 0) \<or> 8 \<le> hi' + lo' then None
             else Some (take hi' parts @ replicate (8 - (hi' + lo')) ''0'' @ drop (length parts - lo') parts))"

definition parse_ipv6_bare :: "string \<Rightarrow> nat option" where
  "parse_ipv6_bare s =
     (case ipv6_parts s of None \<Rightarrow> None
      | Some parts \<Rightarrow> (case ipv6_groups parts of None \<Rightarrow> None
        | Some groups \<Rightarrow>
            let hextets = map parse_hextet groups in
            if None \<in> set hextets then None
            else Some (foldl (\<lambda>v h. v * 65536 + h) 0 (map the hextets))))"

text \<open>The scope after a percent sign is kept as text.\<close>

definition parse_ipv6 :: "string \<Rightarrow> (nat \<times> string) option" where
  "parse_ipv6 s =
     (let a = takeWhile (\<lambda>c. c \<noteq> CHR ''%'') s; rest = dropWhile (\<lambda>c. c \<noteq> CHR ''%'') s in
      if rest \<noteq> [] \<and> (tl rest = [] \<or> CHR ''%'' \<in> set (tl rest)) then None
      else map_option (\<lambda>v. (v, rest)) (parse_ipv6_bare a))"

definition ipv6_hextets :: "nat \<Rightarrow> nat list" where
  "ipv6_hextets v = map (\<lambda>i. v div 65536 ^ (7 - i) mod 65536) [0..<8]"

text \<open>The first longest run of zero groups: its start and length.\<close>

fun zero_runs :: "nat \<Rightarrow> nat list \<Rightarrow> (nat \<times> nat) list" where
  "zero_runs i [] = []"
| "zero_runs i (h # hs) =
     (let n = length (takeWhile (\<lambda>x. x = 0) (h # hs)) in
      (i, n) # zero_runs (Suc i) hs)"

definition best_run :: "nat list \<Rightarrow> nat \<times> nat" where
  "best_run hs = foldl (\<lambda>b r. if snd b < snd r then r else b) (0, 0) (zero_runs 0 hs)"

definition ipv6_str :: "nat \<Rightarrow> string" where
  "ipv6_str v =
     (let hs = ipv6_hextets v; hx = map hex_str hs; (s, n) = best_run hs in
      if n \<le> 1 then join '':'' hx
      else join '':'' (take s hx) @ ''::'' @ join '':'' (drop (s + n) hx))"

section \<open>Addresses and networks\<close>

definition canonical_ip :: "string \<Rightarrow> string option" where
  "canonical_ip s =
     (case parse_ipv4 s of
        Some v \<Rightarrow> Some (ipv4_str v)
      | None \<Rightarrow> map_option (\<lambda>(v, scope). ipv6_str v @ scope) (parse_ipv6 s))"

definition prefix_of_string :: "nat \<Rightarrow> string \<Rightarrow> nat option" where
  "prefix_of_string bits s =
     (if s = [] \<or> \<not> (\<forall>c\<in>set s. is_digit c) then None
      else if bits < digits_val s then None else Some (digits_val s))"

text \<open>A netmask is ones then zeros; a hostmask the other way round.\<close>

definition prefix_of_mask :: "nat \<Rightarrow> nat option" where
  "prefix_of_mask m =
     (case filter (\<lambda>p. m = 2 ^ 32 - 2 ^ (32 - p)) [0..<33] of
        p # _ \<Rightarrow> Some p
      | [] \<Rightarrow> (case filter (\<lambda>p. m = 2 ^ (32 - p) - 1) [0..<33] of p # _ \<Rightarrow> Some p | [] \<Rightarrow> None))"

definition ipv4_prefix :: "string \<Rightarrow> nat option" where
  "ipv4_prefix s =
     (case prefix_of_string 32 s of
        Some p \<Rightarrow> Some p
      | None \<Rightarrow> (case parse_ipv4 s of None \<Rightarrow> None | Some m \<Rightarrow> prefix_of_mask m))"

definition masked :: "nat \<Rightarrow> nat \<Rightarrow> nat \<Rightarrow> nat" where
  "masked bits p v = v div 2 ^ (bits - p) * 2 ^ (bits - p)"

definition canonical_ipv4_network :: "string \<Rightarrow> string option" where
  "canonical_ipv4_network s =
     (case split_on CHR ''/'' s of
        [a] \<Rightarrow> map_option (\<lambda>v. ipv4_str v @ ''/32'') (parse_ipv4 a)
      | [a, m] \<Rightarrow> (case (parse_ipv4 a, ipv4_prefix m) of
           (Some v, Some p) \<Rightarrow> Some (ipv4_str (masked 32 p v) @ ''/'' @ nat_str p)
         | _ \<Rightarrow> None)
      | _ \<Rightarrow> None)"

definition canonical_ipv6_network :: "string \<Rightarrow> string option" where
  "canonical_ipv6_network s =
     (case split_on CHR ''/'' s of
        [a] \<Rightarrow> map_option (\<lambda>(v, scope). ipv6_str v @ ''/128'') (parse_ipv6 a)
      | [a, m] \<Rightarrow> (case (parse_ipv6 a, prefix_of_string 128 m) of
           (Some (v, scope), Some p) \<Rightarrow> Some (ipv6_str (masked 128 p v) @ ''/'' @ nat_str p)
         | _ \<Rightarrow> None)
      | _ \<Rightarrow> None)"

definition canonical_network :: "string \<Rightarrow> string option" where
  "canonical_network s =
     (case canonical_ipv4_network s of Some r \<Rightarrow> Some r | None \<Rightarrow> canonical_ipv6_network s)"

end
