(* ===== verification/Routing_Model.thy ===== *)
theory Routing_Model
  imports Py_Value Ip_Address
begin

text \<open>
  The runtime half of \<open>tables/routing.py\<close>: the enumerations, \<open>canonical_domains\<close>, \<open>_port\<close>,
  \<open>_target\<close>, the frozen models \<open>TLSSettings\<close>, \<open>RuntimeLocation\<close>, \<open>RuntimeHost\<close> and
  \<open>RuntimeStream\<close> with their validators, and \<open>HostInventory\<close>. A validator is a function from the
  record that pydantic has filled to the record it leaves, or to the exception. Regular expressions
  are written out as functions on text.
\<close>

section \<open>Enumerations\<close>

datatype host_kind = Kind_Proxy | Kind_Redirect | Kind_Dead
datatype forward_scheme = Scheme_Http | Scheme_Https
datatype redirect_scheme = Redirect_Auto | Redirect_Http | Redirect_Https
datatype target_kind = Target_Ip | Target_Dns | Target_Docker
datatype stream_protocol = Stream_Tcp | Stream_Udp | Stream_Tcp_Udp

fun host_kind_value :: "host_kind \<Rightarrow> string" where
  "host_kind_value Kind_Proxy = ''proxy''"
| "host_kind_value Kind_Redirect = ''redirect''"
| "host_kind_value Kind_Dead = ''dead''"

fun forward_scheme_value :: "forward_scheme \<Rightarrow> string" where
  "forward_scheme_value Scheme_Http = ''http''"
| "forward_scheme_value Scheme_Https = ''https''"

fun redirect_scheme_value :: "redirect_scheme \<Rightarrow> string" where
  "redirect_scheme_value Redirect_Auto = ''auto''"
| "redirect_scheme_value Redirect_Http = ''http''"
| "redirect_scheme_value Redirect_Https = ''https''"

fun target_kind_value :: "target_kind \<Rightarrow> string" where
  "target_kind_value Target_Ip = ''ip''"
| "target_kind_value Target_Dns = ''dns''"
| "target_kind_value Target_Docker = ''docker''"

fun stream_protocol_value :: "stream_protocol \<Rightarrow> string" where
  "stream_protocol_value Stream_Tcp = ''tcp''"
| "stream_protocol_value Stream_Udp = ''udp''"
| "stream_protocol_value Stream_Tcp_Udp = ''tcp+udp''"

text \<open>\<open>HostKind(text)\<close> and the like: the member with that value, or \<open>ValueError\<close>.\<close>

definition enum_of :: "('a \<Rightarrow> string) \<Rightarrow> 'a list \<Rightarrow> string \<Rightarrow> py_error + 'a" where
  "enum_of val members s =
     note_none (ValueError (str_repr s @ '' is not a valid member'')) (find (\<lambda>m. val m = s) members)"

definition host_kind_of :: "string \<Rightarrow> py_error + host_kind" where
  "host_kind_of = enum_of host_kind_value [Kind_Proxy, Kind_Redirect, Kind_Dead]"

definition forward_scheme_of :: "string \<Rightarrow> py_error + forward_scheme" where
  "forward_scheme_of = enum_of forward_scheme_value [Scheme_Http, Scheme_Https]"

definition redirect_scheme_of :: "string \<Rightarrow> py_error + redirect_scheme" where
  "redirect_scheme_of = enum_of redirect_scheme_value [Redirect_Auto, Redirect_Http, Redirect_Https]"

definition target_kind_of :: "string \<Rightarrow> py_error + target_kind" where
  "target_kind_of = enum_of target_kind_value [Target_Ip, Target_Dns, Target_Docker]"

definition stream_protocol_of :: "string \<Rightarrow> py_error + stream_protocol" where
  "stream_protocol_of = enum_of stream_protocol_value [Stream_Tcp, Stream_Udp, Stream_Tcp_Udp]"

lemma enum_of_value: "enum_of val members s = Inr m \<Longrightarrow> val m = s \<and> m \<in> set members"
  by (auto simp: enum_of_def find_Some_iff)

lemma host_kind_round [simp]: "host_kind_of (host_kind_value k) = Inr k"
  by (cases k) (simp_all add: host_kind_of_def enum_of_def)

lemma forward_scheme_round [simp]: "forward_scheme_of (forward_scheme_value k) = Inr k"
  by (cases k) (simp_all add: forward_scheme_of_def enum_of_def)

lemma target_kind_round [simp]: "target_kind_of (target_kind_value k) = Inr k"
  by (cases k) (simp_all add: target_kind_of_def enum_of_def)

lemma stream_protocol_round [simp]: "stream_protocol_of (stream_protocol_value k) = Inr k"
  by (cases k) (simp_all add: stream_protocol_of_def enum_of_def)

section \<open>Names, ports and targets\<close>

text \<open>One label of a host name: letters, digits and inner hyphens, 1 to 63 characters.\<close>

definition label_ok :: "string \<Rightarrow> bool" where
  "label_ok l \<longleftrightarrow> l \<noteq> [] \<and> length l \<le> 63 \<and> (\<forall>c\<in>set l. is_alnum c \<or> c = CHR ''-'') \<and>
     is_alnum (hd l) \<and> is_alnum (last l)"

text \<open>\<open>_DOMAIN_RE.fullmatch\<close>: an optional wildcard label, then at most 253 characters in at least
  two labels, then an optional dot.\<close>

definition domain_re :: "string \<Rightarrow> bool" where
  "domain_re s \<longleftrightarrow>
     (let t = (if startswith ''*.'' s then drop 2 s else s);
          u = (if t \<noteq> [] \<and> last t = CHR ''.'' then butlast t else t)
      in u \<noteq> [] \<and> length u \<le> 253 \<and> 2 \<le> length (split_on CHR ''.'' u) \<and>
         (\<forall>l\<in>set (split_on CHR ''.'' u). label_ok l))"

definition normal_domain :: "string \<Rightarrow> string" where
  "normal_domain raw = casefold (rstrip_dot (strip raw))"

definition add_domain :: "pyval \<Rightarrow> string list \<Rightarrow> py_error + string list" where
  "add_domain raw domains =
     (case raw of
        PStr s \<Rightarrow>
          let domain = normal_domain s in
          if \<not> domain_re domain then Inl (DomainValidationError (''invalid domain name: '' @ str_repr s))
          else if domain \<in> set domains then Inl (DomainValidationError (''duplicate domain name: '' @ domain))
          else Inr (domains @ [domain])
      | _ \<Rightarrow> Inl (DomainValidationError ''domain names must be strings''))"

definition canonical_domains :: "pyval list \<Rightarrow> py_error + string list" where
  "canonical_domains values =
     ebind (efold add_domain values []) (\<lambda>domains.
       if 1 \<le> length domains \<and> length domains \<le> 100 then Inr domains
       else Inl (DomainValidationError ''resources require between 1 and 100 domain names''))"

definition port_of :: "pyval \<Rightarrow> string \<Rightarrow> py_error + int" where
  "port_of value name =
     (case value of
        PInt i \<Rightarrow> if 1 \<le> i \<and> i \<le> 65535 then Inr i
          else Inl (DomainValidationError (name @ '' must be between 1 and 65535''))
      | _ \<Rightarrow> Inl (DomainValidationError (name @ '' must be between 1 and 65535'')))"

definition dns_name_ok :: "string \<Rightarrow> bool" where
  "dns_name_ok n \<longleftrightarrow> length n \<le> 253 \<and> (\<forall>l\<in>set (split_on CHR ''.'' n). label_ok l \<and> casefold l = l)"

definition docker_name_ok :: "string \<Rightarrow> bool" where
  "docker_name_ok n \<longleftrightarrow> n \<noteq> [] \<and> length n \<le> 255 \<and> is_alnum (hd n) \<and>
     (\<forall>c\<in>set n. is_alnum c \<or> c \<in> set ''_.-'')"

definition target_of :: "string \<Rightarrow> target_kind \<Rightarrow> string \<Rightarrow> py_error + string" where
  "target_of value kind name =
     (let target = strip value in
      if target = [] then Inl (DomainValidationError (name @ '' is required''))
      else case kind of
        Target_Ip \<Rightarrow>
          note_none (DomainValidationError (name @ '' must be an IPv4 or IPv6 address'')) (canonical_ip target)
      | Target_Dns \<Rightarrow>
          (let normalized = casefold (rstrip_dot target) in
           if dns_name_ok normalized then Inr normalized
           else Inl (DomainValidationError (name @ '' must be a valid DNS hostname'')))
      | Target_Docker \<Rightarrow>
          if docker_name_ok target then Inr target
          else Inl (DomainValidationError (name @ '' must be a valid Docker service/container name'')))"

section \<open>Runtime models\<close>

record tls_settings =
  tls_certificate_id :: int
  tls_forced :: bool
  tls_http2 :: bool
  tls_hsts :: bool
  tls_hsts_subdomains :: bool
  tls_trust_forwarded_proto :: bool

definition default_tls :: tls_settings where
  "default_tls = \<lparr>tls_certificate_id = 0, tls_forced = False, tls_http2 = False, tls_hsts = False,
     tls_hsts_subdomains = False, tls_trust_forwarded_proto = False\<rparr>"

definition tls_normalized :: "tls_settings \<Rightarrow> py_error + tls_settings" where
  "tls_normalized s =
     (if tls_certificate_id s < 0 then Inl (DomainValidationError ''certificate_id cannot be negative'')
      else if tls_certificate_id s = 0 then Inr default_tls
      else
        let forced = tls_forced s; hsts = forced \<and> tls_hsts s in
        Inr \<lparr>tls_certificate_id = tls_certificate_id s, tls_forced = forced, tls_http2 = tls_http2 s,
             tls_hsts = hsts, tls_hsts_subdomains = hsts \<and> tls_hsts_subdomains s,
             tls_trust_forwarded_proto = forced \<and> tls_trust_forwarded_proto s\<rparr>)"

record proxy_location =
  loc_path :: string
  loc_forward_scheme :: forward_scheme
  loc_target_kind :: target_kind
  loc_forward_host :: string
  loc_forward_port :: int
  loc_forward_path :: string
  loc_advanced_config :: string

definition validate_location :: "proxy_location \<Rightarrow> py_error + proxy_location" where
  "validate_location l =
     ebind (ensure (startswith ''/'' (loc_path l))
             (DomainValidationError ''location path must start with /'')) (\<lambda>_.
     ebind (ensure (strip (loc_forward_host l) \<noteq> [])
             (DomainValidationError ''location forward_host is required'')) (\<lambda>_.
     ebind (target_of (loc_forward_host l) (loc_target_kind l) ''location forward_host'') (\<lambda>host.
     ebind (port_of (PInt (loc_forward_port l)) ''location forward_port'') (\<lambda>_.
     ebind (ensure (loc_forward_path l = [] \<or> startswith ''/'' (loc_forward_path l))
             (DomainValidationError ''location forward_path must start with /'')) (\<lambda>_.
       Inr (l\<lparr>loc_forward_host := host\<rparr>))))))"

text \<open>\<open>use_enum_values\<close> stores the scheme as its text.\<close>

record runtime_host =
  rh_id :: int
  rh_kind :: host_kind
  rh_domain_names :: "string list"
  rh_forward_scheme :: string
  rh_forward_host :: "string option"
  rh_forward_port :: "int option"
  rh_forward_domain_name :: "string option"
  rh_forward_http_code :: int
  rh_preserve_path :: bool
  rh_owner_user_id :: int
  rh_access_list_id :: int
  rh_access_list_ids :: "int list"
  rh_ssl :: tls_settings
  rh_caching_enabled :: bool
  rh_block_exploits :: bool
  rh_allow_websocket_upgrade :: bool
  rh_advanced_config :: string
  rh_locations :: "proxy_location list"
  rh_enabled :: bool
  rh_meta :: payload

definition redirect_codes :: "int set" where
  "redirect_codes = {301, 302, 307, 308}"

definition opt_text :: "string option \<Rightarrow> string" where
  "opt_text x = (case x of None \<Rightarrow> [] | Some s \<Rightarrow> s)"

definition validate_host_target :: "runtime_host \<Rightarrow> py_error + runtime_host" where
  "validate_host_target h =
     (case rh_kind h of
        Kind_Proxy \<Rightarrow>
          ebind (ensure (strip (opt_text (rh_forward_host h)) \<noteq> [])
                  (DomainValidationError ''forward_host is required'')) (\<lambda>_.
          ebind (port_of (PInt (case rh_forward_port h of None \<Rightarrow> 0 | Some p \<Rightarrow> p)) ''forward_port'') (\<lambda>_.
            Inr h))
      | Kind_Redirect \<Rightarrow>
          let target = normal_domain (opt_text (rh_forward_domain_name h)) in
          ebind (ensure (domain_re target)
                  (DomainValidationError ''forward_domain_name must be a valid domain'')) (\<lambda>_.
          ebind (ensure (rh_forward_http_code h \<in> redirect_codes)
                  (DomainValidationError ''forward_http_code must be one of 301, 302, 307, or 308'')) (\<lambda>_.
            Inr (h\<lparr>rh_forward_domain_name := Some target\<rparr>)))
      | Kind_Dead \<Rightarrow> Inr h)"

definition validate_host :: "runtime_host \<Rightarrow> py_error + runtime_host" where
  "validate_host h =
     ebind (canonical_domains (map PStr (rh_domain_names h))) (\<lambda>domains.
     ebind (emap validate_location (rh_locations h)) (\<lambda>locations.
     let h = h\<lparr>rh_domain_names := domains, rh_locations := locations\<rparr> in
     ebind (ensure (0 < rh_id h \<and> 0 < rh_owner_user_id h)
             (DomainValidationError ''host and owner IDs must be positive'')) (\<lambda>_.
     ebind (ensure (\<forall>i\<in>set (rh_access_list_ids h). 0 < i)
             (DomainValidationError ''access_list_ids must contain positive IDs'')) (\<lambda>_.
     ebind (ensure (distinct (rh_access_list_ids h))
             (DomainValidationError ''access_list_ids must be unique'')) (\<lambda>_.
     ebind (validate_host_target h) (\<lambda>h.
     ebind (ensure (distinct (map loc_path (rh_locations h)))
             (DomainValidationError ''proxy location paths must be unique'')) (\<lambda>_.
     ebind (tls_normalized (rh_ssl h)) (\<lambda>ssl. Inr (h\<lparr>rh_ssl := ssl\<rparr>)))))))))"

record runtime_stream =
  st_id :: int
  st_incoming_port :: int
  st_forwarding_host :: string
  st_forwarding_port :: int
  st_protocol :: stream_protocol
  st_target_kind :: target_kind
  st_owner_user_id :: int
  st_certificate_id :: int
  st_enabled :: bool
  st_meta :: payload

definition validate_stream :: "runtime_stream \<Rightarrow> py_error + runtime_stream" where
  "validate_stream s =
     ebind (port_of (PInt (st_incoming_port s)) ''incoming_port'') (\<lambda>_.
     ebind (port_of (PInt (st_forwarding_port s)) ''forwarding_port'') (\<lambda>_.
     ebind (ensure (strip (st_forwarding_host s) \<noteq> [])
             (DomainValidationError ''forwarding_host is required'')) (\<lambda>_.
     ebind (target_of (st_forwarding_host s) (st_target_kind s) ''forwarding_host'') (\<lambda>host.
     ebind (ensure (0 \<le> st_certificate_id s)
             (DomainValidationError ''certificate_id cannot be negative'')) (\<lambda>_.
     ebind (ensure (st_certificate_id s = 0 \<or> st_protocol s \<noteq> Stream_Udp)
             (DomainValidationError ''stream TLS is supported only for TCP'')) (\<lambda>_.
       Inr (s\<lparr>st_forwarding_host := host\<rparr>)))))))"

definition tcp_forwarding :: "runtime_stream \<Rightarrow> bool" where
  "tcp_forwarding s \<longleftrightarrow> st_protocol s \<in> {Stream_Tcp, Stream_Tcp_Udp}"

definition udp_forwarding :: "runtime_stream \<Rightarrow> bool" where
  "udp_forwarding s \<longleftrightarrow> st_protocol s \<in> {Stream_Udp, Stream_Tcp_Udp}"

section \<open>The inventory check\<close>

record host_inventory =
  inv_proxy_hosts :: "runtime_host list"
  inv_redirection_hosts :: "runtime_host list"
  inv_dead_hosts :: "runtime_host list"
  inv_streams :: "runtime_stream list"

definition domain_claims :: "string \<Rightarrow> runtime_host list \<Rightarrow> (string \<times> string \<times> int) list" where
  "domain_claims family hosts =
     concat (map (\<lambda>h. map (\<lambda>d. (d, family, rh_id h)) (rh_domain_names h)) hosts)"

definition stream_claims :: "runtime_stream \<Rightarrow> ((int \<times> string) \<times> unit) list" where
  "stream_claims s =
     map (\<lambda>p. ((st_incoming_port s, p), ()))
       (if st_protocol s = Stream_Tcp_Udp then [''tcp'', ''udp''] else [stream_protocol_value (st_protocol s)])"

definition validate_inventory :: "host_inventory \<Rightarrow> py_error + unit" where
  "validate_inventory hi =
     ebind (efold (claim (\<lambda>d p. CollisionError (''domain '' @ d @ '' is already used by '' @ fst p @ '' host '' @ int_str (snd p))))
        (domain_claims ''proxy'' (inv_proxy_hosts hi) @
         domain_claims ''redirection'' (inv_redirection_hosts hi) @
         domain_claims ''dead'' (inv_dead_hosts hi)) []) (\<lambda>_.
     ebind (efold (claim (\<lambda>c _. CollisionError (''stream port '' @ int_str (fst c) @ ''/'' @ snd c @ '' is already in use'')))
        (concat (map stream_claims (inv_streams hi))) []) (\<lambda>_. Inr ()))"

section \<open>Laws\<close>

lemma is_alnum_not: "\<not> is_alnum CHR ''.''" "\<not> is_alnum CHR ''*''" "\<not> is_alnum CHR ''-''"
  by (simp_all add: is_alnum_def is_upper_def is_lower_def is_digit_def char_nat_def)

lemma is_alnum_not_space: "is_alnum c \<Longrightarrow> \<not> is_space c"
  by (auto simp: is_alnum_def is_upper_def is_lower_def is_digit_def is_space_def)

lemma star_not_space: "\<not> is_space CHR ''*''"
  by (simp add: is_space_def char_nat_def)

lemma split_on_hd: "s \<noteq> [] \<Longrightarrow> hd s \<noteq> d \<Longrightarrow> hd (hd (split_on d s)) = hd s \<and> hd (split_on d s) \<noteq> []"
  by (cases s) (auto split: list.split)

lemma split_on_last:
  "s \<noteq> [] \<Longrightarrow> last s \<noteq> d \<Longrightarrow> last (last (split_on d s)) = last s \<and> last (split_on d s) \<noteq> []"
proof (induction s)
  case (Cons c s)
  show ?case
  proof (cases "s = []")
    case True
    with Cons.prems show ?thesis by simp
  next
    case False
    with Cons have ih: "last (last (split_on d s)) = last s" "last (split_on d s) \<noteq> []" by simp_all
    obtain w ws where w: "split_on d s = w # ws" by (meson neq_Nil_conv split_on_not_Nil)
    show ?thesis
    proof (cases "ws = []")
      case True
      with ih w False show ?thesis by auto
    next
      case nonempty: False
      with ih w False show ?thesis by auto
    qed
  qed
qed simp

lemma domain_re_ends:
  assumes "domain_re s" "last s \<noteq> CHR ''.''"
  shows "s \<noteq> [] \<and> \<not> is_space (hd s) \<and> \<not> is_space (last s)"
proof -
  define t where "t = (if startswith ''*.'' s then drop 2 s else s)"
  define u where "u = (if t \<noteq> [] \<and> last t = CHR ''.'' then butlast t else t)"
  have u: "u \<noteq> []" "\<forall>l\<in>set (split_on CHR ''.'' u). label_ok l"
    using assms(1) unfolding domain_re_def Let_def t_def [symmetric] u_def [symmetric] by blast+
  have ts: "t \<noteq> [] \<Longrightarrow> last t = last s"
    by (auto simp: t_def startswith_iff last_append)
  have "t \<noteq> []" using u(1) by (auto simp: u_def split: if_splits)
  with ts assms(2) have ut: "u = t" "last t = last s" by (simp_all add: u_def)
  have "last u \<noteq> CHR ''.''" using ut assms(2) by simp
  with u have "is_alnum (last u)"
    using split_on_last [of u "CHR ''.''"] by (metis label_ok_def last_in_set split_on_not_Nil)
  moreover have "is_alnum (hd u)"
  proof -
    have "hd (split_on CHR ''.'' u) \<in> set (split_on CHR ''.'' u)" by simp
    with u(2) have l: "label_ok (hd (split_on CHR ''.'' u))" by blast
    have "hd u \<noteq> CHR ''.''"
    proof
      assume "hd u = CHR ''.''"
      then have "hd (split_on CHR ''.'' u) = []" using u(1) by (cases u) auto
      with l show False by (simp add: label_ok_def)
    qed
    with split_on_hd [OF u(1)] l show ?thesis by (metis label_ok_def)
  qed
  ultimately show ?thesis
    using ut \<open>t \<noteq> []\<close> is_alnum_not_space star_not_space
    by (auto simp: t_def startswith_iff split: if_splits)
qed

lemma normal_domain_casefold [simp]: "casefold (normal_domain s) = normal_domain s"
  by (simp add: normal_domain_def)

lemma normal_domain_last: "normal_domain s \<noteq> [] \<Longrightarrow> last (normal_domain s) \<noteq> CHR ''.''"
  unfolding normal_domain_def casefold_rstrip_dot by (rule rstrip_dot_last)

lemma normal_domain_idem:
  assumes "domain_re (normal_domain s)"
  shows "normal_domain (normal_domain s) = normal_domain s"
proof -
  let ?d = "normal_domain s"
  have "?d \<noteq> []" using assms by (auto simp: domain_re_def startswith_def)
  then have l: "last ?d \<noteq> CHR ''.''" by (rule normal_domain_last)
  have "strip ?d = ?d" using domain_re_ends [OF assms l] by (simp add: strip_id)
  moreover have "rstrip_dot ?d = ?d" using l by (simp add: rstrip_dot_def rstrip_by_id)
  ultimately show ?thesis unfolding normal_domain_def [of "normal_domain s"] by simp
qed

lemma ex_map_PStr_Cons:
  "(\<exists>raws. PStr s # vs = map PStr raws \<and> Q raws) \<longleftrightarrow> (\<exists>raws. vs = map PStr raws \<and> Q (s # raws))"
  by (auto simp: Cons_eq_map_conv)

lemma add_domains:
  "efold add_domain values ds = Inr ds' \<longleftrightarrow>
     (\<exists>raws. values = map PStr raws \<and> ds' = ds @ map normal_domain raws \<and>
        (\<forall>s\<in>set raws. domain_re (normal_domain s)) \<and> distinct (map normal_domain raws) \<and>
        set (map normal_domain raws) \<inter> set ds = {})"
proof (induction "values" arbitrary: ds)
  case (Cons v vs)
  show ?case
  proof (cases "\<exists>s. v = PStr s \<and> domain_re (normal_domain s) \<and> normal_domain s \<notin> set ds")
    case True
    then obtain s where s: "v = PStr s" "domain_re (normal_domain s)" "normal_domain s \<notin> set ds" by blast
    then have "efold add_domain (v # vs) ds = efold add_domain vs (ds @ [normal_domain s])"
      by (simp add: add_domain_def)
    then show ?thesis
      using s unfolding s(1) ex_map_PStr_Cons by (auto simp: Cons.IH)
  next
    case False
    then have "\<exists>e. add_domain v ds = Inl e"
      by (cases v) (auto simp: add_domain_def Let_def)
    with False show ?thesis by (auto simp: Cons_eq_map_conv)
  qed
qed auto

lemma canonical_domains_efold:
  "canonical_domains values = Inr ds \<longleftrightarrow>
     efold add_domain values [] = Inr ds \<and> 1 \<le> length ds \<and> length ds \<le> 100"
  by (auto simp: canonical_domains_def result_simps split: if_splits)

lemma canonical_domains_iff:
  "canonical_domains values = Inr ds \<longleftrightarrow>
     (\<exists>raws. values = map PStr raws \<and> ds = map normal_domain raws \<and> distinct ds \<and>
        (\<forall>d\<in>set ds. domain_re d) \<and> 1 \<le> length ds \<and> length ds \<le> 100)"
  by (auto simp: canonical_domains_efold add_domains)

lemma canonical_domains_idem:
  assumes "canonical_domains values = Inr ds"
  shows "canonical_domains (map PStr ds) = Inr ds"
proof -
  obtain raws where r: "ds = map normal_domain raws" "distinct ds" "\<forall>d\<in>set ds. domain_re d"
    "1 \<le> length ds" "length ds \<le> 100"
    using assms by (auto simp: canonical_domains_iff)
  have "map normal_domain ds = ds"
    using r(1,3) by (auto intro!: map_idI normal_domain_idem)
  with r show ?thesis unfolding canonical_domains_iff by (metis (no_types, lifting))
qed

lemma tls_normalized_facts:
  assumes "tls_normalized s = Inr t"
  shows "tls_normalized t = Inr t \<and> 0 \<le> tls_certificate_id t \<and>
    (tls_forced t \<longrightarrow> 0 < tls_certificate_id t) \<and> (tls_hsts t \<longrightarrow> tls_forced t) \<and>
    (tls_hsts_subdomains t \<longrightarrow> tls_hsts t) \<and> (tls_trust_forwarded_proto t \<longrightarrow> tls_forced t) \<and>
    (tls_http2 t \<longrightarrow> 0 < tls_certificate_id t)"
  using assms by (auto simp: tls_normalized_def default_tls_def Let_def split: if_splits)

definition all_domains :: "host_inventory \<Rightarrow> string list" where
  "all_domains hi = concat (map rh_domain_names (inv_proxy_hosts hi @ inv_redirection_hosts hi @ inv_dead_hosts hi))"

lemma map_fst_domain_claims: "map fst (domain_claims f hs) = concat (map rh_domain_names hs)"
  by (induction hs) (auto simp: domain_claims_def comp_def)

lemma efold_claim_cases:
  "(\<exists>d'. efold (claim err) kvs [] = Inr d') \<longleftrightarrow> distinct (map fst kvs)"
  by (simp add: claim_all)

lemma ebind_exists_Inr: "(\<exists>y. ebind m f = Inr y) \<longleftrightarrow> (\<exists>x. m = Inr x \<and> (\<exists>y. f x = Inr y))"
  by (auto simp: result_simps)

lemma validate_inventory_iff:
  "validate_inventory hi = Inr () \<longleftrightarrow>
     distinct (all_domains hi) \<and> distinct (map fst (concat (map stream_claims (inv_streams hi))))"
proof -
  have d: "map fst (domain_claims ''proxy'' (inv_proxy_hosts hi) @
         domain_claims ''redirection'' (inv_redirection_hosts hi) @
         domain_claims ''dead'' (inv_dead_hosts hi)) = all_domains hi"
    by (simp add: map_fst_domain_claims all_domains_def)
  have "validate_inventory hi = Inr () \<longleftrightarrow> (\<exists>y. validate_inventory hi = Inr y)" by auto
  also have "\<dots> \<longleftrightarrow> distinct (all_domains hi) \<and> distinct (map fst (concat (map stream_claims (inv_streams hi))))"
    unfolding validate_inventory_def ebind_exists_Inr
    by (simp add: efold_claim_cases d [symmetric] del: map_append)
  finally show ?thesis .
qed

section \<open>Properties\<close>

text \<open>\<open>canonical_domains\<close> accepts exactly the lists of 1 to 100 texts whose normal forms are valid and
  pairwise different domain names, returns the normal forms in order, and leaves its own results as they
  are.\<close>

theorem canonical_domains_exact:
  "(canonical_domains values = Inr ds \<longleftrightarrow>
      (\<exists>raws. values = map PStr raws \<and> ds = map normal_domain raws \<and> distinct ds \<and>
         set ds \<subseteq> Collect domain_re \<and> length ds \<in> {1..100})) \<and>
   (canonical_domains values = Inr ds \<longrightarrow> canonical_domains (map PStr ds) = Inr ds)"
  using canonical_domains_idem by (auto simp: canonical_domains_iff)

theorem canonical_domains_exact_witness:
  "(canonical_domains [PStr '' WWW.Example.com. '', PStr ''*.a.io''] = Inr [''www.example.com'', ''*.a.io''] \<longleftrightarrow>
      (\<exists>raws. [PStr '' WWW.Example.com. '', PStr ''*.a.io''] = map PStr raws \<and>
         [''www.example.com'', ''*.a.io''] = map normal_domain raws \<and> distinct [''www.example.com'', ''*.a.io''] \<and>
         set [''www.example.com'', ''*.a.io''] \<subseteq> Collect domain_re \<and>
         length [''www.example.com'', ''*.a.io''] \<in> {1..100})) \<and>
   canonical_domains (map PStr [''www.example.com'', ''*.a.io'']) = Inr [''www.example.com'', ''*.a.io'']"
proof -
  have "canonical_domains [PStr '' WWW.Example.com. '', PStr ''*.a.io''] = Inr [''www.example.com'', ''*.a.io'']"
    by code_simp
  then show ?thesis
    using canonical_domains_exact [of "[PStr '' WWW.Example.com. '', PStr ''*.a.io'']"
        "[''www.example.com'', ''*.a.io'']"] by blast
qed

text \<open>C40. Normalised TLS settings are consistent, every option needs the one it builds on and all need a
  certificate, and normalising again changes nothing.\<close>

theorem tls_normal_form:
  assumes "tls_normalized s = Inr t"
  shows "tls_normalized t = Inr t \<and> 0 \<le> tls_certificate_id t \<and>
    (tls_forced t \<longrightarrow> 0 < tls_certificate_id t) \<and> (tls_hsts t \<longrightarrow> tls_forced t) \<and>
    (tls_hsts_subdomains t \<longrightarrow> tls_hsts t) \<and> (tls_trust_forwarded_proto t \<longrightarrow> tls_forced t) \<and>
    (tls_http2 t \<longrightarrow> 0 < tls_certificate_id t)"
  using assms by (rule tls_normalized_facts)

definition sample_tls :: tls_settings where
  "sample_tls = \<lparr>tls_certificate_id = 4, tls_forced = False, tls_http2 = True, tls_hsts = True,
     tls_hsts_subdomains = True, tls_trust_forwarded_proto = False\<rparr>"

theorem tls_normal_form_witness:
  "tls_normalized sample_tls = Inr (sample_tls\<lparr>tls_hsts := False, tls_hsts_subdomains := False\<rparr>) \<and>
   tls_normalized (sample_tls\<lparr>tls_hsts := False, tls_hsts_subdomains := False\<rparr>) =
     Inr (sample_tls\<lparr>tls_hsts := False, tls_hsts_subdomains := False\<rparr>)"
proof -
  have "tls_normalized sample_tls = Inr (sample_tls\<lparr>tls_hsts := False, tls_hsts_subdomains := False\<rparr>)"
    by (simp add: tls_normalized_def sample_tls_def)
  with tls_normal_form [OF this] show ?thesis by blast
qed

text \<open>The inventory check passes exactly when no domain name is claimed twice by hosts of any family
  and no port is claimed twice for the same transport, a stream for both transports claiming both.\<close>

theorem inventory_collision_free:
  "validate_inventory hi = Inr () \<longleftrightarrow>
     distinct (all_domains hi) \<and> distinct (map fst (concat (map stream_claims (inv_streams hi))))"
  by (rule validate_inventory_iff)

end
