(* ===== verification/Access_Lists.thy ===== *)
theory Access_Lists
  imports Py_Value Ip_Address
begin

text \<open>
  \<open>tables/access.py\<close> and the helpers of \<open>tables/compat.py\<close>: the frozen runtime models with their
  validators, and the access-list aggregate, a root row with its rules, credentials and principals.
  A database table is the list of its rows in the order of their primary keys, so \<open>order_by(id)\<close> is
  the list itself. An operation that raises changes nothing, because the transaction is rolled back.
  The root row is written by the framework between \<open>prepare_aggregate\<close> and \<open>persist_aggregate\<close>;
  \<open>bcrypt\<close> is a parameter.
\<close>

section \<open>Extension metadata\<close>

definition extension_metadata :: "payload \<Rightarrow> string set \<Rightarrow> payload" where
  "extension_metadata payload known =
     (let ext = filter (\<lambda>(k, v). k \<notin> known) payload in
      if ext \<noteq> [] then [(''extensions'', PDict ext)] else [])"

definition extensions_of :: "payload \<Rightarrow> payload" where
  "extensions_of metadata =
     (case pget ''extensions'' metadata of PDict d \<Rightarrow> d | _ \<Rightarrow> [])"

definition iso :: "string \<Rightarrow> string option \<Rightarrow> string" where
  "iso now value = (case value of None \<Rightarrow> now | Some s \<Rightarrow> s)"

section \<open>Runtime models\<close>

datatype access_directive = Allow | Deny

fun directive_value :: "access_directive \<Rightarrow> string" where
  "directive_value Allow = ''allow''"
| "directive_value Deny = ''deny''"

definition directive_of :: "string \<Rightarrow> py_error + access_directive" where
  "directive_of s = (if s = ''allow'' then Inr Allow else if s = ''deny'' then Inr Deny
     else Inl (ValueError (str_repr s @ '' is not a valid AccessDirective'')))"

text \<open>Directives are ordered as their texts are.\<close>

instantiation access_directive :: linorder
begin

definition less_eq_access_directive :: "access_directive \<Rightarrow> access_directive \<Rightarrow> bool" where
  "less_eq_access_directive a b \<longleftrightarrow> directive_value a \<le> directive_value b"

definition less_access_directive :: "access_directive \<Rightarrow> access_directive \<Rightarrow> bool" where
  "less_access_directive a b \<longleftrightarrow> directive_value a < directive_value b"

instance
proof
  have inj: "directive_value a = directive_value b \<Longrightarrow> a = b" for a b
    by (cases a; cases b) simp_all
  fix x y z :: access_directive
  show "(x < y) = (x \<le> y \<and> \<not> y \<le> x)"
    by (auto simp: less_eq_access_directive_def less_access_directive_def)
  show "x \<le> x" by (simp add: less_eq_access_directive_def)
  show "x \<le> y \<Longrightarrow> y \<le> z \<Longrightarrow> x \<le> z" by (simp add: less_eq_access_directive_def)
  show "x \<le> y \<Longrightarrow> y \<le> x \<Longrightarrow> x = y" by (simp add: less_eq_access_directive_def inj)
  show "x \<le> y \<or> y \<le> x" unfolding less_eq_access_directive_def by (rule linear)
qed

end

record access_credential =
  cred_username :: string
  cred_password_hash :: string

record access_client =
  client_address :: string
  client_directive :: access_directive

record access_list =
  al_id :: int
  al_name :: string
  al_credentials :: "access_credential list"
  al_clients :: "access_client list"
  al_satisfy_any :: bool
  al_pass_auth :: bool
  al_meta :: payload

definition validate_credential :: "access_credential \<Rightarrow> py_error + access_credential" where
  "validate_credential c =
     (if cred_username c = [] \<or> contains '':'' (cred_username c) \<or> contains newline (cred_username c)
      then Inl (DomainValidationError ''invalid basic-auth username'')
      else if cred_password_hash c = [] \<or> contains newline (cred_password_hash c)
      then Inl (DomainValidationError ''invalid basic-auth password/hash'')
      else Inr c)"

definition validate_client :: "access_client \<Rightarrow> py_error + access_client" where
  "validate_client c =
     (let address = strip (client_address c) in
      if address = ''all'' then Inr (c\<lparr>client_address := address\<rparr>)
      else case canonical_network address of
        None \<Rightarrow> Inl (DomainValidationError (''invalid access-list address: '' @ address))
      | Some n \<Rightarrow> Inr (c\<lparr>client_address := n\<rparr>))"

definition validate_access_list :: "access_list \<Rightarrow> py_error + access_list" where
  "validate_access_list l =
     (if al_id l \<le> 0 then Inl (DomainValidationError ''access-list id must be positive'')
      else if strip (al_name l) = [] then Inl (DomainValidationError ''access-list name is required'')
      else Inr l)"

section \<open>The aggregate\<close>

record access_row =
  ar_id :: int
  ar_name :: string
  ar_satisfy_any :: bool
  ar_pass_auth :: bool
  ar_metadata :: payload
  ar_created_at :: "string option"
  ar_updated_at :: "string option"

record access_rule_row =
  rr_list :: int
  rr_position :: nat
  rr_directive :: string
  rr_address :: string

record access_credential_row =
  cr_list :: int
  cr_username :: string
  cr_password_hash :: string

record access_principal_row =
  pr_list :: int
  pr_principal :: int

record access_db =
  adb_lists :: "access_row list"
  adb_rules :: "access_rule_row list"
  adb_credentials :: "access_credential_row list"
  adb_principals :: "access_principal_row list"

definition access_known :: "string set" where
  "access_known = set [''id'', ''name'', ''satisfy_any'', ''pass_auth'', ''items'', ''credentials'', ''clients'',
     ''identity_ids'', ''owner_user_id'', ''created_on'', ''modified_on'', ''created_at'', ''updated_at'']"

record access_values_rec =
  av_name :: string
  av_satisfy_any :: bool
  av_pass_auth :: bool
  av_metadata :: payload

definition strip_credential :: "pyval \<Rightarrow> py_error + pyval" where
  "strip_credential item =
     ebind (py_get ''username'' PNone item) (\<lambda>u.
       Inr (PDict [(''username'', PStr (py_str (py_or u (PStr []))))]))"

definition access_values :: "payload \<Rightarrow> py_error + access_values_rec" where
  "access_values payload =
     (let key = (if ''items'' \<in> dict_keys payload then ''items'' else ''credentials'') in
      ebind (case dict_get payload key of
               None \<Rightarrow> Inr payload
             | Some v \<Rightarrow> ebind (py_iter v) (\<lambda>items. ebind (emap strip_credential items) (\<lambda>stripped.
                 Inr (dict_set key (PList stripped) payload)))) (\<lambda>compat.
        Inr \<lparr>av_name = py_str (py_or (pget ''name'' payload) (PStr [])),
             av_satisfy_any = truthy (pget ''satisfy_any'' payload),
             av_pass_auth = truthy (pget ''pass_auth'' payload),
             av_metadata = extension_metadata compat access_known\<rparr>))"

definition access_project :: "string \<Rightarrow> access_db \<Rightarrow> access_row \<Rightarrow> bool \<Rightarrow> payload" where
  "access_project now db row include_hashes =
     dict_update (extensions_of (ar_metadata row))
       [(''id'', PInt (ar_id row)), (''name'', PStr (ar_name row)),
        (''satisfy_any'', PBool (ar_satisfy_any row)), (''pass_auth'', PBool (ar_pass_auth row)),
        (''items'', PList (map (\<lambda>c. PDict ([(''username'', PStr (cr_username c))] @
             (if include_hashes then [(''password'', PStr (cr_password_hash c))] else [])))
           (filter (\<lambda>c. cr_list c = ar_id row) (adb_credentials db)))),
        (''clients'', PList (map (\<lambda>r. PDict [(''address'', PStr (rr_address r)), (''directive'', PStr (rr_directive r))])
           (sort_key rr_position (filter (\<lambda>r. rr_list r = ar_id row) (adb_rules db))))),
        (''identity_ids'', PList (map (\<lambda>p. PInt (pr_principal p))
           (filter (\<lambda>p. pr_list p = ar_id row) (adb_principals db)))),
        (''created_on'', PStr (iso now (ar_created_at row))), (''modified_on'', PStr (iso now (ar_updated_at row)))]"

text \<open>\<open>RuntimeRule.model_validate(rule)\<close>: exactly the two keys, an address text and a directive.\<close>

definition client_of_raw :: "pyval \<Rightarrow> py_error + access_client" where
  "client_of_raw raw =
     (case raw of
        PDict d \<Rightarrow>
          if \<not> dict_keys d \<subseteq> {''address'', ''directive''} then Inl (ValueError ''extra inputs are not permitted'')
          else
            ebind (note_none (ValueError ''address: string required'')
                     (Option.bind (dict_get d ''address'') as_str)) (\<lambda>address.
            ebind (note_none (ValueError ''directive: string required'')
                     (Option.bind (dict_get d ''directive'') as_str)) (\<lambda>text.
            ebind (directive_of text) (\<lambda>directive.
              validate_client \<lparr>client_address = address, client_directive = directive\<rparr>)))
      | _ \<Rightarrow> Inl (ValueError ''input should be a valid dictionary''))"

definition bcrypt_prefixed :: "string \<Rightarrow> bool" where
  "bcrypt_prefixed s \<longleftrightarrow> startswith ''$2a$'' s \<or> startswith ''$2b$'' s \<or> startswith ''$2y$'' s"

definition new_credential_row ::
  "(string \<Rightarrow> py_error + string) \<Rightarrow> int \<Rightarrow> (string, string) dict \<Rightarrow> pyval \<Rightarrow> py_error + access_credential_row" where
  "new_credential_row bcrypt list_id existing credential =
     ebind (py_get ''username'' PNone credential) (\<lambda>u.
     ebind (py_get ''password'' (PStr []) credential) (\<lambda>pw.
     ebind (py_get ''password_hash'' pw credential) (\<lambda>ph.
     let username = py_str (py_or u (PStr [])); supplied = py_str ph in
     ebind (if supplied \<noteq> [] \<and> \<not> bcrypt_prefixed supplied then bcrypt supplied else Inr supplied) (\<lambda>supplied.
     let password_hash = (if supplied \<noteq> [] then supplied else dict_get_or existing username []) in
     if username = [] \<or> password_hash = []
     then Inl (ValueError ''access credentials require a username and password'')
     else ebind (validate_credential \<lparr>cred_username = username, cred_password_hash = password_hash\<rparr>) (\<lambda>_.
       Inr \<lparr>cr_list = list_id, cr_username = username, cr_password_hash = password_hash\<rparr>)))))"

definition access_replace_children ::
  "(string \<Rightarrow> py_error + string) \<Rightarrow> int \<Rightarrow> payload \<Rightarrow> access_db \<Rightarrow> py_error + access_db" where
  "access_replace_children bcrypt list_id payload db =
     (let existing = fold (\<lambda>c. dict_set (cr_username c) (cr_password_hash c))
            (filter (\<lambda>c. cr_list c = list_id) (adb_credentials db)) [];
          rules = filter (\<lambda>r. rr_list r \<noteq> list_id) (adb_rules db);
          credentials = filter (\<lambda>c. cr_list c \<noteq> list_id) (adb_credentials db);
          principals = filter (\<lambda>p. pr_list p \<noteq> list_id) (adb_principals db)
      in
      ebind (py_iter (py_or (pget ''clients'' payload) (PList []))) (\<lambda>raw_clients.
      ebind (emap client_of_raw raw_clients) (\<lambda>clients.
      ebind (py_iter (py_or (dict_get_or payload ''items'' (dict_get_or payload ''credentials'' (PList []))) (PList []))) (\<lambda>items.
      ebind (emap (new_credential_row bcrypt list_id existing) items) (\<lambda>new_credentials.
      ebind (py_iter (py_or (pget ''identity_ids'' payload) (PList []))) (\<lambda>raw_ids.
      ebind (emap py_int raw_ids) (\<lambda>ids.
        Inr (db\<lparr>adb_rules := rules @ map (\<lambda>(position, c). \<lparr>rr_list = list_id, rr_position = position,
                    rr_directive = directive_value (client_directive c), rr_address = client_address c\<rparr>)
                  (enumerate 0 clients),
                adb_credentials := credentials @ new_credentials,
                adb_principals := principals @ map (\<lambda>i. \<lparr>pr_list = list_id, pr_principal = i\<rparr>) ids\<rparr>))))))))"

definition find_access_row :: "access_db \<Rightarrow> int \<Rightarrow> access_row option" where
  "find_access_row db i = find (\<lambda>r. ar_id r = i) (adb_lists db)"

text \<open>The aggregate that is kept for \<open>persist_aggregate\<close>, and the values and key of the root row.\<close>

definition access_prepare ::
  "string \<Rightarrow> string \<Rightarrow> payload \<Rightarrow> access_db \<Rightarrow> py_error + payload \<times> access_values_rec \<times> int option" where
  "access_prepare now alias payload db =
     ebind (if casefold alias = ''update''
            then ebind (note_none (KeyError ''id'') (dict_get payload ''id'')) (\<lambda>v.
                 ebind (py_int v) (\<lambda>i.
                   Inr (case find_access_row db i of
                          None \<Rightarrow> payload
                        | Some row \<Rightarrow> dict_update (access_project now db row True) payload)))
            else Inr payload) (\<lambda>aggregate.
     ebind (access_values aggregate) (\<lambda>values.
     ebind (if pget ''id'' aggregate = PNone then Inr None
            else ebind (py_int (pget ''id'' aggregate)) (\<lambda>i. Inr (Some i))) (\<lambda>key.
       Inr (aggregate, values, key))))"

definition access_persist ::
  "(string \<Rightarrow> py_error + string) \<Rightarrow> string \<Rightarrow> access_row \<Rightarrow> payload \<Rightarrow> access_db \<Rightarrow> py_error + access_db \<times> payload" where
  "access_persist bcrypt now row aggregate db =
     ebind (access_replace_children bcrypt (ar_id row) aggregate db) (\<lambda>db'.
       Inr (db', access_project now db' row False))"

definition access_delete_children ::
  "(string \<Rightarrow> py_error + string) \<Rightarrow> int \<Rightarrow> access_db \<Rightarrow> py_error + access_db" where
  "access_delete_children bcrypt list_id db = access_replace_children bcrypt list_id [] db"

definition access_runtime :: "access_db \<Rightarrow> access_row \<Rightarrow> py_error + access_list" where
  "access_runtime db row =
     ebind (emap (\<lambda>c. validate_credential \<lparr>cred_username = cr_username c, cred_password_hash = cr_password_hash c\<rparr>)
              (filter (\<lambda>c. cr_list c = ar_id row) (adb_credentials db))) (\<lambda>credentials.
     ebind (emap (\<lambda>r. ebind (directive_of (rr_directive r)) (\<lambda>d.
                validate_client \<lparr>client_address = rr_address r, client_directive = d\<rparr>))
              (sort_key rr_position (filter (\<lambda>r. rr_list r = ar_id row) (adb_rules db)))) (\<lambda>clients.
       validate_access_list \<lparr>al_id = ar_id row, al_name = ar_name row, al_credentials = credentials,
         al_clients = clients, al_satisfy_any = ar_satisfy_any row, al_pass_auth = ar_pass_auth row,
         al_meta = ar_metadata row\<rparr>))"

definition access_runtime_list :: "access_db \<Rightarrow> py_error + access_list list" where
  "access_runtime_list db = emap (access_runtime db) (adb_lists db)"

section \<open>Laws\<close>

lemma emap_ball: "emap f xs = Inr ys \<Longrightarrow> (\<And>x y. x \<in> set xs \<Longrightarrow> f x = Inr y \<Longrightarrow> P y) \<Longrightarrow> \<forall>y\<in>set ys. P y"
  by (auto simp: emap_Inr_iff list_all2_conv_all_nth in_set_conv_nth) metis

definition credential_row_ok ::
  "(string \<Rightarrow> py_error + string) \<Rightarrow> int \<Rightarrow> (string, string) dict \<Rightarrow> access_credential_row \<Rightarrow> bool" where
  "credential_row_ok bcrypt list_id existing c \<longleftrightarrow>
     cr_list c = list_id \<and>
     validate_credential \<lparr>cred_username = cr_username c, cred_password_hash = cr_password_hash c\<rparr> =
       Inr \<lparr>cred_username = cr_username c, cred_password_hash = cr_password_hash c\<rparr> \<and>
     (bcrypt_prefixed (cr_password_hash c) \<or> (\<exists>p. bcrypt p = Inr (cr_password_hash c)) \<or>
      dict_get existing (cr_username c) = Some (cr_password_hash c))"

lemma validate_credential_id: "validate_credential c = Inr c' \<Longrightarrow> c' = c"
  by (simp add: validate_credential_def split: if_splits)

lemma credential_row_is_ok:
  assumes "new_credential_row bcrypt list_id existing raw = Inr c"
  shows "credential_row_ok bcrypt list_id existing c"
proof -
  let ?h = "\<lambda>hashed username. if hashed \<noteq> [] then hashed else dict_get_or existing username []"
  from assms [unfolded new_credential_row_def Let_def] obtain username supplied hashed where
    s: "(if supplied \<noteq> [] \<and> \<not> bcrypt_prefixed supplied then bcrypt supplied else Inr supplied) = Inr hashed"
    and r: "(if username = [] \<or> ?h hashed username = []
      then Inl (ValueError ''access credentials require a username and password'')
      else ebind (validate_credential \<lparr>cred_username = username, cred_password_hash = ?h hashed username\<rparr>)
        (\<lambda>_. Inr \<lparr>cr_list = list_id, cr_username = username, cr_password_hash = ?h hashed username\<rparr>)) = Inr c"
    by (elim ebind_InrE) blast
  from r have n: "?h hashed username \<noteq> []" by (auto split: if_splits)
  from r n obtain x where v: "validate_credential \<lparr>cred_username = username, cred_password_hash = ?h hashed username\<rparr> = Inr x"
    and h: "c = \<lparr>cr_list = list_id, cr_username = username, cr_password_hash = ?h hashed username\<rparr>"
    by (auto simp: result_simps split: if_split_asm)
  note v = v [unfolded validate_credential_id [OF v]]
  show ?thesis
  proof (cases "hashed = []")
    case True
    with n have "dict_get existing username = Some (dict_get_or existing username [])"
      by (auto simp: dict_get_or_def split: option.splits)
    with h v True show ?thesis by (simp add: credential_row_ok_def)
  next
    case False
    with s have "bcrypt_prefixed hashed \<or> (\<exists>p. bcrypt p = Inr hashed)"
      by (auto split: if_splits)
    with h v False show ?thesis by (auto simp: credential_row_ok_def)
  qed
qed

definition existing_credentials :: "access_db \<Rightarrow> int \<Rightarrow> (string, string) dict" where
  "existing_credentials db list_id = fold (\<lambda>c. dict_set (cr_username c) (cr_password_hash c))
     (filter (\<lambda>c. cr_list c = list_id) (adb_credentials db)) []"

lemma fold_dict_set_origin:
  "dict_get (fold (\<lambda>c. dict_set (f c) (g c)) cs d) k = Some v \<Longrightarrow>
     dict_get d k = Some v \<or> (\<exists>c\<in>set cs. f c = k \<and> g c = v)"
proof (induction cs arbitrary: d)
  case (Cons c cs)
  from Cons.prems have "dict_get (fold (\<lambda>c. dict_set (f c) (g c)) cs (dict_set (f c) (g c) d)) k = Some v" by simp
  from Cons.IH [OF this] show ?case by (auto split: if_splits)
qed simp

lemma existing_credentials_stored:
  "dict_get (existing_credentials db list_id) u = Some h \<Longrightarrow>
     \<exists>c\<in>set (adb_credentials db). cr_list c = list_id \<and> cr_username c = u \<and> cr_password_hash c = h"
  unfolding existing_credentials_def by (drule fold_dict_set_origin) auto

lemma access_replace_children_rows:
  assumes "access_replace_children bcrypt list_id payload db = Inr db'"
  shows "adb_lists db' = adb_lists db"
    and "filter (\<lambda>c. cr_list c \<noteq> list_id) (adb_credentials db') = filter (\<lambda>c. cr_list c \<noteq> list_id) (adb_credentials db)"
    and "filter (\<lambda>r. rr_list r \<noteq> list_id) (adb_rules db') = filter (\<lambda>r. rr_list r \<noteq> list_id) (adb_rules db)"
    and "filter (\<lambda>p. pr_list p \<noteq> list_id) (adb_principals db') = filter (\<lambda>p. pr_list p \<noteq> list_id) (adb_principals db)"
    and "\<forall>c\<in>set (filter (\<lambda>c. cr_list c = list_id) (adb_credentials db')).
           credential_row_ok bcrypt list_id (existing_credentials db list_id) c"
proof -
  from assms [unfolded access_replace_children_def Let_def, folded existing_credentials_def] obtain items creds ids and clients :: "access_client list" where
    c: "emap (new_credential_row bcrypt list_id (existing_credentials db list_id)) items = Inr creds"
    and db': "Inr (db\<lparr>adb_rules := filter (\<lambda>r. rr_list r \<noteq> list_id) (adb_rules db) @
          map (\<lambda>(position, c). \<lparr>rr_list = list_id, rr_position = position,
             rr_directive = directive_value (client_directive c), rr_address = client_address c\<rparr>) (enumerate 0 clients),
        adb_credentials := filter (\<lambda>c. cr_list c \<noteq> list_id) (adb_credentials db) @ creds,
        adb_principals := filter (\<lambda>p. pr_list p \<noteq> list_id) (adb_principals db) @
          map (\<lambda>i. \<lparr>pr_list = list_id, pr_principal = i\<rparr>) ids\<rparr>) = (Inr db' :: py_error + access_db)"
    by (elim ebind_InrE) (rule that)
  note db' = db' [unfolded sum.inject, symmetric]
  have ok: "\<forall>c\<in>set creds. credential_row_ok bcrypt list_id (existing_credentials db list_id) c"
    using c by (rule emap_ball) (rule credential_row_is_ok)
  then have l: "\<forall>c\<in>set creds. cr_list c = list_id" by (simp add: credential_row_ok_def)
  show "adb_lists db' = adb_lists db" by (simp add: db')
  show "filter (\<lambda>c. cr_list c \<noteq> list_id) (adb_credentials db') = filter (\<lambda>c. cr_list c \<noteq> list_id) (adb_credentials db)"
    using l by (simp add: db' filter_empty_conv)
  show "filter (\<lambda>r. rr_list r \<noteq> list_id) (adb_rules db') = filter (\<lambda>r. rr_list r \<noteq> list_id) (adb_rules db)"
    by (auto simp: db' filter_empty_conv)
  show "filter (\<lambda>p. pr_list p \<noteq> list_id) (adb_principals db') = filter (\<lambda>p. pr_list p \<noteq> list_id) (adb_principals db)"
    by (auto simp: db' filter_empty_conv)
  show "\<forall>c\<in>set (filter (\<lambda>c. cr_list c = list_id) (adb_credentials db')).
           credential_row_ok bcrypt list_id (existing_credentials db list_id) c"
    using ok by (auto simp: db')
qed

section \<open>Properties\<close>

text \<open>Replacing the children of an access list touches no other list, and afterwards every credential of
  the list has a valid user name and a stored value that is a bcrypt hash the caller supplied, what bcrypt
  made of the password, or the hash this user had before when no password was given: never the password
  itself.\<close>

theorem access_credentials_kept:
  assumes "access_replace_children bcrypt list_id payload db = Inr db'"
  shows "filter (\<lambda>c. cr_list c \<noteq> list_id) (adb_credentials db') = filter (\<lambda>c. cr_list c \<noteq> list_id) (adb_credentials db) \<and>
    filter (\<lambda>r. rr_list r \<noteq> list_id) (adb_rules db') = filter (\<lambda>r. rr_list r \<noteq> list_id) (adb_rules db) \<and>
    (\<forall>c\<in>set (adb_credentials db'). cr_list c = list_id \<longrightarrow>
       cr_username c \<noteq> [] \<and> \<not> contains '':'' (cr_username c) \<and>
       (bcrypt_prefixed (cr_password_hash c) \<or> (\<exists>p. bcrypt p = Inr (cr_password_hash c)) \<or>
        (\<exists>old\<in>set (adb_credentials db). cr_list old = list_id \<and> cr_username old = cr_username c \<and>
           cr_password_hash old = cr_password_hash c)))"
proof -
  have "cr_username c \<noteq> [] \<and> \<not> contains '':'' (cr_username c) \<and>
       (bcrypt_prefixed (cr_password_hash c) \<or> (\<exists>p. bcrypt p = Inr (cr_password_hash c)) \<or>
        (\<exists>old\<in>set (adb_credentials db). cr_list old = list_id \<and> cr_username old = cr_username c \<and>
           cr_password_hash old = cr_password_hash c))"
    if "c \<in> set (adb_credentials db')" "cr_list c = list_id" for c
  proof -
    have "credential_row_ok bcrypt list_id (existing_credentials db list_id) c"
      using access_replace_children_rows(5) [OF assms] that by simp
    then show ?thesis
      using existing_credentials_stored [of db list_id "cr_username c" "cr_password_hash c"]
      by (auto simp: credential_row_ok_def validate_credential_def split: if_splits)
  qed
  then show ?thesis using access_replace_children_rows(2,3) [OF assms] by blast
qed

definition sample_access_db :: access_db where
  "sample_access_db = \<lparr>adb_lists = [\<lparr>ar_id = 3, ar_name = ''ops'', ar_satisfy_any = False, ar_pass_auth = False,
       ar_metadata = [], ar_created_at = None, ar_updated_at = None\<rparr>],
     adb_rules = [], adb_credentials = [\<lparr>cr_list = 3, cr_username = ''ann'', cr_password_hash = ''$2b$x''\<rparr>],
     adb_principals = []\<rparr>"

theorem access_credentials_kept_witness:
  "\<exists>db'. access_replace_children (\<lambda>p. Inr (''$2b$'' @ p)) 3
     [(''items'', PList [PDict [(''username'', PStr ''ann'')],
        PDict [(''username'', PStr ''bob''), (''password'', PStr ''secret'')]])] sample_access_db = Inr db' \<and>
    filter (\<lambda>r. rr_list r \<noteq> 3) (adb_rules db') = filter (\<lambda>r. rr_list r \<noteq> 3) (adb_rules sample_access_db)"
proof -
  have "\<exists>db'. access_replace_children (\<lambda>p. Inr (''$2b$'' @ p)) 3
     [(''items'', PList [PDict [(''username'', PStr ''ann'')],
        PDict [(''username'', PStr ''bob''), (''password'', PStr ''secret'')]])] sample_access_db = Inr db'"
    by (simp add: access_replace_children_def sample_access_db_def pget_def py_or_def dict_get_or_def
        new_credential_row_def bcrypt_prefixed_def startswith_def dict_set_def validate_credential_def newline_def Let_def)
  then obtain db' where r: "access_replace_children (\<lambda>p. Inr (''$2b$'' @ p)) 3
     [(''items'', PList [PDict [(''username'', PStr ''ann'')],
        PDict [(''username'', PStr ''bob''), (''password'', PStr ''secret'')]])] sample_access_db = Inr db'" by blast
  with access_credentials_kept [OF r] show ?thesis by blast
qed

text \<open>An update that gives the credentials under the name \<open>credentials\<close>, which a create accepts,
  does not change them: the aggregate that is written back holds under \<open>items\<close> the credentials that
  were stored, and \<open>items\<close> is what \<open>_replace_children\<close> reads.\<close>

theorem access_update_ignores_credentials:
  assumes "find_access_row db i = Some row" and "dict_get payload ''id'' = Some (PInt i)"
    and "''items'' \<notin> dict_keys payload"
    and "access_prepare now ''update'' payload db = Inr (aggregate, values, key)"
  shows "dict_get aggregate ''items'' = dict_get (access_project now db row True) ''items''"
  using assms
  by (auto simp: access_prepare_def casefold_def lower_char_def is_upper_def char_nat_def result_simps
      dict_get_update_absent)

theorem access_update_ignores_credentials_witness:
  "\<exists>aggregate. dict_get aggregate ''items'' =
     dict_get (access_project ''now'' sample_access_db (hd (adb_lists sample_access_db)) True) ''items'' \<and>
     dict_get aggregate ''credentials'' = Some (PList [PDict [(''username'', PStr ''eve''), (''password'', PStr ''x'')]])"
proof -
  let ?p = "[(''id'', PInt 3), (''credentials'', PList [PDict [(''username'', PStr ''eve''), (''password'', PStr ''x'')]])]"
  have f: "find_access_row sample_access_db 3 = Some (hd (adb_lists sample_access_db))"
    by (simp add: find_access_row_def sample_access_db_def)
  note g = f [unfolded sample_access_db_def, simplified]
  have "\<exists>aggregate values key. access_prepare ''now'' ''update'' ?p sample_access_db = Inr (aggregate, values, key) \<and>
      dict_get aggregate ''credentials'' = Some (PList [PDict [(''username'', PStr ''eve''), (''password'', PStr ''x'')]])"
    by (simp add: access_prepare_def casefold_def lower_char_def is_upper_def char_nat_def g access_project_def
        sample_access_db_def extensions_of_def pget_def dict_get_or_def dict_update_def dict_set_def
        access_values_def strip_credential_def py_or_def iso_def)
  then obtain aggregate "values" key where
    a: "access_prepare ''now'' ''update'' ?p sample_access_db = Inr (aggregate, values, key)"
      "dict_get aggregate ''credentials'' = Some (PList [PDict [(''username'', PStr ''eve''), (''password'', PStr ''x'')]])"
    by blast
  from access_update_ignores_credentials [OF f _ _ a(1)] a(2) show ?thesis by auto
qed

end
