(* ===== verification/Quic_Passthrough.thy ===== *)
theory Quic_Passthrough
  imports Routing_Model Access_Lists
begin

text \<open>
  \<open>tables/quic_passthrough.py\<close>: the table of host names that are passed through on a shared UDP listener.
  The rows are a list in the order of their ids. The hooks are modelled from the payload they are given to
  the values they hand to the framework, which writes the row.
\<close>

section \<open>Routes and rows\<close>

record quic_route =
  qr_id :: int
  qr_listen_address :: string
  qr_incoming_port :: int
  qr_server_name :: string
  qr_alpn :: string
  qr_target_kind :: target_kind
  qr_target :: string
  qr_target_port :: int
  qr_idle_timeout_seconds :: int
  qr_enabled :: bool
  qr_meta :: payload

record quic_row =
  qw_id :: int
  qw_owner_principal_id :: "int option"
  qw_listen_address :: string
  qw_incoming_port :: int
  qw_server_name :: string
  qw_alpn :: string
  qw_target_kind :: string
  qw_target :: string
  qw_target_port :: int
  qw_idle_timeout_seconds :: int
  qw_enabled :: bool
  qw_metadata :: payload

definition quic_known :: "string set" where
  "quic_known = set [''id'', ''listen_address'', ''incoming_port'', ''server_name'', ''alpn'', ''target_kind'',
     ''target'', ''target_port'', ''idle_timeout_seconds'', ''enabled'', ''owner_principal_id'', ''metadata_json'']"

definition canonical_server_name :: "string \<Rightarrow> py_error + string" where
  "canonical_server_name value =
     (let name = normal_domain value in
      if \<not> domain_re name then Inl (DomainValidationError (''invalid QUIC server name: '' @ str_repr value))
      else Inr name)"

definition validate_quic_route :: "quic_route \<Rightarrow> py_error + quic_route" where
  "validate_quic_route r =
     ebind (canonical_server_name (qr_server_name r)) (\<lambda>name.
     ebind (port_of (PInt (qr_incoming_port r)) ''incoming_port'') (\<lambda>_.
     ebind (port_of (PInt (qr_target_port r)) ''target_port'') (\<lambda>_.
     ebind (ensure (strip (qr_target r) \<noteq> []) (DomainValidationError ''target is required'')) (\<lambda>_.
     ebind (ensure (qr_alpn r = ''h3'')
             (DomainValidationError ''QUIC passthrough currently requires ALPN h3'')) (\<lambda>_.
     ebind (ensure (5 \<le> qr_idle_timeout_seconds r \<and> qr_idle_timeout_seconds r \<le> 86400)
             (DomainValidationError ''idle_timeout_seconds must be between 5 and 86400'')) (\<lambda>_.
       Inr (r\<lparr>qr_server_name := name\<rparr>)))))))"

text \<open>\<open>RuntimeRoute(id=..., **accepted)\<close>: the fields are read first, then the validator runs.\<close>

definition quic_route_of :: "int \<Rightarrow> payload \<Rightarrow> py_error + quic_route" where
  "quic_route_of i payload =
     ebind (optional_field field_str ''0.0.0.0'' ''listen_address'' payload) (\<lambda>address.
     ebind (optional_field field_int 443 ''incoming_port'' payload) (\<lambda>incoming.
     ebind (required_field field_str ''server_name'' payload) (\<lambda>name.
     ebind (optional_field field_str ''h3'' ''alpn'' payload) (\<lambda>alpn.
     ebind (optional_field (\<lambda>v. ebind (field_str v) target_kind_of) Target_Docker ''target_kind'' payload) (\<lambda>kind.
     ebind (required_field field_str ''target'' payload) (\<lambda>target.
     ebind (required_field field_int ''target_port'' payload) (\<lambda>port.
     ebind (optional_field field_int 1800 ''idle_timeout_seconds'' payload) (\<lambda>idle.
     ebind (optional_field field_bool True ''enabled'' payload) (\<lambda>enabled.
       validate_quic_route \<lparr>qr_id = i, qr_listen_address = address, qr_incoming_port = incoming,
         qr_server_name = name, qr_alpn = alpn, qr_target_kind = kind, qr_target = target,
         qr_target_port = port, qr_idle_timeout_seconds = idle, qr_enabled = enabled, qr_meta = []\<rparr>)))))))))"

section \<open>Projections\<close>

definition meta_of :: "payload \<Rightarrow> py_error + payload" where
  "meta_of metadata =
     (case py_or (pget ''meta'' (extensions_of metadata)) (PDict []) of
        PDict d \<Rightarrow> Inr d
      | _ \<Rightarrow> Inl (TypeError ''cannot convert to a dictionary''))"

definition quic_wire_projection :: "quic_row \<Rightarrow> py_error + payload" where
  "quic_wire_projection row =
     ebind (meta_of (qw_metadata row)) (\<lambda>meta.
       Inr [(''id'', PInt (qw_id row)), (''listen_address'', PStr (qw_listen_address row)),
         (''incoming_port'', PInt (qw_incoming_port row)), (''server_name'', PStr (qw_server_name row)),
         (''alpn'', PStr (qw_alpn row)), (''target_kind'', PStr (qw_target_kind row)),
         (''target'', PStr (qw_target row)), (''target_port'', PInt (qw_target_port row)),
         (''idle_timeout_seconds'', PInt (qw_idle_timeout_seconds row)), (''enabled'', PBool (qw_enabled row)),
         (''owner_principal_id'', case qw_owner_principal_id row of None \<Rightarrow> PNone | Some i \<Rightarrow> PInt i),
         (''meta'', PDict meta)])"

definition quic_runtime_projection :: "quic_row \<Rightarrow> py_error + quic_route" where
  "quic_runtime_projection row =
     ebind (meta_of (qw_metadata row)) (\<lambda>meta.
     ebind (target_kind_of (qw_target_kind row)) (\<lambda>kind.
       validate_quic_route \<lparr>qr_id = qw_id row, qr_listen_address = qw_listen_address row,
         qr_incoming_port = qw_incoming_port row, qr_server_name = qw_server_name row, qr_alpn = qw_alpn row,
         qr_target_kind = kind, qr_target = qw_target row, qr_target_port = qw_target_port row,
         qr_idle_timeout_seconds = qw_idle_timeout_seconds row, qr_enabled = qw_enabled row, qr_meta = meta\<rparr>))"

definition quic_runtime_list :: "quic_row list \<Rightarrow> py_error + quic_route list" where
  "quic_runtime_list rows = emap quic_runtime_projection rows"

section \<open>The hook before a write\<close>

text \<open>Whether another row owns the listener and the name; \<open>except\<close> is the id that may.\<close>

definition quic_taken :: "quic_row list \<Rightarrow> quic_route \<Rightarrow> int option \<Rightarrow> bool" where
  "quic_taken rows route except \<longleftrightarrow>
     (\<exists>row\<in>set rows. qw_listen_address row = qr_listen_address route \<and>
        qw_incoming_port row = qr_incoming_port route \<and> qw_server_name row = qr_server_name route \<and>
        except \<noteq> Some (qw_id row))"

definition quic_collision :: "quic_route \<Rightarrow> py_error" where
  "quic_collision route = CollisionError (''QUIC route already owns '' @ qr_server_name route @ '':'' @
     int_str (qr_incoming_port route) @ ''/udp'')"

definition payload_id :: "payload \<Rightarrow> py_error + int option" where
  "payload_id payload =
     (if pget ''id'' payload = PNone then Inr None
      else ebind (py_int (pget ''id'' payload)) (\<lambda>i. Inr (Some i)))"

definition quic_merge :: "string \<Rightarrow> payload \<Rightarrow> quic_row list \<Rightarrow> py_error + payload" where
  "quic_merge alias payload rows =
     (if casefold alias = ''update'' \<and> pget ''id'' payload \<noteq> PNone
      then ebind (py_int (pget ''id'' payload)) (\<lambda>i.
             case find (\<lambda>r. qw_id r = i) rows of
               None \<Rightarrow> Inr payload
             | Some row \<Rightarrow> ebind (quic_wire_projection row) (\<lambda>wire. Inr (dict_update wire payload)))
      else Inr payload)"

definition quic_prepare :: "string \<Rightarrow> payload \<Rightarrow> quic_row list \<Rightarrow> py_error + payload" where
  "quic_prepare alias given rows =
     ebind (quic_merge alias given rows) (\<lambda>payload.
     ebind (py_int (py_or (pget ''id'' payload) (PInt 0))) (\<lambda>i.
     ebind (quic_route_of i payload) (\<lambda>route.
     ebind (payload_id payload) (\<lambda>except.
     if quic_taken rows route except then Inl (quic_collision route)
     else Inr ([(''listen_address'', PStr (qr_listen_address route)),
         (''incoming_port'', PInt (qr_incoming_port route)), (''server_name'', PStr (qr_server_name route)),
         (''alpn'', PStr (qr_alpn route)), (''target_kind'', PStr (target_kind_value (qr_target_kind route))),
         (''target'', PStr (qr_target route)), (''target_port'', PInt (qr_target_port route)),
         (''idle_timeout_seconds'', PInt (qr_idle_timeout_seconds route)), (''enabled'', PBool (qr_enabled route)),
         (''owner_principal_id'', pget ''owner_principal_id'' payload),
         (''metadata_json'', py_or (pget ''metadata_json'' payload) (PDict (extension_metadata payload quic_known)))] @
         (case except of None \<Rightarrow> [] | Some i \<Rightarrow> [(''id'', PInt i)]))))))"

definition quic_validate :: "payload \<Rightarrow> quic_row list \<Rightarrow> py_error + payload" where
  "quic_validate payload rows =
     ebind (py_int (py_or (pget ''id'' payload) (PInt 0))) (\<lambda>i.
     ebind (quic_route_of i payload) (\<lambda>route.
     ebind (if truthy (pget ''id'' payload) then payload_id payload else Inr None) (\<lambda>except.
     if quic_taken rows route except then Inl (quic_collision route)
     else Inr [(''valid'', PBool True)])))"

section \<open>Laws\<close>

lemma port_of_PInt [simp]: "port_of (PInt i) name = Inr j \<longleftrightarrow> j = i \<and> 1 \<le> i \<and> i \<le> 65535"
  by (auto simp: port_of_def)

definition quic_route_ok :: "quic_route \<Rightarrow> bool" where
  "quic_route_ok r \<longleftrightarrow> domain_re (qr_server_name r) \<and> normal_domain (qr_server_name r) = qr_server_name r \<and>
     qr_incoming_port r \<in> {1..65535} \<and> qr_target_port r \<in> {1..65535} \<and> strip (qr_target r) \<noteq> [] \<and>
     qr_alpn r = ''h3'' \<and> qr_idle_timeout_seconds r \<in> {5..86400}"

lemma validate_quic_route_ok: "validate_quic_route r = Inr r' \<Longrightarrow> quic_route_ok r'"
  by (auto simp: validate_quic_route_def canonical_server_name_def quic_route_ok_def result_simps Let_def
      normal_domain_idem split: if_splits)

lemma validate_quic_route_fixed: "quic_route_ok r \<Longrightarrow> validate_quic_route r = Inr r"
  by (simp add: validate_quic_route_def canonical_server_name_def quic_route_ok_def result_simps Let_def port_of_def)

lemma validate_quic_route_iff: "validate_quic_route r = Inr r \<longleftrightarrow> quic_route_ok r"
  using validate_quic_route_ok validate_quic_route_fixed by blast

lemma quic_route_of_ok: "quic_route_of i payload = Inr r \<Longrightarrow> quic_route_ok r \<and> qr_id r = i \<and> qr_meta r = []"
  unfolding quic_route_of_def
  apply (elim ebind_InrE)
  apply (frule validate_quic_route_ok)
  apply (auto simp: validate_quic_route_def canonical_server_name_def result_simps Let_def split: if_splits)
  done

definition quic_values_route :: "quic_route \<Rightarrow> payload" where
  "quic_values_route route =
     [(''listen_address'', PStr (qr_listen_address route)),
      (''incoming_port'', PInt (qr_incoming_port route)), (''server_name'', PStr (qr_server_name route)),
      (''alpn'', PStr (qr_alpn route)), (''target_kind'', PStr (target_kind_value (qr_target_kind route))),
      (''target'', PStr (qr_target route)), (''target_port'', PInt (qr_target_port route)),
      (''idle_timeout_seconds'', PInt (qr_idle_timeout_seconds route)), (''enabled'', PBool (qr_enabled route))]"

lemma quic_route_of_values:
  assumes "quic_route_ok r" "qr_id r = i" "qr_meta r = []"
    and "\<forall>k\<in>dict_keys (quic_values_route r). dict_get d k = dict_get (quic_values_route r) k"
  shows "quic_route_of i d = Inr r"
proof -
  from assms(4) have "dict_get d ''listen_address'' = Some (PStr (qr_listen_address r))"
    "dict_get d ''incoming_port'' = Some (PInt (qr_incoming_port r))"
    "dict_get d ''server_name'' = Some (PStr (qr_server_name r))"
    "dict_get d ''alpn'' = Some (PStr (qr_alpn r))"
    "dict_get d ''target_kind'' = Some (PStr (target_kind_value (qr_target_kind r)))"
    "dict_get d ''target'' = Some (PStr (qr_target r))"
    "dict_get d ''target_port'' = Some (PInt (qr_target_port r))"
    "dict_get d ''idle_timeout_seconds'' = Some (PInt (qr_idle_timeout_seconds r))"
    "dict_get d ''enabled'' = Some (PBool (qr_enabled r))"
    by (simp_all add: quic_values_route_def)
  then have "quic_route_of i d = validate_quic_route r"
    using assms(2,3) by (cases r) (simp add: quic_route_of_def optional_field_def required_field_def)
  with assms(1) show ?thesis by (simp add: validate_quic_route_fixed)
qed

section \<open>Properties\<close>

text \<open>What the hook hands over for a QUIC route is a valid route in normal form, reading it again gives
  the same route, and no other row of the table has its listener and server name.\<close>

theorem quic_prepare_sound:
  assumes "quic_prepare alias payload rows = Inr row_values"
  shows "\<exists>i r. quic_route_of i row_values = Inr r \<and> quic_route_ok r \<and>
     validate_quic_route r = Inr r \<and>
     (\<forall>row\<in>set rows. qw_listen_address row = qr_listen_address r \<and> qw_incoming_port row = qr_incoming_port r \<and>
        qw_server_name row = qr_server_name r \<longrightarrow> dict_get row_values ''id'' = Some (PInt (qw_id row)))"
proof -
  from assms [unfolded quic_prepare_def] obtain merged i r except where
    r: "quic_route_of i merged = Inr r" and t: "\<not> quic_taken rows r except"
    and v: "row_values = quic_values_route r @ [(''owner_principal_id'', pget ''owner_principal_id'' merged),
         (''metadata_json'', py_or (pget ''metadata_json'' merged) (PDict (extension_metadata merged quic_known)))] @
         (case except of None \<Rightarrow> [] | Some i \<Rightarrow> [(''id'', PInt i)])"
    unfolding quic_values_route_def by (elim ebind_InrE) (auto split: if_splits)
  have ok: "quic_route_ok r" "qr_id r = i" "qr_meta r = []" using quic_route_of_ok [OF r] by auto
  have "quic_route_of i row_values = Inr r"
    using ok by (rule quic_route_of_values) (auto simp: v map_add_def quic_values_route_def)
  moreover have "dict_get row_values ''id'' = map_option PInt except"
    by (cases except) (simp_all add: v quic_values_route_def)
  ultimately show ?thesis using ok t
    by (intro exI [of _ i] exI [of _ r]) (auto simp: validate_quic_route_iff quic_taken_def)
qed

theorem quic_prepare_sound_witness:
  "\<exists>v i r. quic_prepare ''create'' [(''server_name'', PStr ''H3.Example.org.''), (''target'', PStr ''web''),
       (''target_port'', PInt 8443)] [] = Inr v \<and> quic_route_of i v = Inr r \<and> quic_route_ok r"
proof -
  have n: "canonical_server_name ''H3.Example.org.'' = Inr ''h3.example.org''" by code_simp
  have s: "strip ''web'' \<noteq> []" by code_simp
  have c: "casefold ''create'' = ''create''" by code_simp
  have "\<exists>v. quic_prepare ''create'' [(''server_name'', PStr ''H3.Example.org.''), (''target'', PStr ''web''),
       (''target_port'', PInt 8443)] [] = Inr v"
    by (simp add: quic_prepare_def quic_merge_def c pget_def dict_get_or_def py_or_def quic_route_of_def
        optional_field_def required_field_def validate_quic_route_def n s port_of_def payload_id_def quic_taken_def)
  then obtain v where v: "quic_prepare ''create'' [(''server_name'', PStr ''H3.Example.org.''), (''target'', PStr ''web''),
       (''target_port'', PInt 8443)] [] = Inr v" by blast
  from v quic_prepare_sound [OF v] show ?thesis by metis
qed

end
