(* ===== verification/Nginx_Render.thy ===== *)
theory Nginx_Render
  imports Routing_Model Access_Lists Quic_Passthrough
begin

text \<open>
  The Nginx compiler: \<open>runtime/nginx_models.py\<close>, \<open>nginx_primitives.py\<close>, \<open>nginx_http.py\<close>,
  \<open>nginx_stream.py\<close>, \<open>nginx_platform.py\<close>, \<open>nginx_quic.py\<close> and \<open>nginx.py\<close>. Every function that renders
  text is a function to the text, line by line as in the source; a complete configuration is a dictionary
  from relative file names to contents.
\<close>

section \<open>Inputs\<close>

record platform_config =
  pc_ipv6 :: bool
  pc_resolver_enabled :: bool
  pc_resolver_addresses :: "string list"
  pc_trusted_proxy_ranges :: "string list"
  pc_default_site :: string
  pc_default_redirect :: string
  pc_default_html :: string
  pc_custom_includes :: "(string, string) dict"

definition default_platform :: platform_config where
  "default_platform = \<lparr>pc_ipv6 = True, pc_resolver_enabled = True, pc_resolver_addresses = [''127.0.0.11''],
     pc_trusted_proxy_ranges = [], pc_default_site = ''444'', pc_default_redirect = [], pc_default_html = [],
     pc_custom_includes = []\<rparr>"

definition validate_platform :: "platform_config \<Rightarrow> py_error + platform_config" where
  "validate_platform p =
     (if pc_default_site p \<notin> set [''congratulations'', ''404'', ''444'', ''redirect'', ''html'']
      then Inl (ValueError ''unsupported default-site mode'')
      else if pc_default_site p = ''redirect'' \<and> pc_default_redirect p = []
      then Inl (ValueError ''default redirect mode requires a destination'')
      else if pc_default_site p = ''html'' \<and> pc_default_html p = []
      then Inl (ValueError ''default html mode requires HTML'')
      else ebind (emap (\<lambda>address. note_none (ValueError (str_repr address)) (canonical_network address))
                    (pc_trusted_proxy_ranges p)) (\<lambda>_. Inr p))"

section \<open>Fragments\<close>

definition text_of :: "string list \<Rightarrow> string" where
  "text_of ls = join newline ls @ newline"

definition spaces :: "nat \<Rightarrow> string" where
  "spaces n = replicate n CHR '' ''"

definition indented :: "nat \<Rightarrow> string \<Rightarrow> string" where
  "indented n s = join newline (map (\<lambda>l. if l = [] then [] else spaces n @ l) (split_lines s))"

definition block_exploits :: string where
  "block_exploits = ''  include conf.d/include/block-exploits.conf;'' @ newline"

definition listen_lines :: "string list \<Rightarrow> tls_settings \<Rightarrow> bool \<Rightarrow> string list" where
  "listen_lines domain_names ssl ipv6 =
     [''  listen 80;''] @
     (if ipv6 then [''  listen [::]:80;''] else []) @
     (let http2 = (if tls_http2 ssl then '' http2'' else []) in
      if tls_certificate_id ssl \<noteq> 0
      then [''  listen 443 ssl'' @ http2 @ '';''] @
           (if ipv6 then [''  listen [::]:443 ssl'' @ http2 @ '';''] else [])
      else []) @
     [''  server_name '' @ join '' '' domain_names @ '';'']"

definition ssl_lines :: "tls_settings \<Rightarrow> bool \<Rightarrow> string list" where
  "ssl_lines ssl stream =
     (if tls_certificate_id ssl = 0 then []
      else
        let cert_dir = ''/etc/letsencrypt/live/npm-'' @ int_str (tls_certificate_id ssl) in
        [''  ssl_certificate '' @ cert_dir @ ''/fullchain.pem;'',
         ''  ssl_certificate_key '' @ cert_dir @ ''/privkey.pem;'',
         if stream then ''  ssl_session_cache shared:SSL_stream:50m;''
         else ''  ssl_session_cache shared:SSL:50m;''] @
        (if \<not> stream \<and> tls_hsts ssl
         then [''  add_header Strict-Transport-Security '' @ dquote @ ''max-age=63072000'' @
               (if tls_hsts_subdomains ssl then ''; includeSubDomains'' else []) @ dquote @ '' always;'']
         else []))"

definition force_ssl_lines :: "tls_settings \<Rightarrow> string list" where
  "force_ssl_lines ssl =
     (if tls_certificate_id ssl = 0 \<or> \<not> tls_forced ssl then []
      else [''  if ('' @ (if tls_trust_forwarded_proto ssl then ''$http_x_forwarded_proto != https''
              else ''$scheme != https'') @ '') {'',
            ''    return 301 https://$host$request_uri;'', ''  }''])"

text \<open>\<open>password_file or access_list.id\<close>: an absent or empty name is replaced by the id.\<close>

definition password_name :: "string option \<Rightarrow> access_list \<Rightarrow> string" where
  "password_name password_file l =
     (case password_file of None \<Rightarrow> int_str (al_id l) | Some f \<Rightarrow> if f = [] then int_str (al_id l) else f)"

definition access_lines :: "access_list option \<Rightarrow> string option \<Rightarrow> string list" where
  "access_lines access password_file =
     (case access of
        None \<Rightarrow> []
      | Some l \<Rightarrow>
          (if al_credentials l \<noteq> []
           then [''auth_basic '' @ dquote @ ''Authorization required'' @ dquote @ '';'',
                 ''auth_basic_user_file /data/access/'' @ password_name password_file l @ '';''] @
                (if al_pass_auth l then [] else [''proxy_set_header Authorization '' @ dquote @ dquote @ '';''])
           else []) @
          (if al_clients l \<noteq> []
           then map (\<lambda>c. directive_value (client_directive c) @ '' '' @ client_address c @ '';'') (al_clients l) @
                [''deny all;'']
           else []) @
          (if al_credentials l \<noteq> [] \<or> al_clients l \<noteq> []
           then [if al_satisfy_any l then ''satisfy any;'' else ''satisfy all;'']
           else []))"

definition asset_cache_lines :: "string list" where
  "asset_cache_lines =
     [''location ~* ^.*'' @ backslash @ ''.(css|js|jpe?g|gif|png|webp|woff|woff2|eot|ttf|svg|ico|'' @
        ''css'' @ backslash @ ''.map|js'' @ backslash @ ''.map)$ {'',
      ''  if_modified_since off;'',
      ''  proxy_cache public-cache;'',
      ''  proxy_cache_key $host$request_uri;'',
      ''  proxy_ignore_headers Set-Cookie Cache-Control Expires X-Accel-Expires;'',
      ''  proxy_cache_valid any 30m;'',
      ''  proxy_cache_valid 404 1m;'',
      ''  proxy_hide_header Last-Modified;'',
      ''  proxy_hide_header Cache-Control;'',
      ''  proxy_hide_header Vary;'',
      ''  proxy_cache_bypass 0;'',
      ''  proxy_no_cache 0;'',
      ''  proxy_cache_use_stale error timeout updating http_500 http_502 http_503 http_504 http_404;'',
      ''  proxy_connect_timeout 5s;'',
      ''  proxy_read_timeout 45s;'',
      ''  expires 30m;'',
      ''  access_log off;'',
      ''  include conf.d/include/proxy.conf;'',
      ''}'']"

definition acme_challenge_location :: "string list" where
  "acme_challenge_location =
     [''  location ^~ /.well-known/acme-challenge/ {'', ''    root /data/acme-challenge;'',
      ''    try_files $uri =404;'', ''  }'']"

definition has_root_location :: "string \<Rightarrow> bool" where
  "has_root_location config \<longleftrightarrow>
     contains ''location / {'' (join '' '' (words_of (replace_char CHR 0x0A '' '' config)))"

definition render_htpasswd :: "access_list \<Rightarrow> string" where
  "render_htpasswd l =
     concat (map (\<lambda>c. cred_username c @ '':'' @ cred_password_hash c @ newline) (al_credentials l))"

section \<open>Merging access lists\<close>

definition merge_credential ::
  "access_credential \<Rightarrow> (string, access_credential) dict \<Rightarrow> py_error + (string, access_credential) dict" where
  "merge_credential c d =
     (case dict_get d (cred_username c) of
        Some e \<Rightarrow>
          if cred_password_hash e \<noteq> cred_password_hash c
          then Inl (ValueError (''conflicting credentials for '' @ str_repr (cred_username c) @
                 '' in selected access lists''))
          else Inr (dict_set (cred_username c) c d)
      | None \<Rightarrow> Inr (dict_set (cred_username c) c d))"

definition merge_client ::
  "access_client \<Rightarrow> (string \<times> string, access_client) dict \<Rightarrow> (string \<times> string, access_client) dict" where
  "merge_client c = dict_set (directive_value (client_directive c), client_address c) c"

definition merge_step :: "access_list \<Rightarrow>
    (string, access_credential) dict \<times> (string \<times> string, access_client) dict \<Rightarrow>
    py_error + (string, access_credential) dict \<times> (string \<times> string, access_client) dict" where
  "merge_step l = (\<lambda>(credentials, clients).
     ebind (efold merge_credential (al_credentials l) credentials) (\<lambda>credentials.
       Inr (credentials, fold merge_client (al_clients l) clients)))"

text \<open>\<open>[d[key] for key in sorted(d)]\<close>.\<close>

definition sorted_values :: "('k :: linorder, 'v) dict \<Rightarrow> 'v list" where
  "sorted_values d = map snd (sort_key fst d)"

definition merge_access_lists :: "access_list list \<Rightarrow> py_error + access_list option" where
  "merge_access_lists access_lists =
     (if access_lists = [] then Inr None
      else
        let ordered = sort_key al_id access_lists in
        ebind (efold merge_step ordered ([], [])) (\<lambda>(credentials, clients).
        ebind (validate_access_list
            \<lparr>al_id = al_id (hd ordered), al_name = join '' + '' (map al_name ordered),
             al_credentials = sorted_values credentials, al_clients = sorted_values clients,
             al_satisfy_any = (\<forall>l\<in>set ordered. al_satisfy_any l),
             al_pass_auth = (\<forall>l\<in>set ordered. al_pass_auth l), al_meta = []\<rparr>) (\<lambda>merged.
          Inr (Some merged))))"

section \<open>HTTP hosts\<close>

text \<open>An f-string shows an absent value as \<open>None\<close>.\<close>

definition show_text :: "string option \<Rightarrow> string" where
  "show_text x = (case x of None \<Rightarrow> ''None'' | Some s \<Rightarrow> s)"

definition show_port :: "int option \<Rightarrow> string" where
  "show_port x = (case x of None \<Rightarrow> ''None'' | Some i \<Rightarrow> int_str i)"

definition websocket_lines :: "string list" where
  "websocket_lines =
     [''    proxy_set_header Upgrade $http_upgrade;'', ''    proxy_set_header Connection $http_connection;'',
      ''    proxy_http_version 1.1;'']"

definition render_default_proxy_location :: "runtime_host \<Rightarrow> access_list option \<Rightarrow> string option \<Rightarrow> string list" where
  "render_default_proxy_location host access password_file =
     [''  location / {''] @ map (\<lambda>l. ''    '' @ l) (access_lines access password_file) @
     (if rh_allow_websocket_upgrade host then websocket_lines else []) @
     [''    include conf.d/include/proxy.conf;'', ''  }'']"

definition render_location ::
  "proxy_location \<Rightarrow> runtime_host \<Rightarrow> access_list option \<Rightarrow> string option \<Rightarrow> string list" where
  "render_location loc host access password_file =
     [''  location '' @ loc_path loc @ '' {''] @
     (if loc_advanced_config loc \<noteq> [] then [indented 4 (rstrip (loc_advanced_config loc))] else []) @
     [''    proxy_set_header Host $host;'',
      ''    proxy_set_header X-Forwarded-Scheme $scheme;'',
      ''    proxy_set_header X-Forwarded-Proto $scheme;'',
      ''    proxy_set_header X-Forwarded-For $remote_addr;'',
      ''    proxy_set_header X-Real-IP $remote_addr;'',
      ''    proxy_pass '' @ forward_scheme_value (loc_forward_scheme loc) @ ''://'' @ loc_forward_host loc @ '':'' @
        int_str (loc_forward_port loc) @ loc_forward_path loc @ '';''] @
     map (\<lambda>l. ''    '' @ l) (access_lines access password_file) @
     (if rh_allow_websocket_upgrade host then websocket_lines else []) @
     [''  }'']"

definition log_lines :: "string \<Rightarrow> int \<Rightarrow> string list" where
  "log_lines family i =
     [''  access_log /data/logs/'' @ family @ ''-'' @ int_str i @ ''_access.log proxy;'',
      ''  error_log /data/logs/'' @ family @ ''-'' @ int_str i @ ''_error.log warn;'']"

definition render_disabled_host :: "platform_config \<Rightarrow> runtime_host \<Rightarrow> string \<Rightarrow> py_error + string" where
  "render_disabled_host platform host family =
     ebind (tls_normalized (rh_ssl host)) (\<lambda>ssl.
       Inr (text_of ([''server {''] @ listen_lines (rh_domain_names host) ssl (pc_ipv6 platform) @
         ssl_lines ssl False @ log_lines family (rh_id host) @ [''  return 503;'', ''}''])))"

text \<open>The lines that the three kinds of host have in common, before and after their own.\<close>

definition server_head :: "platform_config \<Rightarrow> runtime_host \<Rightarrow> tls_settings \<Rightarrow> string list" where
  "server_head platform host ssl =
     [''server {''] @ listen_lines (rh_domain_names host) ssl (pc_ipv6 platform) @
     ssl_lines ssl False @ force_ssl_lines ssl @ acme_challenge_location"

definition optional_lines :: "runtime_host \<Rightarrow> string list" where
  "optional_lines host =
     (if rh_block_exploits host then [rstrip block_exploits] else []) @
     (if rh_advanced_config host \<noteq> [] then [indented 2 (rstrip (rh_advanced_config host))] else [])"

definition render_proxy ::
  "platform_config \<Rightarrow> runtime_host \<Rightarrow> access_list option \<Rightarrow> string option \<Rightarrow> py_error + string" where
  "render_proxy platform host access password_file =
     (if \<not> rh_enabled host then render_disabled_host platform host ''proxy-host''
      else
        ebind (tls_normalized (rh_ssl host)) (\<lambda>ssl.
          Inr (text_of (server_head platform host ssl @
            [''  set $forward_scheme '' @ rh_forward_scheme host @ '';'',
             ''  set $server '' @ dquote @ show_text (rh_forward_host host) @ dquote @ '';'',
             ''  set $port '' @ show_port (rh_forward_port host) @ '';''] @
            log_lines ''proxy-host'' (rh_id host) @
            optional_lines host @
            (if rh_caching_enabled host then map (indented 2) asset_cache_lines else []) @
            concat (map (\<lambda>l. render_location l host access password_file)
              (sort_key loc_path (rh_locations host))) @
            (if \<not> (\<exists>l\<in>set (rh_locations host). loc_path l = ''/'') \<and>
                \<not> has_root_location (rh_advanced_config host)
             then render_default_proxy_location host access password_file else []) @
            [''  include custom/server_proxy.conf;'', ''}'']))))"

definition render_redirection :: "platform_config \<Rightarrow> runtime_host \<Rightarrow> py_error + string" where
  "render_redirection platform host =
     (if \<not> rh_enabled host then render_disabled_host platform host ''redirection-host''
      else
        ebind (tls_normalized (rh_ssl host)) (\<lambda>ssl.
          let scheme = (if rh_forward_scheme host = ''auto'' then ''$scheme'' else rh_forward_scheme host);
              suffix = (if rh_preserve_path host then ''$request_uri'' else []) in
          Inr (text_of (server_head platform host ssl @ optional_lines host @
            (if \<not> has_root_location (rh_advanced_config host)
             then [''  location / {'',
                   ''    return '' @ int_str (rh_forward_http_code host) @ '' '' @ scheme @ ''://'' @
                     show_text (rh_forward_domain_name host) @ suffix @ '';'',
                   ''  }'']
             else []) @
            [''  include custom/server_redirect.conf;'', ''}'']))))"

definition render_dead :: "platform_config \<Rightarrow> runtime_host \<Rightarrow> py_error + string" where
  "render_dead platform host =
     (if \<not> rh_enabled host then render_disabled_host platform host ''dead-host''
      else
        ebind (tls_normalized (rh_ssl host)) (\<lambda>ssl.
          Inr (text_of (server_head platform host ssl @ optional_lines host @
            (if \<not> has_root_location (rh_advanced_config host) then [''  location / { return 404; }''] else []) @
            [''  include custom/server_dead.conf;'', ''}'']))))"

section \<open>Streams\<close>

definition stream_block :: "platform_config \<Rightarrow> runtime_stream \<Rightarrow> string \<Rightarrow> string list \<Rightarrow> string \<Rightarrow> string" where
  "stream_block platform s suffix tls transport =
     join newline ([''server {'', ''  listen '' @ int_str (st_incoming_port s) @ suffix @ '';''] @
       (if pc_ipv6 platform then [''  listen [::]:'' @ int_str (st_incoming_port s) @ suffix @ '';''] else []) @
       tls @
       [''  proxy_pass '' @ st_forwarding_host s @ '':'' @ int_str (st_forwarding_port s) @ '';'',
        ''  access_log /data/logs/stream-'' @ int_str (st_id s) @ ''_access.log stream;'',
        ''  error_log /data/logs/stream-'' @ int_str (st_id s) @ ''_error.log warn;'',
        ''  include custom/server_stream.conf;'',
        ''  include custom/server_stream_'' @ transport @ ''.conf;'', ''}''])"

definition render_stream :: "platform_config \<Rightarrow> runtime_stream \<Rightarrow> string" where
  "render_stream platform s =
     (if \<not> st_enabled s then ''# stream '' @ int_str (st_id s) @ '' disabled'' @ newline
      else
        join (newline @ newline)
          ((if tcp_forwarding s
            then [stream_block platform s (if st_certificate_id s \<noteq> 0 then '' ssl'' else [])
                    (if st_certificate_id s \<noteq> 0
                     then ssl_lines (default_tls\<lparr>tls_certificate_id := st_certificate_id s\<rparr>) True else [])
                    ''tcp'']
            else []) @
           (if udp_forwarding s then [stream_block platform s '' udp'' [] ''udp''] else [])) @ newline)"

section \<open>Platform files\<close>

definition render_main :: "platform_config \<Rightarrow> string" where
  "render_main platform = text_of (
     [''# Generated by Portwyrm'',
      ''load_module /usr/lib/nginx/modules/ngx_stream_module.so;'',
      ''worker_processes auto;'',
      ''pid /tmp/nginx.pid;'',
      ''error_log /dev/stderr info;'',
      ''include custom/root_top.conf;'',
      ''events { worker_connections 1024; include custom/events.conf; }'',
      ''http {'',
      ''  include /etc/nginx/mime.types;'',
      ''  default_type application/octet-stream;'',
      ''  log_format proxy '$remote_addr - $host [$time_local] $request $status $body_bytes_sent';'',
      ''  include custom/http_top.conf;'',
      ''  proxy_cache_path /var/lib/nginx/cache/public levels=1:2 keys_zone=public-cache:30m max_size=192m;''] @
     (if pc_resolver_enabled platform
      then [''  resolver '' @ join '' '' (pc_resolver_addresses platform) @ '' valid=30s;''] else []) @
     [''  include include/trusted-proxies.conf;'',
      ''  include http/*.conf;'',
      ''  include custom/http.conf;'',
      ''}'',
      ''stream { log_format stream '$remote_addr [$time_local] $protocol $status'; include stream/*.conf; include custom/stream.conf; }'',
      ''include custom/root.conf;''])"

definition render_status_site :: string where
  "render_status_site = text_of
     [''# Loopback-only operational telemetry for the Portwyrm control plane'',
      ''server {'',
      ''  listen 127.0.0.1:8081;'',
      ''  server_name _;'',
      ''  access_log off;'',
      ''  location = /nginx-status {'',
      ''    stub_status;'',
      ''    allow 127.0.0.1;'',
      ''    deny all;'',
      ''  }'',
      ''}'']"

definition render_proxy_include :: string where
  "render_proxy_include = text_of
     [''proxy_set_header Host $host;'',
      ''proxy_set_header X-Real-IP $remote_addr;'',
      ''proxy_set_header X-Forwarded-For $proxy_add_x_forwarded_for;'',
      ''proxy_set_header X-Forwarded-Proto $scheme;'',
      ''proxy_pass $forward_scheme://$server:$port;'']"

definition render_block_exploits :: string where
  "render_block_exploits = ''location ~* /(?:'' @ backslash @ ''.git|'' @ backslash @ ''.env|wp-config'' @
     backslash @ ''.php) { deny all; }'' @ newline"

definition render_trusted_proxies :: "platform_config \<Rightarrow> string" where
  "render_trusted_proxies platform = text_of
     ([''# Trusted reverse-proxy ranges''] @
      map (\<lambda>address. ''set_real_ip_from '' @ address @ '';'') (sort (pc_trusted_proxy_ranges platform)) @
      (if pc_trusted_proxy_ranges platform \<noteq> []
       then [''real_ip_header X-Forwarded-For;'', ''real_ip_recursive on;''] else []))"

definition default_site_body :: "platform_config \<Rightarrow> string" where
  "default_site_body platform =
     (let mode = pc_default_site platform in
      if mode = ''congratulations''
      then ''default_type text/plain;'' @ newline @ ''    return 200 '' @ dquote @
        ''Congratulations! Portwyrm is running.'' @ backslash @ ''n'' @ dquote @ '';''
      else if mode = ''404'' \<or> mode = ''444'' then ''return '' @ mode @ '';''
      else if mode = ''redirect'' then ''return 301 '' @ pc_default_redirect platform @ '';''
      else ''root /data/nginx/default_www;'' @ newline @ ''    try_files $uri /index.html;'')"

definition render_default_site :: "platform_config \<Rightarrow> string" where
  "render_default_site platform = text_of (
     [''server {'', ''  listen 80 default_server;'', ''  listen 443 ssl default_server;''] @
     (if pc_ipv6 platform
      then [''  listen [::]:80 default_server;'', ''  listen [::]:443 ssl default_server;''] else []) @
     [''  server_name _;'',
      ''  ssl_reject_handshake on;'',
      ''  location ^~ /.well-known/acme-challenge/ {'',
      ''    root /data/acme-challenge;'',
      ''    try_files $uri =404;'',
      ''  }'',
      ''  location / {'',
      ''    '' @ default_site_body platform,
      ''  }'',
      ''}''])"

section \<open>QUIC routes\<close>

definition add_group :: "quic_route \<Rightarrow> (string \<times> int, quic_route list) dict \<Rightarrow> (string \<times> int, quic_route list) dict" where
  "add_group r d = (let key = (qr_listen_address r, qr_incoming_port r) in dict_set key (dict_get_or d key [] @ [r]) d)"

text \<open>The keys of the items are distinct, so sorting the items is sorting them by key.\<close>

definition quic_groups :: "quic_route list \<Rightarrow> ((string \<times> int) \<times> quic_route list) list" where
  "quic_groups routes = sort_key fst (fold add_group routes [])"

definition quic_route_entry :: "quic_route \<Rightarrow> pyval" where
  "quic_route_entry r = PDict
     [(''server_name'', PStr (qr_server_name r)), (''alpn'', PStr (qr_alpn r)), (''target'', PStr (qr_target r)),
      (''target_port'', PInt (qr_target_port r)), (''idle_timeout_seconds'', PInt (qr_idle_timeout_seconds r))]"

definition quic_document :: "quic_route list \<Rightarrow> pyval" where
  "quic_document routes = PDict
     [(''version'', PInt 1),
      (''listeners'', PList (map (\<lambda>((address, port), group). PDict
         [(''listen_address'', PStr address), (''incoming_port'', PInt port),
          (''routes'', PList (map quic_route_entry (sort_key qr_server_name group)))])
        (quic_groups (filter qr_enabled routes))))]"

text \<open>\<open>json.dumps(document, sort_keys=True, separators=(",", ":"))\<close>; text is escaped as \<open>ensure_ascii\<close> asks.\<close>

definition json_char :: "char \<Rightarrow> string" where
  "json_char c =
     (if c = CHR 0x22 \<or> c = CHR 0x5C then [CHR 0x5C, c]
      else if char_nat c = 8 then backslash @ ''b''
      else if char_nat c = 9 then backslash @ ''t''
      else if char_nat c = 10 then backslash @ ''n''
      else if char_nat c = 12 then backslash @ ''f''
      else if char_nat c = 13 then backslash @ ''r''
      else if char_nat c < 32 \<or> 126 < char_nat c then backslash @ ''u'' @ hex_digits 4 (char_nat c)
      else [c])"

definition json_str :: "string \<Rightarrow> string" where
  "json_str s = dquote @ concat (map json_char s) @ dquote"

fun json_dumps :: "pyval \<Rightarrow> string" where
  "json_dumps PNone = ''null''"
| "json_dumps (PBool b) = (if b then ''true'' else ''false'')"
| "json_dumps (PInt i) = int_str i"
| "json_dumps (PStr s) = json_str s"
| "json_dumps (PList xs) = ''['' @ join '','' (map json_dumps xs) @ '']''"
| "json_dumps (PDict d) =
     ''{'' @ join '','' (map snd (sort_key fst (map (\<lambda>(k, v). (k, json_str k @ '':'' @ json_dumps v)) d))) @ ''}''"

definition render_quic_routes :: "quic_route list \<Rightarrow> string" where
  "render_quic_routes routes = json_dumps (quic_document routes) @ newline"

section \<open>The complete configuration\<close>

definition custom_include_names :: "string list" where
  "custom_include_names = [''root_top'', ''root'', ''http_top'', ''http'', ''events'', ''stream'', ''server_proxy'',
     ''server_redirect'', ''server_stream'', ''server_stream_tcp'', ''server_stream_udp'', ''server_dead'']"

definition conf_name :: "string \<Rightarrow> string \<Rightarrow> string" where
  "conf_name prefix name = prefix @ name @ ''.conf''"

definition base_files :: "platform_config \<Rightarrow> quic_route list \<Rightarrow> (string, string) dict" where
  "base_files platform quic_hosts =
     [(''nginx.conf'', render_main platform), (''http/default.conf'', render_default_site platform),
      (''http/status.conf'', render_status_site), (''include/trusted-proxies.conf'', render_trusted_proxies platform),
      (''conf.d/include/proxy.conf'', render_proxy_include),
      (''conf.d/include/block-exploits.conf'', render_block_exploits),
      (''quic/routes.json'', render_quic_routes quic_hosts)] @
     map (\<lambda>name. (conf_name ''custom/'' name, [])) custom_include_names"

definition selected_ids :: "runtime_host \<Rightarrow> int list" where
  "selected_ids host =
     (if rh_access_list_ids host \<noteq> [] then rh_access_list_ids host
      else if rh_access_list_id host \<noteq> 0 then [rh_access_list_id host] else [])"

definition selected_lists :: "(int, access_list) dict \<Rightarrow> runtime_host \<Rightarrow> access_list list" where
  "selected_lists access_by_id host =
     map (\<lambda>i. the (dict_get access_by_id i)) (filter (\<lambda>i. i \<in> dict_keys access_by_id) (selected_ids host))"

definition password_file_of :: "runtime_host \<Rightarrow> access_list list \<Rightarrow> string option" where
  "password_file_of host selected =
     (if 1 < length selected then Some (''proxy-host-'' @ int_str (rh_id host)) else None)"

definition render_proxy_files ::
  "platform_config \<Rightarrow> (int, access_list) dict \<Rightarrow> runtime_host \<Rightarrow> (string, string) dict \<Rightarrow>
     py_error + (string, string) dict" where
  "render_proxy_files platform access_by_id host files =
     (let selected = selected_lists access_by_id host in
      ebind (merge_access_lists selected) (\<lambda>effective.
      let password_file = password_file_of host selected;
          files = (case (password_file, effective) of
             (Some p, Some l) \<Rightarrow> dict_set (''access/'' @ p) (render_htpasswd l) files
           | _ \<Rightarrow> files) in
      ebind (render_proxy platform host effective password_file) (\<lambda>contents.
        Inr (dict_set (conf_name ''http/proxy-'' (int_str (rh_id host))) contents files))))"

definition render_host_file ::
  "string \<Rightarrow> (runtime_host \<Rightarrow> py_error + string) \<Rightarrow> runtime_host \<Rightarrow> (string, string) dict \<Rightarrow>
     py_error + (string, string) dict" where
  "render_host_file prefix f host files =
     ebind (f host) (\<lambda>contents. Inr (dict_set (conf_name prefix (int_str (rh_id host))) contents files))"

definition custom_include :: "string \<times> string \<Rightarrow> (string, string) dict \<Rightarrow> py_error + (string, string) dict" where
  "custom_include = (\<lambda>(name, contents) files.
     if name \<notin> set custom_include_names then Inl (ValueError (''unsupported custom include point: '' @ name))
     else Inr (dict_set (conf_name ''custom/'' name) (rstrip contents @ newline) files))"

definition render :: "platform_config \<Rightarrow> runtime_host list \<Rightarrow> runtime_host list \<Rightarrow> runtime_host list \<Rightarrow>
    runtime_stream list \<Rightarrow> quic_route list \<Rightarrow> access_list list \<Rightarrow> py_error + (string, string) dict" where
  "render platform proxy_hosts redirection_hosts dead_hosts streams quic_hosts access_lists =
     (let access_by_id = fold (\<lambda>l. dict_set (al_id l) l) access_lists [];
          files = base_files platform quic_hosts;
          files = (if pc_default_site platform = ''html''
                   then dict_set ''default_www/index.html'' (pc_default_html platform) files else files);
          files = fold (\<lambda>l. dict_set (''access/'' @ int_str (al_id l)) (render_htpasswd l))
                    (sort_key al_id access_lists) files
      in
      ebind (efold (render_proxy_files platform access_by_id) (sort_key rh_id proxy_hosts) files) (\<lambda>files.
      ebind (efold (render_host_file ''http/redirection-'' (render_redirection platform))
               (sort_key rh_id redirection_hosts) files) (\<lambda>files.
      ebind (efold (render_host_file ''http/dead-'' (render_dead platform)) (sort_key rh_id dead_hosts) files) (\<lambda>files.
      let files = fold (\<lambda>s. dict_set (conf_name ''stream/stream-'' (int_str (st_id s))) (render_stream platform s))
                    (sort_key st_id streams) files in
        efold custom_include (sort_key fst (pc_custom_includes platform)) files))))"

text \<open>The digest: a hash, given by \<open>sha256\<close>, of the names and contents in the order of the names.\<close>

definition digest_input :: "(string, string) dict \<Rightarrow> string" where
  "digest_input files = concat (map (\<lambda>(name, contents). name @ [CHR 0x00] @ contents @ [CHR 0x00]) (sort_key fst files))"

definition digest :: "(string \<Rightarrow> string) \<Rightarrow> (string, string) dict \<Rightarrow> string" where
  "digest sha256 files = sha256 (digest_input files)"

section \<open>Merging\<close>

lemma strip_Nil_iff: "strip s = [] \<longleftrightarrow> (\<forall>c\<in>set s. is_space c)"
proof
  assume "strip s = []"
  then have "\<forall>c\<in>set (dropWhile is_space s). is_space c"
    unfolding strip_def strip_by_def lstrip_by_def by (metis rstrip_by_prefix append_Nil)
  then have "dropWhile is_space s = []" by (metis hd_dropWhile hd_in_set)
  then show "\<forall>c\<in>set s. is_space c" by (simp add: dropWhile_eq_Nil_conv)
next
  assume "\<forall>c\<in>set s. is_space c"
  then show "strip s = []"
    by (simp add: strip_def strip_by_def lstrip_by_def rstrip_by_def dropWhile_eq_Nil_conv)
      (metis set_dropWhileD)
qed

lemma set_join: "ws \<noteq> [] \<Longrightarrow> set (hd ws) \<subseteq> set (join sep ws)"
  by (induction sep ws rule: join.induct) auto

lemma directive_value_inj [simp]: "directive_value a = directive_value b \<longleftrightarrow> a = b"
  by (cases a; cases b) simp_all

definition entries :: "('k, 'v) dict \<Rightarrow> 'v set" where
  "entries d = snd ` set d"

definition keyed :: "('v \<Rightarrow> 'k) \<Rightarrow> ('k, 'v) dict \<Rightarrow> bool" where
  "keyed f d \<longleftrightarrow> dict_ok d \<and> (\<forall>(k, v)\<in>set d. k = f v)"

lemma keyed_Nil [simp]: "keyed f []" "entries [] = {}"
  by (simp_all add: keyed_def entries_def)

lemma keyed_get: "keyed f d \<Longrightarrow> dict_get d k = Some v \<longleftrightarrow> v \<in> entries d \<and> k = f v"
  by (force simp: keyed_def dict_get_in_set entries_def)

lemma dict_eq_entries: "dict_ok d \<Longrightarrow> entries d = {v. \<exists>k. dict_get d k = Some v}"
  by (force simp: dict_get_in_set entries_def)

lemma keyed_set: "keyed f d \<Longrightarrow> keyed f (dict_set (f v) v d)"
proof -
  assume k: "keyed f d"
  have "k' = f w" if "(k', w) \<in> set (dict_set (f v) v d)" for k' w
  proof -
    have "dict_ok (dict_set (f v) v d)" using k by (simp add: keyed_def)
    from that dict_get_in_set [OF this] have "dict_get (dict_set (f v) v d) k' = Some w" by blast
    then show ?thesis using keyed_get [OF k] by (auto split: if_splits)
  qed
  with k show ?thesis by (auto simp: keyed_def)
qed

lemma keyed_set_entries:
  assumes "keyed f d" "\<And>w. w \<in> entries d \<Longrightarrow> f w = f v \<Longrightarrow> w = v"
  shows "entries (dict_set (f v) v d) = insert v (entries d)"
proof -
  have ok: "dict_ok d" "dict_ok (dict_set (f v) v d)" using assms(1) by (auto simp: keyed_def)
  show ?thesis
  proof (intro set_eqI iffI)
    fix x assume "x \<in> entries (dict_set (f v) v d)"
    then show "x \<in> insert v (entries d)"
      unfolding dict_eq_entries [OF ok(2)] by (auto simp: keyed_get [OF assms(1)] split: if_splits)
  next
    fix x assume x: "x \<in> insert v (entries d)"
    then have "dict_get (dict_set (f v) v d) (f x) = Some x"
      using assms(2) [of x] by (auto simp: keyed_get [OF assms(1)])
    then show "x \<in> entries (dict_set (f v) v d)" unfolding dict_eq_entries [OF ok(2)] by blast
  qed
qed

lemma keyed_inj: "keyed f d \<Longrightarrow> inj_on f (entries d)"
  unfolding inj_on_def by (metis keyed_get option.inject)

lemma sorted_values_keyed:
  assumes "keyed f d"
  shows "set (sorted_values d) = entries d \<and> sorted (map f (sorted_values d)) \<and> distinct (map f (sorted_values d))"
proof -
  have k: "map f (sorted_values d) = map fst (sort_key fst d)"
    using assms by (auto simp: sorted_values_def keyed_def)
  have "distinct (map fst (sort_key fst d))"
    using assms by (simp add: keyed_def dict_ok_def distinct_map)
  then show ?thesis unfolding k by (simp add: sorted_values_def entries_def)
qed

lemma merge_step_all:
  "efold merge_step ls (cs, cl) =
     ebind (efold merge_credential (concat (map al_credentials ls)) cs)
       (\<lambda>cs'. Inr (cs', fold merge_client (concat (map al_clients ls)) cl))"
proof (induction ls arbitrary: cs cl)
  case (Cons l ls)
  show ?case
    by (cases "efold merge_credential (al_credentials l) cs") (simp_all add: Cons.IH efold_append, simp_all add: merge_step_def Cons.IH)
qed simp

lemma merge_clients:
  "keyed (\<lambda>c. (directive_value (client_directive c), client_address c)) d \<Longrightarrow>
     keyed (\<lambda>c. (directive_value (client_directive c), client_address c)) (fold merge_client cl d) \<and>
     entries (fold merge_client cl d) = entries d \<union> set cl"
proof (induction cl arbitrary: d)
  case (Cons c cl)
  let ?f = "\<lambda>c. (directive_value (client_directive c), client_address c)"
  have "keyed ?f (merge_client c d)"
    unfolding merge_client_def using keyed_set [OF Cons.prems, of c] by simp
  moreover have "entries (merge_client c d) = insert c (entries d)"
    unfolding merge_client_def using keyed_set_entries [OF Cons.prems, of c] by simp
  ultimately show ?case using Cons.IH by auto
qed simp

lemma merge_credentials:
  assumes "keyed cred_username d"
  shows "(\<forall>d'. efold merge_credential cs d = Inr d' \<longrightarrow>
            keyed cred_username d' \<and> entries d' = entries d \<union> set cs) \<and>
         ((\<exists>d'. efold merge_credential cs d = Inr d') \<longleftrightarrow> inj_on cred_username (entries d \<union> set cs))"
  using assms
proof (induction cs arbitrary: d)
  case Nil
  then show ?case by (simp add: keyed_inj)
next
  case (Cons c cs)
  show ?case
  proof (cases "\<exists>w\<in>entries d. cred_username w = cred_username c \<and> w \<noteq> c")
    case True
    then obtain w where w: "w \<in> entries d" "cred_username w = cred_username c" "w \<noteq> c" by blast
    then have "dict_get d (cred_username c) = Some w" using keyed_get [OF Cons.prems] by simp
    moreover have "cred_password_hash w \<noteq> cred_password_hash c" using w by (cases w; cases c) simp
    moreover have "\<not> inj_on cred_username (entries d \<union> set (c # cs))" using w by (auto simp: inj_on_def)
    ultimately show ?thesis by (simp add: merge_credential_def)
  next
    case False
    have e: "entries (dict_set (cred_username c) c d) = insert c (entries d)"
      by (rule keyed_set_entries [OF Cons.prems]) (use False in blast)
    have "merge_credential c d = Inr (dict_set (cred_username c) c d)"
      using False keyed_get [OF Cons.prems, of "cred_username c"]
      by (auto simp: merge_credential_def split: option.split)
    then show ?thesis
      using Cons.IH [OF keyed_set [OF Cons.prems, of c]] by (simp add: e)
  qed
qed

definition client_key :: "access_client \<Rightarrow> string \<times> string" where
  "client_key c = (directive_value (client_directive c), client_address c)"

lemma merge_access_lists_Some:
  assumes "merge_access_lists ls = Inr m" "ls \<noteq> []"
  obtains l d e where "m = Some l" "efold merge_credential (concat (map al_credentials (sort_key al_id ls))) [] = Inr d"
    "e = fold merge_client (concat (map al_clients (sort_key al_id ls))) []"
    "al_credentials l = sorted_values d" "al_clients l = sorted_values e"
    "al_satisfy_any l = (\<forall>l\<in>set ls. al_satisfy_any l)" "al_pass_auth l = (\<forall>l\<in>set ls. al_pass_auth l)"
    "al_id l = al_id (hd (sort_key al_id ls))"
  using assms that
  by (auto simp: merge_access_lists_def Let_def merge_step_all result_simps ebind_Inr_pair validate_access_list_def
      split: if_splits)

lemma merge_access_lists_succeeds:
  assumes "ls \<noteq> []" "\<forall>l\<in>set ls. 0 < al_id l \<and> strip (al_name l) \<noteq> []"
  shows "(\<exists>m. merge_access_lists ls = Inr m) \<longleftrightarrow>
    (\<exists>d. efold merge_credential (concat (map al_credentials (sort_key al_id ls))) [] = Inr d)"
proof -
  let ?o = "sort_key al_id ls"
  have o: "?o \<noteq> []" using assms(1) by (metis length_0_conv length_sort)
  then have h: "hd ?o \<in> set ls" by (metis hd_in_set set_sort)
  with assms(2) have "0 < al_id (hd ?o)" "strip (al_name (hd ?o)) \<noteq> []" by auto
  moreover from this(2) have "strip (join '' + '' (map al_name ?o)) \<noteq> []"
    using set_join [of "map al_name ?o" "'' + ''"] o by (auto simp: strip_Nil_iff hd_map subset_iff)
  ultimately show ?thesis
    using assms(1)
    by (auto simp: merge_access_lists_def Let_def merge_step_all result_simps ebind_Inr_pair validate_access_list_def
      split: if_splits)
qed

lemma merge_access_lists_content:
  assumes "merge_access_lists ls = Inr m" "ls \<noteq> []"
  obtains l where "m = Some l" "set (al_credentials l) = (\<Union>l\<in>set ls. set (al_credentials l))"
    "distinct (map cred_username (al_credentials l))" "sorted (map cred_username (al_credentials l))"
    "set (al_clients l) = (\<Union>l\<in>set ls. set (al_clients l))"
    "distinct (map client_key (al_clients l))" "sorted (map client_key (al_clients l))"
    "al_satisfy_any l = (\<forall>l\<in>set ls. al_satisfy_any l)" "al_pass_auth l = (\<forall>l\<in>set ls. al_pass_auth l)"
    "al_id l = al_id (hd (sort_key al_id ls))"
proof -
  from assms obtain l d e where m: "m = Some l"
    and d: "efold merge_credential (concat (map al_credentials (sort_key al_id ls))) [] = Inr d"
    and e: "e = fold merge_client (concat (map al_clients (sort_key al_id ls))) []"
    and l: "al_credentials l = sorted_values d" "al_clients l = sorted_values e"
      "al_satisfy_any l = (\<forall>l\<in>set ls. al_satisfy_any l)" "al_pass_auth l = (\<forall>l\<in>set ls. al_pass_auth l)"
      "al_id l = al_id (hd (sort_key al_id ls))"
    by (rule merge_access_lists_Some) blast
  have kd: "keyed cred_username d \<and> entries d = (\<Union>l\<in>set ls. set (al_credentials l))"
    using merge_credentials [of "[]"] d by force
  have k: "(\<lambda>c. (directive_value (client_directive c), client_address c)) = client_key"
    by (simp add: client_key_def fun_eq_iff)
  have ke: "keyed client_key e \<and> entries e = (\<Union>l\<in>set ls. set (al_clients l))"
    using merge_clients [of "[]"] unfolding e k by simp
  show ?thesis
    using that [of l] m l sorted_values_keyed [of cred_username d] sorted_values_keyed [of client_key e] kd ke by metis
qed

lemma hd_sort_Min: "ls \<noteq> [] \<Longrightarrow> f (hd (sort_key f ls)) = Min (f ` set ls)"
proof -
  assume "ls \<noteq> []"
  then have o: "sort_key f ls \<noteq> []" by (metis length_0_conv length_sort)
  have s: "sorted (map f (sort_key f ls))" by simp
  have "f (hd (sort_key f ls)) \<le> f x" if "x \<in> set ls" for x
    using s o that by (cases "sort_key f ls") (auto, metis set_ConsD set_sort order_refl)
  moreover have "hd (sort_key f ls) \<in> set ls" using o by (metis hd_in_set set_sort)
  ultimately show ?thesis by (intro Min_eqI [symmetric]) auto
qed

text \<open>How Nginx decides on a client address: the first rule that matches it, and the closing \<open>deny all\<close>.\<close>

definition first_match :: "(string \<Rightarrow> 'a \<Rightarrow> bool) \<Rightarrow> access_client list \<Rightarrow> 'a \<Rightarrow> bool" where
  "first_match matches cs a =
     (case find (\<lambda>c. matches (client_address c) a) cs of None \<Rightarrow> False | Some c \<Rightarrow> client_directive c = Allow)"

lemma allow_before_deny: "client_key c \<le> client_key d \<Longrightarrow> client_directive d = Allow \<Longrightarrow> client_directive c = Allow"
proof -
  have "\<not> ''deny'' < ''allow''" "''deny'' \<noteq> ''allow''" by code_simp+
  moreover assume "client_key c \<le> client_key d" "client_directive d = Allow"
  ultimately show ?thesis by (cases "client_directive c") (auto simp: client_key_def)
qed

lemma first_match_sorted:
  assumes "sorted (map client_key cs)"
  shows "first_match matches cs a \<longleftrightarrow> (\<exists>c\<in>set cs. client_directive c = Allow \<and> matches (client_address c) a)"
  using assms
proof (induction cs)
  case (Cons c cs)
  show ?case
  proof (cases "matches (client_address c) a")
    case True
    then have "first_match matches (c # cs) a \<longleftrightarrow> client_directive c = Allow" by (simp add: first_match_def)
    with True Cons.prems show ?thesis by (auto dest: allow_before_deny)
  next
    case False
    then have "first_match matches (c # cs) a = first_match matches cs a" by (simp add: first_match_def)
    with False Cons show ?thesis by auto
  qed
qed (simp add: first_match_def)

section \<open>Properties of merging\<close>

text \<open>Merging selected access lists succeeds exactly when no user name has two different passwords. The
  merged list then holds each credential and each client rule of the selected lists once, it accepts either
  check only when every list does, and it has the least id.\<close>

theorem merge_access_lists_exact:
  assumes "ls \<noteq> []" and "\<forall>l\<in>set ls. 0 < al_id l \<and> strip (al_name l) \<noteq> []"
  shows "((\<exists>m. merge_access_lists ls = Inr m) \<longleftrightarrow>
            inj_on cred_username (\<Union>l\<in>set ls. set (al_credentials l))) \<and>
    (\<forall>m. merge_access_lists ls = Inr m \<longrightarrow> (\<exists>l. m = Some l \<and>
       set (al_credentials l) = (\<Union>l\<in>set ls. set (al_credentials l)) \<and>
       distinct (map cred_username (al_credentials l)) \<and>
       set (al_clients l) = (\<Union>l\<in>set ls. set (al_clients l)) \<and> distinct (al_clients l) \<and>
       al_satisfy_any l = (\<forall>l\<in>set ls. al_satisfy_any l) \<and> al_pass_auth l = (\<forall>l\<in>set ls. al_pass_auth l) \<and>
       al_id l = Min (al_id ` set ls)))"
proof -
  have "(\<exists>m. merge_access_lists ls = Inr m) \<longleftrightarrow> inj_on cred_username (\<Union>l\<in>set ls. set (al_credentials l))"
    unfolding merge_access_lists_succeeds [OF assms]
    using merge_credentials [of "[]" "concat (map al_credentials (sort_key al_id ls))"] by simp
  then show ?thesis
    using hd_sort_Min [OF assms(1), of al_id]
    by (metis (no_types, lifting) merge_access_lists_content [OF _ assms(1)] distinct_map)
qed

definition sample_rules :: "access_list" where
  "sample_rules = \<lparr>al_id = 2, al_name = ''office'', al_credentials = [],
     al_clients = [\<lparr>client_address = ''10.0.0.5'', client_directive = Deny\<rparr>,
       \<lparr>client_address = ''10.0.0.0/24'', client_directive = Allow\<rparr>],
     al_satisfy_any = False, al_pass_auth = False, al_meta = []\<rparr>"

definition sample_users :: "access_list" where
  "sample_users = \<lparr>al_id = 1, al_name = ''users'',
     al_credentials = [\<lparr>cred_username = ''ann'', cred_password_hash = ''$2b$x''\<rparr>],
     al_clients = [], al_satisfy_any = True, al_pass_auth = False, al_meta = []\<rparr>"

theorem merge_access_lists_exact_witness:
  "\<exists>l. merge_access_lists [sample_rules, sample_users] = Inr (Some l) \<and> al_id l = 1 \<and>
     set (al_credentials l) = set (al_credentials sample_users)"
proof -
  have n: "strip ''office'' \<noteq> []" "strip ''users'' \<noteq> []" by code_simp+
  have a: "\<forall>l\<in>set [sample_rules, sample_users]. 0 < al_id l \<and> strip (al_name l) \<noteq> []"
    using n by (simp add: sample_rules_def sample_users_def)
  have "inj_on cred_username (\<Union>l\<in>set [sample_rules, sample_users]. set (al_credentials l))"
    by (simp add: sample_rules_def sample_users_def)
  then obtain m where m: "merge_access_lists [sample_rules, sample_users] = Inr m"
    using merge_access_lists_exact [OF _ a] by auto
  with merge_access_lists_exact [OF _ a] show ?thesis
    by (fastforce simp: sample_rules_def sample_users_def)
qed

text \<open>The client rules of the merged list let an address in exactly when some allow rule of some selected
  list matches it: a deny rule that stands before it, in the same list, has no effect, because the rules are
  sorted with every allow before every deny.\<close>

theorem merged_rules_allow_first:
  assumes "merge_access_lists ls = Inr (Some l)"
  shows "first_match matches (al_clients l) a \<longleftrightarrow>
    (\<exists>s\<in>set ls. \<exists>c\<in>set (al_clients s). client_directive c = Allow \<and> matches (client_address c) a)"
proof -
  have "ls \<noteq> []" using assms by (auto simp: merge_access_lists_def)
  from merge_access_lists_content [OF assms this] have "sorted (map client_key (al_clients l))"
    "set (al_clients l) = (\<Union>l\<in>set ls. set (al_clients l))" by auto
  then show ?thesis by (auto simp: first_match_sorted)
qed

theorem merged_rules_allow_first_witness:
  "\<not> first_match (\<lambda>rule a. rule = ''10.0.0.0/24'' \<or> rule = a) (al_clients sample_rules) ''10.0.0.5'' \<and>
   (\<exists>l. merge_access_lists [sample_rules] = Inr (Some l) \<and>
      first_match (\<lambda>rule a. rule = ''10.0.0.0/24'' \<or> rule = a) (al_clients l) ''10.0.0.5'')"
proof -
  have n: "strip ''office'' \<noteq> []" by code_simp
  have "\<exists>m. merge_access_lists [sample_rules] = Inr m"
    using merge_access_lists_succeeds [of "[sample_rules]"] n by (simp add: sample_rules_def)
  then obtain l where l: "merge_access_lists [sample_rules] = Inr (Some l)"
    by (metis list.discI merge_access_lists_content)
  have "first_match (\<lambda>rule a. rule = ''10.0.0.0/24'' \<or> rule = a) (al_clients l) ''10.0.0.5''"
    using merged_rules_allow_first [OF l, of "\<lambda>rule a. rule = ''10.0.0.0/24'' \<or> rule = a" "''10.0.0.5''"]
    by (simp add: sample_rules_def)
  moreover have "\<not> first_match (\<lambda>rule a. rule = ''10.0.0.0/24'' \<or> rule = a) (al_clients sample_rules) ''10.0.0.5''"
    by (simp add: first_match_def sample_rules_def)
  ultimately show ?thesis using l by blast
qed

end
