(* ===== verification/Nginx_Laws.thy ===== *)
theory Nginx_Laws
  imports Nginx_Render Quic_Router
begin

text \<open>
  What the Nginx compiler promises: the QUIC document is read back by the router, the order in which the
  resources come does not matter, and every resource has a file of its own.
\<close>

section \<open>Sorting by distinct keys\<close>

lemma sort_key_unique:
  assumes "distinct (map f xs)" "distinct (map f ys)" "set xs = set ys"
  shows "sort_key f xs = sort_key f ys"
proof (rule map_sorted_distinct_set_unique [where f = f])
  show "inj_on f (set (sort_key f xs) \<union> set (sort_key f ys))"
    using assms by (simp add: distinct_map)
  show "distinct (map f (sort_key f xs))" "distinct (map f (sort_key f ys))"
    using assms(1,2) by (simp_all add: distinct_map)
qed (use assms in simp_all)

definition quic_listener :: "quic_route \<Rightarrow> string \<times> int" where
  "quic_listener r = (qr_listen_address r, qr_incoming_port r)"

lemma dict_get_add_groups:
  "dict_get (fold add_group rs d) k =
     (case dict_get d k of
        None \<Rightarrow> if filter (\<lambda>r. quic_listener r = k) rs = [] then None else Some (filter (\<lambda>r. quic_listener r = k) rs)
      | Some g \<Rightarrow> Some (g @ filter (\<lambda>r. quic_listener r = k) rs))"
proof (induction rs arbitrary: d)
  case (Cons r rs)
  show ?case
    by (simp add: Cons.IH, auto simp: add_group_def Let_def quic_listener_def dict_get_or_def split: option.split)
qed (simp split: option.split)

lemma dict_ok_add_groups: "dict_ok d \<Longrightarrow> dict_ok (fold add_group rs d)"
  by (induction rs arbitrary: d) (auto simp: add_group_def Let_def)

lemma sorted_dict_items:
  assumes "dict_ok (d :: ('k :: linorder, 'v) dict)"
  shows "sort_key fst d = map (\<lambda>k. (k, the (dict_get d k))) (sorted_list_of_set (dict_keys d))"
proof (rule map_sorted_distinct_set_unique [where f = fst])
  let ?r = "map (\<lambda>k. (k, the (dict_get d k))) (sorted_list_of_set (dict_keys d))"
  have f: "map fst ?r = sorted_list_of_set (dict_keys d)" by (simp add: comp_def)
  have s: "set ?r = set d"
  proof (intro set_eqI iffI)
    fix p assume "p \<in> set ?r"
    then obtain k v where "p = (k, v)" "dict_get d k = Some v" by (auto simp: dict_keys_get)
    with dict_get_in_set [OF assms] show "p \<in> set d" by blast
  next
    fix p assume "p \<in> set d"
    moreover obtain k v where p: "p = (k, v)" by (cases p)
    ultimately have "dict_get d k = Some v" using dict_get_in_set [OF assms] by blast
    then show "p \<in> set ?r" by (auto simp: p dict_keys_SomeI image_iff)
  qed
  show "inj_on fst (set (sort_key fst d) \<union> set ?r)"
    unfolding s using assms by (simp add: dict_ok_def distinct_map)
  show "sorted (map fst (sort_key fst d))" by simp
  show "distinct (map fst (sort_key fst d))" using assms by (simp add: dict_ok_def distinct_map)
  show "sorted (map fst ?r)" "distinct (map fst ?r)" unfolding f by simp_all
  show "set (sort_key fst d) = set ?r" unfolding s by simp
qed

lemma quic_groups_eq:
  "quic_groups rs = map (\<lambda>k. (k, filter (\<lambda>r. quic_listener r = k) rs)) (sorted_list_of_set (quic_listener ` set rs))"
proof -
  let ?d = "fold add_group rs []"
  have g: "dict_get ?d k = (if filter (\<lambda>r. quic_listener r = k) rs = [] then None
      else Some (filter (\<lambda>r. quic_listener r = k) rs))" for k
    by (simp add: dict_get_add_groups)
  have k: "dict_keys ?d = quic_listener ` set rs"
    by (auto simp: dict_keys_get g filter_empty_conv split: if_splits) (metis image_eqI)
  have "quic_groups rs = map (\<lambda>k. (k, the (dict_get ?d k))) (sorted_list_of_set (dict_keys ?d))"
    unfolding quic_groups_def by (rule sorted_dict_items) (simp add: dict_ok_add_groups)
  also have "\<dots> = map (\<lambda>k. (k, filter (\<lambda>r. quic_listener r = k) rs)) (sorted_list_of_set (quic_listener ` set rs))"
    unfolding k by (rule map_cong) (auto simp: g filter_empty_conv)
  finally show ?thesis .
qed

text \<open>The routes in the order of the document.\<close>

definition quic_order :: "quic_route list \<Rightarrow> quic_route list" where
  "quic_order rs = concat (map (\<lambda>k. sort_key qr_server_name (filter (\<lambda>r. quic_listener r = k) rs))
     (sorted_list_of_set (quic_listener ` set rs)))"

lemma set_quic_order [simp]: "set (quic_order rs) = set rs"
  by (auto simp: quic_order_def)

lemma sorted_concat_groups:
  assumes "sorted ks" "\<And>k r. k \<in> set ks \<Longrightarrow> r \<in> set (g k) \<Longrightarrow> f r = k"
  shows "sorted (map f (concat (map g ks)))"
  using assms
proof (induction ks)
  case (Cons k ks)
  have "map f (g k) = replicate (length (g k)) k"
    using Cons.prems(2) by (intro replicate_eqI) auto
  then show ?case using Cons by (auto simp: sorted_append)
qed simp

lemma sorted_quic_order: "sorted (map quic_listener (quic_order rs))"
  unfolding quic_order_def by (rule sorted_concat_groups) auto

lemma quic_order_unique:
  assumes "distinct (map (\<lambda>r. (quic_listener r, qr_server_name r)) rs)"
    and "distinct (map (\<lambda>r. (quic_listener r, qr_server_name r)) rs')" and "set rs = set rs'"
  shows "map (\<lambda>(k, g). (k, sort_key qr_server_name g)) (quic_groups rs) =
         map (\<lambda>(k, g). (k, sort_key qr_server_name g)) (quic_groups rs')"
proof -
  have d: "distinct (map qr_server_name (filter (\<lambda>r. quic_listener r = k) rs))"
    if "distinct (map (\<lambda>r. (quic_listener r, qr_server_name r)) rs)" for k rs
    using that by (auto simp: distinct_map inj_on_def)
  show ?thesis
    unfolding quic_groups_eq assms(3)
    by (simp add: comp_def) (intro ballI sort_key_unique d assms(1,2), simp add: assms(3))
qed

section \<open>What the router loads\<close>

definition loaded_route :: "quic_route \<Rightarrow> route" where
  "loaded_route r = \<lparr>rt_server_name = qr_server_name r, rt_target = PStr (qr_target r),
     rt_target_port = PInt (qr_target_port r), rt_alpn = PStr (qr_alpn r),
     rt_idle_timeout = PInt (qr_idle_timeout_seconds r)\<rparr>"

lemma route_of_entry:
  assumes "quic_route_ok r"
  shows "route_of_raw (quic_route_entry r) = Inr (qr_server_name r, loaded_route r)"
proof -
  have n: "normal_domain (qr_server_name r) = qr_server_name r" "domain_re (qr_server_name r)"
    using assms by (auto simp: quic_route_ok_def)
  then have c: "casefold (qr_server_name r) = qr_server_name r" by (metis normal_domain_casefold)
  have "qr_server_name r \<noteq> []" using n(2) by (auto simp: domain_re_def startswith_def)
  then have "last (qr_server_name r) \<noteq> CHR ''.''" using n(1) normal_domain_last by metis
  then have "rstrip_dot (qr_server_name r) = qr_server_name r" by (simp add: rstrip_dot_def rstrip_by_id)
  with c show ?thesis
    by (simp add: route_of_raw_def quic_route_entry_def route_fields_def loaded_route_def dict_get_or_def)
qed

lemma efold_pure: "(\<And>x s. x \<in> set xs \<Longrightarrow> f x s = Inr (g x s)) \<Longrightarrow> efold f xs s = Inr (fold g xs s)"
  by (induction xs arbitrary: s) auto

lemma load_routes_document:
  assumes "\<forall>r\<in>set rs. qr_enabled r \<longrightarrow> quic_route_ok r"
  shows "load_routes (quic_document rs) =
    Inr (fold (\<lambda>r. dict_set (qr_server_name r) (loaded_route r)) (quic_order (filter qr_enabled rs)) [])"
proof -
  let ?e = "filter qr_enabled rs"
  have inner: "efold (\<lambda>raw acc. ebind (route_of_raw raw) (\<lambda>(name, route). Inr (dict_set name route acc)))
      (map quic_route_entry g) acc = Inr (fold (\<lambda>r. dict_set (qr_server_name r) (loaded_route r)) g acc)"
    if "\<forall>r\<in>set g. quic_route_ok r" for g acc
    using that by (induction g arbitrary: acc) (auto simp: route_of_entry)
  have outer: "efold (\<lambda>listener acc.
           ebind (py_get ''routes'' (PList []) listener) (\<lambda>rs.
           ebind (py_iter rs) (\<lambda>raws.
             efold (\<lambda>raw acc. ebind (route_of_raw raw) (\<lambda>(name, route). Inr (dict_set name route acc)))
               raws acc)))
      (map (\<lambda>((address, port), group). PDict
         [(''listen_address'', PStr address), (''incoming_port'', PInt port),
          (''routes'', PList (map quic_route_entry (sort_key qr_server_name group)))]) gs) acc =
      Inr (fold (\<lambda>r. dict_set (qr_server_name r) (loaded_route r))
        (concat (map (\<lambda>(k, g). sort_key qr_server_name g) gs)) acc)"
    if "\<forall>(k, g)\<in>set gs. \<forall>r\<in>set g. quic_route_ok r" for gs acc
    using that
  proof (induction gs arbitrary: acc)
    case (Cons kg gs)
    obtain a p g where kg: "kg = ((a, p), g)" by (metis prod.exhaust)
    from Cons.prems have "\<forall>r\<in>set (sort_key qr_server_name g). quic_route_ok r" by (simp add: kg)
    with Cons show ?case by (simp add: kg dict_get_or_def inner)
  qed simp
  have "\<forall>(k, g)\<in>set (quic_groups ?e). \<forall>r\<in>set g. quic_route_ok r"
    using assms by (auto simp: quic_groups_eq)
  from outer [OF this, of "[]"] show ?thesis
    by (simp add: load_routes_def quic_document_def dict_get_or_def quic_order_def quic_groups_eq comp_def)
qed

lemma dict_get_fold_set:
  "dict_get (fold (\<lambda>x. dict_set (f x) (g x)) xs d) k =
     (if filter (\<lambda>x. f x = k) xs = [] then dict_get d k else Some (g (last (filter (\<lambda>x. f x = k) xs))))"
  by (induction xs arbitrary: d) auto

lemma last_filter_max:
  assumes "sorted (map f xs)" "filter P xs \<noteq> []"
  shows "\<forall>x\<in>set xs. P x \<longrightarrow> f x \<le> f (last (filter P xs))"
proof
  fix x assume x: "x \<in> set xs"
  have s: "sorted (map f (filter P xs))" using assms(1) by (rule sorted_filter)
  obtain ys y where y: "filter P xs = ys @ [y]" using assms(2) by (metis rev_exhaust)
  show "P x \<longrightarrow> f x \<le> f (last (filter P xs))"
  proof
    assume "P x"
    with x have "x \<in> set (filter P xs)" by simp
    with s show "f x \<le> f (last (filter P xs))" unfolding y by (auto simp: sorted_append)
  qed
qed

text \<open>C39. The router that loads the document rendered for the QUIC routes has a route for exactly the server
  names of the enabled ones, with the target, port, protocol and timeout it was given; where several
  listeners have a route for one name, the router keeps only that of the greatest listener.\<close>

theorem quic_routes_loaded:
  assumes "\<forall>r\<in>set rs. qr_enabled r \<longrightarrow> quic_route_ok r"
    and "distinct (map (\<lambda>r. (quic_listener r, qr_server_name r)) (filter qr_enabled rs))"
  shows "\<exists>d. load_routes (quic_document rs) = Inr d \<and>
    (\<forall>r\<in>set rs. qr_enabled r \<and>
       (\<forall>s\<in>set rs. qr_enabled s \<and> qr_server_name s = qr_server_name r \<longrightarrow> quic_listener s \<le> quic_listener r) \<longrightarrow>
       dict_get d (qr_server_name r) = Some (loaded_route r)) \<and>
    (\<forall>n. n \<notin> qr_server_name ` {r\<in>set rs. qr_enabled r} \<longrightarrow> dict_get d n = None)"
proof -
  let ?o = "quic_order (filter qr_enabled rs)"
  define d where "d = fold (\<lambda>r. dict_set (qr_server_name r) (loaded_route r)) ?o []"
  have "dict_get d (qr_server_name r) = Some (loaded_route r)"
    if r: "r \<in> set rs" "qr_enabled r"
      and m: "\<forall>s\<in>set rs. qr_enabled s \<and> qr_server_name s = qr_server_name r \<longrightarrow> quic_listener s \<le> quic_listener r" for r
  proof -
    let ?f = "filter (\<lambda>s. qr_server_name s = qr_server_name r) ?o"
    have n: "?f \<noteq> []" using r by (auto simp: filter_empty_conv)
    then have l: "last ?f \<in> set rs" "qr_enabled (last ?f)" "qr_server_name (last ?f) = qr_server_name r"
      using last_in_set [OF n] by auto
    have "quic_listener r \<le> quic_listener (last ?f)"
      using last_filter_max [OF sorted_quic_order n] r by simp
    with m l have "quic_listener (last ?f) = quic_listener r" by fastforce
    with l r assms(2) have "last ?f = r" by (simp add: distinct_map inj_on_def)
    with n show ?thesis by (simp add: d_def dict_get_fold_set)
  qed
  moreover have "dict_get d n = None" if "n \<notin> qr_server_name ` {r\<in>set rs. qr_enabled r}" for n
    using that by (auto simp: d_def dict_get_fold_set filter_empty_conv)
  moreover have "load_routes (quic_document rs) = Inr d"
    unfolding d_def by (rule load_routes_document) (rule assms(1))
  ultimately show ?thesis by blast
qed

definition sample_quic :: "int \<Rightarrow> int \<Rightarrow> string \<Rightarrow> quic_route" where
  "sample_quic i port target = \<lparr>qr_id = i, qr_listen_address = ''0.0.0.0'', qr_incoming_port = port,
     qr_server_name = ''h3.example.org'', qr_alpn = ''h3'', qr_target_kind = Target_Docker, qr_target = target,
     qr_target_port = 8443, qr_idle_timeout_seconds = 1800, qr_enabled = True, qr_meta = []\<rparr>"

theorem quic_routes_loaded_witness:
  "\<exists>d. load_routes (quic_document [sample_quic 1 443 ''web'', sample_quic 2 8443 ''other'']) = Inr d \<and>
     dict_get d ''h3.example.org'' = Some (loaded_route (sample_quic 2 8443 ''other'')) \<and>
     dict_get d ''example.org'' = None"
proof -
  let ?rs = "[sample_quic 1 443 ''web'', sample_quic 2 8443 ''other'']"
  have n: "domain_re ''h3.example.org'' \<and> normal_domain ''h3.example.org'' = ''h3.example.org'' \<and>
    strip ''web'' \<noteq> [] \<and> strip ''other'' \<noteq> []" by code_simp
  have a: "\<forall>r\<in>set ?rs. qr_enabled r \<longrightarrow> quic_route_ok r"
    using n by (simp add: sample_quic_def quic_route_ok_def)
  have b: "distinct (map (\<lambda>r. (quic_listener r, qr_server_name r)) (filter qr_enabled ?rs))"
    by (simp add: sample_quic_def quic_listener_def)
  have e: "''example.org'' \<notin> qr_server_name ` {r\<in>set ?rs. qr_enabled r}"
    by (auto simp: sample_quic_def)
  have m: "sample_quic 2 8443 ''other'' \<in> set ?rs \<and> qr_enabled (sample_quic 2 8443 ''other'') \<and>
    (\<forall>s\<in>set ?rs. qr_enabled s \<and> qr_server_name s = qr_server_name (sample_quic 2 8443 ''other'') \<longrightarrow>
       quic_listener s \<le> quic_listener (sample_quic 2 8443 ''other''))"
    by (simp add: sample_quic_def quic_listener_def)
  have t: "qr_server_name (sample_quic 2 8443 ''other'') = ''h3.example.org''" by (simp add: sample_quic_def)
  from quic_routes_loaded [OF a b] obtain d where d: "load_routes (quic_document ?rs) = Inr d"
    and r: "\<forall>r\<in>set ?rs. qr_enabled r \<and>
       (\<forall>s\<in>set ?rs. qr_enabled s \<and> qr_server_name s = qr_server_name r \<longrightarrow> quic_listener s \<le> quic_listener r) \<longrightarrow>
       dict_get d (qr_server_name r) = Some (loaded_route r)"
    and n: "\<forall>n. n \<notin> qr_server_name ` {r\<in>set ?rs. qr_enabled r} \<longrightarrow> dict_get d n = None"
    by blast
  from r [rule_format, OF m [THEN conjunct1]] m have "dict_get d ''h3.example.org'' = Some (loaded_route (sample_quic 2 8443 ''other''))"
    unfolding t by blast
  with d n [rule_format, OF e] show ?thesis by blast
qed

section \<open>File names\<close>

lemma conf_name_inj [simp]: "conf_name p a = conf_name p b \<longleftrightarrow> a = b"
  by (simp add: conf_name_def)

lemma int_str_hd: "hd (int_str i) = CHR ''-'' \<or> is_digit (hd (int_str i))"
proof -
  have "hd (nat_str (nat i)) \<in> set (nat_str (nat i))" by simp
  then have "is_digit (hd (nat_str (nat i)))" by (rule nat_str_digits)
  then show ?thesis by (auto simp: int_str_def)
qed

lemma int_str_not_Nil [simp]: "int_str i \<noteq> []"
  by (simp add: int_str_def)

lemma int_str_not_proxy [simp]: "int_str i \<noteq> CHR ''p'' # s" "CHR ''p'' # s \<noteq> int_str i"
proof -
  have "hd (int_str i) \<noteq> CHR ''p''" using int_str_hd [of i] by (auto simp: is_digit_def char_nat_def)
  then show "int_str i \<noteq> CHR ''p'' # s" by (metis list.sel(1))
  then show "CHR ''p'' # s \<noteq> int_str i" by metis
qed

section \<open>The stages of a rendering\<close>

lemma render_proxy_files_step:
  assumes "render_proxy_files platform a h files = Inr files'"
  obtains effective contents where "merge_access_lists (selected_lists a h) = Inr effective"
    "render_proxy platform h effective (password_file_of h (selected_lists a h)) = Inr contents"
    "dict_get files' (conf_name ''http/proxy-'' (int_str (rh_id h))) = Some contents"
    "\<And>k. k \<noteq> conf_name ''http/proxy-'' (int_str (rh_id h)) \<Longrightarrow> k \<noteq> ''access/proxy-host-'' @ int_str (rh_id h) \<Longrightarrow>
       dict_get files' k = dict_get files k"
    "\<And>l p. effective = Some l \<Longrightarrow> password_file_of h (selected_lists a h) = Some p \<Longrightarrow>
       dict_get files' (''access/'' @ p) = Some (render_htpasswd l)"
proof -
  from assms [unfolded render_proxy_files_def Let_def] obtain effective contents where
    m: "merge_access_lists (selected_lists a h) = Inr effective"
    and c: "render_proxy platform h effective (password_file_of h (selected_lists a h)) = Inr contents"
    and f: "files' = dict_set (conf_name ''http/proxy-'' (int_str (rh_id h))) contents
      (case (password_file_of h (selected_lists a h), effective) of
             (Some p, Some l) \<Rightarrow> dict_set (''access/'' @ p) (render_htpasswd l) files
           | _ \<Rightarrow> files)"
    by (auto simp: result_simps)
  show ?thesis
  proof (rule that [OF m c])
    show "dict_get files' (conf_name ''http/proxy-'' (int_str (rh_id h))) = Some contents" by (simp add: f)
  next
    fix k assume "k \<noteq> conf_name ''http/proxy-'' (int_str (rh_id h))" "k \<noteq> ''access/proxy-host-'' @ int_str (rh_id h)"
    then show "dict_get files' k = dict_get files k"
      by (simp add: f password_file_of_def split: option.split)
  next
    fix l p assume "effective = Some l" "password_file_of h (selected_lists a h) = Some p"
    then show "dict_get files' (''access/'' @ p) = Some (render_htpasswd l)"
      by (simp add: f conf_name_def)
  qed
qed

definition proxy_file_ok :: "platform_config \<Rightarrow> (int, access_list) dict \<Rightarrow> (string, string) dict \<Rightarrow> runtime_host \<Rightarrow> bool" where
  "proxy_file_ok platform a files h \<longleftrightarrow>
     (\<exists>effective contents. merge_access_lists (selected_lists a h) = Inr effective \<and>
        render_proxy platform h effective (password_file_of h (selected_lists a h)) = Inr contents \<and>
        dict_get files (conf_name ''http/proxy-'' (int_str (rh_id h))) = Some contents \<and>
        (\<forall>l p. effective = Some l \<longrightarrow> password_file_of h (selected_lists a h) = Some p \<longrightarrow>
           dict_get files (''access/'' @ p) = Some (render_htpasswd l)))"

definition proxy_names :: "int \<Rightarrow> string set" where
  "proxy_names i = {conf_name ''http/proxy-'' (int_str i), ''access/proxy-host-'' @ int_str i}"

lemma proxy_names_disjoint: "i \<noteq> j \<Longrightarrow> k \<in> proxy_names i \<Longrightarrow> k \<notin> proxy_names j"
  by (auto simp: proxy_names_def conf_name_def)

lemma proxy_file_ok_cong:
  assumes "\<And>k. k \<in> proxy_names (rh_id h) \<Longrightarrow> dict_get files' k = dict_get files k"
  shows "proxy_file_ok platform a files h \<Longrightarrow> proxy_file_ok platform a files' h"
  using assms unfolding proxy_file_ok_def proxy_names_def
  by (fastforce simp: password_file_of_def split: if_splits)

lemma proxy_stage:
  assumes "efold (render_proxy_files platform a) hs files = Inr files'" "distinct (map rh_id hs)"
  shows "(\<forall>h\<in>set hs. proxy_file_ok platform a files' h) \<and>
    (\<forall>k. (\<forall>h\<in>set hs. k \<notin> proxy_names (rh_id h)) \<longrightarrow> dict_get files' k = dict_get files k)"
  using assms
proof (induction hs arbitrary: files)
  case (Cons h hs)
  from Cons.prems(1) obtain f1 where f1: "render_proxy_files platform a h files = Inr f1"
    and r: "efold (render_proxy_files platform a) hs f1 = Inr files'" by (auto simp: result_simps)
  have ih: "(\<forall>h\<in>set hs. proxy_file_ok platform a files' h)"
    "\<And>k. (\<forall>h\<in>set hs. k \<notin> proxy_names (rh_id h)) \<Longrightarrow> dict_get files' k = dict_get f1 k"
    using Cons.IH [OF r] Cons.prems(2) by auto
  have "proxy_file_ok platform a f1 h"
    using f1 by (rule render_proxy_files_step) (unfold proxy_file_ok_def, blast)
  then have "proxy_file_ok platform a files' h"
  proof (rule proxy_file_ok_cong [rotated])
    fix k assume "k \<in> proxy_names (rh_id h)"
    with Cons.prems(2) show "dict_get files' k = dict_get f1 k"
      by (intro ih(2)) (metis distinct.simps(2) image_eqI image_set list.simps(9) proxy_names_disjoint)
  qed
  moreover have "dict_get files' k = dict_get files k" if "\<forall>h\<in>set (h # hs). k \<notin> proxy_names (rh_id h)" for k
    using f1 by (rule render_proxy_files_step) (use that ih(2) [of k] in \<open>simp add: proxy_names_def\<close>)
  ultimately show ?case using ih(1) by simp
qed simp

lemma host_stage:
  assumes "efold (render_host_file prefix f) hs files = Inr files'" "distinct (map rh_id hs)"
  shows "(\<forall>h\<in>set hs. \<exists>c. f h = Inr c \<and> dict_get files' (conf_name prefix (int_str (rh_id h))) = Some c) \<and>
    (\<forall>k. (\<forall>h\<in>set hs. k \<noteq> conf_name prefix (int_str (rh_id h))) \<longrightarrow> dict_get files' k = dict_get files k)"
  using assms
proof (induction hs arbitrary: files)
  case (Cons h hs)
  from Cons.prems(1) obtain c where c: "f h = Inr c"
    and r: "efold (render_host_file prefix f) hs (dict_set (conf_name prefix (int_str (rh_id h))) c files) = Inr files'"
    by (auto simp: result_simps render_host_file_def [of prefix f h])
  have "rh_id h \<notin> rh_id ` set hs" using Cons.prems(2) by simp
  with Cons.IH [OF r] Cons.prems(2) c show ?case by (auto simp: image_iff)
qed simp

lemma custom_include_apply: "custom_include (n, c) files =
    (if n \<notin> set custom_include_names then Inl (ValueError (''unsupported custom include point: '' @ n))
     else Inr (dict_set (conf_name ''custom/'' n) (rstrip c @ newline) files))"
  by (simp add: custom_include_def)

lemma custom_stage:
  assumes "efold custom_include cs files = Inr files'" "distinct (map fst cs)"
  shows "(\<forall>(n, c)\<in>set cs. n \<in> set custom_include_names \<and> dict_get files' (conf_name ''custom/'' n) = Some (rstrip c @ newline)) \<and>
    (\<forall>k. (\<forall>n\<in>set (map fst cs). k \<noteq> conf_name ''custom/'' n) \<longrightarrow> dict_get files' k = dict_get files k)"
  using assms
proof (induction cs arbitrary: files)
  case (Cons nc cs)
  obtain n c where nc: "nc = (n, c)" by (cases nc)
  with Cons.prems(1) have "n \<in> set custom_include_names"
    and r: "efold custom_include cs (dict_set (conf_name ''custom/'' n) (rstrip c @ newline) files) = Inr files'"
    by (auto simp: result_simps custom_include_apply split: if_splits)
  moreover have "n \<notin> fst ` set cs" using Cons.prems(2) by (simp add: nc)
  ultimately show ?case using Cons.IH [OF r] Cons.prems(2) by (fastforce simp: nc image_iff)
qed simp

definition access_index :: "access_list list \<Rightarrow> (int, access_list) dict" where
  "access_index ls = fold (\<lambda>l. dict_set (al_id l) l) ls []"

lemma access_index_get:
  assumes "distinct (map al_id ls)"
  shows "dict_get (access_index ls) i = find (\<lambda>l. al_id l = i) ls"
proof -
  have "(case filter (\<lambda>l. al_id l = i) ls of [] \<Rightarrow> None | xs \<Rightarrow> Some (last xs)) = find (\<lambda>l. al_id l = i) ls"
    using assms
  proof (induction ls)
    case (Cons l ls)
    show ?case
    proof (cases "al_id l = i")
      case True
      with Cons.prems have "filter (\<lambda>l. al_id l = i) ls = []" by (auto simp: filter_empty_conv) (metis image_eqI)
      with True show ?thesis by simp
    qed (use Cons in simp)
  qed simp
  then show ?thesis
    by (auto simp: access_index_def dict_get_fold_set split: list.splits)
qed

lemma filter_key_single:
  assumes "distinct (map f xs)" "x \<in> set xs"
  shows "filter (\<lambda>y. f y = f x) xs = [x]"
  using assms by (induction xs) (auto simp: filter_empty_conv image_iff)

text \<open>The files before the first host: the platform's and one per access list.\<close>

definition initial_files :: "platform_config \<Rightarrow> quic_route list \<Rightarrow> access_list list \<Rightarrow> (string, string) dict" where
  "initial_files platform qs ls =
     fold (\<lambda>l. dict_set (''access/'' @ int_str (al_id l)) (render_htpasswd l)) (sort_key al_id ls)
       (if pc_default_site platform = ''html''
        then dict_set ''default_www/index.html'' (pc_default_html platform) (base_files platform qs)
        else base_files platform qs)"

lemma render_stages:
  assumes "render platform ps rs ds ss qs ls = Inr files"
  obtains f1 f2 f3 where
    "efold (render_proxy_files platform (access_index ls)) (sort_key rh_id ps) (initial_files platform qs ls) = Inr f1"
    "efold (render_host_file ''http/redirection-'' (render_redirection platform)) (sort_key rh_id rs) f1 = Inr f2"
    "efold (render_host_file ''http/dead-'' (render_dead platform)) (sort_key rh_id ds) f2 = Inr f3"
    "efold custom_include (sort_key fst (pc_custom_includes platform))
       (fold (\<lambda>s. dict_set (conf_name ''stream/stream-'' (int_str (st_id s))) (render_stream platform s))
          (sort_key st_id ss) f3) = Inr files"
  using assms that
  unfolding render_def Let_def access_index_def [symmetric] initial_files_def [symmetric]
  by (elim ebind_InrE) blast

lemma distinct_sort_key: "distinct (map f xs) \<Longrightarrow> distinct (map f (sort_key f xs))"
  by (simp add: distinct_map)

lemma initial_access_file:
  assumes "distinct (map al_id ls)" "l \<in> set ls"
  shows "dict_get (initial_files platform qs ls) (''access/'' @ int_str (al_id l)) = Some (render_htpasswd l)"
proof -
  have e: "filter (\<lambda>x. int_str (al_id x) = int_str (al_id l)) (sort_key al_id ls) = [l]"
    using filter_key_single [OF assms] by (simp add: filter_sort)
  show ?thesis by (simp add: initial_files_def dict_get_fold_set e del: int_str_inj)
qed

lemma stream_stage:
  assumes "distinct (map st_id ss)" "s \<in> set ss"
  shows "dict_get (fold (\<lambda>s. dict_set (conf_name ''stream/stream-'' (int_str (st_id s))) (render_stream platform s)) ss f)
    (conf_name ''stream/stream-'' (int_str (st_id s))) = Some (render_stream platform s)"
proof -
  have e: "filter (\<lambda>x. st_id x = st_id s) ss = [s]"
    by (rule filter_key_single) (use assms in simp_all)
  show ?thesis by (simp add: dict_get_fold_set e)
qed

lemma stream_stage_other:
  "(\<forall>i. k \<noteq> conf_name ''stream/stream-'' (int_str i)) \<Longrightarrow>
    dict_get (fold (\<lambda>s. dict_set (conf_name ''stream/stream-'' (int_str (st_id s))) (render_stream platform s)) ss f) k = dict_get f k"
  by (auto simp: dict_get_fold_set filter_empty_conv)

lemma conf_name_prefix:
  "conf_name ''http/proxy-'' a \<noteq> conf_name ''http/redirection-'' b" "conf_name ''http/redirection-'' b \<noteq> conf_name ''http/proxy-'' a"
  "conf_name ''http/proxy-'' a \<noteq> conf_name ''http/dead-'' b" "conf_name ''http/dead-'' b \<noteq> conf_name ''http/proxy-'' a"
  "conf_name ''http/redirection-'' a \<noteq> conf_name ''http/dead-'' b" "conf_name ''http/dead-'' b \<noteq> conf_name ''http/redirection-'' a"
  "conf_name ''custom/'' a \<noteq> conf_name ''http/redirection-'' b" "conf_name ''http/redirection-'' b \<noteq> conf_name ''custom/'' a"
  "conf_name ''custom/'' a \<noteq> conf_name ''http/proxy-'' b" "conf_name ''http/proxy-'' b \<noteq> conf_name ''custom/'' a"
  "conf_name ''custom/'' a \<noteq> conf_name ''http/dead-'' b" "conf_name ''http/dead-'' b \<noteq> conf_name ''custom/'' a"
  "conf_name ''custom/'' a \<noteq> conf_name ''stream/stream-'' b" "conf_name ''stream/stream-'' b \<noteq> conf_name ''custom/'' a"
  "conf_name ''http/proxy-'' a \<noteq> conf_name ''stream/stream-'' b" "conf_name ''stream/stream-'' b \<noteq> conf_name ''http/proxy-'' a"
  "conf_name ''http/redirection-'' a \<noteq> conf_name ''stream/stream-'' b" "conf_name ''stream/stream-'' b \<noteq> conf_name ''http/redirection-'' a"
  "conf_name ''http/dead-'' a \<noteq> conf_name ''stream/stream-'' b" "conf_name ''stream/stream-'' b \<noteq> conf_name ''http/dead-'' a"
  "''access/'' @ t \<noteq> conf_name ''http/proxy-'' b" "''access/'' @ t \<noteq> conf_name ''http/redirection-'' b"
  "''access/'' @ t \<noteq> conf_name ''http/dead-'' b" "''access/'' @ t \<noteq> conf_name ''custom/'' b"
  "''access/'' @ t \<noteq> conf_name ''stream/stream-'' b"
  by (simp_all add: conf_name_def)

text \<open>After the stage that writes it, no later stage changes a file of another family.\<close>

lemma render_stage_facts:
  assumes "render platform ps rs ds ss qs ls = Inr files"
    and "distinct (map rh_id ps)" "distinct (map rh_id rs)" "distinct (map rh_id ds)" "distinct (map st_id ss)"
    and "distinct (map fst (pc_custom_includes platform))"
  obtains f1 f2 f3 f4 where
    "\<forall>h\<in>set ps. proxy_file_ok platform (access_index ls) f1 h"
    "\<And>k. \<forall>i. k \<notin> proxy_names i \<Longrightarrow> dict_get f1 k = dict_get (initial_files platform qs ls) k"
    "\<And>h. h \<in> set rs \<Longrightarrow> \<exists>c. render_redirection platform h = Inr c \<and>
       dict_get f2 (conf_name ''http/redirection-'' (int_str (rh_id h))) = Some c"
    "\<And>k. \<forall>i. k \<noteq> conf_name ''http/redirection-'' i \<Longrightarrow> dict_get f2 k = dict_get f1 k"
    "\<And>h. h \<in> set ds \<Longrightarrow> \<exists>c. render_dead platform h = Inr c \<and>
       dict_get f3 (conf_name ''http/dead-'' (int_str (rh_id h))) = Some c"
    "\<And>k. \<forall>i. k \<noteq> conf_name ''http/dead-'' i \<Longrightarrow> dict_get f3 k = dict_get f2 k"
    "\<And>s. s \<in> set ss \<Longrightarrow> dict_get f4 (conf_name ''stream/stream-'' (int_str (st_id s))) = Some (render_stream platform s)"
    "\<And>k. \<forall>i. k \<noteq> conf_name ''stream/stream-'' i \<Longrightarrow> dict_get f4 k = dict_get f3 k"
    "\<forall>(n, c)\<in>set (pc_custom_includes platform). n \<in> set custom_include_names \<and>
       dict_get files (conf_name ''custom/'' n) = Some (rstrip c @ newline)"
    "\<And>k. \<forall>n. k \<noteq> conf_name ''custom/'' n \<Longrightarrow> dict_get files k = dict_get f4 k"
proof -
  from assms(1) obtain f1 f2 f3 where
    1: "efold (render_proxy_files platform (access_index ls)) (sort_key rh_id ps) (initial_files platform qs ls) = Inr f1"
    and 2: "efold (render_host_file ''http/redirection-'' (render_redirection platform)) (sort_key rh_id rs) f1 = Inr f2"
    and 3: "efold (render_host_file ''http/dead-'' (render_dead platform)) (sort_key rh_id ds) f2 = Inr f3"
    and 4: "efold custom_include (sort_key fst (pc_custom_includes platform))
       (fold (\<lambda>s. dict_set (conf_name ''stream/stream-'' (int_str (st_id s))) (render_stream platform s))
          (sort_key st_id ss) f3) = Inr files"
    by (rule render_stages)
  note s1 = proxy_stage [OF 1 distinct_sort_key [OF assms(2)]]
  note s2 = host_stage [OF 2 distinct_sort_key [OF assms(3)]]
  note s3 = host_stage [OF 3 distinct_sort_key [OF assms(4)]]
  note s4 = custom_stage [OF 4 distinct_sort_key [OF assms(6)]]
  show ?thesis
  proof (rule that)
    show "dict_get (fold (\<lambda>s. dict_set (conf_name ''stream/stream-'' (int_str (st_id s))) (render_stream platform s))
          (sort_key st_id ss) f3) (conf_name ''stream/stream-'' (int_str (st_id s))) = Some (render_stream platform s)"
      if "s \<in> set ss" for s
      using stream_stage [of "sort_key st_id ss" s] distinct_sort_key [OF assms(5)] that by simp
  qed (use s1 s2 s3 s4 stream_stage_other in \<open>auto simp: stream_stage_other\<close>)
qed

text \<open>C23. In a rendered configuration no resource overwrites another: every proxy host has the text rendered
  for it with its merged access lists, a password file of its own when several are selected, and every
  redirection, dead host, stream, access list and custom include has its file with its own contents.\<close>

theorem render_files_exact:
  assumes "render platform ps rs ds ss qs ls = Inr files"
    and "distinct (map rh_id ps)" "distinct (map rh_id rs)" "distinct (map rh_id ds)" "distinct (map st_id ss)"
    and "distinct (map al_id ls)" "distinct (map fst (pc_custom_includes platform))"
  shows "(\<forall>h\<in>set ps. proxy_file_ok platform (access_index ls) files h) \<and>
    (\<forall>h\<in>set rs. \<exists>c. render_redirection platform h = Inr c \<and>
       dict_get files (conf_name ''http/redirection-'' (int_str (rh_id h))) = Some c) \<and>
    (\<forall>h\<in>set ds. \<exists>c. render_dead platform h = Inr c \<and>
       dict_get files (conf_name ''http/dead-'' (int_str (rh_id h))) = Some c) \<and>
    (\<forall>s\<in>set ss. dict_get files (conf_name ''stream/stream-'' (int_str (st_id s))) = Some (render_stream platform s)) \<and>
    (\<forall>l\<in>set ls. dict_get files (''access/'' @ int_str (al_id l)) = Some (render_htpasswd l)) \<and>
    (\<forall>(n, c)\<in>set (pc_custom_includes platform). n \<in> set custom_include_names \<and>
       dict_get files (conf_name ''custom/'' n) = Some (rstrip c @ newline))"
proof (rule render_stage_facts [OF assms(1-5,7)], goal_cases)
  case (1 f1 f2 f3 f4)
  note s1 = 1(1,2) and s2 = 1(3) and u2 = 1(4) and s3 = 1(5) and u3 = 1(6) and s4 = 1(7) and u4 = 1(8)
    and s5 = 1(9) and u5 = 1(10)
  have "proxy_file_ok platform (access_index ls) files h" if "h \<in> set ps" for h
  proof (rule proxy_file_ok_cong)
    show "proxy_file_ok platform (access_index ls) f1 h" using s1(1) that by simp
    show "dict_get files k = dict_get f1 k" if "k \<in> proxy_names (rh_id h)" for k
      using that by (auto simp: proxy_names_def u5 u4 u3 u2 conf_name_def)
  qed
  moreover have "dict_get files (''access/'' @ int_str (al_id l)) = Some (render_htpasswd l)" if l: "l \<in> set ls" for l
    using initial_access_file [OF assms(6) l, of platform qs]
    by (simp add: u5 u4 u3 u2 s1(2) proxy_names_def conf_name_def)
  moreover have "dict_get files (conf_name ''stream/stream-'' i) = dict_get f4 (conf_name ''stream/stream-'' i)"
    "dict_get files (conf_name ''http/dead-'' i) = dict_get f3 (conf_name ''http/dead-'' i)"
    "dict_get files (conf_name ''http/redirection-'' i) = dict_get f2 (conf_name ''http/redirection-'' i)" for i
    by (simp_all add: u5 u4 u3 conf_name_prefix)
  ultimately show ?thesis using s2 s3 s4 s5 by simp
qed

definition sample_host :: "host_kind \<Rightarrow> int \<Rightarrow> runtime_host" where
  "sample_host kind i = \<lparr>rh_id = i, rh_kind = kind, rh_domain_names = [''example.org''], rh_forward_scheme = ''http'',
     rh_forward_host = Some ''web'', rh_forward_port = Some 8080, rh_forward_domain_name = Some ''example.com'',
     rh_forward_http_code = 301, rh_preserve_path = True, rh_owner_user_id = 1, rh_access_list_id = 0,
     rh_access_list_ids = [], rh_ssl = default_tls, rh_caching_enabled = False, rh_block_exploits = True,
     rh_allow_websocket_upgrade = False, rh_advanced_config = [], rh_locations = [], rh_enabled = True, rh_meta = []\<rparr>"

theorem render_files_exact_witness:
  "\<exists>files c. render default_platform [sample_host Kind_Proxy 1] [sample_host Kind_Redirect 2] [sample_host Kind_Dead 3]
       [] [] [sample_rules] = Inr files \<and>
     dict_get files (''access/'' @ int_str 2) = Some (render_htpasswd sample_rules) \<and>
     render_dead default_platform (sample_host Kind_Dead 3) = Inr c \<and>
     dict_get files (conf_name ''http/dead-'' (int_str 3)) = Some c"
proof -
  have "\<exists>files. render default_platform [sample_host Kind_Proxy 1] [sample_host Kind_Redirect 2] [sample_host Kind_Dead 3]
       [] [] [sample_rules] = Inr files"
    by (simp add: render_def Let_def render_proxy_files_def selected_lists_def selected_ids_def sample_host_def
        merge_access_lists_def render_proxy_def tls_normalized_def default_tls_def render_host_file_def
        render_redirection_def render_dead_def password_file_of_def default_platform_def)
  then obtain files where f: "render default_platform [sample_host Kind_Proxy 1] [sample_host Kind_Redirect 2]
       [sample_host Kind_Dead 3] [] [] [sample_rules] = Inr files" by blast
  have "rh_id (sample_host k i) = i" "al_id sample_rules = 2" for k i
    by (simp_all add: sample_host_def sample_rules_def)
  with render_files_exact [OF f] f show ?thesis by (simp add: default_platform_def)
qed

lemma selected_lists_cong:
  assumes "dict_get a = dict_get b"
  shows "render_proxy_files platform a = render_proxy_files platform b"
proof -
  have "dict_keys a = dict_keys b"
    by (auto simp: dict_keys_get assms)
  then have "selected_lists a h = selected_lists b h" for h
    by (simp add: selected_lists_def assms)
  then show ?thesis by (simp add: render_proxy_files_def fun_eq_iff)
qed

lemma access_index_unique:
  assumes "distinct (map al_id ls)" "distinct (map al_id ls')" "set ls = set ls'"
  shows "dict_get (access_index ls) = dict_get (access_index ls')"
proof
  fix i
  have "find (\<lambda>l. al_id l = i) ls = find (\<lambda>l. al_id l = i) ls'"
  proof (cases "\<exists>l\<in>set ls. al_id l = i")
    case True
    then obtain l where l: "l \<in> set ls" "al_id l = i" by blast
    have "find (\<lambda>l. al_id l = i) xs = Some l" if "distinct (map al_id xs)" "l \<in> set xs" for xs
      using that l(2) by (induction xs) auto
    then show ?thesis using assms l(1) by simp
  next
    case False
    then show ?thesis using assms(3) by (auto simp: find_None_iff [THEN iffD2])
  qed
  then show "dict_get (access_index ls) i = dict_get (access_index ls') i"
    by (simp add: access_index_get assms(1,2))
qed

lemma quic_document_unique:
  assumes "distinct (map (\<lambda>r. (quic_listener r, qr_server_name r)) (filter qr_enabled rs))"
    and "distinct (map (\<lambda>r. (quic_listener r, qr_server_name r)) (filter qr_enabled rs'))" and "set rs = set rs'"
  shows "quic_document rs = quic_document rs'"
proof -
  have e: "map (\<lambda>((address, port), group). PDict
         [(''listen_address'', PStr address), (''incoming_port'', PInt port),
          (''routes'', PList (map quic_route_entry (sort_key qr_server_name group)))]) gs =
      map (\<lambda>((address, port), group). PDict
         [(''listen_address'', PStr address), (''incoming_port'', PInt port),
          (''routes'', PList (map quic_route_entry group))]) (map (\<lambda>(k, g). (k, sort_key qr_server_name g)) gs)" for gs
    by (simp add: case_prod_beta)
  show ?thesis
    unfolding quic_document_def e
    using quic_order_unique [OF assms(1,2)] assms(3) by simp
qed

text \<open>C38. The rendered files do not depend on the order in which the resources are given: inputs with the same
  hosts, streams, QUIC routes and access lists, each kind with its own distinct keys, give the same result, be
  it the files or the same error.\<close>

theorem render_order_independent:
  assumes "distinct (map rh_id ps)" "distinct (map rh_id ps')" "set ps = set ps'"
    and "distinct (map rh_id rs)" "distinct (map rh_id rs')" "set rs = set rs'"
    and "distinct (map rh_id ds)" "distinct (map rh_id ds')" "set ds = set ds'"
    and "distinct (map st_id ss)" "distinct (map st_id ss')" "set ss = set ss'"
    and "distinct (map (\<lambda>r. (quic_listener r, qr_server_name r)) (filter qr_enabled qs))"
    and "distinct (map (\<lambda>r. (quic_listener r, qr_server_name r)) (filter qr_enabled qs'))" "set qs = set qs'"
    and "distinct (map al_id ls)" "distinct (map al_id ls')" "set ls = set ls'"
  shows "render platform ps rs ds ss qs ls = render platform ps' rs' ds' ss' qs' ls'"
proof -
  have "render_proxy_files platform (access_index ls) = render_proxy_files platform (access_index ls')"
    by (rule selected_lists_cong) (rule access_index_unique [OF assms(16-18)])
  moreover have "initial_files platform qs ls = initial_files platform qs' ls'"
    unfolding initial_files_def base_files_def render_quic_routes_def
    using quic_document_unique [OF assms(13-15)] sort_key_unique [OF assms(16-18)] by simp
  ultimately show ?thesis
    unfolding render_def Let_def access_index_def [symmetric] initial_files_def [symmetric]
    by (simp add: sort_key_unique [OF assms(1-3)] sort_key_unique [OF assms(4-6)]
        sort_key_unique [OF assms(7-9)] sort_key_unique [OF assms(10-12)])
qed

theorem render_order_independent_witness:
  "render default_platform [sample_host Kind_Proxy 1, sample_host Kind_Proxy 4] [] [] [] [sample_quic 1 443 ''web'', sample_quic 2 8443 ''other'']
      [sample_rules, sample_users] =
   render default_platform [sample_host Kind_Proxy 4, sample_host Kind_Proxy 1] [] [] [] [sample_quic 2 8443 ''other'', sample_quic 1 443 ''web'']
      [sample_users, sample_rules]"
proof (rule render_order_independent)
  show "set [sample_host Kind_Proxy 1, sample_host Kind_Proxy 4] = set [sample_host Kind_Proxy 4, sample_host Kind_Proxy 1]"
    "set [sample_quic 1 443 ''web'', sample_quic 2 8443 ''other''] = set [sample_quic 2 8443 ''other'', sample_quic 1 443 ''web'']"
    "set [sample_rules, sample_users] = set [sample_users, sample_rules]" by auto
qed (simp_all add: sample_host_def sample_quic_def quic_listener_def sample_rules_def sample_users_def)

end
