(* ===== verification/Health.thy ===== *)
theory Health
  imports Py_Value
begin

text \<open>\<open>health.py\<close>: the administrative, deployment and reachability states of a host, and the one status
  the interface shows for them.\<close>

datatype administrative_state = Admin_Enabled | Admin_Disabled
datatype deployment_state = Deploy_Pending | Deploy_Applying | Deploy_Applied | Deploy_Failed | Deploy_Drifted | Deploy_Rolled_Back
datatype reachability_state = Reach_Unknown | Reach_Probing | Reach_Online | Reach_Offline | Reach_Stale
datatype probe_phase = Phase_Dns | Phase_Connect | Phase_Tls | Phase_Http

fun administrative_value :: "administrative_state \<Rightarrow> string" where
  "administrative_value Admin_Enabled = ''enabled''"
| "administrative_value Admin_Disabled = ''disabled''"

fun deployment_value :: "deployment_state \<Rightarrow> string" where
  "deployment_value Deploy_Pending = ''pending''"
| "deployment_value Deploy_Applying = ''applying''"
| "deployment_value Deploy_Applied = ''applied''"
| "deployment_value Deploy_Failed = ''failed''"
| "deployment_value Deploy_Drifted = ''drifted''"
| "deployment_value Deploy_Rolled_Back = ''rolled_back''"

fun reachability_value :: "reachability_state \<Rightarrow> string" where
  "reachability_value Reach_Unknown = ''unknown''"
| "reachability_value Reach_Probing = ''probing''"
| "reachability_value Reach_Online = ''online''"
| "reachability_value Reach_Offline = ''offline''"
| "reachability_value Reach_Stale = ''stale''"

fun probe_phase_value :: "probe_phase \<Rightarrow> string" where
  "probe_phase_value Phase_Dns = ''dns''"
| "probe_phase_value Phase_Connect = ''connect''"
| "probe_phase_value Phase_Tls = ''tls''"
| "probe_phase_value Phase_Http = ''http''"

definition derive_host_summary ::
  "administrative_state \<Rightarrow> deployment_state \<Rightarrow> reachability_state \<Rightarrow> string" where
  "derive_host_summary administrative deployment reachability =
     (if administrative = Admin_Disabled then administrative_value Admin_Disabled
      else if deployment \<in> {Deploy_Failed, Deploy_Drifted, Deploy_Rolled_Back} then deployment_value deployment
      else if deployment \<in> {Deploy_Pending, Deploy_Applying} then deployment_value deployment
      else reachability_value reachability)"

lemma derive_host_summary_cases:
  "derive_host_summary a d r =
     (if a = Admin_Disabled then ''disabled'' else if d = Deploy_Applied then reachability_value r else deployment_value d)"
  by (cases d) (simp_all add: derive_host_summary_def)

end
