(* ===== verification/Routing_Table.thy ===== *)
theory Routing_Table
  imports Routing_Model Access_Lists Health
begin

text \<open>
  The tables of \<open>tables/routing.py\<close>: a routing host is a root row with its sources (domain names), upstream,
  locations and access-list links, kept as lists of rows in the order of their ids. The hooks before and after
  the framework writes the root row, the projections to the wire and to the runtime models, the host health
  status, the stream table and the configuration revisions are modelled from the payload to the rows. What
  a transaction does before an exception is rolled back, so an operation that raises has no state.
\<close>

section \<open>Rows\<close>

record host_row =
  hr_id :: int
  hr_kind :: string
  hr_owner_principal_id :: pyval
  hr_enabled :: bool
  hr_certificate_id :: "int option"
  hr_force_ssl :: bool
  hr_hsts_enabled :: bool
  hr_hsts_subdomains :: bool
  hr_http2_enabled :: bool
  hr_trust_forwarded_proto :: bool
  hr_websocket_enabled :: bool
  hr_cache_enabled :: bool
  hr_block_exploits :: bool
  hr_redirect_target :: pyval
  hr_redirect_scheme :: pyval
  hr_redirect_code :: pyval
  hr_preserve_path :: bool
  hr_advanced_config :: string
  hr_metadata :: payload
  hr_created_at :: "string option"
  hr_updated_at :: "string option"

text \<open>The check constraints of the table.\<close>

definition host_checks :: "host_row \<Rightarrow> bool" where
  "host_checks r \<longleftrightarrow>
     hr_kind r \<in> set [''proxy'', ''redirect'', ''dead''] \<and>
     (hr_redirect_scheme r = PNone \<or> hr_redirect_scheme r \<in> set [PStr ''auto'', PStr ''http'', PStr ''https'']) \<and>
     (hr_redirect_code r = PNone \<or> hr_redirect_code r \<in> set [PInt 301, PInt 302, PInt 307, PInt 308]) \<and>
     (hr_force_ssl r \<longrightarrow> hr_certificate_id r \<noteq> None) \<and>
     (hr_hsts_enabled r \<longrightarrow> hr_force_ssl r) \<and>
     (hr_hsts_subdomains r \<longrightarrow> hr_hsts_enabled r)"

record source_row =
  src_host :: int
  src_domain_name :: string

record upstream_row =
  up_host :: int
  up_protocol :: string
  up_target_kind :: string
  up_target :: string
  up_port :: int
  up_position :: int
  up_weight :: int

record location_row =
  lo_host :: int
  lo_path :: string
  lo_protocol :: string
  lo_target_kind :: string
  lo_target :: string
  lo_port :: int
  lo_forward_path :: string
  lo_advanced_config :: string
  lo_position :: nat

record host_access_row =
  ha_host :: int
  ha_access_list :: int

record observation_row =
  ob_host :: int
  ob_status :: string
  ob_phase :: string
  ob_checked_at :: int
  ob_expires_at :: int
  ob_latency_ms :: "int option"
  ob_http_status :: "int option"
  ob_error_code :: "string option"
  ob_error_detail :: "string option"

record revision_row =
  rv_host :: int
  rv_generation :: string
  rv_config_text :: string
  rv_config_digest :: string
  rv_applied :: bool
  rv_applied_at :: pyval

record routing_db =
  rdb_hosts :: "host_row list"
  rdb_sources :: "source_row list"
  rdb_upstreams :: "upstream_row list"
  rdb_locations :: "location_row list"
  rdb_access :: "host_access_row list"
  rdb_observations :: "observation_row list"
  rdb_revisions :: "revision_row list"

definition find_host :: "routing_db \<Rightarrow> int \<Rightarrow> host_row option" where
  "find_host db i = find (\<lambda>r. hr_id r = i) (rdb_hosts db)"

definition host_known :: "string set" where
  "host_known = set [''id'', ''kind'', ''owner_principal_id'', ''owner_user_id'', ''enabled'', ''certificate_id'',
     ''ssl_forced'', ''force_ssl'', ''hsts_enabled'', ''hsts_subdomains'', ''http2_support'',
     ''trust_forwarded_proto'', ''allow_websocket_upgrade'', ''caching_enabled'', ''block_exploits'',
     ''forward_domain_name'', ''forward_scheme'', ''forward_http_code'', ''preserve_path'', ''advanced_config'',
     ''domain_names'', ''forward_host'', ''forward_port'', ''target_kind'', ''locations'', ''custom_locations'',
     ''access_list_id'', ''access_list_ids'', ''created_on'', ''modified_on'', ''created_at'', ''updated_at'']"

section \<open>Validation of a payload\<close>

text \<open>\<open>str(payload.get(key) or default)\<close>, \<open>int(payload.get(key) or default)\<close>, \<open>bool(payload.get(key, False))\<close>.\<close>

definition text_or :: "string \<Rightarrow> string \<Rightarrow> payload \<Rightarrow> string" where
  "text_or key dflt p = py_str (py_or (pget key p) (PStr dflt))"

definition int_or :: "string \<Rightarrow> int \<Rightarrow> payload \<Rightarrow> py_error + int" where
  "int_or key dflt p = py_int (py_or (pget key p) (PInt dflt))"

definition flag :: "string \<Rightarrow> payload \<Rightarrow> bool" where
  "flag key p = truthy (dict_get_or p key (PBool False))"

definition ssl_forced_flag :: "payload \<Rightarrow> bool" where
  "ssl_forced_flag p = truthy (dict_get_or p ''ssl_forced'' (dict_get_or p ''force_ssl'' (PBool False)))"

definition list_or :: "string \<Rightarrow> payload \<Rightarrow> py_error + pyval list" where
  "list_or key p = py_iter (py_or (pget key p) (PList []))"

definition validate_target_fields :: "host_kind \<Rightarrow> payload \<Rightarrow> py_error + payload" where
  "validate_target_fields kind p =
     (case kind of
        Kind_Proxy \<Rightarrow>
          ebind (forward_scheme_of (text_or ''forward_scheme'' ''http'' p)) (\<lambda>_.
          ebind (target_kind_of (text_or ''target_kind'' ''dns'' p)) (\<lambda>target_kind.
          ebind (target_of (text_or ''forward_host'' [] p) target_kind ''forward_host'') (\<lambda>host.
          ebind (int_or ''forward_port'' 0 p) (\<lambda>port.
          ebind (port_of (PInt port) ''forward_port'') (\<lambda>_.
            Inr (dict_set ''forward_host'' (PStr host) p))))))
      | Kind_Redirect \<Rightarrow>
          ebind (redirect_scheme_of (text_or ''forward_scheme'' ''auto'' p)) (\<lambda>_.
          let target = normal_domain (text_or ''forward_domain_name'' [] p) in
          ebind (ensure (domain_re target)
                  (DomainValidationError ''forward_domain_name must be a valid domain'')) (\<lambda>_.
          let p = dict_set ''forward_domain_name'' (PStr target) p in
          ebind (int_or ''forward_http_code'' 301 p) (\<lambda>code.
          ebind (ensure (code \<in> redirect_codes)
                  (DomainValidationError ''forward_http_code must be one of 301, 302, 307, or 308'')) (\<lambda>_.
            Inr p))))
      | Kind_Dead \<Rightarrow> Inr p)"

definition validate_tls_fields :: "payload \<Rightarrow> py_error + unit" where
  "validate_tls_fields p =
     ebind (int_or ''certificate_id'' 0 p) (\<lambda>certificate_id.
     let force_ssl = ssl_forced_flag p; hsts_enabled = flag ''hsts_enabled'' p;
         hsts_subdomains = flag ''hsts_subdomains'' p in
     ebind (ensure (\<not> (force_ssl \<and> certificate_id = 0))
             (DomainValidationError ''forced HTTPS requires a certificate'')) (\<lambda>_.
     ebind (ensure (\<not> (hsts_enabled \<and> (\<not> force_ssl \<or> certificate_id = 0)))
             (DomainValidationError ''HSTS requires forced HTTPS and a certificate'')) (\<lambda>_.
       ensure (\<not> (hsts_subdomains \<and> \<not> hsts_enabled))
         (DomainValidationError ''HSTS subdomains require HSTS''))))"

definition location_path :: "pyval \<Rightarrow> py_error + string" where
  "location_path item = ebind (py_get ''path'' PNone item) (\<lambda>v. Inr (py_str (py_or v (PStr ''/''))))"

definition validate_payload :: "payload \<Rightarrow> py_error + payload" where
  "validate_payload p =
     ebind (host_kind_of (text_or ''kind'' ''proxy'' p)) (\<lambda>kind.
     ebind (list_or ''domain_names'' p) (\<lambda>raw_domains.
     ebind (canonical_domains raw_domains) (\<lambda>domains.
     let p = dict_set ''domain_names'' (PList (map PStr domains)) p in
     ebind (validate_target_fields kind p) (\<lambda>p.
     ebind (validate_tls_fields p) (\<lambda>_.
     ebind (list_or ''access_list_ids'' p) (\<lambda>raw_ids.
     ebind (emap py_int raw_ids) (\<lambda>access_ids.
     ebind (ensure (distinct access_ids) (DomainValidationError ''access_list_ids must be unique'')) (\<lambda>_.
     ebind (ensure (\<forall>i\<in>set access_ids. 0 < i)
             (DomainValidationError ''access_list_ids must contain positive IDs'')) (\<lambda>_.
     ebind (list_or ''locations'' p) (\<lambda>locations.
     ebind (emap location_path locations) (\<lambda>paths.
     ebind (ensure (distinct paths) (DomainValidationError ''proxy location paths must be unique'')) (\<lambda>_.
       Inr p))))))))))))"

definition assert_source_collisions :: "routing_db \<Rightarrow> payload \<Rightarrow> py_error + unit" where
  "assert_source_collisions db p =
     ebind (list_or ''domain_names'' p) (\<lambda>raw_domains.
     ebind (canonical_domains raw_domains) (\<lambda>normalized.
     ebind (if pget ''id'' p = PNone then Inr None else map_sum id Some (py_int (pget ''id'' p))) (\<lambda>exclude.
       case find (\<lambda>s. src_domain_name s \<in> set normalized \<and> exclude \<noteq> Some (src_host s)) (rdb_sources db) of
         None \<Rightarrow> Inr ()
       | Some s \<Rightarrow> Inl (CollisionError (''domain '' @ src_domain_name s @
           '' is already used by routing host '' @ int_str (src_host s))))))"

definition host_values :: "payload \<Rightarrow> py_error + host_row" where
  "host_values p =
     ebind (host_kind_of (text_or ''kind'' ''proxy'' p)) (\<lambda>kind.
     ebind (int_or ''certificate_id'' 0 p) (\<lambda>certificate.
     let certificate_id = (if certificate = 0 then None else Some certificate);
         force_ssl = (ssl_forced_flag p \<and> certificate_id \<noteq> None);
         hsts_enabled = (force_ssl \<and> flag ''hsts_enabled'' p) in
     Inr \<lparr>hr_id = 0, hr_kind = host_kind_value kind, hr_owner_principal_id = pget ''owner_principal_id'' p,
       hr_enabled = truthy (dict_get_or p ''enabled'' (PBool True)), hr_certificate_id = certificate_id,
       hr_force_ssl = force_ssl, hr_hsts_enabled = hsts_enabled,
       hr_hsts_subdomains = (hsts_enabled \<and> flag ''hsts_subdomains'' p),
       hr_http2_enabled = flag ''http2_support'' p,
       hr_trust_forwarded_proto = (force_ssl \<and> flag ''trust_forwarded_proto'' p),
       hr_websocket_enabled = flag ''allow_websocket_upgrade'' p, hr_cache_enabled = flag ''caching_enabled'' p,
       hr_block_exploits = flag ''block_exploits'' p, hr_redirect_target = pget ''forward_domain_name'' p,
       hr_redirect_scheme = pget ''forward_scheme'' p, hr_redirect_code = pget ''forward_http_code'' p,
       hr_preserve_path = flag ''preserve_path'' p, hr_advanced_config = text_or ''advanced_config'' [] p,
       hr_metadata = extension_metadata p host_known, hr_created_at = None, hr_updated_at = None\<rparr>))"

section \<open>Children\<close>

definition new_upstreams :: "int \<Rightarrow> payload \<Rightarrow> py_error + upstream_row list" where
  "new_upstreams host p =
     (if \<not> truthy (pget ''forward_host'' p) then Inr []
      else
        ebind (forward_scheme_of (text_or ''forward_scheme'' ''http'' p)) (\<lambda>protocol.
        ebind (target_kind_of (text_or ''target_kind'' ''dns'' p)) (\<lambda>target_kind.
        ebind (int_or ''forward_port'' 80 p) (\<lambda>port.
        ebind (port_of (PInt port) ''forward_port'') (\<lambda>port.
          Inr [\<lparr>up_host = host, up_protocol = forward_scheme_value protocol,
                up_target_kind = target_kind_value target_kind, up_target = py_str (pget ''forward_host'' p),
                up_port = port, up_position = 0, up_weight = 1\<rparr>])))))"

text \<open>\<open>RuntimeLocation.model_validate\<close> on one entry, read with the defaults of the call.\<close>

definition location_of_raw :: "pyval \<Rightarrow> py_error + proxy_location" where
  "location_of_raw item =
     (case item of
        PDict d \<Rightarrow>
          ebind (int_or ''forward_port'' 80 d) (\<lambda>port.
          ebind (forward_scheme_of (text_or ''forward_scheme'' ''http'' d)) (\<lambda>scheme.
          ebind (target_kind_of (text_or ''target_kind'' ''dns'' d)) (\<lambda>kind.
            validate_location \<lparr>loc_path = text_or ''path'' ''/'' d, loc_forward_scheme = scheme,
              loc_target_kind = kind, loc_forward_host = text_or ''forward_host'' [] d,
              loc_forward_port = port, loc_forward_path = text_or ''forward_path'' [] d,
              loc_advanced_config = text_or ''advanced_config'' [] d\<rparr>)))
      | _ \<Rightarrow> Inl (AttributeError ''get''))"

definition location_row_of :: "int \<Rightarrow> nat \<Rightarrow> proxy_location \<Rightarrow> location_row" where
  "location_row_of host position l = \<lparr>lo_host = host, lo_path = loc_path l,
     lo_protocol = forward_scheme_value (loc_forward_scheme l),
     lo_target_kind = target_kind_value (loc_target_kind l), lo_target = loc_forward_host l,
     lo_port = loc_forward_port l, lo_forward_path = loc_forward_path l,
     lo_advanced_config = loc_advanced_config l, lo_position = position\<rparr>"

definition raw_locations :: "payload \<Rightarrow> py_error + pyval list" where
  "raw_locations p =
     py_iter (py_or (dict_get_or p ''locations'' (dict_get_or p ''custom_locations'' (PList []))) (PList []))"

definition raw_access_ids :: "payload \<Rightarrow> py_error + pyval list" where
  "raw_access_ids p =
     (if pget ''access_list_ids'' p = PNone
      then Inr (if truthy (pget ''access_list_id'' p) then [pget ''access_list_id'' p] else [])
      else py_iter (pget ''access_list_ids'' p))"

definition replace_children :: "int \<Rightarrow> payload \<Rightarrow> routing_db \<Rightarrow> py_error + routing_db" where
  "replace_children host p db =
     (let sources = filter (\<lambda>r. src_host r \<noteq> host) (rdb_sources db);
          upstreams = filter (\<lambda>r. up_host r \<noteq> host) (rdb_upstreams db);
          locations = filter (\<lambda>r. lo_host r \<noteq> host) (rdb_locations db);
          access = filter (\<lambda>r. ha_host r \<noteq> host) (rdb_access db) in
      ebind (if truthy (pget ''domain_names'' p)
             then ebind (py_iter (pget ''domain_names'' p)) canonical_domains else Inr []) (\<lambda>domains.
      ebind (new_upstreams host p) (\<lambda>ups.
      ebind (raw_locations p) (\<lambda>raws.
      ebind (emap location_of_raw raws) (\<lambda>locs.
      ebind (raw_access_ids p) (\<lambda>raw_ids.
      ebind (emap py_int raw_ids) (\<lambda>ids.
        Inr (db\<lparr>rdb_sources := sources @ map (\<lambda>d. \<lparr>src_host = host, src_domain_name = d\<rparr>) domains,
                rdb_upstreams := upstreams @ ups,
                rdb_locations := locations @ map (\<lambda>(position, l). location_row_of host position l) (enumerate 0 locs),
                rdb_access := access @ map (\<lambda>i. \<lparr>ha_host = host, ha_access_list = i\<rparr>) ids\<rparr>))))))))"

section \<open>Projections\<close>

definition opt_pyval :: "('a \<Rightarrow> pyval) \<Rightarrow> 'a option \<Rightarrow> pyval" where
  "opt_pyval f x = (case x of None \<Rightarrow> PNone | Some v \<Rightarrow> f v)"

definition location_entry :: "location_row \<Rightarrow> pyval" where
  "location_entry l = PDict
     [(''path'', PStr (lo_path l)), (''forward_scheme'', PStr (lo_protocol l)), (''target_kind'', PStr (lo_target_kind l)),
      (''forward_host'', PStr (lo_target l)), (''forward_port'', PInt (lo_port l)),
      (''forward_path'', PStr (lo_forward_path l)), (''advanced_config'', PStr (lo_advanced_config l))]"

definition host_sources :: "routing_db \<Rightarrow> int \<Rightarrow> string list" where
  "host_sources db i = map src_domain_name (filter (\<lambda>r. src_host r = i) (rdb_sources db))"

definition first_upstream :: "routing_db \<Rightarrow> int \<Rightarrow> upstream_row option" where
  "first_upstream db i =
     (case sort_key up_position (filter (\<lambda>r. up_host r = i) (rdb_upstreams db)) of [] \<Rightarrow> None | u # _ \<Rightarrow> Some u)"

definition host_access_ids :: "routing_db \<Rightarrow> int \<Rightarrow> int list" where
  "host_access_ids db i = map ha_access_list (filter (\<lambda>r. ha_host r = i) (rdb_access db))"

definition project :: "string \<Rightarrow> routing_db \<Rightarrow> host_row \<Rightarrow> payload" where
  "project now db row =
     (let first = first_upstream db (hr_id row); access_ids = host_access_ids db (hr_id row) in
      dict_update (extensions_of (hr_metadata row))
        [(''id'', PInt (hr_id row)), (''kind'', PStr (hr_kind row)),
         (''owner_user_id'', hr_owner_principal_id row), (''owner_principal_id'', hr_owner_principal_id row),
         (''enabled'', PInt (of_bool (hr_enabled row))),
         (''certificate_id'', PInt (case hr_certificate_id row of None \<Rightarrow> 0 | Some i \<Rightarrow> i)),
         (''ssl_forced'', PBool (hr_force_ssl row)), (''hsts_enabled'', PBool (hr_hsts_enabled row)),
         (''hsts_subdomains'', PBool (hr_hsts_subdomains row)), (''http2_support'', PBool (hr_http2_enabled row)),
         (''trust_forwarded_proto'', PBool (hr_trust_forwarded_proto row)),
         (''allow_websocket_upgrade'', PBool (hr_websocket_enabled row)),
         (''caching_enabled'', PBool (hr_cache_enabled row)), (''block_exploits'', PBool (hr_block_exploits row)),
         (''advanced_config'', PStr (hr_advanced_config row)),
         (''domain_names'', PList (map PStr (host_sources db (hr_id row)))),
         (''forward_scheme'', case first of Some u \<Rightarrow> PStr (up_protocol u)
            | None \<Rightarrow> py_or (hr_redirect_scheme row) (PStr ''http'')),
         (''forward_host'', opt_pyval (\<lambda>u. PStr (up_target u)) first),
         (''forward_port'', opt_pyval (\<lambda>u. PInt (up_port u)) first),
         (''target_kind'', opt_pyval (\<lambda>u. PStr (up_target_kind u)) first),
         (''forward_domain_name'', hr_redirect_target row), (''forward_http_code'', hr_redirect_code row),
         (''preserve_path'', PBool (hr_preserve_path row)),
         (''access_list_ids'', PList (map PInt access_ids)),
         (''access_list_id'', PInt (case access_ids of [] \<Rightarrow> 0 | i # _ \<Rightarrow> i)),
         (''locations'', PList (map location_entry (filter (\<lambda>r. lo_host r = hr_id row) (rdb_locations db)))),
         (''created_on'', PStr (iso now (hr_created_at row))), (''modified_on'', PStr (iso now (hr_updated_at row)))])"

section \<open>Runtime models\<close>

definition location_runtime :: "location_row \<Rightarrow> py_error + proxy_location" where
  "location_runtime l =
     ebind (forward_scheme_of (lo_protocol l)) (\<lambda>scheme.
     ebind (target_kind_of (lo_target_kind l)) (\<lambda>kind.
       validate_location \<lparr>loc_path = lo_path l, loc_forward_scheme = scheme, loc_target_kind = kind,
         loc_forward_host = lo_target l, loc_forward_port = lo_port l, loc_forward_path = lo_forward_path l,
         loc_advanced_config = lo_advanced_config l\<rparr>))"

definition optional_text :: "pyval \<Rightarrow> py_error + string option" where
  "optional_text v = (if v = PNone then Inr None else ebind (field_str v) (\<lambda>s. Inr (Some s)))"

text \<open>The scheme is read as \<open>ForwardScheme | RedirectScheme\<close>, and kept as its text.\<close>

definition host_scheme :: "pyval \<Rightarrow> py_error + string" where
  "host_scheme v = ebind (field_str v) (\<lambda>s.
     if s \<in> set [''http'', ''https'', ''auto''] then Inr s else Inl (ValueError ''forward_scheme''))"

text \<open>\<open>RuntimeHost.model_validate(_runtime_projection(db, row))\<close>.\<close>

definition runtime_projection :: "routing_db \<Rightarrow> host_row \<Rightarrow> py_error + runtime_host" where
  "runtime_projection db row =
     (let first = first_upstream db (hr_id row); access_ids = host_access_ids db (hr_id row) in
      ebind (py_int (py_or (hr_owner_principal_id row) (PInt 1))) (\<lambda>owner.
      ebind (host_kind_of (hr_kind row)) (\<lambda>kind.
      ebind (host_scheme (case first of Some u \<Rightarrow> py_or (PStr (up_protocol u)) (PStr ''http'')
               | None \<Rightarrow> py_or (hr_redirect_scheme row) (PStr ''http''))) (\<lambda>scheme.
      ebind (optional_text (hr_redirect_target row)) (\<lambda>target.
      ebind (field_int (py_or (hr_redirect_code row) (PInt 301))) (\<lambda>code.
      ebind (emap location_runtime (filter (\<lambda>r. lo_host r = hr_id row) (rdb_locations db))) (\<lambda>locations.
        validate_host
          \<lparr>rh_id = hr_id row, rh_kind = kind, rh_domain_names = host_sources db (hr_id row),
           rh_forward_scheme = scheme, rh_forward_host = map_option up_target first,
           rh_forward_port = map_option up_port first, rh_forward_domain_name = target,
           rh_forward_http_code = code, rh_preserve_path = hr_preserve_path row, rh_owner_user_id = owner,
           rh_access_list_id = (case access_ids of [] \<Rightarrow> 0 | i # _ \<Rightarrow> i), rh_access_list_ids = access_ids,
           rh_ssl = \<lparr>tls_certificate_id = (case hr_certificate_id row of None \<Rightarrow> 0 | Some i \<Rightarrow> i),
             tls_forced = hr_force_ssl row, tls_http2 = hr_http2_enabled row, tls_hsts = hr_hsts_enabled row,
             tls_hsts_subdomains = hr_hsts_subdomains row,
             tls_trust_forwarded_proto = hr_trust_forwarded_proto row\<rparr>,
           rh_caching_enabled = hr_cache_enabled row, rh_block_exploits = hr_block_exploits row,
           rh_allow_websocket_upgrade = hr_websocket_enabled row, rh_advanced_config = hr_advanced_config row,
           rh_locations = locations, rh_enabled = hr_enabled row, rh_meta = hr_metadata row\<rparr>)))))))"

definition runtime_list :: "routing_db \<Rightarrow> py_error + runtime_host list" where
  "runtime_list db = emap (runtime_projection db) (rdb_hosts db)"

definition runtime_read :: "routing_db \<Rightarrow> int \<Rightarrow> py_error + runtime_host" where
  "runtime_read db i =
     ebind (note_none (ValueError ''routing host not found'') (find_host db i)) (runtime_projection db)"

section \<open>The hooks\<close>

text \<open>\<open>enable\<close> and \<open>disable\<close> set one field of the payload.\<close>

definition enable_payload :: "payload \<Rightarrow> payload" where
  "enable_payload p = dict_set ''enabled'' (PBool True) p"

definition disable_payload :: "payload \<Rightarrow> payload" where
  "disable_payload p = dict_set ''enabled'' (PBool False) p"

text \<open>The payload of an update is laid over the projection of the row.\<close>

definition merge_update :: "string \<Rightarrow> string \<Rightarrow> payload \<Rightarrow> routing_db \<Rightarrow> py_error + payload" where
  "merge_update now alias p db =
     (if casefold alias = ''update''
      then ebind (note_none (KeyError ''id'') (dict_get p ''id'')) (\<lambda>v.
           ebind (py_int v) (\<lambda>i.
             Inr (case find_host db i of None \<Rightarrow> p | Some row \<Rightarrow> dict_update (project now db row) p)))
      else Inr p)"

text \<open>The aggregate kept for the hook after the write, the values of the root row, and its id if given.\<close>

definition prepare :: "string \<Rightarrow> string \<Rightarrow> payload \<Rightarrow> routing_db \<Rightarrow> py_error + payload \<times> host_row \<times> int option" where
  "prepare now alias p db =
     ebind (merge_update now alias p db) (\<lambda>merged.
     ebind (validate_payload merged) (\<lambda>aggregate.
     ebind (assert_source_collisions db aggregate) (\<lambda>_.
     ebind (host_values aggregate) (\<lambda>root.
     ebind (if pget ''id'' aggregate = PNone then Inr None else map_sum id Some (py_int (pget ''id'' aggregate))) (\<lambda>i.
       Inr (aggregate, root, i))))))"

definition persist :: "string \<Rightarrow> host_row \<Rightarrow> payload \<Rightarrow> routing_db \<Rightarrow> py_error + routing_db \<times> payload" where
  "persist now row aggregate db =
     ebind (replace_children (hr_id row) aggregate db) (\<lambda>db'. Inr (db', project now db' row))"

definition project_list :: "string \<Rightarrow> string option \<Rightarrow> routing_db \<Rightarrow> host_row list \<Rightarrow> payload list" where
  "project_list now kind db rows =
     map (project now db) (filter (\<lambda>r. case kind of None \<Rightarrow> True | Some k \<Rightarrow> hr_kind r = k) rows)"

text \<open>Before a delete: what is remembered of the host, and the rows that belong to it are removed.\<close>

definition deleted_resource :: "string \<Rightarrow> routing_db \<Rightarrow> host_row \<Rightarrow> payload" where
  "deleted_resource now db row =
     (let projected = project now db row in
      [(''id'', PInt (hr_id row)), (''kind'', PStr (hr_kind row)),
       (''domain_names'', py_or (pget ''domain_names'' projected) (PList [])),
       (''forward_host'', pget ''forward_host'' projected), (''forward_port'', pget ''forward_port'' projected)])"

definition delete_children :: "string \<Rightarrow> int \<Rightarrow> routing_db \<Rightarrow> py_error + routing_db \<times> payload option" where
  "delete_children now i db =
     ebind (replace_children i [] db) (\<lambda>db'.
       Inr (db'\<lparr>rdb_observations := filter (\<lambda>r. ob_host r \<noteq> i) (rdb_observations db'),
                rdb_revisions := filter (\<lambda>r. rv_host r \<noteq> i) (rdb_revisions db')\<rparr>,
            map_option (deleted_resource now db) (find_host db i)))"

definition validate_op :: "payload \<Rightarrow> routing_db \<Rightarrow> py_error + payload" where
  "validate_op p db =
     ebind (validate_payload p) (\<lambda>p.
     ebind (assert_source_collisions db p) (\<lambda>_. Inr [(''valid'', PBool True)]))"

section \<open>Host health\<close>

text \<open>What the running control plane answers; \<open>None\<close> where no runtime is configured.\<close>

record runtime_view =
  rt_applying :: "int list"
  rt_active_generation :: "string option"
  rt_drifted :: "revision_row \<Rightarrow> bool"

definition latest_revision :: "routing_db \<Rightarrow> int \<Rightarrow> revision_row option" where
  "latest_revision db i =
     (case filter (\<lambda>r. rv_host r = i) (rdb_revisions db) of [] \<Rightarrow> None | rs \<Rightarrow> Some (last rs))"

definition truthy_text :: "string option \<Rightarrow> bool" where
  "truthy_text x = (case x of None \<Rightarrow> False | Some s \<Rightarrow> s \<noteq> [])"

definition deployment_of :: "runtime_view option \<Rightarrow> routing_db \<Rightarrow> int \<Rightarrow> deployment_state" where
  "deployment_of runtime db i =
     (if (case runtime of None \<Rightarrow> False | Some r \<Rightarrow> i \<in> set (rt_applying r)) then Deploy_Applying
      else case latest_revision db i of
        None \<Rightarrow> Deploy_Pending
      | Some revision \<Rightarrow>
          let active = Option.bind runtime rt_active_generation in
          if \<not> rv_applied revision then (if truthy_text active then Deploy_Rolled_Back else Deploy_Failed)
          else if truthy_text active \<and> Some (rv_generation revision) \<noteq> active then Deploy_Pending
          else if (case runtime of None \<Rightarrow> False | Some r \<Rightarrow> rt_drifted r revision) then Deploy_Drifted
          else Deploy_Applied)"

text \<open>The newest observation: the greatest time of check, and among equal times the greatest id.\<close>

definition latest_observation :: "routing_db \<Rightarrow> int \<Rightarrow> observation_row option" where
  "latest_observation db i =
     (case sort_key ob_checked_at (filter (\<lambda>r. ob_host r = i) (rdb_observations db)) of
        [] \<Rightarrow> None | rs \<Rightarrow> Some (last rs))"

definition reachability_of :: "string \<Rightarrow> py_error + reachability_state" where
  "reachability_of =
     enum_of reachability_value [Reach_Unknown, Reach_Probing, Reach_Online, Reach_Offline, Reach_Stale]"

definition status_document ::
  "host_row \<Rightarrow> administrative_state \<Rightarrow> deployment_state \<Rightarrow> reachability_state \<Rightarrow> observation_row option \<Rightarrow> payload" where
  "status_document row administrative deployment reachability observation =
     [(''id'', PInt (hr_id row)), (''owner_principal_id'', hr_owner_principal_id row),
      (''administrative_state'', PStr (administrative_value administrative)),
      (''deployment_state'', PStr (deployment_value deployment)),
      (''reachability_state'', PStr (reachability_value reachability)),
      (''summary_status'', PStr (derive_host_summary administrative deployment reachability)),
      (''checked_at'', opt_pyval (\<lambda>b. PInt (ob_checked_at b)) observation),
      (''expires_at'', opt_pyval (\<lambda>b. PInt (ob_expires_at b)) observation),
      (''latency_ms'', opt_pyval PInt (Option.bind observation ob_latency_ms)),
      (''http_status'', opt_pyval PInt (Option.bind observation ob_http_status)),
      (''phase'', opt_pyval (\<lambda>b. PStr (ob_phase b)) observation),
      (''error_code'', opt_pyval PStr (Option.bind observation ob_error_code)),
      (''error_detail'', opt_pyval PStr (Option.bind observation ob_error_detail))]"

definition health_status :: "runtime_view option \<Rightarrow> int \<Rightarrow> routing_db \<Rightarrow> host_row \<Rightarrow> py_error + payload" where
  "health_status runtime now db row =
     (let observation = latest_observation db (hr_id row);
          administrative = (if hr_enabled row then Admin_Enabled else Admin_Disabled);
          deployment = deployment_of runtime db (hr_id row) in
      ebind (case observation of
               None \<Rightarrow> Inr Reach_Unknown
             | Some b \<Rightarrow> ebind (reachability_of (ob_status b)) (\<lambda>r.
                 Inr (if ob_expires_at b \<le> now then Reach_Stale else r))) (\<lambda>reachability.
        Inr (status_document row administrative deployment reachability observation)))"

definition health_read :: "runtime_view option \<Rightarrow> int \<Rightarrow> routing_db \<Rightarrow> int \<Rightarrow> py_error + payload" where
  "health_read runtime now db i =
     (case find_host db i of
        None \<Rightarrow> Inl (LookupError ''proxy host not found'')
      | Some row \<Rightarrow> if hr_kind row \<noteq> ''proxy'' then Inl (LookupError ''proxy host not found'')
          else health_status runtime now db row)"

definition health_list :: "runtime_view option \<Rightarrow> int \<Rightarrow> routing_db \<Rightarrow> py_error + payload list" where
  "health_list runtime now db =
     emap (health_status runtime now db) (filter (\<lambda>r. hr_kind r = ''proxy'') (rdb_hosts db))"

record probe_target =
  pt_host :: string
  pt_port :: int
  pt_scheme :: string

record probe_result =
  pr_status :: reachability_state
  pr_phase :: probe_phase
  pr_checked_at :: int
  pr_latency_ms :: "int option"
  pr_http_status :: "int option"
  pr_error_code :: "string option"
  pr_error_detail :: "string option"

definition observation_of :: "int \<Rightarrow> int \<Rightarrow> probe_result \<Rightarrow> observation_row" where
  "observation_of i freshness result =
     \<lparr>ob_host = i, ob_status = reachability_value (pr_status result), ob_phase = probe_phase_value (pr_phase result),
      ob_checked_at = pr_checked_at result, ob_expires_at = pr_checked_at result + freshness,
      ob_latency_ms = pr_latency_ms result, ob_http_status = pr_http_status result,
      ob_error_code = pr_error_code result, ob_error_detail = pr_error_detail result\<rparr>"

text \<open>\<open>prober\<close> is the network; \<open>lease\<close> tells whether the lease of the probe was obtained, \<open>None\<close> where there is no
  application to ask. The lease is released afterwards in every case.\<close>

definition probe ::
  "(probe_target \<Rightarrow> probe_result) option \<Rightarrow> int \<Rightarrow> bool option \<Rightarrow> runtime_view option \<Rightarrow> string \<Rightarrow> int \<Rightarrow> routing_db \<Rightarrow>
     py_error + routing_db \<times> payload" where
  "probe prober freshness lease runtime now i db =
     (case prober of
        None \<Rightarrow> Inl (RuntimeError ''proxy-host health probing is not configured'')
      | Some probe \<Rightarrow>
         (case find_host db i of
            None \<Rightarrow> Inl (LookupError ''proxy host not found'')
          | Some row \<Rightarrow>
              if hr_kind row \<noteq> ''proxy'' then Inl (LookupError ''proxy host not found'')
              else if \<not> hr_enabled row then Inl (ValueError ''disabled proxy hosts are not probed'')
              else if lease = Some False then Inl (ValueError ''proxy host probe is already in progress'')
              else
                let projected = project now db row in
                ebind (note_none (KeyError ''forward_port'') (dict_get projected ''forward_port'')) (\<lambda>p.
                ebind (py_int p) (\<lambda>port.
                let result = probe \<lparr>pt_host = py_str (pget ''forward_host'' projected), pt_port = port,
                      pt_scheme = text_or ''forward_scheme'' ''http'' projected\<rparr>;
                    observation = observation_of i freshness result in
                Inr (db\<lparr>rdb_observations := rdb_observations db @ [observation]\<rparr>,
                     status_document row Admin_Enabled (deployment_of runtime db i) (pr_status result)
                       (Some observation))))))"

section \<open>Streams\<close>

record stream_row =
  sw_id :: int
  sw_owner_principal_id :: "int option"
  sw_protocol :: string
  sw_incoming_port :: int
  sw_target_kind :: string
  sw_target :: string
  sw_target_port :: int
  sw_certificate_id :: "int option"
  sw_enabled :: bool
  sw_metadata :: payload

text \<open>The constraints of the table: one on all rows, the others on each.\<close>

definition stream_unique :: "stream_row list \<Rightarrow> bool" where
  "stream_unique rows \<longleftrightarrow> distinct (map (\<lambda>r. (sw_incoming_port r, sw_protocol r)) rows)"

definition stream_checks :: "stream_row \<Rightarrow> bool" where
  "stream_checks r \<longleftrightarrow>
     sw_protocol r \<in> set [''tcp'', ''udp'', ''tcp+udp''] \<and> sw_target_kind r \<in> set [''ip'', ''dns'', ''docker''] \<and>
     1 \<le> sw_incoming_port r \<and> sw_incoming_port r \<le> 65535 \<and> 1 \<le> sw_target_port r \<and> sw_target_port r \<le> 65535 \<and>
     (sw_certificate_id r \<noteq> None \<longrightarrow> sw_protocol r \<in> set [''tcp'', ''tcp+udp''])"

definition stream_conflicts :: "stream_protocol \<Rightarrow> string list" where
  "stream_conflicts protocol =
     (case protocol of
        Stream_Tcp \<Rightarrow> [''tcp'', ''tcp+udp'']
      | Stream_Udp \<Rightarrow> [''udp'', ''tcp+udp'']
      | Stream_Tcp_Udp \<Rightarrow> [''tcp'', ''udp'', ''tcp+udp''])"

definition assert_port_available ::
  "stream_row list \<Rightarrow> int \<Rightarrow> stream_protocol \<Rightarrow> int option \<Rightarrow> py_error + unit" where
  "assert_port_available rows incoming_port protocol exclude =
     ensure (\<not> (\<exists>r\<in>set rows. sw_incoming_port r = incoming_port \<and>
               sw_protocol r \<in> set (stream_conflicts protocol) \<and> exclude \<noteq> Some (sw_id r)))
       (CollisionError (''stream port '' @ int_str incoming_port @ ''/'' @ stream_protocol_value protocol @
          '' is already in use''))"

definition stream_validate :: "payload \<Rightarrow> stream_row list \<Rightarrow> py_error + payload" where
  "stream_validate p rows =
     ebind (stream_protocol_of (text_or ''protocol'' ''tcp'' p)) (\<lambda>protocol.
     ebind (ebind (note_none (KeyError ''incoming_port'') (dict_get p ''incoming_port'')) py_int) (\<lambda>incoming.
     ebind (port_of (PInt incoming) ''incoming_port'') (\<lambda>incoming_port.
     ebind (ebind (note_none (KeyError ''target_port'') (dict_get p ''target_port'')) py_int) (\<lambda>target_port.
     ebind (port_of (PInt target_port) ''target_port'') (\<lambda>_.
     ebind (target_kind_of (text_or ''target_kind'' ''dns'' p)) (\<lambda>kind.
     ebind (target_of (text_or ''target'' [] p) kind ''target'') (\<lambda>_.
     ebind (if pget ''id'' p = PNone then Inr None else map_sum id Some (py_int (pget ''id'' p))) (\<lambda>exclude.
     ebind (assert_port_available rows incoming_port protocol exclude) (\<lambda>_.
       Inr [(''valid'', PBool True)])))))))))"

definition stream_projection :: "stream_row \<Rightarrow> py_error + runtime_stream" where
  "stream_projection r =
     ebind (stream_protocol_of (sw_protocol r)) (\<lambda>protocol.
     ebind (target_kind_of (sw_target_kind r)) (\<lambda>kind.
       validate_stream \<lparr>st_id = sw_id r, st_incoming_port = sw_incoming_port r, st_forwarding_host = sw_target r,
         st_forwarding_port = sw_target_port r, st_protocol = protocol, st_target_kind = kind,
         st_owner_user_id = (case sw_owner_principal_id r of None \<Rightarrow> 1 | Some i \<Rightarrow> if i = 0 then 1 else i),
         st_certificate_id = (case sw_certificate_id r of None \<Rightarrow> 0 | Some i \<Rightarrow> i),
         st_enabled = sw_enabled r, st_meta = sw_metadata r\<rparr>))"

definition stream_runtime_list :: "stream_row list \<Rightarrow> py_error + runtime_stream list" where
  "stream_runtime_list rows = emap stream_projection rows"

definition stream_runtime_read :: "stream_row list \<Rightarrow> int \<Rightarrow> py_error + runtime_stream" where
  "stream_runtime_read rows i =
     ebind (note_none (ValueError ''stream route not found'') (find (\<lambda>r. sw_id r = i) rows)) stream_projection"

section \<open>Configuration revisions\<close>

text \<open>A revision is recorded once per host and generation; a second record of it gives the first back.\<close>

definition record_revision :: "payload \<Rightarrow> routing_db \<Rightarrow> py_error + routing_db \<times> revision_row" where
  "record_revision p db =
     ebind (ebind (note_none (KeyError ''routing_host_id'') (dict_get p ''routing_host_id'')) py_int) (\<lambda>host.
     ebind (note_none (KeyError ''generation'') (dict_get p ''generation'')) (\<lambda>g.
     case find (\<lambda>r. rv_host r = host \<and> rv_generation r = py_str g) (rdb_revisions db) of
       Some row \<Rightarrow> Inr (db, row)
     | None \<Rightarrow>
         ebind (note_none (KeyError ''config_text'') (dict_get p ''config_text'')) (\<lambda>text.
         ebind (note_none (KeyError ''config_digest'') (dict_get p ''config_digest'')) (\<lambda>digest.
         let row = \<lparr>rv_host = host, rv_generation = py_str g, rv_config_text = py_str text,
               rv_config_digest = py_str digest, rv_applied = truthy (pget ''applied'' p),
               rv_applied_at = pget ''applied_at'' p\<rparr> in
         Inr (db\<lparr>rdb_revisions := rdb_revisions db @ [row]\<rparr>, row)))))"

end
