(* ===== verification/Routing_Laws.thy ===== *)
theory Routing_Laws
  imports Routing_Table
begin

text \<open>What the routing tables promise: domain names stay unique, a host that was written can be read back as a
  runtime model, and the stream check keeps the inventory free of collisions.\<close>

section \<open>Targets\<close>

lemma nonblank: "c \<in> set s \<Longrightarrow> \<not> is_space c \<Longrightarrow> strip s \<noteq> []"
proof
  assume c: "c \<in> set s" "\<not> is_space c" and "strip s = []"
  then have "\<forall>c\<in>set (dropWhile is_space s). is_space c"
    unfolding strip_def strip_by_def lstrip_by_def by (metis rstrip_by_prefix append_Nil)
  then have "dropWhile is_space s = []" by (metis hd_dropWhile hd_in_set)
  with c show False by (simp add: dropWhile_eq_Nil_conv)
qed

lemma join_sep_mem: "2 \<le> length ws \<Longrightarrow> set sep \<subseteq> set (join sep ws)"
  by (induction sep ws rule: join.induct) auto

lemma canonical_ip_nonblank:
  assumes "canonical_ip s = Some t"
  shows "strip t \<noteq> []"
proof -
  have v4: "CHR ''.'' \<in> set (ipv4_str v)" for v
    unfolding ipv4_str_def by (rule subsetD [OF join_sep_mem]) simp_all
  have l: "length (ipv6_hextets v) = 8" for v by (simp add: ipv6_hextets_def)
  have v6: "CHR '':'' \<in> set (ipv6_str v)" for v
  proof (cases "snd (best_run (ipv6_hextets v)) \<le> 1")
    case True
    have "set '':'' \<subseteq> set (join '':'' (map hex_str (ipv6_hextets v)))" by (rule join_sep_mem) (simp add: l)
    with True show ?thesis by (simp add: ipv6_str_def Let_def case_prod_beta)
  next
    case False
    then show ?thesis by (simp add: ipv6_str_def Let_def case_prod_beta)
  qed
  have "CHR ''.'' \<in> set t \<or> CHR '':'' \<in> set t"
    using assms v4 v6 by (auto simp: canonical_ip_def split: option.splits)
  moreover have "\<not> is_space CHR ''.''" "\<not> is_space CHR '':''" by (simp_all add: is_space_def char_nat_def)
  ultimately show ?thesis using nonblank by blast
qed

lemma label_hd: "label_ok l \<Longrightarrow> hd l \<in> set l \<and> \<not> is_space (hd l)"
  by (auto simp: label_ok_def is_alnum_not_space)

lemma split_on_mid: "split_on d (m @ d # s) = split_on d m @ split_on d s"
proof (induction m)
  case (Cons c m)
  obtain w ws where "split_on d m = w # ws" by (meson neq_Nil_conv split_on_not_Nil)
  with Cons show ?case by simp
qed simp

lemma split_on_chars: "c \<in> set s \<Longrightarrow> c \<noteq> d \<Longrightarrow> \<exists>w\<in>set (split_on d s). c \<in> set w"
proof (induction s)
  case (Cons x s)
  obtain w ws where w: "split_on d s = w # ws" by (meson neq_Nil_conv split_on_not_Nil)
  from Cons show ?case by (auto simp: w)
qed simp

lemma dns_name_nonblank: "dns_name_ok n \<Longrightarrow> n \<noteq> [] \<and> \<not> is_space (hd n) \<and> \<not> is_space (last n) \<and> last n \<noteq> CHR ''.'' \<and> casefold n = n"
proof -
  assume d: "dns_name_ok n"
  let ?ls = "split_on CHR ''.'' n"
  have ok: "label_ok l \<and> casefold l = l" if "l \<in> set ?ls" for l using d that by (simp add: dns_name_ok_def)
  have h: "hd ?ls \<in> set ?ls" "last ?ls \<in> set ?ls" by simp_all
  have ne: "n \<noteq> []" using ok [OF h(1)] by (auto simp: label_ok_def)
  have hn: "hd n \<noteq> CHR ''.''"
    using ok [OF h(1)] ne by (cases n) (auto simp: label_ok_def)
  have ln: "last n \<noteq> CHR ''.''"
  proof
    assume "last n = CHR ''.''"
    then obtain m where m: "n = m @ [CHR ''.'']" using ne by (metis append_butlast_last_id)
    from ok [of "[]"] show False by (simp add: m split_on_mid label_ok_def)
  qed
  have a: "is_alnum (hd n)" "is_alnum (last n)"
    using split_on_hd [OF ne hn] split_on_last [OF ne ln] ok h by (metis label_ok_def)+
  have "\<not> is_upper c" if "c \<in> set n" for c
  proof (cases "c = CHR ''.''")
    case True
    then show ?thesis by (simp add: is_upper_def char_nat_def)
  next
    case False
    from split_on_chars [OF that False] obtain l where "l \<in> set ?ls" "c \<in> set l" by blast
    with ok show ?thesis using casefold_not_upper by metis
  qed
  then have "casefold n = n" by (simp add: casefold_id)
  with ne a ln show ?thesis by (auto simp: is_alnum_not_space)
qed

lemma docker_name_nonblank: "docker_name_ok n \<Longrightarrow> n \<noteq> [] \<and> \<not> is_space (hd n) \<and> \<not> is_space (last n)"
proof -
  assume d: "docker_name_ok n"
  have "\<not> is_space c" if "c \<in> set n" for c
  proof -
    have "is_alnum c \<or> c \<in> set ''_.-''" using d that by (simp add: docker_name_ok_def)
    moreover have "\<forall>c\<in>set ''_.-''. \<not> is_space c" by (simp add: is_space_def char_nat_def)
    ultimately show ?thesis using is_alnum_not_space by blast
  qed
  with d show ?thesis by (auto simp: docker_name_ok_def)
qed

lemma target_of_nonblank: "target_of v k name = Inr t \<Longrightarrow> strip t \<noteq> []"
proof (cases k)
  case Target_Ip
  moreover assume "target_of v k name = Inr t"
  ultimately have "canonical_ip (strip v) = Some t" by (simp add: target_of_def Let_def split: if_splits)
  then show ?thesis by (rule canonical_ip_nonblank)
next
  case Target_Dns
  moreover assume "target_of v k name = Inr t"
  ultimately have "dns_name_ok t" by (simp add: target_of_def Let_def split: if_splits)
  from dns_name_nonblank [OF this] show ?thesis by (simp add: strip_id)
next
  case Target_Docker
  moreover assume "target_of v k name = Inr t"
  ultimately have "docker_name_ok t" by (simp add: target_of_def Let_def split: if_splits)
  from docker_name_nonblank [OF this] show ?thesis by (simp add: strip_id)
qed

text \<open>Reading a name again leaves it as it is; addresses are left out, see the header.\<close>

lemma target_of_idem:
  assumes "target_of v k name = Inr t" "k \<noteq> Target_Ip"
  shows "target_of t k name' = Inr t"
proof (cases k)
  case Target_Dns
  with assms have d: "dns_name_ok t" by (auto simp: target_of_def Let_def split: if_splits)
  note n = dns_name_nonblank [OF d]
  then have "strip t = t" "rstrip_dot t = t" by (auto simp: strip_id rstrip_dot_def rstrip_by_id)
  with n d Target_Dns show ?thesis by (simp add: target_of_def Let_def)
next
  case Target_Docker
  with assms have d: "docker_name_ok t" by (auto simp: target_of_def Let_def split: if_splits)
  note n = docker_name_nonblank [OF d]
  then have "strip t = t" by (auto simp: strip_id)
  with n d Target_Docker show ?thesis by (simp add: target_of_def Let_def)
qed (use assms in simp)

lemma validate_location_idem:
  assumes "validate_location l = Inr m" "loc_target_kind l \<noteq> Target_Ip"
  shows "validate_location m = Inr m"
proof -
  from assms obtain h where h: "target_of (loc_forward_host l) (loc_target_kind l) ''location forward_host'' = Inr h"
    and m: "m = l\<lparr>loc_forward_host := h\<rparr>" and "startswith ''/'' (loc_path l)"
    "1 \<le> loc_forward_port l" "loc_forward_port l \<le> 65535" "loc_forward_path l = [] \<or> startswith ''/'' (loc_forward_path l)"
    by (auto simp: validate_location_def result_simps port_of_def split: if_splits)
  moreover have "strip h \<noteq> []" using h by (rule target_of_nonblank)
  moreover have "target_of h (loc_target_kind l) ''location forward_host'' = Inr h"
    using h assms(2) by (rule target_of_idem)
  ultimately show ?thesis by (auto simp: validate_location_def result_simps port_of_def)
qed

section \<open>What validation leaves\<close>

lemma pget_set [simp]: "pget k (dict_set k' v p) = (if k = k' then v else pget k p)"
  by (simp add: pget_def)

lemma text_or_set [simp]: "k \<noteq> k' \<Longrightarrow> text_or k d (dict_set k' v p) = text_or k d p"
  by (simp add: text_or_def)

lemma int_or_set [simp]: "k \<noteq> k' \<Longrightarrow> int_or k d (dict_set k' v p) = int_or k d p"
  by (simp add: int_or_def)

lemma list_or_set [simp]: "k \<noteq> k' \<Longrightarrow> list_or k (dict_set k' v p) = list_or k p"
  by (simp add: list_or_def)

definition target_checked :: "host_kind \<Rightarrow> payload \<Rightarrow> bool" where
  "target_checked kind q \<longleftrightarrow>
     (case kind of
        Kind_Proxy \<Rightarrow> \<exists>scheme tk raw host port. forward_scheme_of (text_or ''forward_scheme'' ''http'' q) = Inr scheme \<and>
          target_kind_of (text_or ''target_kind'' ''dns'' q) = Inr tk \<and>
          target_of raw tk ''forward_host'' = Inr host \<and> pget ''forward_host'' q = PStr host \<and>
          int_or ''forward_port'' 0 q = Inr port \<and> 1 \<le> port \<and> port \<le> 65535
      | Kind_Redirect \<Rightarrow> \<exists>target code. pget ''forward_domain_name'' q = PStr target \<and> domain_re target \<and>
          normal_domain target = target \<and> int_or ''forward_http_code'' 301 q = Inr code \<and> code \<in> redirect_codes
      | Kind_Dead \<Rightarrow> True)"

lemma validate_target_fields_checked:
  assumes "validate_target_fields kind p = Inr q"
  shows "target_checked kind q"
  using assms
  by (cases kind) (auto simp: validate_target_fields_def target_checked_def result_simps Let_def port_of_def
      normal_domain_idem split: if_splits)

lemma validate_target_fields_other:
  assumes "validate_target_fields kind p = Inr q" "k \<noteq> ''forward_host''" "k \<noteq> ''forward_domain_name''"
  shows "dict_get q k = dict_get p k"
  using assms by (cases kind) (auto simp: validate_target_fields_def result_simps Let_def)

definition payload_checked :: "payload \<Rightarrow> bool" where
  "payload_checked q \<longleftrightarrow>
     (\<exists>kind ds ids raws paths raw_ids. host_kind_of (text_or ''kind'' ''proxy'' q) = Inr kind \<and> target_checked kind q \<and>
        pget ''domain_names'' q = PList (map PStr ds) \<and> canonical_domains (map PStr ds) = Inr ds \<and>
        validate_tls_fields q = Inr () \<and>
        list_or ''access_list_ids'' q = Inr raw_ids \<and> emap py_int raw_ids = Inr ids \<and> distinct ids \<and> (\<forall>i\<in>set ids. 0 < i) \<and>
        list_or ''locations'' q = Inr raws \<and> emap location_path raws = Inr paths \<and> distinct paths)"

lemma validate_payload_checked:
  assumes "validate_payload p = Inr q"
  shows "payload_checked q"
proof -
  from assms [unfolded validate_payload_def Let_def] obtain kind raw_domains ds raw_ids ids raws paths where
    k: "host_kind_of (text_or ''kind'' ''proxy'' p) = Inr kind" and ds: "canonical_domains raw_domains = Inr ds"
    and t: "validate_target_fields kind (dict_set ''domain_names'' (PList (map PStr ds)) p) = Inr q"
    and r: "validate_tls_fields q = Inr ()" "list_or ''access_list_ids'' q = Inr raw_ids" "emap py_int raw_ids = Inr ids"
      "distinct ids" "\<forall>i\<in>set ids. 0 < i" "list_or ''locations'' q = Inr raws" "emap location_path raws = Inr paths"
      "distinct paths"
    by (auto simp: result_simps)
  note same = validate_target_fields_other [OF t]
  have "text_or ''kind'' ''proxy'' q = text_or ''kind'' ''proxy'' p"
    "pget ''domain_names'' q = PList (map PStr ds)"
    by (simp_all add: text_or_def pget_def dict_get_or_def same)
  with k r validate_target_fields_checked [OF t] canonical_domains_idem [OF ds] show ?thesis
    unfolding payload_checked_def by (metis (no_types, lifting))
qed

section \<open>What writing the children leaves\<close>

lemma replace_children_rows:
  assumes "replace_children host p db = Inr db'"
  obtains domains ups raws locs raw_ids ids where
    "(if truthy (pget ''domain_names'' p) then ebind (py_iter (pget ''domain_names'' p)) canonical_domains else Inr []) = Inr domains"
    "new_upstreams host p = Inr ups" "raw_locations p = Inr raws" "emap location_of_raw raws = Inr locs"
    "raw_access_ids p = Inr raw_ids" "emap py_int raw_ids = Inr ids"
    "rdb_sources db' = filter (\<lambda>r. src_host r \<noteq> host) (rdb_sources db) @ map (\<lambda>d. \<lparr>src_host = host, src_domain_name = d\<rparr>) domains"
    "rdb_upstreams db' = filter (\<lambda>r. up_host r \<noteq> host) (rdb_upstreams db) @ ups"
    "rdb_locations db' = filter (\<lambda>r. lo_host r \<noteq> host) (rdb_locations db) @
       map (\<lambda>(position, l). location_row_of host position l) (enumerate 0 locs)"
    "rdb_access db' = filter (\<lambda>r. ha_host r \<noteq> host) (rdb_access db) @ map (\<lambda>i. \<lparr>ha_host = host, ha_access_list = i\<rparr>) ids"
    "rdb_hosts db' = rdb_hosts db"
proof -
  from assms [unfolded replace_children_def Let_def] obtain domains ups raws locs raw_ids ids where
    "(if truthy (pget ''domain_names'' p) then ebind (py_iter (pget ''domain_names'' p)) canonical_domains else Inr []) = Inr domains"
    "new_upstreams host p = Inr ups" "raw_locations p = Inr raws" "emap location_of_raw raws = Inr locs"
    "raw_access_ids p = Inr raw_ids" "emap py_int raw_ids = Inr ids"
    "Inr (db\<lparr>rdb_sources := filter (\<lambda>r. src_host r \<noteq> host) (rdb_sources db) @ map (\<lambda>d. \<lparr>src_host = host, src_domain_name = d\<rparr>) domains,
                rdb_upstreams := filter (\<lambda>r. up_host r \<noteq> host) (rdb_upstreams db) @ ups,
                rdb_locations := filter (\<lambda>r. lo_host r \<noteq> host) (rdb_locations db) @
                  map (\<lambda>(position, l). location_row_of host position l) (enumerate 0 locs),
                rdb_access := filter (\<lambda>r. ha_host r \<noteq> host) (rdb_access db) @ map (\<lambda>i. \<lparr>ha_host = host, ha_access_list = i\<rparr>) ids\<rparr>) =
     (Inr db' :: py_error + routing_db)"
    by (elim ebind_InrE) (rule that)
  then show ?thesis by (intro that) auto
qed

lemma host_sources_other:
  assumes "replace_children host p db = Inr db'" "j \<noteq> host"
  shows "host_sources db' j = host_sources db j"
  using assms(1)
proof (rule replace_children_rows, goal_cases)
  case (1 domains ups raws locs raw_ids ids)
  have "filter (\<lambda>r. src_host r = j) (filter (\<lambda>r. src_host r \<noteq> host) (rdb_sources db)) = filter (\<lambda>r. src_host r = j) (rdb_sources db)"
    using assms(2) by (simp, intro filter_cong refl) auto
  moreover have "filter (\<lambda>r. src_host r = j) (map (\<lambda>d. \<lparr>src_host = host, src_domain_name = d\<rparr>) domains) = []"
    using assms(2) by (auto simp: filter_empty_conv)
  ultimately show ?case by (simp add: host_sources_def 1)
qed

lemma host_sources_new:
  assumes "replace_children host p db = Inr db'" "pget ''domain_names'' p = PList (map PStr ds)"
    and "canonical_domains (map PStr ds) = Inr ds"
  shows "host_sources db' host = ds \<and>
    map src_domain_name (rdb_sources db') = map src_domain_name (filter (\<lambda>r. src_host r \<noteq> host) (rdb_sources db)) @ ds"
  using assms(1)
proof (rule replace_children_rows, goal_cases)
  case (1 domains ups raws locs raw_ids ids)
  have "ds \<noteq> []" using assms(3) by (auto simp: canonical_domains_iff)
  with 1(1) assms(2,3) have d: "domains = ds" by simp
  have "filter (\<lambda>r. src_host r = host) (rdb_sources db') = map (\<lambda>d. \<lparr>src_host = host, src_domain_name = d\<rparr>) ds"
    by (simp add: 1 d comp_def filter_id_conv)
  then show ?case by (simp add: host_sources_def 1 d comp_def)
qed

section \<open>Properties\<close>

text \<open>C22. Writing a routing host keeps every domain name unique among all hosts: after the hooks the host has
  exactly the normalised names of its payload, the names of every other host are untouched, and no name
  occurs twice.\<close>

theorem domain_names_stay_unique:
  assumes "distinct (map src_domain_name (rdb_sources db))"
    and "prepare now alias p db = Inr (aggregate, root, key)"
    and "persist now row aggregate db = Inr (db', out)"
    and "case key of Some i \<Rightarrow> hr_id row = i | None \<Rightarrow> hr_id row \<notin> src_host ` set (rdb_sources db)"
  shows "distinct (map src_domain_name (rdb_sources db')) \<and>
    pget ''domain_names'' aggregate = PList (map PStr (host_sources db' (hr_id row))) \<and>
    (\<forall>j. j \<noteq> hr_id row \<longrightarrow> host_sources db' j = host_sources db j)"
proof -
  from assms(2) obtain merged where v: "validate_payload merged = Inr aggregate"
    and c: "assert_source_collisions db aggregate = Inr ()"
    and key: "(if pget ''id'' aggregate = PNone then Inr None else map_sum id Some (py_int (pget ''id'' aggregate))) = Inr key"
    unfolding prepare_def by (auto simp: result_simps)
  from validate_payload_checked [OF v] obtain ds where
    d: "pget ''domain_names'' aggregate = PList (map PStr ds)" "canonical_domains (map PStr ds) = Inr ds"
    unfolding payload_checked_def by blast
  from assms(3) have r: "replace_children (hr_id row) aggregate db = Inr db'"
    by (auto simp: persist_def result_simps)
  have "ds \<noteq> []" "distinct ds" using d(2) by (auto simp: canonical_domains_iff)
  have "\<not> (src_domain_name s \<in> set ds \<and> key \<noteq> Some (src_host s))" if "s \<in> set (rdb_sources db)" for s
    using c that \<open>ds \<noteq> []\<close> d key
    by (auto simp: assert_source_collisions_def list_or_def py_or_def result_simps find_None_iff split: option.splits)
  then have "src_domain_name s \<notin> set ds" if "s \<in> set (rdb_sources db)" "src_host s \<noteq> hr_id row" for s
    using that assms(4) by (cases key) auto
  with \<open>distinct ds\<close> assms(1) host_sources_new [OF r d] show ?thesis
    using host_sources_other [OF r] d(1) by (auto simp: distinct_map_filter)
qed

definition sample_payload :: payload where
  "sample_payload = [(''kind'', PStr ''proxy''), (''domain_names'', PList [PStr ''WWW.Example.org'']),
     (''forward_host'', PStr ''web''), (''forward_port'', PInt 8080), (''owner_principal_id'', PInt 4)]"

definition sample_db :: routing_db where
  "sample_db = \<lparr>rdb_hosts = [], rdb_sources = [\<lparr>src_host = 1, src_domain_name = ''example.com''\<rparr>], rdb_upstreams = [],
     rdb_locations = [], rdb_access = [], rdb_observations = [], rdb_revisions = []\<rparr>"

lemma sample_prepare: "\<exists>aggregate root. prepare ''now'' ''create'' sample_payload sample_db = Inr (aggregate, root, None) \<and>
    hr_kind root = ''proxy'' \<and> hr_owner_principal_id root = PInt 4 \<and> hr_certificate_id root = None \<and>
    hr_redirect_target root = PNone \<and> hr_redirect_scheme root = PNone \<and> hr_redirect_code root = PNone \<and>
    hr_force_ssl root = False \<and> hr_hsts_enabled root = False \<and> hr_hsts_subdomains root = False \<and>
    (\<forall>i. \<exists>db' out. persist ''now'' (root\<lparr>hr_id := i\<rparr>) aggregate sample_db = Inr (db', out) \<and>
       rdb_locations db' = [] \<and> rdb_access db' = [])"
proof -
  have c: "casefold ''create'' \<noteq> ''update''" by code_simp
  have n: "canonical_domains [PStr ''WWW.Example.org''] = Inr [''www.example.org'']"
    "canonical_domains [PStr ''www.example.org''] = Inr [''www.example.org'']" by code_simp+
  have t: "target_of ''web'' Target_Dns ''forward_host'' = Inr ''web''" by code_simp
  have k: "host_kind_of ''proxy'' = Inr Kind_Proxy" "forward_scheme_of ''http'' = Inr Scheme_Http"
    "target_kind_of ''dns'' = Inr Target_Dns" by code_simp+
  show ?thesis
    by (simp add: prepare_def merge_update_def c validate_payload_def text_or_def int_or_def list_or_def py_or_def
        pget_def dict_get_or_def sample_payload_def k n t validate_target_fields_def dict_set_def port_of_def
        validate_tls_fields_def ssl_forced_flag_def flag_def assert_source_collisions_def sample_db_def host_values_def
        persist_def replace_children_def new_upstreams_def raw_locations_def raw_access_ids_def)
qed

theorem domain_names_stay_unique_witness:
  "\<exists>aggregate root db' out. prepare ''now'' ''create'' sample_payload sample_db = Inr (aggregate, root, None) \<and>
     persist ''now'' (root\<lparr>hr_id := 2\<rparr>) aggregate sample_db = Inr (db', out) \<and>
     distinct (map src_domain_name (rdb_sources db')) \<and> host_sources db' 1 = [''example.com'']"
proof -
  from sample_prepare obtain aggregate root db' out where
    p: "prepare ''now'' ''create'' sample_payload sample_db = Inr (aggregate, root, None)"
    and q: "persist ''now'' (root\<lparr>hr_id := 2\<rparr>) aggregate sample_db = Inr (db', out)" by blast
  have "distinct (map src_domain_name (rdb_sources sample_db))" by (simp add: sample_db_def)
  moreover have "case None of Some i \<Rightarrow> hr_id (root\<lparr>hr_id := 2\<rparr>) = i
      | None \<Rightarrow> hr_id (root\<lparr>hr_id := 2\<rparr>) \<notin> src_host ` set (rdb_sources sample_db)" by (simp add: sample_db_def)
  ultimately have "distinct (map src_domain_name (rdb_sources db')) \<and> (\<forall>j. j \<noteq> 2 \<longrightarrow> host_sources db' j = host_sources sample_db j)"
    using domain_names_stay_unique [OF _ p q] by simp
  moreover have "host_sources sample_db 1 = [''example.com'']" by (simp add: host_sources_def sample_db_def)
  ultimately show ?thesis using p q by force
qed

section \<open>Reading a host back\<close>

text \<open>What the database itself guarantees of a row and its children: the check constraints, the types of the
  columns, identifiers that refer to other tables are positive, and paths are unique within a host.\<close>

definition database_accepts :: "routing_db \<Rightarrow> host_row \<Rightarrow> bool" where
  "database_accepts db row \<longleftrightarrow>
     host_checks row \<and> 0 < hr_id row \<and>
     (hr_owner_principal_id row = PNone \<or> (\<exists>i. hr_owner_principal_id row = PInt i \<and> 0 < i)) \<and>
     (hr_redirect_target row = PNone \<or> (\<exists>s. hr_redirect_target row = PStr s)) \<and>
     (\<forall>c. hr_certificate_id row = Some c \<longrightarrow> 0 < c) \<and>
     (\<forall>i\<in>set (host_access_ids db (hr_id row)). 0 < i) \<and>
     distinct (map lo_path (filter (\<lambda>r. lo_host r = hr_id row) (rdb_locations db)))"

lemma location_of_raw_valid: "location_of_raw raw = Inr m \<Longrightarrow> \<exists>l. validate_location l = Inr m \<and> loc_target_kind l = loc_target_kind m"
proof -
  assume "location_of_raw raw = Inr m"
  then obtain l where l: "validate_location l = Inr m"
    by (cases raw) (auto simp: location_of_raw_def result_simps)
  then have "loc_target_kind m = loc_target_kind l" by (auto simp: validate_location_def result_simps)
  with l show ?thesis by metis
qed

lemma target_kind_value_ip: "target_kind_value k = ''ip'' \<longleftrightarrow> k = Target_Ip"
  by (cases k) simp_all

lemma location_runtime_row:
  assumes "location_of_raw raw = Inr m" "loc_target_kind m \<noteq> Target_Ip"
  shows "location_runtime (location_row_of host position m) = Inr m"
proof -
  from location_of_raw_valid [OF assms(1)] assms(2) have "validate_location m = Inr m"
    by (metis validate_location_idem)
  then show ?thesis by (cases m) (simp add: location_runtime_def location_row_of_def)
qed

lemma host_locations_new:
  assumes "replace_children host p db = Inr db'"
    and "\<forall>r\<in>set (rdb_locations db'). lo_host r = host \<longrightarrow> lo_target_kind r \<noteq> ''ip''"
  obtains locs where "emap location_runtime (filter (\<lambda>r. lo_host r = host) (rdb_locations db')) = Inr locs"
    "map loc_path locs = map lo_path (filter (\<lambda>r. lo_host r = host) (rdb_locations db'))"
    "\<forall>l\<in>set locs. validate_location l = Inr l"
    "\<exists>raws. raw_locations p = Inr raws \<and> emap location_of_raw raws = Inr locs"
proof (rule replace_children_rows [OF assms(1)], goal_cases)
  case (1 domains ups raws locs raw_ids ids)
  let ?rows = "map (\<lambda>(position, l). location_row_of host position l) (enumerate 0 locs)"
  have h: "\<forall>r\<in>set ?rows. lo_host r = host" by (auto simp: location_row_of_def)
  have rows: "filter (\<lambda>r. lo_host r = host) (rdb_locations db') = ?rows"
    using h by (simp add: 1(10) filter_id_conv)
  have raw: "\<exists>raw. location_of_raw raw = Inr l" if "l \<in> set locs" for l
    using 1(5) that by (auto simp: emap_Inr_iff list_all2_conv_all_nth in_set_conv_nth)
  have ip: "loc_target_kind l \<noteq> Target_Ip" if "l \<in> set locs" for l
  proof -
    from that have "l \<in> snd ` set (enumerate 0 locs)" by (simp flip: set_map)
    then obtain n where "(n, l) \<in> set (enumerate 0 locs)" by force
    then have "location_row_of host n l \<in> set ?rows" by force
    then have "location_row_of host n l \<in> set (filter (\<lambda>r. lo_host r = host) (rdb_locations db'))" by (simp only: rows)
    with assms(2) have "lo_target_kind (location_row_of host n l) \<noteq> ''ip''" by simp
    then show ?thesis by (auto simp: location_row_of_def)
  qed
  have "emap location_runtime ?rows = Inr (map snd (enumerate 0 locs))"
  proof -
    have "emap (\<lambda>q. location_runtime (case q of (position, l) \<Rightarrow> location_row_of host position l)) (enumerate 0 locs) =
        Inr (map snd (enumerate 0 locs))"
    proof (rule emap_pure)
      fix q assume q: "q \<in> set (enumerate 0 locs)"
      obtain n l where nl: "q = (n, l)" by (cases q)
      from q have "snd q \<in> set (map snd (enumerate 0 locs))" by (simp del: map_snd_enumerate)
      then have "l \<in> set locs" by (simp add: nl)
      with raw ip show "location_runtime (case q of (position, l) \<Rightarrow> location_row_of host position l) = Inr (snd q)"
        by (auto simp: nl dest: location_runtime_row)
    qed
    moreover have "emap f (map g xs) = emap (\<lambda>x. f (g x)) xs" for f :: "location_row \<Rightarrow> py_error + proxy_location" and g :: "nat \<times> proxy_location \<Rightarrow> location_row" and xs
      by (induction xs) simp_all
    ultimately show ?thesis by simp
  qed
  then have e: "emap location_runtime (filter (\<lambda>r. lo_host r = host) (rdb_locations db')) = Inr locs"
    by (simp add: rows)
  have "map loc_path locs = map lo_path ?rows"
    by (simp add: comp_def case_prod_beta location_row_of_def flip: map_map [unfolded comp_def, of loc_path snd])
  moreover have "\<forall>l\<in>set locs. validate_location l = Inr l"
    using raw ip by (metis location_of_raw_valid validate_location_idem)
  moreover have "\<exists>raws. raw_locations p = Inr raws \<and> emap location_of_raw raws = Inr locs" using 1(4,5) by blast
  ultimately show ?thesis using that [OF e] by (simp add: rows)
qed

lemma first_upstream_new:
  assumes "replace_children host p db = Inr db'"
  obtains ups where "new_upstreams host p = Inr ups"
    "first_upstream db' host = (case ups of [] \<Rightarrow> None | u # _ \<Rightarrow> Some u)"
  using assms
proof (rule replace_children_rows, goal_cases)
  case (1 domains ups raws locs raw_ids ids)
  have "ups = [] \<or> (\<exists>u. ups = [u] \<and> up_host u = host)"
    using 1(3) by (auto simp: new_upstreams_def result_simps split: if_splits)
  then have "sort_key up_position (filter (\<lambda>r. up_host r = host) (rdb_upstreams db')) = ups"
    by (auto simp: 1)
  with 1(1,3) show ?case by (simp add: first_upstream_def)
qed

lemma access_ids_raw:
  assumes "replace_children host p db = Inr db'"
  shows "\<exists>raw_ids. raw_access_ids p = Inr raw_ids \<and> emap py_int raw_ids = Inr (host_access_ids db' host)"
  using assms
proof (rule replace_children_rows, goal_cases)
  case (1 domains ups raws locs raw_ids ids)
  have "filter (\<lambda>r. ha_host r = host) (map (\<lambda>i. \<lparr>ha_host = host, ha_access_list = i\<rparr>) ids) =
      map (\<lambda>i. \<lparr>ha_host = host, ha_access_list = i\<rparr>) ids"
    by (rule filter_True) auto
  then have "host_access_ids db' host = ids" by (simp add: host_access_ids_def 1 comp_def)
  with 1 show ?case by simp
qed

lemma access_ids_new:
  assumes "replace_children host p db = Inr db'" "payload_checked p"
  shows "distinct (host_access_ids db' host)"
proof -
  from access_ids_raw [OF assms(1)] obtain raw_ids where
    r: "raw_access_ids p = Inr raw_ids" "emap py_int raw_ids = Inr (host_access_ids db' host)" by blast
  show ?thesis
  proof (cases "pget ''access_list_ids'' p = PNone")
    case True
    with r(1) have "length raw_ids \<le> 1" by (auto simp: raw_access_ids_def split: if_splits)
    moreover have "length (host_access_ids db' host) = length raw_ids" using r(2) by (auto simp: emap_Inr_iff list_all2_lengthD)
    ultimately show ?thesis by (cases "host_access_ids db' host" rule: list.exhaust; cases "tl (host_access_ids db' host)") auto
  next
    case False
    with r(1) have it: "py_iter (pget ''access_list_ids'' p) = Inr raw_ids" by (simp add: raw_access_ids_def)
    from assms(2) obtain raw_ids' ids' where l: "list_or ''access_list_ids'' p = Inr raw_ids'"
      "emap py_int raw_ids' = Inr ids'" "distinct ids'" unfolding payload_checked_def by blast
    show ?thesis
    proof (cases "truthy (pget ''access_list_ids'' p)")
      case True
      with l(1) it have "raw_ids' = raw_ids" by (simp add: list_or_def py_or_def)
      with l r(2) show ?thesis by simp
    next
      case falsy: False
      with it False have "raw_ids = []" by (cases "pget ''access_list_ids'' p") auto
      with r(2) show ?thesis by simp
    qed
  qed
qed

lemma validate_host_ok:
  assumes "canonical_domains (map PStr (rh_domain_names h)) = Inr (rh_domain_names h)"
    and "\<forall>l\<in>set (rh_locations h). validate_location l = Inr l"
    and "0 < rh_id h" "0 < rh_owner_user_id h" "\<forall>i\<in>set (rh_access_list_ids h). 0 < i" "distinct (rh_access_list_ids h)"
    and "validate_host_target h = Inr h" and "distinct (map loc_path (rh_locations h))"
    and "0 \<le> tls_certificate_id (rh_ssl h)"
  shows "\<exists>t. tls_normalized (rh_ssl h) = Inr t \<and> validate_host h = Inr (h\<lparr>rh_ssl := t\<rparr>)"
proof -
  have "emap validate_location (rh_locations h) = Inr (rh_locations h)"
    using emap_pure [of "rh_locations h" validate_location "\<lambda>l. l"] assms(2) by simp
  moreover have "\<exists>t. tls_normalized (rh_ssl h) = Inr t"
    using assms(9) by (auto simp: tls_normalized_def Let_def)
  moreover have "h\<lparr>rh_domain_names := rh_domain_names h, rh_locations := rh_locations h\<rparr> = h" by simp
  ultimately show ?thesis
    using assms by (auto simp: validate_host_def Let_def simp del: runtime_host.update_convs)
qed

text \<open>The target fields of the runtime model, from the upstream row and the redirect columns.\<close>

lemma target_checked_runtime:
  assumes "target_checked kind q" and "new_upstreams host q = Inr ups"
    and "rh_kind h = kind" "rh_forward_host h = map_option up_target (case ups of [] \<Rightarrow> None | u # _ \<Rightarrow> Some u)"
    and "rh_forward_port h = map_option up_port (case ups of [] \<Rightarrow> None | u # _ \<Rightarrow> Some u)"
    and "kind = Kind_Redirect \<Longrightarrow> map_option PStr (rh_forward_domain_name h) = Some (pget ''forward_domain_name'' q)"
    and "rh_forward_http_code h \<in> redirect_codes"
  shows "validate_host_target h = Inr h"
proof (cases kind)
  case Kind_Proxy
  with assms(1) obtain tk raw host' port where t: "target_kind_of (text_or ''target_kind'' ''dns'' q) = Inr tk"
    "target_of raw tk ''forward_host'' = Inr host'" "pget ''forward_host'' q = PStr host'"
    "int_or ''forward_port'' 0 q = Inr port" "1 \<le> port" "port \<le> 65535"
    by (auto simp: target_checked_def)
  have ne: "strip host' \<noteq> []" using t(2) by (rule target_of_nonblank)
  then have "host' \<noteq> []" by (auto simp: strip_def strip_by_def lstrip_by_def rstrip_by_def)
  moreover have "int_or ''forward_port'' 80 q = Inr port"
    using t(4,5) by (auto simp: int_or_def py_or_def split: if_splits)
  ultimately obtain u where "ups = [u]" "up_target u = host'" "up_port u = port"
    using assms(2) t by (auto simp: new_upstreams_def result_simps port_of_def)
  with assms(3-5) Kind_Proxy t ne show ?thesis
    by (simp add: validate_host_target_def opt_text_def port_of_def)
next
  case Kind_Redirect
  with assms(1,6) obtain target where t: "domain_re target" "normal_domain target = target"
    "rh_forward_domain_name h = Some target"
    by (auto simp: target_checked_def)
  have "h\<lparr>rh_forward_domain_name := Some target\<rparr> = h" using t(3) by (cases h) simp
  with t assms(3,7) Kind_Redirect show ?thesis by (simp add: validate_host_target_def opt_text_def)
next
  case Kind_Dead
  with assms(3) show ?thesis by (simp add: validate_host_target_def)
qed

lemma redirect_columns:
  assumes "hr_redirect_code row = PNone \<or> hr_redirect_code row \<in> set [PInt 301, PInt 302, PInt 307, PInt 308]"
  obtains code where "field_int (py_or (hr_redirect_code row) (PInt 301)) = Inr code" "code \<in> redirect_codes"
    "py_or (hr_redirect_code row) (PInt 301) = PInt code"
proof -
  from assms have "py_or (hr_redirect_code row) (PInt 301) \<in> PInt ` redirect_codes" by (auto simp: py_or_def redirect_codes_def)
  then obtain code where "py_or (hr_redirect_code row) (PInt 301) = PInt code" "code \<in> redirect_codes" by blast
  then show ?thesis by (intro that [of code]) simp_all
qed

text \<open>The runtime record that the projection of a row builds, before its validation.\<close>

definition runtime_record ::
  "routing_db \<Rightarrow> host_row \<Rightarrow> int \<Rightarrow> host_kind \<Rightarrow> string \<Rightarrow> string option \<Rightarrow> int \<Rightarrow> proxy_location list \<Rightarrow> runtime_host" where
  "runtime_record db row owner kind scheme target code locations =
          \<lparr>rh_id = hr_id row, rh_kind = kind, rh_domain_names = host_sources db (hr_id row),
           rh_forward_scheme = scheme, rh_forward_host = map_option up_target (first_upstream db (hr_id row)),
           rh_forward_port = map_option up_port (first_upstream db (hr_id row)), rh_forward_domain_name = target,
           rh_forward_http_code = code, rh_preserve_path = hr_preserve_path row, rh_owner_user_id = owner,
           rh_access_list_id = (case host_access_ids db (hr_id row) of [] \<Rightarrow> 0 | i # _ \<Rightarrow> i),
           rh_access_list_ids = host_access_ids db (hr_id row),
           rh_ssl = \<lparr>tls_certificate_id = (case hr_certificate_id row of None \<Rightarrow> 0 | Some i \<Rightarrow> i),
             tls_forced = hr_force_ssl row, tls_http2 = hr_http2_enabled row, tls_hsts = hr_hsts_enabled row,
             tls_hsts_subdomains = hr_hsts_subdomains row,
             tls_trust_forwarded_proto = hr_trust_forwarded_proto row\<rparr>,
           rh_caching_enabled = hr_cache_enabled row, rh_block_exploits = hr_block_exploits row,
           rh_allow_websocket_upgrade = hr_websocket_enabled row, rh_advanced_config = hr_advanced_config row,
           rh_locations = locations, rh_enabled = hr_enabled row, rh_meta = hr_metadata row\<rparr>"

lemma runtime_projection_steps:
  assumes "py_int (py_or (hr_owner_principal_id row) (PInt 1)) = Inr owner" "host_kind_of (hr_kind row) = Inr kind"
    and "host_scheme (case first_upstream db (hr_id row) of Some u \<Rightarrow> py_or (PStr (up_protocol u)) (PStr ''http'')
               | None \<Rightarrow> py_or (hr_redirect_scheme row) (PStr ''http'')) = Inr scheme"
    and "optional_text (hr_redirect_target row) = Inr target" "field_int (py_or (hr_redirect_code row) (PInt 301)) = Inr code"
    and "emap location_runtime (filter (\<lambda>r. lo_host r = hr_id row) (rdb_locations db)) = Inr locs"
  shows "runtime_projection db row = validate_host (runtime_record db row owner kind scheme target code locs)"
  using assms by (simp add: runtime_projection_def runtime_record_def Let_def)

lemma host_scheme_ok:
  assumes "host_checks row" "new_upstreams host q = Inr ups"
  shows "\<exists>s. host_scheme (case (case ups of [] \<Rightarrow> None | u # _ \<Rightarrow> Some u) of Some u \<Rightarrow> py_or (PStr (up_protocol u)) (PStr ''http'')
               | None \<Rightarrow> py_or (hr_redirect_scheme row) (PStr ''http'')) = Inr s"
proof -
  have f: "forward_scheme_value x \<noteq> [] \<and> forward_scheme_value x \<in> set [''http'', ''https'', ''auto'']" for x
    by (cases x) simp_all
  have "ups = [] \<or> (\<exists>u x. ups = [u] \<and> up_protocol u = forward_scheme_value x)"
    using assms(2) by (auto simp: new_upstreams_def result_simps split: if_splits)
  then show ?thesis using assms(1) f by (auto simp: host_scheme_def py_or_def host_checks_def)
qed

text \<open>The runtime model that a validated payload stands for, field by field.\<close>

definition reads_as :: "payload \<Rightarrow> runtime_host \<Rightarrow> bool" where
  "reads_as q h \<longleftrightarrow>
     host_kind_of (text_or ''kind'' ''proxy'' q) = Inr (rh_kind h) \<and>
     pget ''domain_names'' q = PList (map PStr (rh_domain_names h)) \<and>
     (if truthy (pget ''forward_host'' q)
      then rh_forward_host h = Some (py_str (pget ''forward_host'' q)) \<and>
        (\<exists>port. int_or ''forward_port'' 80 q = Inr port \<and> rh_forward_port h = Some port) \<and>
        (\<exists>scheme. forward_scheme_of (text_or ''forward_scheme'' ''http'' q) = Inr scheme \<and> rh_forward_scheme h = forward_scheme_value scheme)
      else rh_forward_host h = None \<and> rh_forward_port h = None \<and>
        py_or (pget ''forward_scheme'' q) (PStr ''http'') = PStr (rh_forward_scheme h)) \<and>
     pget ''forward_domain_name'' q = (case rh_forward_domain_name h of None \<Rightarrow> PNone | Some s \<Rightarrow> PStr s) \<and>
     py_or (pget ''forward_http_code'' q) (PInt 301) = PInt (rh_forward_http_code h) \<and>
     rh_preserve_path h = flag ''preserve_path'' q \<and>
     py_or (pget ''owner_principal_id'' q) (PInt 1) = PInt (rh_owner_user_id h) \<and>
     (\<exists>ids. raw_access_ids q = Inr ids \<and> emap py_int ids = Inr (rh_access_list_ids h)) \<and>
     rh_access_list_id h = (case rh_access_list_ids h of [] \<Rightarrow> 0 | i # _ \<Rightarrow> i) \<and>
     int_or ''certificate_id'' 0 q = Inr (tls_certificate_id (rh_ssl h)) \<and>
     tls_forced (rh_ssl h) = ssl_forced_flag q \<and>
     tls_http2 (rh_ssl h) = (flag ''http2_support'' q \<and> tls_certificate_id (rh_ssl h) \<noteq> 0) \<and>
     tls_hsts (rh_ssl h) = flag ''hsts_enabled'' q \<and> tls_hsts_subdomains (rh_ssl h) = flag ''hsts_subdomains'' q \<and>
     tls_trust_forwarded_proto (rh_ssl h) = (flag ''trust_forwarded_proto'' q \<and> ssl_forced_flag q) \<and>
     rh_caching_enabled h = flag ''caching_enabled'' q \<and> rh_block_exploits h = flag ''block_exploits'' q \<and>
     rh_allow_websocket_upgrade h = flag ''allow_websocket_upgrade'' q \<and> rh_advanced_config h = text_or ''advanced_config'' [] q \<and>
     (\<exists>raws. raw_locations q = Inr raws \<and> emap location_of_raw raws = Inr (rh_locations h)) \<and>
     rh_enabled h = truthy (dict_get_or q ''enabled'' (PBool True)) \<and> rh_meta h = extension_metadata q host_known"

lemma stored_tls:
  assumes "validate_tls_fields q = Inr ()" and "host_values q = Inr root" and "\<forall>c. hr_certificate_id root = Some c \<longrightarrow> 0 < c"
    and "tls_normalized \<lparr>tls_certificate_id = (case hr_certificate_id root of None \<Rightarrow> 0 | Some i \<Rightarrow> i),
      tls_forced = hr_force_ssl root, tls_http2 = hr_http2_enabled root, tls_hsts = hr_hsts_enabled root,
      tls_hsts_subdomains = hr_hsts_subdomains root, tls_trust_forwarded_proto = hr_trust_forwarded_proto root\<rparr> = Inr t"
  shows "int_or ''certificate_id'' 0 q = Inr (tls_certificate_id t) \<and> tls_forced t = ssl_forced_flag q \<and>
     tls_http2 t = (flag ''http2_support'' q \<and> tls_certificate_id t \<noteq> 0) \<and>
     tls_hsts t = flag ''hsts_enabled'' q \<and> tls_hsts_subdomains t = flag ''hsts_subdomains'' q \<and>
     tls_trust_forwarded_proto t = (flag ''trust_forwarded_proto'' q \<and> ssl_forced_flag q)"
proof -
  obtain c where c: "int_or ''certificate_id'' 0 q = Inr c" using assms(1) by (auto simp: validate_tls_fields_def result_simps)
  have flags: "ssl_forced_flag q \<longrightarrow> c \<noteq> 0" "flag ''hsts_enabled'' q \<longrightarrow> ssl_forced_flag q" "flag ''hsts_subdomains'' q \<longrightarrow> flag ''hsts_enabled'' q"
    using assms(1) c by (auto simp: validate_tls_fields_def result_simps Let_def)
  have root: "hr_certificate_id root = (if c = 0 then None else Some c)" "hr_force_ssl root = ssl_forced_flag q"
    "hr_hsts_enabled root = flag ''hsts_enabled'' q" "hr_hsts_subdomains root = flag ''hsts_subdomains'' q"
    "hr_http2_enabled root = flag ''http2_support'' q" "hr_trust_forwarded_proto root = (ssl_forced_flag q \<and> flag ''trust_forwarded_proto'' q)"
    using assms(2) c flags by (auto simp: host_values_def result_simps Let_def)
  show ?thesis
    using assms(3,4) c flags unfolding root by (auto simp: tls_normalized_def default_tls_def Let_def split: if_splits)
qed

lemma read_scheme:
  "host_scheme (py_or (PStr (forward_scheme_value x)) (PStr ''http'')) = Inr s \<longleftrightarrow> s = forward_scheme_value x"
  "host_scheme v = Inr s \<Longrightarrow> v = PStr s"
proof -
  have "forward_scheme_value x \<noteq> []" "forward_scheme_value x \<in> set [''http'', ''https'', ''auto'']" by (cases x; simp)+
  then show "host_scheme (py_or (PStr (forward_scheme_value x)) (PStr ''http'')) = Inr s \<longleftrightarrow> s = forward_scheme_value x"
    by (auto simp: host_scheme_def py_or_def)
  show "host_scheme v = Inr s \<Longrightarrow> v = PStr s"
    by (cases v) (auto simp: host_scheme_def result_simps split: if_splits)
qed

lemma stored_target:
  assumes "new_upstreams host q = Inr ups"
  shows "(if truthy (pget ''forward_host'' q)
      then \<exists>u port scheme. ups = [u] \<and> up_target u = py_str (pget ''forward_host'' q) \<and> int_or ''forward_port'' 80 q = Inr port \<and> up_port u = port \<and>
        forward_scheme_of (text_or ''forward_scheme'' ''http'' q) = Inr scheme \<and> up_protocol u = forward_scheme_value scheme
      else ups = [])"
  using assms by (auto simp: new_upstreams_def result_simps port_of_def split: if_splits)

text \<open>C29. A host that the hooks have written and the database accepts can always be read back as a runtime model, and
  every field of the model is what the validated payload gave: kind, names, target, redirect, owner, access lists,
  certificate and TLS switches, locations, the other switches and the extra fields. The validated payload is the given one
  (laid over the projection of the row in an update) but for the normalised names and target. Left out are hosts that have
  a location whose target is an address.\<close>

theorem stored_host_reads_back:
  assumes "prepare now alias p db = Inr (aggregate, root, key)"
    and "row = root\<lparr>hr_id := i, hr_created_at := created, hr_updated_at := updated\<rparr>"
    and "persist now row aggregate db = Inr (db', out)" and "database_accepts db' row"
    and "\<forall>r\<in>set (rdb_locations db'). lo_host r = i \<longrightarrow> lo_target_kind r \<noteq> ''ip''"
  shows "\<exists>h merged. runtime_projection db' row = Inr h \<and> rh_id h = i \<and> reads_as aggregate h \<and>
    merge_update now alias p db = Inr merged \<and>
    (\<forall>k. k \<notin> {''domain_names'', ''forward_host'', ''forward_domain_name''} \<longrightarrow> dict_get aggregate k = dict_get merged k)"
proof -
  from assms(1) obtain merged where m: "merge_update now alias p db = Inr merged" "validate_payload merged = Inr aggregate"
    and v: "payload_checked aggregate" and hv: "host_values aggregate = Inr root"
    unfolding prepare_def by (auto simp: result_simps intro: validate_payload_checked)
  have id: "hr_id row = i" by (simp add: assms(2))
  from assms(3) have r: "replace_children i aggregate db = Inr db'" by (auto simp: persist_def result_simps id)
  note ok = assms(4) [unfolded database_accepts_def id]
  from v hv obtain kind ds where k: "host_kind_of (text_or ''kind'' ''proxy'' aggregate) = Inr kind"
    "target_checked kind aggregate" "pget ''domain_names'' aggregate = PList (map PStr ds)"
    "canonical_domains (map PStr ds) = Inr ds" "validate_tls_fields aggregate = Inr ()" unfolding payload_checked_def by blast
  have hk: "hr_kind row = host_kind_value kind" "hr_redirect_target row = pget ''forward_domain_name'' aggregate"
    "hr_redirect_scheme row = pget ''forward_scheme'' aggregate" "hr_redirect_code row = pget ''forward_http_code'' aggregate"
    "hr_owner_principal_id row = pget ''owner_principal_id'' aggregate"
    using hv k(1) by (auto simp: assms(2) host_values_def Let_def result_simps)
  obtain ups where ups: "new_upstreams i aggregate = Inr ups" "first_upstream db' i = (case ups of [] \<Rightarrow> None | u # _ \<Rightarrow> Some u)"
    using r by (rule first_upstream_new)
  obtain locs where locs: "emap location_runtime (filter (\<lambda>r. lo_host r = i) (rdb_locations db')) = Inr locs"
    "map loc_path locs = map lo_path (filter (\<lambda>r. lo_host r = i) (rdb_locations db'))"
    "\<forall>l\<in>set locs. validate_location l = Inr l"
    "\<exists>raws. raw_locations aggregate = Inr raws \<and> emap location_of_raw raws = Inr locs" using r assms(5) by (rule host_locations_new)
  obtain scheme where scheme: "host_scheme (case first_upstream db' i of Some u \<Rightarrow> py_or (PStr (up_protocol u)) (PStr ''http'')
               | None \<Rightarrow> py_or (hr_redirect_scheme row) (PStr ''http'')) = Inr scheme"
    using host_scheme_ok [OF _ ups(1), of row] ok ups(2) by auto
  obtain owner where owner: "py_int (py_or (hr_owner_principal_id row) (PInt 1)) = Inr owner" "0 < owner"
    "py_or (hr_owner_principal_id row) (PInt 1) = PInt owner"
    using ok by (auto simp: py_or_def)
  obtain target where target: "optional_text (hr_redirect_target row) = Inr target"
    "pget ''forward_domain_name'' aggregate = (case target of None \<Rightarrow> PNone | Some s \<Rightarrow> PStr s)"
  proof (cases "hr_redirect_target row = PNone")
    case True
    then show ?thesis using hk(2) by (intro that [of None]) (simp_all add: optional_text_def)
  next
    case False
    with ok hk(2) obtain s where "pget ''forward_domain_name'' aggregate = PStr s" by auto
    with hk(2) show ?thesis by (intro that [of "Some s"]) (simp_all add: optional_text_def)
  qed
  have redirect: "kind = Kind_Redirect \<Longrightarrow> map_option PStr target = Some (pget ''forward_domain_name'' aggregate)"
    using k(2) target(2) by (auto simp: target_checked_def split: option.splits)
  have "hr_redirect_code row = PNone \<or> hr_redirect_code row \<in> set [PInt 301, PInt 302, PInt 307, PInt 308]"
    using ok by (simp only: host_checks_def)
  then obtain code where code: "field_int (py_or (hr_redirect_code row) (PInt 301)) = Inr code" "code \<in> redirect_codes"
    "py_or (hr_redirect_code row) (PInt 301) = PInt code"
    by (rule redirect_columns)
  let ?h = "runtime_record db' row owner kind scheme target code locs"
  have vt: "validate_host_target ?h = Inr ?h"
    by (rule target_checked_runtime [OF k(2) ups(1)]) (simp_all add: runtime_record_def id ups(2) redirect code(2))
  have ds: "host_sources db' i = ds" using host_sources_new [OF r k(3,4)] by simp
  have "\<exists>t. tls_normalized (rh_ssl ?h) = Inr t \<and> validate_host ?h = Inr (?h\<lparr>rh_ssl := t\<rparr>)"
  proof (rule validate_host_ok)
    show "0 \<le> tls_certificate_id (rh_ssl ?h)"
      using ok by (cases "hr_certificate_id row") (simp_all add: runtime_record_def)
  qed (use k(4) locs(2,3) ok owner(2) access_ids_new [OF r v] vt in \<open>simp_all add: runtime_record_def id ds\<close>)
  then obtain t where t: "tls_normalized (rh_ssl ?h) = Inr t" "validate_host ?h = Inr (?h\<lparr>rh_ssl := t\<rparr>)" by blast
  moreover have "runtime_projection db' row = validate_host ?h"
    by (rule runtime_projection_steps) (simp_all add: id owner hk(1) scheme target(1) code(1) locs(1))
  moreover have "reads_as aggregate (?h\<lparr>rh_ssl := t\<rparr>)"
    unfolding reads_as_def
  proof (intro conjI)
    let ?g = "?h\<lparr>rh_ssl := t\<rparr>"
    note root = hv [unfolded host_values_def Let_def]
    have tls: "int_or ''certificate_id'' 0 aggregate = Inr (tls_certificate_id t) \<and> tls_forced t = ssl_forced_flag aggregate \<and>
     tls_http2 t = (flag ''http2_support'' aggregate \<and> tls_certificate_id t \<noteq> 0) \<and>
     tls_hsts t = flag ''hsts_enabled'' aggregate \<and> tls_hsts_subdomains t = flag ''hsts_subdomains'' aggregate \<and>
     tls_trust_forwarded_proto t = (flag ''trust_forwarded_proto'' aggregate \<and> ssl_forced_flag aggregate)"
      using ok t(1) by (intro stored_tls [OF k(5) hv]) (simp_all add: assms(2) runtime_record_def)
    then show "int_or ''certificate_id'' 0 aggregate = Inr (tls_certificate_id (rh_ssl ?g))"
      "tls_forced (rh_ssl ?g) = ssl_forced_flag aggregate"
      "tls_http2 (rh_ssl ?g) = (flag ''http2_support'' aggregate \<and> tls_certificate_id (rh_ssl ?g) \<noteq> 0)"
      "tls_hsts (rh_ssl ?g) = flag ''hsts_enabled'' aggregate" "tls_hsts_subdomains (rh_ssl ?g) = flag ''hsts_subdomains'' aggregate"
      "tls_trust_forwarded_proto (rh_ssl ?g) = (flag ''trust_forwarded_proto'' aggregate \<and> ssl_forced_flag aggregate)" by simp_all
    have switches: "hr_preserve_path root = flag ''preserve_path'' aggregate" "hr_cache_enabled root = flag ''caching_enabled'' aggregate"
      "hr_block_exploits root = flag ''block_exploits'' aggregate" "hr_websocket_enabled root = flag ''allow_websocket_upgrade'' aggregate"
      "hr_advanced_config root = text_or ''advanced_config'' [] aggregate" "hr_enabled root = truthy (dict_get_or aggregate ''enabled'' (PBool True))"
      "hr_metadata root = extension_metadata aggregate host_known"
      using root by (auto simp: result_simps)
    then show "rh_preserve_path ?g = flag ''preserve_path'' aggregate" "rh_caching_enabled ?g = flag ''caching_enabled'' aggregate"
      "rh_block_exploits ?g = flag ''block_exploits'' aggregate" "rh_allow_websocket_upgrade ?g = flag ''allow_websocket_upgrade'' aggregate"
      "rh_advanced_config ?g = text_or ''advanced_config'' [] aggregate" "rh_enabled ?g = truthy (dict_get_or aggregate ''enabled'' (PBool True))"
      "rh_meta ?g = extension_metadata aggregate host_known"
      by (simp_all add: runtime_record_def assms(2))
    show "host_kind_of (text_or ''kind'' ''proxy'' aggregate) = Inr (rh_kind ?g)"
      "pget ''domain_names'' aggregate = PList (map PStr (rh_domain_names ?g))"
      "pget ''forward_domain_name'' aggregate = (case rh_forward_domain_name ?g of None \<Rightarrow> PNone | Some s \<Rightarrow> PStr s)"
      "py_or (pget ''forward_http_code'' aggregate) (PInt 301) = PInt (rh_forward_http_code ?g)"
      "py_or (pget ''owner_principal_id'' aggregate) (PInt 1) = PInt (rh_owner_user_id ?g)"
      "\<exists>ids. raw_access_ids aggregate = Inr ids \<and> emap py_int ids = Inr (rh_access_list_ids ?g)"
      "rh_access_list_id ?g = (case rh_access_list_ids ?g of [] \<Rightarrow> 0 | i # _ \<Rightarrow> i)"
      "\<exists>raws. raw_locations aggregate = Inr raws \<and> emap location_of_raw raws = Inr (rh_locations ?g)"
      using k(1,3) ds target(2) code(3) owner(3) access_ids_raw [OF r] locs(4) by (simp_all add: runtime_record_def id hk)
    show "if truthy (pget ''forward_host'' aggregate)
      then rh_forward_host ?g = Some (py_str (pget ''forward_host'' aggregate)) \<and>
        (\<exists>port. int_or ''forward_port'' 80 aggregate = Inr port \<and> rh_forward_port ?g = Some port) \<and>
        (\<exists>scheme. forward_scheme_of (text_or ''forward_scheme'' ''http'' aggregate) = Inr scheme \<and> rh_forward_scheme ?g = forward_scheme_value scheme)
      else rh_forward_host ?g = None \<and> rh_forward_port ?g = None \<and>
        py_or (pget ''forward_scheme'' aggregate) (PStr ''http'') = PStr (rh_forward_scheme ?g)"
      using stored_target [OF ups(1)] scheme by (auto simp: runtime_record_def id ups(2) hk read_scheme)
  qed
  moreover have "dict_get aggregate k = dict_get merged k" if "k \<notin> {''domain_names'', ''forward_host'', ''forward_domain_name''}" for k
    using m(2) that validate_target_fields_other unfolding validate_payload_def Let_def by (fastforce simp: result_simps)
  ultimately show ?thesis using m(1) by (intro exI [of _ "?h\<lparr>rh_ssl := t\<rparr>"] exI [of _ merged]) (simp add: runtime_record_def id)
qed

theorem stored_host_reads_back_witness:
  "\<exists>aggregate root db' out h. prepare ''now'' ''create'' sample_payload sample_db = Inr (aggregate, root, None) \<and>
     persist ''now'' (root\<lparr>hr_id := 2, hr_created_at := None, hr_updated_at := None\<rparr>) aggregate sample_db = Inr (db', out) \<and>
     runtime_projection db' (root\<lparr>hr_id := 2, hr_created_at := None, hr_updated_at := None\<rparr>) = Inr h \<and>
     rh_id h = 2 \<and> reads_as aggregate h"
proof -
  from sample_prepare obtain aggregate root where
    p: "prepare ''now'' ''create'' sample_payload sample_db = Inr (aggregate, root, None)"
    and f: "hr_kind root = ''proxy''" "hr_owner_principal_id root = PInt 4" "hr_certificate_id root = None"
      "hr_redirect_target root = PNone" "hr_redirect_scheme root = PNone" "hr_redirect_code root = PNone"
      "hr_force_ssl root = False" "hr_hsts_enabled root = False" "hr_hsts_subdomains root = False"
    and q: "\<forall>i. \<exists>db' out. persist ''now'' (root\<lparr>hr_id := i\<rparr>) aggregate sample_db = Inr (db', out) \<and>
       rdb_locations db' = [] \<and> rdb_access db' = []" by blast
  let ?row = "root\<lparr>hr_id := 2, hr_created_at := None, hr_updated_at := None\<rparr>"
  from q obtain db' out0 where d: "persist ''now'' (root\<lparr>hr_id := 2\<rparr>) aggregate sample_db = Inr (db', out0)"
    "rdb_locations db' = []" "rdb_access db' = []" by blast
  then obtain out where d2: "persist ''now'' ?row aggregate sample_db = Inr (db', out)"
    by (auto simp: persist_def result_simps)
  have accepted: "database_accepts db' ?row"
    using f d by (simp add: database_accepts_def host_checks_def host_access_ids_def)
  have unaddressed: "\<forall>r\<in>set (rdb_locations db'). lo_host r = 2 \<longrightarrow> lo_target_kind r \<noteq> ''ip''" by (simp add: d(2))
  from stored_host_reads_back [OF p refl d2 accepted unaddressed] obtain h where
    "runtime_projection db' ?row = Inr h" "rh_id h = 2" "reads_as aggregate h" by (elim exE conjE) (rule that)
  with p d2 show ?thesis by (intro exI [of _ aggregate] exI [of _ root] exI [of _ db'] exI [of _ out] exI [of _ h] conjI)
qed

section \<open>Aliases, revisions and health\<close>

text \<open>An update that gives the forced-HTTPS switch under its alias \<open>force_ssl\<close>, which a create accepts, does
  not change it: the projection laid under the payload holds \<open>ssl_forced\<close>, which is read first.\<close>

theorem update_ignores_force_ssl:
  assumes "find_host db i = Some row" and "dict_get p ''id'' = Some (PInt i)" and "''ssl_forced'' \<notin> dict_keys p"
    and "prepare now ''update'' p db = Inr (aggregate, root, key)"
  shows "(ssl_forced_flag aggregate \<longleftrightarrow> hr_force_ssl row) \<and>
    (hr_force_ssl root \<longleftrightarrow> hr_force_ssl row \<and> hr_certificate_id root \<noteq> None)"
proof -
  have "casefold ''update'' = ''update''" by code_simp
  with assms obtain kind ds where v: "validate_payload (dict_update (project now db row) p) = Inr aggregate"
    and hv: "host_values aggregate = Inr root"
    by (auto simp: prepare_def merge_update_def result_simps)
  from v [unfolded validate_payload_def Let_def] obtain kind ds where
    t: "validate_target_fields kind (dict_set ''domain_names'' (PList (map PStr ds)) (dict_update (project now db row) p)) = Inr aggregate"
    by (auto simp: result_simps)
  have "dict_get aggregate ''ssl_forced'' = dict_get (project now db row) ''ssl_forced''"
    using validate_target_fields_other [OF t, of "''ssl_forced''"] assms(3) by (simp add: dict_get_update_absent)
  also have "\<dots> = Some (PBool (hr_force_ssl row))"
    by (simp add: project_def Let_def dict_get_update dict_ok_def)
  finally have "ssl_forced_flag aggregate \<longleftrightarrow> hr_force_ssl row"
    by (simp add: ssl_forced_flag_def dict_get_or_def)
  with hv show ?thesis by (auto simp: host_values_def Let_def result_simps)
qed

definition sample_row :: host_row where
  "sample_row = \<lparr>hr_id = 1, hr_kind = ''proxy'', hr_owner_principal_id = PInt 4, hr_enabled = True,
     hr_certificate_id = Some 7, hr_force_ssl = False, hr_hsts_enabled = False, hr_hsts_subdomains = False,
     hr_http2_enabled = False, hr_trust_forwarded_proto = False, hr_websocket_enabled = False,
     hr_cache_enabled = False, hr_block_exploits = False, hr_redirect_target = PNone, hr_redirect_scheme = PNone,
     hr_redirect_code = PNone, hr_preserve_path = False, hr_advanced_config = [], hr_metadata = [],
     hr_created_at = None, hr_updated_at = None\<rparr>"

definition stored_db :: routing_db where
  "stored_db = \<lparr>rdb_hosts = [sample_row], rdb_sources = [\<lparr>src_host = 1, src_domain_name = ''www.example.org''\<rparr>],
     rdb_upstreams = [\<lparr>up_host = 1, up_protocol = ''http'', up_target_kind = ''dns'', up_target = ''web'', up_port = 8080,
       up_position = 0, up_weight = 1\<rparr>],
     rdb_locations = [], rdb_access = [], rdb_observations = [], rdb_revisions = []\<rparr>"

lemma stored_project:
  "project now stored_db sample_row =
     [(''id'', PInt 1), (''kind'', PStr ''proxy''), (''owner_user_id'', PInt 4), (''owner_principal_id'', PInt 4),
      (''enabled'', PInt 1), (''certificate_id'', PInt 7), (''ssl_forced'', PBool False), (''hsts_enabled'', PBool False),
      (''hsts_subdomains'', PBool False), (''http2_support'', PBool False), (''trust_forwarded_proto'', PBool False),
      (''allow_websocket_upgrade'', PBool False), (''caching_enabled'', PBool False), (''block_exploits'', PBool False),
      (''advanced_config'', PStr []), (''domain_names'', PList [PStr ''www.example.org'']), (''forward_scheme'', PStr ''http''),
      (''forward_host'', PStr ''web''), (''forward_port'', PInt 8080), (''target_kind'', PStr ''dns''),
      (''forward_domain_name'', PNone), (''forward_http_code'', PNone), (''preserve_path'', PBool False),
      (''access_list_ids'', PList []), (''access_list_id'', PInt 0), (''locations'', PList []),
      (''created_on'', PStr now), (''modified_on'', PStr now)]"
  by (simp add: project_def Let_def stored_db_def sample_row_def extensions_of_def pget_def dict_get_or_def dict_update_def
      dict_set_def first_upstream_def host_sources_def host_access_ids_def opt_pyval_def iso_def)

theorem update_ignores_force_ssl_witness:
  "\<exists>aggregate root. prepare ''now'' ''update'' [(''id'', PInt 1), (''force_ssl'', PBool True)] stored_db =
     Inr (aggregate, root, Some 1) \<and> \<not> hr_force_ssl root \<and> hr_certificate_id root = Some 7"
proof -
  let ?p = "[(''id'', PInt 1), (''force_ssl'', PBool True)]"
  have c: "casefold ''update'' = ''update''" by code_simp
  have f: "find_host stored_db 1 = Some sample_row" by (simp add: find_host_def stored_db_def sample_row_def)
  have n: "canonical_domains [PStr ''www.example.org''] = Inr [''www.example.org'']" by code_simp
  have t: "target_of ''web'' Target_Dns ''forward_host'' = Inr ''web''" by code_simp
  have k: "host_kind_of ''proxy'' = Inr Kind_Proxy" "forward_scheme_of ''http'' = Inr Scheme_Http"
    "target_kind_of ''dns'' = Inr Target_Dns" by code_simp+
  have "\<exists>aggregate root. prepare ''now'' ''update'' ?p stored_db = Inr (aggregate, root, Some 1) \<and>
     hr_certificate_id root = Some 7"
    by (simp add: prepare_def merge_update_def c f stored_project validate_payload_def text_or_def int_or_def list_or_def
        py_or_def pget_def dict_get_or_def dict_update_def k n t validate_target_fields_def dict_set_def port_of_def
        validate_tls_fields_def ssl_forced_flag_def flag_def assert_source_collisions_def host_values_def)
      (simp add: stored_db_def)
  then obtain aggregate root where a: "prepare ''now'' ''update'' ?p stored_db = Inr (aggregate, root, Some 1)"
    "hr_certificate_id root = Some 7" by blast
  have "\<not> hr_force_ssl sample_row" by (simp add: sample_row_def)
  with update_ignores_force_ssl [OF f _ _ a(1)] a show ?thesis by simp
qed

lemma case_last: "(case ys of [] \<Rightarrow> None | y # rs \<Rightarrow> Some (last (y # rs))) = (if ys = [] then None else Some (last ys))"
  by (cases ys) simp_all

lemma sort_key_snoc_max:
  "\<forall>y\<in>set xs. f y \<le> f x \<Longrightarrow> sort_key f (xs @ [x]) = sort_key f xs @ [x]"
proof -
  assume m: "\<forall>y\<in>set xs. f y \<le> f x"
  have i: "\<forall>y\<in>set ys. f y \<le> f x \<Longrightarrow> insort_key f y (ys @ [x]) = insort_key f y ys @ [x]" if "f y \<le> f x" for y ys
    using that by (induction ys) auto
  from m show ?thesis by (induction xs) (auto simp: i)
qed

text \<open>Right after a probe the health of the host is what the probe found, until the result expires, provided
  no earlier observation claims a later time: the row written by the probe is the one that is read.\<close>

theorem probe_then_health_read:
  assumes "probe (Some net) freshness lease runtime now i db = Inr (db', doc)"
    and "find_host db i = Some row"
    and "result = net \<lparr>pt_host = py_str (pget ''forward_host'' (project now db row)), pt_port = port,
           pt_scheme = text_or ''forward_scheme'' ''http'' (project now db row)\<rparr>"
    and "dict_get (project now db row) ''forward_port'' = Some v" "py_int v = Inr port"
    and "\<forall>b\<in>set (rdb_observations db). ob_host b = i \<longrightarrow> ob_checked_at b \<le> pr_checked_at result"
    and "time < pr_checked_at result + freshness"
  shows "health_read runtime time db' i = Inr doc"
proof -
  let ?b = "observation_of i freshness result"
  have db': "db' = db\<lparr>rdb_observations := rdb_observations db @ [?b]\<rparr>" and k: "hr_kind row = ''proxy''" "hr_enabled row"
    and doc: "doc = status_document row Admin_Enabled (deployment_of runtime db i) (pr_status result) (Some ?b)"
    using assms(1-5) by (auto simp: probe_def Let_def split: if_splits)
  have i: "hr_id row = i" using assms(2) by (auto simp: find_host_def find_Some_iff)
  have "find_host db' i = Some row" using assms(2) by (simp add: find_host_def db')
  moreover have "latest_observation db' i = Some ?b"
  proof -
    let ?o = "filter (\<lambda>r. ob_host r = i) (rdb_observations db)"
    have "filter (\<lambda>r. ob_host r = i) (rdb_observations db') = ?o @ [?b]"
      by (simp add: db' observation_of_def)
    moreover have "sort_key ob_checked_at (?o @ [?b]) = sort_key ob_checked_at ?o @ [?b]"
      using assms(6) by (intro sort_key_snoc_max) (simp add: observation_of_def)
    ultimately show ?thesis unfolding latest_observation_def case_last by simp
  qed
  moreover have "deployment_of runtime db' i = deployment_of runtime db i"
    by (simp add: deployment_of_def latest_revision_def db')
  moreover have "reachability_of (reachability_value r) = Inr r" for r
    by (cases r) (simp_all add: reachability_of_def enum_of_def)
  moreover have "reachability_of (ob_status ?b) = Inr (pr_status result)" "\<not> ob_expires_at ?b \<le> time"
    using calculation(4) assms(7) by (simp_all add: observation_of_def)
  ultimately show ?thesis
    by (simp add: health_read_def health_status_def Let_def k i doc)
qed

definition sample_result :: probe_result where
  "sample_result = \<lparr>pr_status = Reach_Online, pr_phase = Phase_Http, pr_checked_at = 100, pr_latency_ms = Some 3,
     pr_http_status = Some 200, pr_error_code = None, pr_error_detail = None\<rparr>"

theorem probe_then_health_read_witness:
  "\<exists>db' doc. probe (Some (\<lambda>_. sample_result)) 60 None None ''now'' 1 stored_db = Inr (db', doc) \<and>
     health_read None 120 db' 1 = Inr doc"
proof -
  have f: "find_host stored_db 1 = Some sample_row" by (simp add: find_host_def stored_db_def sample_row_def)
  have "\<exists>db' doc. probe (Some (\<lambda>_. sample_result)) 60 None None ''now'' 1 stored_db = Inr (db', doc)"
    by (simp add: probe_def f stored_project Let_def) (simp add: sample_row_def)
  then obtain db' doc where p: "probe (Some (\<lambda>_. sample_result)) 60 None None ''now'' 1 stored_db = Inr (db', doc)" by blast
  have "health_read None 120 db' 1 = Inr doc"
    by (rule probe_then_health_read [OF p f refl, where port = 8080 and v = "PInt 8080"])
      (simp_all add: stored_project, simp_all add: stored_db_def sample_result_def)
  with p show ?thesis by blast
qed

text \<open>A host is shown as online exactly when it is enabled, its last revision is applied and is that of the
  active generation without drift, no reconciliation is running for it, and the newest observation is online and
  has not expired.\<close>

theorem online_summary_exact:
  assumes "health_status runtime time db row = Inr doc"
  shows "dict_get doc ''summary_status'' = Some (PStr ''online'') \<longleftrightarrow>
    hr_enabled row \<and>
    (\<exists>revision. latest_revision db (hr_id row) = Some revision \<and> rv_applied revision \<and>
       (case runtime of None \<Rightarrow> True
        | Some r \<Rightarrow> hr_id row \<notin> set (rt_applying r) \<and> \<not> rt_drifted r revision \<and>
            (truthy_text (rt_active_generation r) \<longrightarrow> rt_active_generation r = Some (rv_generation revision)))) \<and>
    (\<exists>b. latest_observation db (hr_id row) = Some b \<and> ob_status b = ''online'' \<and> time < ob_expires_at b)"
proof -
  define a where "a = (if hr_enabled row then Admin_Enabled else Admin_Disabled)"
  define d where "d = deployment_of runtime db (hr_id row)"
  from assms obtain r where r: "(case latest_observation db (hr_id row) of
               None \<Rightarrow> Inr Reach_Unknown
             | Some b \<Rightarrow> ebind (reachability_of (ob_status b)) (\<lambda>r.
                 Inr (if ob_expires_at b \<le> time then Reach_Stale else r))) = Inr r"
    and doc: "doc = status_document row a d r (latest_observation db (hr_id row))"
    by (auto simp: health_status_def Let_def result_simps a_def d_def)
  have on: "reachability_of s = Inr r' \<Longrightarrow> (r' = Reach_Online) = (s = ''online'')" for s r'
    by (cases r') (auto simp: reachability_of_def dest!: enum_of_value)
  have "(r = Reach_Online) = (\<exists>b. latest_observation db (hr_id row) = Some b \<and> ob_status b = ''online'' \<and> time < ob_expires_at b)"
    using r on by (auto simp: result_simps split: option.splits if_splits)
  moreover have "(a = Admin_Enabled) = hr_enabled row" by (simp add: a_def)
  moreover have "(d = Deploy_Applied) = (\<exists>revision. latest_revision db (hr_id row) = Some revision \<and> rv_applied revision \<and>
       (case runtime of None \<Rightarrow> True
        | Some r \<Rightarrow> hr_id row \<notin> set (rt_applying r) \<and> \<not> rt_drifted r revision \<and>
            (truthy_text (rt_active_generation r) \<longrightarrow> rt_active_generation r = Some (rv_generation revision))))"
    by (auto simp: d_def deployment_of_def Let_def truthy_text_def split: option.splits)
  moreover have "(derive_host_summary a d r = ''online'') = (a = Admin_Enabled \<and> d = Deploy_Applied \<and> r = Reach_Online)"
    by (cases a; cases d; cases r) (simp_all add: derive_host_summary_def)
  moreover have "dict_get doc ''summary_status'' = Some (PStr (derive_host_summary a d r))"
    by (simp add: doc status_document_def)
  ultimately show ?thesis by simp
qed

theorem online_summary_exact_witness:
  "\<exists>doc. health_status None 120 (stored_db\<lparr>rdb_observations := [observation_of 1 60 sample_result]\<rparr>) sample_row = Inr doc \<and>
     dict_get doc ''summary_status'' \<noteq> Some (PStr ''online'')"
proof -
  let ?db = "stored_db\<lparr>rdb_observations := [observation_of 1 60 sample_result]\<rparr>"
  have "\<exists>doc. health_status None 120 ?db sample_row = Inr doc"
    by (simp add: health_status_def Let_def latest_observation_def observation_of_def sample_row_def sample_result_def
        reachability_of_def enum_of_def)
  then obtain doc where d: "health_status None 120 ?db sample_row = Inr doc" by blast
  have "latest_revision ?db (hr_id sample_row) = None" by (simp add: latest_revision_def stored_db_def)
  with online_summary_exact [OF d] d show ?thesis by simp
qed

text \<open>A revision records the first outcome of a generation only: when a generation that failed for a host is
  applied later, the record of the success changes nothing and the host is still reported as rolled back.\<close>

theorem retried_generation_stays_failed:
  assumes "record_revision p db = Inr (db', r)" and "\<not> truthy (pget ''applied'' p)"
    and "\<forall>e\<in>set (rdb_revisions db). \<not> (rv_host e = rv_host r \<and> rv_generation e = rv_generation r)"
    and "dict_get q ''routing_host_id'' = dict_get p ''routing_host_id''" "dict_get q ''generation'' = dict_get p ''generation''"
    and "rv_host r \<notin> set (rt_applying rt)" and "rt_active_generation rt = Some (rv_generation r)" "rv_generation r \<noteq> []"
  shows "record_revision q db' = Inr (db', r) \<and> deployment_of (Some rt) db' (rv_host r) = Deploy_Rolled_Back"
proof -
  from assms(1) obtain v host g where h: "dict_get p ''routing_host_id'' = Some v" "py_int v = Inr host"
    "dict_get p ''generation'' = Some g"
    by (auto simp: record_revision_def result_simps)
  with assms(1) have "rv_host r = host \<and> rv_generation r = py_str g"
    by (auto simp: record_revision_def result_simps find_Some_iff Let_def split: option.splits)
  with assms(1,3) h have n: "find (\<lambda>e. rv_host e = host \<and> rv_generation e = py_str g) (rdb_revisions db) = None"
    by (auto simp: find_None_iff)
  with assms(1) h have db': "db' = db\<lparr>rdb_revisions := rdb_revisions db @ [r]\<rparr>"
    and r: "rv_host r = host" "rv_generation r = py_str g" "\<not> rv_applied r"
    using assms(2) by (auto simp: record_revision_def result_simps Let_def)
  have "find P (xs @ [x]) = Some x" if "find P xs = None" "P x" for P and xs :: "revision_row list" and x
    using that by (induction xs) (auto split: if_splits)
  with n r have "find (\<lambda>e. rv_host e = host \<and> rv_generation e = py_str g) (rdb_revisions db') = Some r"
    by (simp add: db')
  moreover have "latest_revision db' host = Some r"
    unfolding latest_revision_def case_last by (simp add: db' r)
  ultimately show ?thesis
    using assms(4-8) h r by (simp add: record_revision_def deployment_of_def truthy_text_def)
qed

theorem retried_generation_stays_failed_witness:
  "\<exists>db' r. record_revision [(''routing_host_id'', PInt 1), (''generation'', PStr ''g1''), (''config_text'', PStr ''x''),
       (''config_digest'', PStr ''d''), (''applied'', PBool False)] stored_db = Inr (db', r) \<and>
     record_revision [(''routing_host_id'', PInt 1), (''generation'', PStr ''g1''), (''config_text'', PStr ''x''),
       (''config_digest'', PStr ''d''), (''applied'', PBool True)] db' = Inr (db', r) \<and>
     deployment_of (Some \<lparr>rt_applying = [], rt_active_generation = Some ''g1'', rt_drifted = \<lambda>_. False\<rparr>) db' 1 =
       Deploy_Rolled_Back"
proof -
  let ?p = "\<lambda>b. [(''routing_host_id'', PInt 1), (''generation'', PStr ''g1''), (''config_text'', PStr ''x''),
       (''config_digest'', PStr ''d''), (''applied'', PBool b)]"
  let ?rt = "\<lparr>rt_applying = [], rt_active_generation = Some ''g1'', rt_drifted = \<lambda>_. False\<rparr>"
  have "\<exists>db' r. record_revision (?p False) stored_db = Inr (db', r) \<and> rv_host r = 1 \<and> rv_generation r = ''g1''"
    by (simp add: record_revision_def stored_db_def Let_def)
  then obtain db' r where r: "record_revision (?p False) stored_db = Inr (db', r)" "rv_host r = 1" "rv_generation r = ''g1''"
    by blast
  have "record_revision (?p True) db' = Inr (db', r) \<and> deployment_of (Some ?rt) db' (rv_host r) = Deploy_Rolled_Back"
    by (rule retried_generation_stays_failed [OF r(1)])
      (simp_all add: pget_def dict_get_or_def stored_db_def r(2,3))
  with r show ?thesis by metis
qed

section \<open>Stream ports\<close>

definition transports :: "stream_protocol \<Rightarrow> string list" where
  "transports p = (if p = Stream_Tcp_Udp then [''tcp'', ''udp''] else [stream_protocol_value p])"

lemma stream_claims_keys: "map fst (stream_claims s) = map (\<lambda>p. (st_incoming_port s, p)) (transports (st_protocol s))"
  by (simp add: stream_claims_def transports_def)

lemma conflicts_iff:
  "stream_protocol_value q \<in> set (stream_conflicts p) \<longleftrightarrow> set (transports q) \<inter> set (transports p) \<noteq> {}"
  by (cases p; cases q) (simp_all add: stream_conflicts_def transports_def)

lemma stream_projection_fields:
  assumes "stream_projection r = Inr s"
  shows "st_incoming_port s = sw_incoming_port r \<and> sw_protocol r = stream_protocol_value (st_protocol s) \<and> st_id s = sw_id r"
proof -
  from assms obtain p where "stream_protocol_of (sw_protocol r) = Inr p" "st_protocol s = p \<and> st_incoming_port s = sw_incoming_port r \<and> st_id s = sw_id r"
    by (auto simp: stream_projection_def validate_stream_def result_simps)
  then show ?thesis using enum_of_value [of stream_protocol_value _ "sw_protocol r" p] by (auto simp: stream_protocol_of_def)
qed

text \<open>The stream check accepts a port and protocol exactly when a stream with them could join the inventory: no
  port of the stored streams, and of the new one, is claimed twice for the same transport.\<close>

theorem stream_check_exact:
  assumes "stream_runtime_list rows = Inr streams"
    and "distinct (map fst (concat (map stream_claims streams)))"
  shows "assert_port_available rows (st_incoming_port s) (st_protocol s) None = Inr () \<longleftrightarrow>
    distinct (map fst (concat (map stream_claims (streams @ [s]))))"
proof -
  have l: "list_all2 (\<lambda>r t. stream_projection r = Inr t) rows streams"
    using assms(1) by (simp add: stream_runtime_list_def emap_Inr_iff)
  have "assert_port_available rows (st_incoming_port s) (st_protocol s) None = Inr () \<longleftrightarrow>
     (\<forall>r\<in>set rows. sw_incoming_port r = st_incoming_port s \<longrightarrow> sw_protocol r \<notin> set (stream_conflicts (st_protocol s)))"
    by (auto simp: assert_port_available_def)
  also have "\<dots> \<longleftrightarrow> (\<forall>t\<in>set streams. st_incoming_port t = st_incoming_port s \<longrightarrow>
      set (transports (st_protocol t)) \<inter> set (transports (st_protocol s)) = {})"
    using l
  proof (induction rows streams rule: list_all2_induct)
    case (Cons r rs t ts)
    then show ?case using stream_projection_fields [of r t] by (auto simp: conflicts_iff)
  qed simp
  also have "\<dots> \<longleftrightarrow> set (map fst (concat (map stream_claims streams))) \<inter> set (map fst (stream_claims s)) = {}"
    unfolding map_concat by (auto simp: stream_claims_keys)
  also have "\<dots> \<longleftrightarrow> distinct (map fst (concat (map stream_claims (streams @ [s]))))"
    using assms(2) by (auto simp: stream_claims_keys distinct_map transports_def)
  finally show ?thesis .
qed

definition sample_stream_row :: "int \<Rightarrow> string \<Rightarrow> stream_row" where
  "sample_stream_row i protocol = \<lparr>sw_id = i, sw_owner_principal_id = None, sw_protocol = protocol, sw_incoming_port = 53,
     sw_target_kind = ''dns'', sw_target = ''ns'', sw_target_port = 53, sw_certificate_id = None, sw_enabled = True,
     sw_metadata = []\<rparr>"

definition sample_stream :: "int \<Rightarrow> stream_protocol \<Rightarrow> runtime_stream" where
  "sample_stream i protocol = \<lparr>st_id = i, st_incoming_port = 53, st_forwarding_host = ''ns'', st_forwarding_port = 53,
     st_protocol = protocol, st_target_kind = Target_Dns, st_owner_user_id = 1, st_certificate_id = 0,
     st_enabled = True, st_meta = []\<rparr>"

text \<open>The constraint of the table alone lets both of these rows in, the check does not.\<close>

theorem stream_check_exact_witness:
  "stream_unique [sample_stream_row 1 ''tcp'', sample_stream_row 2 ''tcp+udp''] \<and>
   assert_port_available [sample_stream_row 1 ''tcp''] 53 Stream_Tcp_Udp None \<noteq> Inr () \<and>
   assert_port_available [sample_stream_row 1 ''tcp''] 53 Stream_Udp None = Inr ()"
proof -
  have t: "target_of ''ns'' Target_Dns ''forwarding_host'' = Inr ''ns''" "strip ''ns'' \<noteq> []" by code_simp+
  have p: "stream_protocol_of ''tcp'' = Inr Stream_Tcp" "target_kind_of ''dns'' = Inr Target_Dns" by code_simp+
  have r: "stream_runtime_list [sample_stream_row 1 ''tcp''] = Inr [sample_stream 1 Stream_Tcp]"
    by (simp add: stream_runtime_list_def stream_projection_def sample_stream_row_def sample_stream_def p
        validate_stream_def port_of_def t)
  have d: "distinct (map fst (concat (map stream_claims [sample_stream 1 Stream_Tcp])))"
    by (simp add: stream_claims_def sample_stream_def)
  have "st_incoming_port (sample_stream 2 q) = 53" "st_protocol (sample_stream 2 q) = q" for q
    by (simp_all add: sample_stream_def)
  then have e: "assert_port_available [sample_stream_row 1 ''tcp''] 53 q None = Inr () \<longleftrightarrow>
      distinct (map fst (concat (map stream_claims ([sample_stream 1 Stream_Tcp] @ [sample_stream 2 q]))))" for q
    using stream_check_exact [OF r d, of "sample_stream 2 q"] by simp
  show ?thesis unfolding e by (simp add: stream_unique_def sample_stream_row_def stream_claims_def sample_stream_def)
qed

end
