(* ===== verification/Reconcile.thy ===== *)
theory Reconcile
  imports Py_Value
begin

text \<open>
  \<open>runtime/reconcile.py\<close>, \<open>runtime/publisher.py\<close> and \<open>runtime/hooks.py\<close>: the store of immutable configuration
  generations, the manifest \<open>ACTIVE\<close>, the link \<open>current\<close>, and the reconciler that validates, activates,
  reloads and rolls back. The file system is a record; unlike a transaction it keeps what was written before
  an exception, so the reconciler returns the state together with its result. \<open>sha256\<close> (the hexadecimal
  digest) and the process runner are parameters. Disk errors are not modelled.
\<close>

section \<open>Paths\<close>

text \<open>\<open>PurePosixPath(name).parts\<close> without the root: empty and single-dot components disappear.\<close>

definition path_parts :: "string \<Rightarrow> string list" where
  "path_parts name = filter (\<lambda>p. p \<noteq> [] \<and> p \<noteq> ''.'') (split_on CHR ''/'' name)"

definition safe_relative :: "string \<Rightarrow> py_error + string list" where
  "safe_relative name =
     (if startswith ''/'' name \<or> ''..'' \<in> set (path_parts name) \<or> path_parts name = []
      then Inl (RuntimeError (''unsafe generated path: '' @ str_repr name)) else Inr (path_parts name))"

section \<open>The generation store\<close>

type_synonym tree = "(string list, string) dict"

record store =
  generations :: "(string, tree) dict"
  active_manifest :: "string option"
  failed_notes :: "(string, string) dict"
  current_link :: "string option"

definition generation_id :: "(string \<Rightarrow> string) \<Rightarrow> (string, string) dict \<Rightarrow> py_error + string" where
  "generation_id sha256 files =
     ebind (emap (\<lambda>(name, contents). ebind (safe_relative name) (\<lambda>_. Inr (name @ [CHR 0x00] @ contents @ [CHR 0x00])))
              (sort_key fst files)) (\<lambda>chunks. Inr (take 20 (sha256 (concat chunks))))"

text \<open>Writing a file fails when a directory of its path is a file, or when its path is a directory.\<close>

definition strict_prefix_of :: "'a list \<Rightarrow> 'a list \<Rightarrow> bool" where
  "strict_prefix_of p q \<longleftrightarrow> length p < length q \<and> take (length p) q = p"

definition write_file :: "string \<times> string \<Rightarrow> tree \<Rightarrow> py_error + tree" where
  "write_file = (\<lambda>(name, contents) t.
     ebind (safe_relative name) (\<lambda>parts.
       if (\<exists>q\<in>dict_keys t. strict_prefix_of q parts \<or> strict_prefix_of parts q)
       then Inl (OSError name) else Inr (dict_set parts contents t)))"

definition stage :: "string \<Rightarrow> (string, string) dict \<Rightarrow> store \<Rightarrow> store \<times> (py_error + bool)" where
  "stage gid files st =
     (if gid \<in> dict_keys (generations st) then (st, Inr False)
      else case efold write_file (sort_key fst files) [] of
        Inl e \<Rightarrow> (st, Inl e)
      | Inr t \<Rightarrow> (st\<lparr>generations := dict_set gid t (generations st)\<rparr>, Inr True))"

definition active_id :: "store \<Rightarrow> string option" where
  "active_id st =
     (case active_manifest st of
        None \<Rightarrow> None
      | Some text \<Rightarrow> let value = strip text in if value = [] then None else Some value)"

definition active_path :: "store \<Rightarrow> string option" where
  "active_path st = active_id st"

definition activate :: "string \<Rightarrow> store \<Rightarrow> py_error + store" where
  "activate gid st =
     (if gid \<notin> dict_keys (generations st) then Inl (RuntimeError (''generation does not exist: '' @ gid))
      else Inr (st\<lparr>active_manifest := Some (gid @ newline)\<rparr>))"

definition clear_active :: "store \<Rightarrow> store" where
  "clear_active st = st\<lparr>active_manifest := None\<rparr>"

definition record_failure :: "string \<Rightarrow> string \<Rightarrow> store \<Rightarrow> store" where
  "record_failure gid diagnostic st =
     st\<lparr>failed_notes := dict_set (gid @ ''.txt'') (rstrip diagnostic @ newline) (failed_notes st)\<rparr>"

section \<open>Command hooks and publication\<close>

text \<open>A command gives its exit status, its standard output and its error output; it sees the file system.\<close>

type_synonym runner = "string list \<Rightarrow> store \<Rightarrow> int \<times> string \<times> string"

definition run_command :: "runner \<Rightarrow> string list \<Rightarrow> store \<Rightarrow> py_error + unit" where
  "run_command runner args st =
     (case runner args st of (code, out, err) \<Rightarrow>
        if code \<noteq> 0
        then Inl (RuntimeError (strip (if err \<noteq> [] then err else if out \<noteq> [] then out else ''command failed'')))
        else Inr ())"

definition hooks_validate :: "runner \<Rightarrow> string \<Rightarrow> store \<Rightarrow> py_error + unit" where
  "hooks_validate runner path st =
     run_command runner [''nginx'', ''-t'', ''-c'', path @ ''/nginx.conf'', ''-p'', path @ ''/''] st"

definition hooks_reload :: "runner \<Rightarrow> string \<Rightarrow> store \<Rightarrow> py_error + unit" where
  "hooks_reload runner path st =
     run_command runner [''nginx'', ''-c'', path @ ''/nginx.conf'', ''-p'', path @ ''/'', ''-s'', ''reload''] st"

definition generation_path :: "string \<Rightarrow> string \<Rightarrow> string" where
  "generation_path root gid = root @ ''/generations/'' @ gid"

definition publish :: "string \<Rightarrow> store \<Rightarrow> store" where
  "publish gid st = st\<lparr>current_link := Some gid\<rparr>"

record reconciler =
  rc_root :: string
  rc_sha256 :: "string \<Rightarrow> string"
  rc_runner :: runner
  rc_validate :: bool
  rc_reload :: bool

definition validator :: "reconciler \<Rightarrow> string \<Rightarrow> store \<Rightarrow> py_error + unit" where
  "validator rc gid st =
     (if rc_validate rc then hooks_validate (rc_runner rc) (generation_path (rc_root rc) gid) st else Inr ())"

text \<open>Publishing happens before the command, and stays when the command fails.\<close>

definition reloader :: "reconciler \<Rightarrow> string \<Rightarrow> store \<Rightarrow> store \<times> (py_error + unit)" where
  "reloader rc gid st =
     (let st = publish gid st in
      (st, if rc_reload rc then hooks_reload (rc_runner rc) (rc_root rc @ ''/current'') st else Inr ()))"

section \<open>Reconciliation\<close>

record reconcile_result =
  rr_generation :: string
  rr_previous :: "string option"
  rr_changed :: bool
  rr_applied :: bool
  rr_diagnostic :: "string option"

fun error_text :: "py_error \<Rightarrow> string" where
  "error_text (ValueError m) = m"
| "error_text (TypeError m) = m"
| "error_text (KeyError m) = str_repr m"
| "error_text (AttributeError m) = m"
| "error_text (DomainValidationError m) = m"
| "error_text (CollisionError m) = m"
| "error_text (OSError m) = m"
| "error_text (RuntimeError m) = m"
| "error_text (LookupError m) = m"
| "error_text (PermissionError m) = m"
| "error_text (AuthorizationError m) = m"
| "error_text (OwnershipError m) = m"

text \<open>What follows a failed reload: back to the previous generation, or to none.\<close>

definition roll_back :: "reconciler \<Rightarrow> string \<Rightarrow> string option \<Rightarrow> string \<Rightarrow> store \<Rightarrow> store \<times> (py_error + reconcile_result)" where
  "roll_back rc gid previous diagnostic st =
     (case previous of
        None \<Rightarrow> (record_failure gid diagnostic (clear_active st), Inl (RuntimeError diagnostic))
      | Some p \<Rightarrow>
         (case activate p st of
            Inl e \<Rightarrow> (st, Inl e)
          | Inr st \<Rightarrow>
             (let (st, result) = reloader rc p st;
                  diagnostic = (case result of Inr _ \<Rightarrow> diagnostic
                    | Inl e \<Rightarrow> diagnostic @ ''; rollback reload failed: '' @ error_text e) in
              (record_failure gid diagnostic st, Inl (RuntimeError diagnostic)))))"

definition reconcile :: "reconciler \<Rightarrow> (string, string) dict \<Rightarrow> store \<Rightarrow> store \<times> (py_error + reconcile_result)" where
  "reconcile rc files st =
     (case generation_id (rc_sha256 rc) files of
        Inl e \<Rightarrow> (st, Inl e)
      | Inr gid \<Rightarrow>
          let previous = active_id st in
          if previous = Some gid
          then (st, Inr \<lparr>rr_generation = gid, rr_previous = previous, rr_changed = False, rr_applied = True, rr_diagnostic = None\<rparr>)
          else
           (case stage gid files st of
              (st, Inl e) \<Rightarrow> (st, Inl e)
            | (st, Inr _) \<Rightarrow>
               (case validator rc gid st of
                  Inl e \<Rightarrow>
                    let diagnostic = ''validation failed: '' @ error_text e in
                    (record_failure gid diagnostic st, Inl (RuntimeError diagnostic))
                | Inr _ \<Rightarrow>
                   (case activate gid st of
                      Inl e \<Rightarrow> (st, Inl e)
                    | Inr st \<Rightarrow>
                       (case reloader rc gid st of
                          (st, Inl e) \<Rightarrow> roll_back rc gid previous (''reload failed: '' @ error_text e) st
                        | (st, Inr _) \<Rightarrow>
                            (st, Inr \<lparr>rr_generation = gid, rr_previous = previous, rr_changed = True, rr_applied = True,
                               rr_diagnostic = None\<rparr>))))))"

section \<open>Laws of the store\<close>

text \<open>\<open>hexdigest\<close> of SHA-256: 64 hexadecimal digits.\<close>

definition hex_digest :: "string \<Rightarrow> bool" where
  "hex_digest d \<longleftrightarrow> length d = 64 \<and> set d \<subseteq> set ''0123456789abcdef''"

definition plain_id :: "string \<Rightarrow> bool" where
  "plain_id g \<longleftrightarrow> g \<noteq> [] \<and> (\<forall>c\<in>set g. \<not> is_space c)"

lemma hex_not_space: "c \<in> set ''0123456789abcdef'' \<Longrightarrow> \<not> is_space c"
proof -
  have "\<forall>c\<in>set ''0123456789abcdef''. \<not> is_space c" by code_simp
  then show "c \<in> set ''0123456789abcdef'' \<Longrightarrow> \<not> is_space c" by blast
qed

lemma generation_id_plain:
  assumes "generation_id sha files = Inr g" "\<And>x. hex_digest (sha x)"
  shows "plain_id g"
proof -
  from assms(1) obtain x where g: "g = take 20 (sha x)" by (auto simp: generation_id_def result_simps)
  have s: "length (sha x) = 64" "set (sha x) \<subseteq> set ''0123456789abcdef''"
    using assms(2) [of x] by (simp_all add: hex_digest_def)
  have "g \<noteq> []" using s(1) by (auto simp: g)
  moreover have "set g \<subseteq> set (sha x)" by (simp add: g set_take_subset)
  ultimately show ?thesis using s(2) hex_not_space by (auto simp: plain_id_def)
qed

lemma strip_plain: "plain_id g \<Longrightarrow> strip (g @ newline) = g"
proof -
  assume "plain_id g"
  then have g: "g \<noteq> []" "\<forall>c\<in>set g. \<not> is_space c" by (auto simp: plain_id_def)
  have n: "\<forall>c\<in>set (rev newline). is_space c" by code_simp
  have "rstrip_by is_space (g @ newline) = rstrip_by is_space g"
    using n unfolding rstrip_by_def rev_append by (subst dropWhile_append2) blast+
  also have "\<dots> = g" using g by (intro rstrip_by_id) simp
  finally show ?thesis using g
    by (simp add: strip_def strip_by_def lstrip_by_id)
qed

lemma active_id_activate: "activate g st = Inr st' \<Longrightarrow> plain_id g \<Longrightarrow> active_id st' = Some g"
  by (auto simp: activate_def active_id_def strip_plain Let_def plain_id_def split: if_splits)

lemma activate_exact: "g \<in> dict_keys (generations st) \<Longrightarrow> activate g st = Inr (st\<lparr>active_manifest := Some (g @ newline)\<rparr>)"
  by (simp add: activate_def)

lemma store_queries [simp]:
  "active_id (publish g st) = active_id st" "active_id (record_failure g t st) = active_id st"
  "active_id (clear_active st) = None" "generations (publish g st) = generations st"
  "generations (record_failure g t st) = generations st" "generations (clear_active st) = generations st"
  "current_link (record_failure g t st) = current_link st" "current_link (clear_active st) = current_link st"
  "active_manifest (publish g st) = active_manifest st" "active_manifest (record_failure g t st) = active_manifest st"
  "active_id (st\<lparr>generations := gs\<rparr>) = active_id st" "current_link (publish g st) = Some g"
  by (simp_all add: active_id_def publish_def record_failure_def clear_active_def)

lemma reloader_state [simp]: "fst (reloader rc g st) = publish g st"
  by (simp add: reloader_def Let_def)

text \<open>The tree that a set of files becomes.\<close>

definition tree_of :: "(string, string) dict \<Rightarrow> py_error + tree" where
  "tree_of files = efold write_file (sort_key fst files) []"

definition stored :: "string \<Rightarrow> (string, string) dict \<Rightarrow> store \<Rightarrow> py_error + tree" where
  "stored g files st = (case dict_get (generations st) g of Some t \<Rightarrow> Inr t | None \<Rightarrow> tree_of files)"

lemma stage_exact:
  "stage g files st =
     (case stored g files st of
        Inl e \<Rightarrow> (st, Inl e)
      | Inr t \<Rightarrow> (if g \<in> dict_keys (generations st) then (st, Inr False)
                  else (st\<lparr>generations := dict_set g t (generations st)\<rparr>, Inr True)))"
proof (cases "dict_get (generations st) g")
  case None
  then have "g \<notin> dict_keys (generations st)" by (simp add: dict_get_None)
  moreover have "stored g files st = tree_of files" by (simp only: stored_def None option.case)
  ultimately show ?thesis by (simp add: stage_def tree_of_def split: sum.split)
next
  case (Some t)
  then show ?thesis by (simp add: stage_def stored_def dict_keys_SomeI)
qed

text \<open>The store as its users see it: which generations exist with which files, and which one is active.\<close>

record deployment =
  dp_generations :: "string \<Rightarrow> tree option"
  dp_active :: "string option"

definition deployed :: "store \<Rightarrow> deployment" where
  "deployed st = \<lparr>dp_generations = dict_get (generations st), dp_active = active_id st\<rparr>"

text \<open>What a reconciliation promises: the candidate is kept, and it becomes active exactly when it is accepted.\<close>

definition deploy :: "py_error + string \<Rightarrow> py_error + tree \<Rightarrow> bool \<Rightarrow> deployment \<Rightarrow> deployment" where
  "deploy candidate contents accepted d =
     (case candidate of
        Inl _ \<Rightarrow> d
      | Inr g \<Rightarrow>
          if dp_active d = Some g then d
          else case (case dp_generations d g of Some t \<Rightarrow> Inr t | None \<Rightarrow> contents) of
              Inl _ \<Rightarrow> d
            | Inr t \<Rightarrow> d\<lparr>dp_generations := (dp_generations d)(g \<mapsto> t),
                dp_active := (if accepted then Some g else dp_active d)\<rparr>)"

definition staged_store :: "string \<Rightarrow> (string, string) dict \<Rightarrow> store \<Rightarrow> store" where
  "staged_store g files st = fst (stage g files st)"

text \<open>Validation sees the staged generation, and the reload the activated one.\<close>

definition accepts :: "reconciler \<Rightarrow> string \<Rightarrow> store \<Rightarrow> bool" where
  "accepts rc g st \<longleftrightarrow> validator rc g st = Inr () \<and>
     snd (reloader rc g (st\<lparr>active_manifest := Some (g @ newline)\<rparr>)) = Inr ()"

definition accepted :: "reconciler \<Rightarrow> (string, string) dict \<Rightarrow> store \<Rightarrow> bool" where
  "accepted rc files st =
     (case generation_id (rc_sha256 rc) files of
        Inl _ \<Rightarrow> False
      | Inr g \<Rightarrow> active_id st = Some g \<or>
          (\<exists>t. stored g files st = Inr t) \<and> accepts rc g (staged_store g files st))"

definition active_exists :: "store \<Rightarrow> bool" where
  "active_exists st \<longleftrightarrow> (\<forall>g. active_id st = Some g \<longrightarrow> g \<in> dict_keys (generations st) \<and> plain_id g)"

lemma staged_keys:
  assumes "stored g files st = Inr t"
  shows "dict_get (generations (staged_store g files st)) = (dict_get (generations st))(g \<mapsto> t)"
proof (cases "g \<in> dict_keys (generations st)")
  case True
  then obtain u where u: "dict_get (generations st) g = Some u" by (auto simp: dict_keys_get)
  then have "u = t" using assms by (simp add: stored_def)
  then show ?thesis using True u assms by (auto simp: staged_store_def stage_exact)
next
  case False
  then show ?thesis using assms by (auto simp: staged_store_def stage_exact)
qed

lemma staged_other [simp]:
  "active_id (staged_store g files st) = active_id st" "current_link (staged_store g files st) = current_link st"
  "failed_notes (staged_store g files st) = failed_notes st" "active_manifest (staged_store g files st) = active_manifest st"
  by (simp_all add: staged_store_def stage_exact split: sum.split)

text \<open>The five ways a reconciliation ends.\<close>

lemma reconcile_outcomes:
  fixes st :: store
  assumes "generation_id (rc_sha256 rc) files = Inr g"
  defines "s \<equiv> staged_store g files st" and "a \<equiv> (staged_store g files st)\<lparr>active_manifest := Some (g @ newline)\<rparr>"
  shows "active_id st = Some g \<Longrightarrow> reconcile rc files st =
      (st, Inr \<lparr>rr_generation = g, rr_previous = Some g, rr_changed = False, rr_applied = True, rr_diagnostic = None\<rparr>)"
    and "active_id st \<noteq> Some g \<Longrightarrow> stored g files st = Inl e \<Longrightarrow> reconcile rc files st = (st, Inl e)"
    and "active_id st \<noteq> Some g \<Longrightarrow> stored g files st = Inr t \<Longrightarrow> validator rc g s = Inl e \<Longrightarrow>
      reconcile rc files st = (record_failure g (''validation failed: '' @ error_text e) s,
        Inl (RuntimeError (''validation failed: '' @ error_text e)))"
    and "active_id st \<noteq> Some g \<Longrightarrow> stored g files st = Inr t \<Longrightarrow> validator rc g s = Inr () \<Longrightarrow>
      snd (reloader rc g a) = Inl e \<Longrightarrow>
      reconcile rc files st = roll_back rc g (active_id st) (''reload failed: '' @ error_text e) (publish g a)"
    and "active_id st \<noteq> Some g \<Longrightarrow> stored g files st = Inr t \<Longrightarrow> validator rc g s = Inr () \<Longrightarrow>
      snd (reloader rc g a) = Inr () \<Longrightarrow>
      reconcile rc files st = (publish g a,
        Inr \<lparr>rr_generation = g, rr_previous = active_id st, rr_changed = True, rr_applied = True, rr_diagnostic = None\<rparr>)"
proof -
  show "active_id st = Some g \<Longrightarrow> reconcile rc files st =
      (st, Inr \<lparr>rr_generation = g, rr_previous = Some g, rr_changed = False, rr_applied = True, rr_diagnostic = None\<rparr>)"
    by (simp add: reconcile_def assms(1))
  show "active_id st \<noteq> Some g \<Longrightarrow> stored g files st = Inl e \<Longrightarrow> reconcile rc files st = (st, Inl e)"
    by (simp add: reconcile_def assms(1) stage_exact)
  assume act: "active_id st \<noteq> Some g" and t: "stored g files st = Inr t"
  obtain b where b: "stage g files st = (s, Inr b)"
    using t by (cases "g \<in> dict_keys (generations st)") (auto simp: s_def staged_store_def stage_exact)
  have "dict_get (generations s) g = Some t" by (simp add: s_def staged_keys [OF t])
  then have k: "activate g s = Inr a" by (simp add: a_def s_def activate_exact dict_keys_SomeI)
  have r: "reloader rc g a = (publish g a, snd (reloader rc g a))" by (metis prod.collapse reloader_state)
  show "reconcile rc files st = (record_failure g (''validation failed: '' @ error_text e) s,
        Inl (RuntimeError (''validation failed: '' @ error_text e)))" if "validator rc g s = Inl e"
    using act that by (simp add: reconcile_def assms(1) b Let_def)
  show "reconcile rc files st = roll_back rc g (active_id st) (''reload failed: '' @ error_text e) (publish g a)"
    if "validator rc g s = Inr ()" "snd (reloader rc g a) = Inl e"
    using act that r by (simp add: reconcile_def assms(1) b k Let_def)
  show "reconcile rc files st = (publish g a,
        Inr \<lparr>rr_generation = g, rr_previous = active_id st, rr_changed = True, rr_applied = True, rr_diagnostic = None\<rparr>)"
    if "validator rc g s = Inr ()" "snd (reloader rc g a) = Inr ()"
    using act that r by (simp add: reconcile_def assms(1) b k Let_def)
qed

lemma roll_back_state:
  assumes "\<forall>p. previous = Some p \<longrightarrow> p \<in> dict_keys (generations st) \<and> plain_id p"
  shows "\<exists>st' m. roll_back rc g previous d st = (st', Inl (RuntimeError m)) \<and>
    generations st' = generations st \<and> active_id st' = previous \<and>
    current_link st' = (case previous of None \<Rightarrow> current_link st | Some p \<Rightarrow> Some p)"
proof (cases previous)
  case None
  then show ?thesis by (simp add: roll_back_def)
next
  case (Some p)
  let ?b = "st\<lparr>active_manifest := Some (p @ newline)\<rparr>"
  have k: "activate p st = Inr ?b" using assms Some by (simp add: activate_exact)
  have a: "active_id ?b = Some p" using active_id_activate [OF k] assms Some by simp
  obtain x where r: "reloader rc p ?b = (publish p ?b, x)" by (metis prod.collapse reloader_state)
  show ?thesis using a by (simp add: roll_back_def Some k r Let_def publish_def)
    (simp add: record_failure_def active_id_def)
qed

lemma reconcile_deploys:
  assumes "\<And>x. hex_digest (rc_sha256 rc x)" and "active_exists st"
  shows "deployed (fst (reconcile rc files st)) =
      deploy (generation_id (rc_sha256 rc) files) (tree_of files) (accepted rc files st) (deployed st) \<and>
    ((\<exists>r. snd (reconcile rc files st) = Inr r) \<longleftrightarrow> accepted rc files st) \<and>
    active_exists (fst (reconcile rc files st))"
proof (cases "generation_id (rc_sha256 rc) files")
  case (Inl e)
  then show ?thesis using assms(2) by (simp add: reconcile_def deploy_def accepted_def)
next
  case (Inr g)
  have plain: "plain_id g" by (rule generation_id_plain [OF Inr assms(1)])
  note out = reconcile_outcomes [where st = st, OF Inr]
  let ?s = "staged_store g files st" and ?a = "(staged_store g files st)\<lparr>active_manifest := Some (g @ newline)\<rparr>"
  show ?thesis
  proof (cases "active_id st = Some g")
    case True
    then show ?thesis using assms(2) Inr by (simp add: out(1) deploy_def accepted_def deployed_def)
  next
    case new: False
    show ?thesis
    proof (cases "stored g files st")
      case e: (Inl e)
      then have "dict_get (generations st) g = None" "tree_of files = Inl e"
        by (auto simp: stored_def split: option.splits)
      then show ?thesis using assms(2) new e Inr by (simp add: out(2) deploy_def accepted_def deployed_def)
    next
      case t: (Inr t)
      have tree: "(case dict_get (generations st) g of None \<Rightarrow> tree_of files | Some t \<Rightarrow> Inr t) = Inr t"
        using t by (simp add: stored_def)
      have keys: "dict_get (generations ?s) = (dict_get (generations st))(g \<mapsto> t)" by (rule staged_keys [OF t])
      have acc: "accepted rc files st = accepts rc g ?s" using Inr new t by (simp add: accepted_def)
      have goal: "deploy (generation_id (rc_sha256 rc) files) (tree_of files) (accepted rc files st) (deployed st) =
          \<lparr>dp_generations = (dict_get (generations st))(g \<mapsto> t),
            dp_active = if accepts rc g ?s then Some g else active_id st\<rparr>"
        using new tree by (simp add: deploy_def Inr deployed_def acc)
      have finish: ?thesis if "reconcile rc files st = (u, r)" and k: "generations u = generations ?s"
        and a: "active_id u = (if accepts rc g ?s then Some g else active_id st)"
        and "(\<exists>v. r = Inr v) \<longleftrightarrow> accepts rc g ?s" for u r
      proof -
        have "active_exists u" using a plain assms(2)
          by (auto simp: active_exists_def dict_keys_get k keys split: if_splits)
        moreover have "deployed u = \<lparr>dp_generations = (dict_get (generations st))(g \<mapsto> t),
            dp_active = if accepts rc g ?s then Some g else active_id st\<rparr>"
          unfolding deployed_def k keys a ..
        ultimately show ?thesis using that(1,4) unfolding goal by (simp add: acc)
      qed
      show ?thesis
      proof (cases "validator rc g ?s")
        case e: (Inl e)
        show ?thesis by (rule finish [OF out(3) [OF new t e]]) (simp_all add: accepts_def e)
      next
        case (Inr u)
        then have v: "validator rc g ?s = Inr ()" by simp
        show ?thesis
        proof (cases "snd (reloader rc g ?a)")
          case e: (Inl e)
          obtain st' m where rb: "roll_back rc g (active_id st) (''reload failed: '' @ error_text e) (publish g ?a)
              = (st', Inl (RuntimeError m))" "generations st' = generations ?s" "active_id st' = active_id st"
            using roll_back_state [of "active_id st" "publish g ?a" rc g "''reload failed: '' @ error_text e"] assms(2) keys
            by (force simp: active_exists_def dict_keys_get)
          show ?thesis using rb(2,3) by (intro finish [OF out(4) [OF new t v e, unfolded rb(1)]]) (simp_all add: accepts_def e)
        next
          case (Inr u)
          then have r: "snd (reloader rc g ?a) = Inr ()" by simp
          have "active_id ?a = Some g" using plain
            by (simp add: active_id_def strip_plain Let_def plain_id_def)
          then show ?thesis by (intro finish [OF out(5) [OF new t v r]]) (simp_all add: accepts_def v r)
        qed
      qed
    qed
  qed
qed

text \<open>Runs: reconciliations of any files, by reconcilers with any hooks, one after the other.\<close>

inductive reconcile_step :: "(string \<Rightarrow> string) \<Rightarrow> store \<Rightarrow> store \<Rightarrow> bool" for sha where
  "rc_sha256 rc = sha \<Longrightarrow> reconcile_step sha st (fst (reconcile rc files st))"

inductive_cases reconcile_stepE: "reconcile_step sha st st'"

definition empty_store :: store where
  "empty_store = \<lparr>generations = [], active_manifest = None, failed_notes = [], current_link = None\<rparr>"

text \<open>Every generation holds the files that its identifier is the digest of.\<close>

definition content_addressed :: "(string \<Rightarrow> string) \<Rightarrow> store \<Rightarrow> bool" where
  "content_addressed sha st \<longleftrightarrow> (\<forall>g t. dict_get (generations st) g = Some t \<longrightarrow>
     (\<exists>files. generation_id sha files = Inr g \<and> tree_of files = Inr t))"

definition store_ok :: "(string \<Rightarrow> string) \<Rightarrow> store \<Rightarrow> bool" where
  "store_ok sha st \<longleftrightarrow> ((\<forall>x. hex_digest (sha x)) \<longrightarrow> active_exists st \<and> content_addressed sha st)"

lemma store_ok_reconcile: "store_ok (rc_sha256 rc) st \<Longrightarrow> store_ok (rc_sha256 rc) (fst (reconcile rc files st))"
  unfolding store_ok_def
proof (intro impI conjI)
  assume "(\<forall>x. hex_digest (rc_sha256 rc x)) \<longrightarrow> active_exists st \<and> content_addressed (rc_sha256 rc) st"
    and h: "\<forall>x. hex_digest (rc_sha256 rc x)"
  then have a: "active_exists st" and c: "content_addressed (rc_sha256 rc) st" by blast+
  note d = reconcile_deploys [of rc, OF _ a, of files]
  from d h show "active_exists (fst (reconcile rc files st))" by blast
  have g: "dict_get (generations (fst (reconcile rc files st))) = dp_generations
      (deploy (generation_id (rc_sha256 rc) files) (tree_of files) (accepted rc files st) (deployed st))"
    using d h by (metis deployed_def deployment.select_convs(1))
  show "content_addressed (rc_sha256 rc) (fst (reconcile rc files st))"
    unfolding content_addressed_def g
    using c by (auto simp: content_addressed_def deploy_def deployed_def split: sum.split option.split if_splits)
qed

interpretation gs: state_machine "\<lambda>st. st = empty_store" "reconcile_step sha" "store_ok sha" for sha
proof unfold_locales
  show "st = empty_store \<Longrightarrow> store_ok sha st" for st
    by (simp add: store_ok_def empty_store_def active_exists_def content_addressed_def active_id_def)
  show "store_ok sha st \<Longrightarrow> reconcile_step sha st st' \<Longrightarrow> store_ok sha st'" for st st'
    by (auto elim!: reconcile_stepE intro: store_ok_reconcile)
qed

lemma generations_grow:
  assumes "reconcile_step sha st st'" "store_ok sha st" "\<And>x. hex_digest (sha x)" "dict_get (generations st) g = Some t"
  shows "dict_get (generations st') g = Some t"
  using assms(1)
proof (rule reconcile_stepE)
  fix rc files
  assume st': "st' = fst (reconcile rc files st)" and s: "rc_sha256 rc = sha"
  have "active_exists st" using assms(2,3) by (simp add: store_ok_def)
  with assms(3) s have "deployed st' =
      deploy (generation_id (rc_sha256 rc) files) (tree_of files) (accepted rc files st) (deployed st)"
    using reconcile_deploys [of rc st files] by (simp add: st')
  then have "dict_get (generations st') = dp_generations
      (deploy (generation_id (rc_sha256 rc) files) (tree_of files) (accepted rc files st) (deployed st))"
    by (metis deployed_def deployment.select_convs(1))
  then show ?thesis using assms(4) by (auto simp: deploy_def deployed_def split: sum.split option.split)
qed

section \<open>Properties of reconciliation\<close>

definition sample_sha :: "string \<Rightarrow> string" where
  "sample_sha x = replicate 64 (if x = [] then CHR ''a'' else CHR ''b'')"

text \<open>A runner whose validation succeeds and whose reload fails.\<close>

definition sample_runner :: runner where
  "sample_runner = (\<lambda>args st. if ''reload'' \<in> set args then (1, [], ''no process'') else (0, [], []))"

definition sample_reconciler :: "bool \<Rightarrow> reconciler" where
  "sample_reconciler reload = \<lparr>rc_root = ''/data'', rc_sha256 = sample_sha, rc_runner = sample_runner,
     rc_validate = True, rc_reload = reload\<rparr>"

lemma sample_sha_hex: "hex_digest (sample_sha x)"
  by (simp add: hex_digest_def sample_sha_def)

text \<open>C12. Reconciliation implements its contract: seen as a deployment, the store after it is the one that
  \<open>deploy\<close> gives. The candidate's files are kept under its identifier, the candidate becomes active when
  validation and reload accept it, and otherwise the deployment that was active stays active. The call
  returns exactly when the candidate is accepted, and raises otherwise.\<close>

theorem reconcile_refines:
  assumes "\<And>x. hex_digest (rc_sha256 rc x)" and "active_exists st"
  shows "deployed (fst (reconcile rc files st)) =
      deploy (generation_id (rc_sha256 rc) files) (tree_of files) (accepted rc files st) (deployed st) \<and>
    ((\<exists>r. snd (reconcile rc files st) = Inr r) \<longleftrightarrow> accepted rc files st)"
  using reconcile_deploys [OF assms] by blast

theorem reconcile_refines_witness:
  "active_id (fst (reconcile (sample_reconciler False) [] empty_store)) = Some (replicate 20 CHR ''a'')"
proof -
  have a: "active_exists empty_store" by (simp add: active_exists_def active_id_def empty_store_def)
  have g: "generation_id (rc_sha256 (sample_reconciler False)) [] = Inr (replicate 20 CHR ''a'')"
    by (simp add: generation_id_def sample_reconciler_def sample_sha_def)
  have s: "stored (replicate 20 CHR ''a'') [] empty_store = Inr []"
    by (simp add: stored_def empty_store_def tree_of_def)
  have acc: "accepted (sample_reconciler False) [] empty_store"
    unfolding accepted_def g sum.case s accepts_def
    by (simp add: validator_def reloader_def Let_def sample_reconciler_def hooks_validate_def run_command_def sample_runner_def)
  have "deployed (fst (reconcile (sample_reconciler False) [] empty_store)) =
      deploy (Inr (replicate 20 CHR ''a'')) (tree_of []) True (deployed empty_store)"
    using reconcile_refines [of "sample_reconciler False" empty_store "[]", OF _ a, unfolded g] acc
    by (simp add: sample_reconciler_def sample_sha_hex)
  then have "dp_active (deployed (fst (reconcile (sample_reconciler False) [] empty_store))) = Some (replicate 20 CHR ''a'')"
    by (simp add: deploy_def tree_of_def deployed_def empty_store_def active_id_def)
  then show ?thesis by (simp add: deployed_def)
qed

text \<open>C15. In every run of reconciliations from an empty store, with any hooks that fail at any point, the active
  generation exists and holds the files whose digest is its name, and no later reconciliation changes the
  files of a generation that was stored before.\<close>

theorem generations_immutable:
  assumes "\<And>x. hex_digest (sha x)"
    and "(reconcile_step sha)\<^sup>*\<^sup>* empty_store s" and "(reconcile_step sha)\<^sup>*\<^sup>* s t"
  shows "(\<forall>g. active_id t = Some g \<longrightarrow> (\<exists>files tree. dict_get (generations t) g = Some tree \<and>
       generation_id sha files = Inr g \<and> tree_of files = Inr tree)) \<and>
    (\<forall>g tree. dict_get (generations s) g = Some tree \<longrightarrow> dict_get (generations t) g = Some tree)"
proof -
  have s: "store_ok sha s" and "store_ok sha t" using gs.run_inv_always [OF refl assms(2,3)] by blast+
  then have "active_exists t" "content_addressed sha t" using assms(1) by (simp_all add: store_ok_def)
  moreover have "store_ok sha t \<and> (\<forall>g tree. dict_get (generations s) g = Some tree \<longrightarrow> dict_get (generations t) g = Some tree)"
    using assms(3)
  proof (induction rule: rtranclp_induct)
    case (step t u)
    then show ?case using generations_grow [OF step.hyps(2) _ assms(1)] gs.step_inv by blast
  qed (use s in simp)
  ultimately show ?thesis by (auto simp: active_exists_def content_addressed_def dict_keys_get)
qed

definition sample_store :: store where
  "sample_store = fst (reconcile (sample_reconciler False) [] empty_store)"

lemma sample_generation: "generation_id (rc_sha256 (sample_reconciler b)) [] = Inr (replicate 20 CHR ''a'')"
  by (simp add: generation_id_def sample_reconciler_def sample_sha_def)

lemma sample_store_value: "sample_store = \<lparr>generations = [(replicate 20 CHR ''a'', [])],
    active_manifest = Some (replicate 20 CHR ''a'' @ newline), failed_notes = [], current_link = Some (replicate 20 CHR ''a'')\<rparr>"
  unfolding sample_store_def reconcile_def sample_generation
  by (simp add: active_id_def empty_store_def stage_def validator_def hooks_validate_def run_command_def
      sample_runner_def sample_reconciler_def activate_def reloader_def publish_def dict_set_def Let_def)

theorem generations_immutable_witness:
  "\<exists>t files. reconcile_step sample_sha sample_store t \<and> generation_id sample_sha files = Inr (replicate 20 CHR ''a'') \<and>
     dict_get (generations t) (replicate 20 CHR ''a'') = Some []"
proof -
  let ?t = "fst (reconcile (sample_reconciler True) [(''nginx.conf'', ''x'')] sample_store)"
  have r: "rc_sha256 (sample_reconciler b) = sample_sha" for b by (simp add: sample_reconciler_def)
  note r = this and into = r_into_rtranclp [of "reconcile_step sample_sha"]
  have s: "reconcile_step sample_sha empty_store sample_store" "reconcile_step sample_sha sample_store ?t"
    unfolding sample_store_def by (rule reconcile_step.intros; simp add: r)+
  have g: "generation_id sample_sha [] = Inr (replicate 20 CHR ''a'')"
    using sample_generation [of True] by (simp add: r)
  have "dict_get (generations ?t) (replicate 20 CHR ''a'') = Some []"
    using generations_immutable [OF sample_sha_hex into [OF s(1)] into [OF s(2)]]
    by (simp add: sample_store_value)
  then show ?thesis using s(2) g by blast
qed

text \<open>C37. The link \<open>current\<close> that Nginx reads points to the active generation after a reconciliation when it did
  before, with one exception: when the first generation ever is validated and activated and its reload fails,
  \<open>ACTIVE\<close> is removed while the link keeps pointing to the failed generation.\<close>

theorem current_link_exact:
  assumes "\<And>x. hex_digest (rc_sha256 rc x)" and "active_exists st" and "current_link st = active_id st"
  shows "current_link (fst (reconcile rc files st)) =
     (case generation_id (rc_sha256 rc) files of
        Inl _ \<Rightarrow> active_id (fst (reconcile rc files st))
      | Inr g \<Rightarrow>
          if active_id st = None \<and> (\<exists>t. stored g files st = Inr t) \<and> \<not> accepted rc files st \<and>
            validator rc g (staged_store g files st) = Inr ()
          then Some g else active_id (fst (reconcile rc files st)))"
proof (cases "generation_id (rc_sha256 rc) files")
  case (Inl e)
  then show ?thesis using assms(3) by (simp add: reconcile_def)
next
  case (Inr g)
  have plain: "plain_id g" by (rule generation_id_plain [OF Inr assms(1)])
  note out = reconcile_outcomes [where st = st, OF Inr]
  let ?s = "staged_store g files st" and ?a = "(staged_store g files st)\<lparr>active_manifest := Some (g @ newline)\<rparr>"
  consider (same) "active_id st = Some g" | (bad) e where "active_id st \<noteq> Some g" "stored g files st = Inl e"
    | (new) t where "active_id st \<noteq> Some g" "stored g files st = Inr t" by (cases "stored g files st") auto
  then show ?thesis
  proof cases
    case same
    then show ?thesis using assms(3) Inr by (simp add: out(1))
  next
    case bad
    then show ?thesis using assms(3) Inr by (simp add: out(2))
  next
    case new
    have acc: "accepted rc files st \<longleftrightarrow> accepts rc g ?s" using Inr new by (simp add: accepted_def)
    show ?thesis
    proof (cases "validator rc g ?s")
      case e: (Inl e)
      then show ?thesis using assms(3) Inr by (simp add: out(3) [OF new e])
    next
      case v: (Inr u)
      then have v: "validator rc g ?s = Inr ()" by simp
      show ?thesis
      proof (cases "snd (reloader rc g ?a)")
        case e: (Inl e)
        have "dict_get (generations ?s) = (dict_get (generations st))(g \<mapsto> t)" by (rule staged_keys [OF new(2)])
        then have "\<forall>p. active_id st = Some p \<longrightarrow> p \<in> dict_keys (generations (publish g ?a)) \<and> plain_id p"
          using assms(2) by (auto simp: active_exists_def dict_keys_get)
        from roll_back_state [OF this, of rc g "''reload failed: '' @ error_text e"]
        obtain st' m where rb: "roll_back rc g (active_id st) (''reload failed: '' @ error_text e) (publish g ?a)
            = (st', Inl (RuntimeError m))" "active_id st' = active_id st"
          "current_link st' = (case active_id st of None \<Rightarrow> Some g | Some p \<Rightarrow> Some p)"
          unfolding store_queries by blast
        have "\<not> accepted rc files st" by (simp add: acc accepts_def e)
        then show ?thesis using rb(2,3) Inr new v
          by (simp add: out(4) [OF new v e, unfolded rb(1)] split: option.split)
      next
        case (Inr u)
        then have r: "snd (reloader rc g ?a) = Inr ()" by simp
        have "active_id ?a = Some g" using plain by (simp add: active_id_def strip_plain Let_def plain_id_def)
        then have "current_link (publish g ?a) = active_id (publish g ?a)" by simp
        moreover have "accepted rc files st" by (simp add: acc accepts_def v r)
        ultimately show ?thesis
          unfolding out(5) [OF new v r] \<open>generation_id (rc_sha256 rc) files = Inr g\<close> by simp
      qed
    qed
  qed
qed

theorem current_link_exact_witness:
  "active_id (fst (reconcile (sample_reconciler True) [] empty_store)) = None \<and>
   current_link (fst (reconcile (sample_reconciler True) [] empty_store)) = Some (replicate 20 CHR ''a'')"
proof -
  let ?g = "replicate 20 CHR ''a''"
  have h: "hex_digest (rc_sha256 (sample_reconciler True) x)" for x by (simp add: sample_reconciler_def sample_sha_hex)
  have a: "active_exists empty_store" "current_link empty_store = active_id empty_store" "active_id empty_store = None"
    by (simp_all add: active_exists_def active_id_def empty_store_def)
  have s: "stored ?g [] empty_store = Inr []"
    by (simp add: stored_def empty_store_def tree_of_def)
  have v: "validator (sample_reconciler True) ?g u = Inr ()" for u
    by (simp add: validator_def sample_reconciler_def hooks_validate_def run_command_def sample_runner_def)
  have n: "\<not> accepted (sample_reconciler True) [] empty_store"
    unfolding accepted_def sample_generation sum.case s accepts_def a(3)
    by (simp add: reloader_def Let_def sample_reconciler_def hooks_reload_def run_command_def sample_runner_def)
  have "active_id (fst (reconcile (sample_reconciler True) [] empty_store)) = None"
    unfolding reconcile_def sample_generation
    by (simp add: active_id_def empty_store_def stage_def validator_def hooks_validate_def run_command_def hooks_reload_def
      sample_runner_def sample_reconciler_def activate_def reloader_def publish_def dict_set_def Let_def roll_back_def
      record_failure_def clear_active_def)
  then show ?thesis
    using current_link_exact [OF h a(1,2), of "[]", unfolded sample_generation sum.case s] n v a(3) by simp
qed

end
