(* ===== verification/Runtime_Tables.thy ===== *)
theory Runtime_Tables
  imports Py_Value
begin

text \<open>
  The tables of \<open>tables/runtime.py\<close>: recorded configuration generations, reconciliation attempts and the
  leases that keep two controllers apart. The times are arguments, in seconds.
\<close>

section \<open>Generations\<close>

record generation_row =
  gn_id :: int
  gn_generation :: string
  gn_previous_generation :: pyval
  gn_files :: payload
  gn_state :: string
  gn_is_active :: bool
  gn_diagnostic :: pyval
  gn_activated_at :: "int option"

definition find_generation :: "string \<Rightarrow> generation_row list \<Rightarrow> generation_row option" where
  "find_generation g rows = find (\<lambda>r. gn_generation r = g) rows"

text \<open>A generation that is known already is overwritten with the given values, its activity included.\<close>

definition record_generation :: "payload \<Rightarrow> generation_row list \<Rightarrow> py_error + generation_row list \<times> generation_row" where
  "record_generation p rows =
     ebind (required_text ''generation'' p) (\<lambda>g.
     ebind (dict_or_empty (pget ''files'' p)) (\<lambda>files.
       let state = py_str (py_or (pget ''state'' p) (PStr ''staged''));
           active = truthy (dict_get_or p ''is_active'' (PBool False)) in
       case find_generation g rows of
         None \<Rightarrow>
           let row = \<lparr>gn_id = next_id gn_id rows, gn_generation = g, gn_previous_generation = pget ''previous_generation'' p,
                 gn_files = files, gn_state = state, gn_is_active = active, gn_diagnostic = pget ''diagnostic'' p,
                 gn_activated_at = None\<rparr> in
           Inr (rows @ [row], row)
       | Some row \<Rightarrow>
           let row = row\<lparr>gn_previous_generation := pget ''previous_generation'' p, gn_files := files, gn_state := state,
                 gn_is_active := active, gn_diagnostic := pget ''diagnostic'' p\<rparr> in
           Inr (update_where (\<lambda>r. gn_id r = gn_id row) (\<lambda>_. row) rows, row)))"

definition active_row :: "generation_row list \<Rightarrow> generation_row option" where
  "active_row rows = find gn_is_active rows"

definition activate_generation :: "int \<Rightarrow> payload \<Rightarrow> generation_row list \<Rightarrow>
    py_error + generation_row list \<times> string \<times> string option" where
  "activate_generation now p rows =
     (let g = py_str (py_or (pget ''generation'' p) (PStr [])) in
      case find_generation g rows of
        None \<Rightarrow> Inl (ValueError (''generation does not exist: '' @ g))
      | Some row \<Rightarrow>
          let previous = map_option gn_generation (active_row rows);
              rows = map (\<lambda>r. r\<lparr>gn_is_active := False\<rparr>) rows;
              rows = update_where (\<lambda>r. gn_id r = gn_id row)
                (\<lambda>r. r\<lparr>gn_is_active := True, gn_state := ''active'',
                   gn_previous_generation := (case previous of None \<Rightarrow> PNone | Some s \<Rightarrow> PStr s),
                   gn_activated_at := Some now\<rparr>) rows in
          Inr (rows, gn_generation row, previous))"

definition clear_active_generation :: "generation_row list \<Rightarrow> generation_row list \<times> bool \<times> string option" where
  "clear_active_generation rows =
     (case active_row rows of
        None \<Rightarrow> (rows, False, None)
      | Some row \<Rightarrow>
          (update_where (\<lambda>r. gn_id r = gn_id row) (\<lambda>r. r\<lparr>gn_is_active := False, gn_state := ''superseded''\<rparr>) rows,
           True, Some (gn_generation row)))"

text \<open>\<open>stage\<close>: the rendered generation is recorded as staged unless it is the active one.\<close>

definition stage_generation :: "string \<Rightarrow> payload \<Rightarrow> generation_row list \<Rightarrow> generation_row list \<times> string" where
  "stage_generation g files rows =
     (case find_generation g rows of
        None \<Rightarrow>
          (rows @ [\<lparr>gn_id = next_id gn_id rows, gn_generation = g, gn_previous_generation = PNone, gn_files = files,
             gn_state = ''staged'', gn_is_active = False, gn_diagnostic = PNone, gn_activated_at = None\<rparr>], ''staged'')
      | Some row \<Rightarrow>
          if gn_is_active row then (rows, ''active'')
          else (update_where (\<lambda>r. gn_id r = gn_id row) (\<lambda>r. r\<lparr>gn_files := files, gn_state := ''staged''\<rparr>) rows, ''staged''))"

definition generation_files :: "generation_row list \<Rightarrow> string \<Rightarrow> py_error + string \<times> payload" where
  "generation_files rows g =
     (case find_generation g rows of
        None \<Rightarrow> Inl (ValueError (''generation does not exist: '' @ g))
      | Some row \<Rightarrow> Inr (gn_generation row, gn_files row))"

text \<open>The changed paths of two file sets, in the order of the paths.\<close>

definition file_changes :: "payload \<Rightarrow> payload \<Rightarrow> (string \<times> string \<times> string) list" where
  "file_changes base target =
     map (\<lambda>path. (path, py_str (dict_get_or base path (PStr [])), py_str (dict_get_or target path (PStr []))))
       (filter (\<lambda>path. pget path base \<noteq> pget path target) (sort (remdups (map fst base @ map fst target))))"

text \<open>\<open>diff\<close>; the rendered configuration is an argument, used when the request names no target.\<close>

definition diff_generations :: "py_error + string \<times> payload \<Rightarrow> generation_row list \<Rightarrow> payload \<Rightarrow>
    py_error + string option \<times> string \<times> (string \<times> string \<times> string) list" where
  "diff_generations rendered rows p =
     (let target_name = py_str (py_or (pget ''target_generation'' p) (PStr [])) in
      ebind (if target_name \<noteq> [] then ebind (generation_files rows target_name) (\<lambda>(_, files). Inr (target_name, files))
             else rendered) (\<lambda>(target_name, target_files).
      let base_name = py_str (py_or (pget ''base_generation'' p) (PStr [])) in
      ebind (if base_name \<noteq> [] then ebind (generation_files rows base_name) (\<lambda>(_, files). Inr (base_name, files))
             else (case active_row rows of
                     None \<Rightarrow> Inr ([], [])
                   | Some row \<Rightarrow> Inr (gn_generation row, gn_files row))) (\<lambda>(base_name, base_files).
        Inr (if base_name = [] then None else Some base_name, target_name, file_changes base_files target_files))))"

section \<open>Reconciliation attempts\<close>

record attempt_row =
  at_id :: int
  at_generation_id :: int
  at_previous_generation :: "string option"
  at_changed :: bool
  at_applied :: bool
  at_status :: string
  at_diagnostic :: "string option"

section \<open>Leases\<close>

record lease_row =
  ls_name :: string
  ls_holder :: string
  ls_expires_at :: int

record lease_answer =
  la_acquired :: bool
  la_name :: string
  la_holder :: string
  la_expires_at :: int

definition ttl_of :: "payload \<Rightarrow> py_error + int" where
  "ttl_of p = map_sum id (max 1) (py_int (py_or (pget ''ttl_seconds'' p) (PInt 60)))"

definition acquire :: "int \<Rightarrow> payload \<Rightarrow> lease_row list \<Rightarrow> py_error + lease_row list \<times> lease_answer" where
  "acquire now p rows =
     ebind (required_text ''name'' p) (\<lambda>name.
     ebind (required_text ''holder'' p) (\<lambda>holder.
       case find (\<lambda>r. ls_name r = name) rows of
         None \<Rightarrow>
           ebind (ttl_of p) (\<lambda>ttl. let expires_at = now + ttl in
             Inr (rows @ [\<lparr>ls_name = name, ls_holder = holder, ls_expires_at = expires_at\<rparr>],
               \<lparr>la_acquired = True, la_name = name, la_holder = holder, la_expires_at = expires_at\<rparr>))
       | Some row \<Rightarrow>
           if now < ls_expires_at row \<and> ls_holder row \<noteq> holder
           then Inr (rows, \<lparr>la_acquired = False, la_name = name, la_holder = ls_holder row, la_expires_at = ls_expires_at row\<rparr>)
           else ebind (ttl_of p) (\<lambda>ttl. let expires_at = now + ttl in
             Inr (update_where (\<lambda>r. ls_name r = name) (\<lambda>r. r\<lparr>ls_holder := holder, ls_expires_at := expires_at\<rparr>) rows,
               \<lparr>la_acquired = True, la_name = name, la_holder = holder, la_expires_at = expires_at\<rparr>))))"

text \<open>\<open>renew\<close> reads the clock twice.\<close>

definition renew :: "int \<Rightarrow> int \<Rightarrow> payload \<Rightarrow> lease_row list \<Rightarrow> py_error + lease_row list \<times> int option" where
  "renew now later p rows =
     ebind (required_text ''name'' p) (\<lambda>name.
     ebind (required_text ''holder'' p) (\<lambda>holder.
       case find (\<lambda>r. ls_name r = name \<and> ls_holder r = holder) rows of
         None \<Rightarrow> Inr (rows, None)
       | Some row \<Rightarrow>
           if ls_expires_at row \<le> now then Inr (rows, None)
           else ebind (ttl_of p) (\<lambda>ttl.
             Inr (update_where (\<lambda>r. ls_name r = name \<and> ls_holder r = holder) (\<lambda>r. r\<lparr>ls_expires_at := later + ttl\<rparr>) rows,
               Some (later + ttl)))))"

definition release :: "payload \<Rightarrow> lease_row list \<Rightarrow> py_error + lease_row list \<times> bool" where
  "release p rows =
     ebind (required_text ''name'' p) (\<lambda>name.
     ebind (required_text ''holder'' p) (\<lambda>holder.
       Inr (filter (\<lambda>r. \<not> (ls_name r = name \<and> ls_holder r = holder)) rows,
            \<exists>r\<in>set rows. ls_name r = name \<and> ls_holder r = holder)))"

section \<open>Laws of the generation table\<close>

text \<open>The unique constraint on the generation, and the primary key.\<close>

definition generations_ok :: "generation_row list \<Rightarrow> bool" where
  "generations_ok rows \<longleftrightarrow> distinct (map gn_id rows) \<and> distinct (map gn_generation rows)"

definition active_names :: "generation_row list \<Rightarrow> string list" where
  "active_names rows = map gn_generation (filter gn_is_active rows)"

lemma find_generation_Some:
  assumes "find_generation g rows = Some r"
  shows "r \<in> set rows" "gn_generation r = g"
  using assms by (auto simp: find_generation_def find_Some_iff)

lemma find_generation_None: "find_generation g rows = None \<longleftrightarrow> g \<notin> gn_generation ` set rows"
  by (auto simp: find_generation_def find_None_iff)

lemma update_by_id:
  assumes "distinct (map gn_id rows)" "r \<in> set rows" "gn_id r' = gn_id r" "gn_generation r' = gn_generation r"
  shows "map gn_id (update_where (\<lambda>x. gn_id x = gn_id r) (\<lambda>_. r') rows) = map gn_id rows"
    and "map gn_generation (update_where (\<lambda>x. gn_id x = gn_id r) (\<lambda>_. r') rows) = map gn_generation rows"
proof -
  have "x = r" if "x \<in> set rows" "gn_id x = gn_id r" for x
    using assms(1,2) that unfolding distinct_map by (meson inj_onD)
  then show "map gn_id (update_where (\<lambda>x. gn_id x = gn_id r) (\<lambda>_. r') rows) = map gn_id rows"
    "map gn_generation (update_where (\<lambda>x. gn_id x = gn_id r) (\<lambda>_. r') rows) = map gn_generation rows"
    using assms(3,4) by (auto simp: update_where_def)
qed

lemma by_id_generation:
  assumes "generations_ok rows" "r \<in> set rows" "x \<in> set rows"
  shows "gn_id x = gn_id r \<longleftrightarrow> gn_generation x = gn_generation r"
  using assms by (metis (no_types, lifting) distinct_map generations_ok_def inj_on_eq_iff)

lemma filter_generation:
  assumes "generations_ok rows" "r \<in> set rows"
  shows "filter (\<lambda>x. gn_generation x = gn_generation r) rows = [r]"
  using assms unfolding generations_ok_def by (induction rows) (auto simp: filter_empty_conv image_iff)

text \<open>Recording a generation as not active leaves the activity of the others as it was.\<close>

lemma record_generation_inactive:
  assumes "generations_ok rows" "pget ''generation'' p = PStr g" "dict_get p ''generation'' = Some (PStr g)"
    "dict_or_empty (pget ''files'' p) = Inr files" "pget ''is_active'' p = PBool False" 
    "dict_get p ''is_active'' = Some (PBool False)"
  obtains rows' row where "record_generation p rows = Inr (rows', row)" "generations_ok rows'"
    "active_names rows' = filter (\<lambda>n. n \<noteq> g) (active_names rows)" "g \<in> gn_generation ` set rows'"
    "gn_generation ` set rows' = insert g (gn_generation ` set rows)" "row \<in> set rows'" "gn_generation row = g"
    "gn_files row = files"
    "\<And>r. r \<in> set rows' \<Longrightarrow> gn_generation r \<noteq> g \<Longrightarrow> r \<in> set rows"
    "\<And>r. r \<in> set rows \<Longrightarrow> gn_generation r \<noteq> g \<Longrightarrow> r \<in> set rows'"
proof -
  have req: "required_text ''generation'' p = Inr g" by (simp add: required_text_def assms(3))
  have act: "truthy (dict_get_or p ''is_active'' (PBool False)) = False" by (simp add: dict_get_or_def assms(6))
  show ?thesis
  proof (cases "find_generation g rows")
    case None
    then have fresh: "g \<notin> gn_generation ` set rows" by (simp add: find_generation_None)
    then have "g \<notin> set (active_names rows)" by (auto simp: active_names_def)
    then have f: "filter (\<lambda>n. n \<noteq> g) (active_names rows) = active_names rows" by (auto simp: filter_id_conv)
    show ?thesis
      by (rule that [OF record_generation_def [of p rows, unfolded req ebind.simps assms(4) act Let_def None option.case]])
        (use assms(1) fresh next_id_fresh [of gn_id rows] in \<open>auto simp: generations_ok_def active_names_def f [unfolded active_names_def]\<close>)
  next
    case (Some r)
    note r = find_generation_Some [OF Some]
    let ?r = "r\<lparr>gn_previous_generation := pget ''previous_generation'' p, gn_files := files,
      gn_state := py_str (py_or (pget ''state'' p) (PStr ''staged'')), gn_is_active := False, gn_diagnostic := pget ''diagnostic'' p\<rparr>"
    let ?rows = "update_where (\<lambda>x. gn_id x = gn_id r) (\<lambda>_. ?r) rows"
    have e: "record_generation p rows = Inr (?rows, ?r)"
      unfolding record_generation_def req ebind.simps assms(4) act Let_def Some option.case by simp
    have d: "distinct (map gn_id rows)" using assms(1) by (simp add: generations_ok_def)
    have m: "map gn_id ?rows = map gn_id rows" "map gn_generation ?rows = map gn_generation rows"
      by (rule update_by_id [OF d r(1)]; simp)+
    have s: "set ?rows = insert ?r {x \<in> set rows. gn_generation x \<noteq> g}"
      using by_id_generation [OF assms(1) r(1)] r by (auto simp: update_where_def)
    have "active_names (update_where (\<lambda>x. gn_id x = gn_id r) (\<lambda>_. ?r) xs) = filter (\<lambda>n. n \<noteq> g) (active_names xs)"
      if "set xs \<subseteq> set rows" for xs
      using that
    proof (induction xs)
      case (Cons x xs)
      then have "gn_id x = gn_id r \<longleftrightarrow> gn_generation x = g" using by_id_generation [OF assms(1) r(1)] r(2) by simp
      with Cons show ?case by (auto simp: active_names_def update_where_def)
    qed (simp add: active_names_def update_where_def)
    note names = this [OF subset_refl]
    have "gn_generation ` set ?rows = insert g (gn_generation ` set rows)"
      using r by (auto simp: s)
    moreover have "generations_ok ?rows" using assms(1) by (simp add: generations_ok_def m)
    ultimately show ?thesis using r(2) by (intro that [OF e _ names]) (auto simp: s)
  qed
qed

lemma activate_generation_exact:
  assumes "generations_ok rows" "g \<in> gn_generation ` set rows" "g \<noteq> []"
  obtains rows' where "activate_generation now [(''generation'', PStr g)] rows =
      Inr (rows', g, case active_names rows of [] \<Rightarrow> None | n # _ \<Rightarrow> Some n)"
    "generations_ok rows'" "active_names rows' = [g]" "gn_generation ` set rows' = gn_generation ` set rows"
    "\<And>r. r \<in> set rows' \<Longrightarrow> gn_generation r = g \<Longrightarrow>
       gn_previous_generation r = (case active_names rows of [] \<Rightarrow> PNone | n # _ \<Rightarrow> PStr n) \<and> gn_state r = ''active'' \<and>
       gn_activated_at r = Some now \<and> (\<exists>s\<in>set rows. gn_generation s = g \<and> gn_files r = gn_files s)"
proof -
  from assms(2) obtain r where f: "find_generation g rows = Some r" by (metis find_generation_None not_None_eq)
  note r = find_generation_Some [OF f]
  have a: "map_option gn_generation (active_row rows) = (case active_names rows of [] \<Rightarrow> None | n # _ \<Rightarrow> Some n)" for rows
    by (induction rows) (simp_all add: active_row_def active_names_def)
  let ?act = "\<lambda>r::generation_row. r\<lparr>gn_is_active := True, gn_state := ''active'', gn_previous_generation :=
      (case (case active_names rows of [] \<Rightarrow> None | n # _ \<Rightarrow> Some n) of None \<Rightarrow> PNone | Some s \<Rightarrow> PStr s),
      gn_activated_at := Some now\<rparr>"
  let ?rows = "update_where (\<lambda>x. gn_id x = gn_id r) ?act (map (\<lambda>r. r\<lparr>gn_is_active := False\<rparr>) rows)"
  have py: "py_str (py_or (pget ''generation'' [(''generation'', PStr g)]) (PStr [])) = g"
    using assms(3) by (simp add: pget_def dict_get_or_def py_or_def)
  have e: "activate_generation now [(''generation'', PStr g)] rows =
      Inr (?rows, g, case active_names rows of [] \<Rightarrow> None | n # _ \<Rightarrow> Some n)"
    unfolding activate_generation_def Let_def py f option.case a using r(2) by simp
  have m: "map gn_id ?rows = map gn_id rows" "map gn_generation ?rows = map gn_generation rows"
    by (simp_all add: update_where_def)
  have names: "active_names (update_where (\<lambda>x. gn_id x = gn_id r) ?act (map (\<lambda>r. r\<lparr>gn_is_active := False\<rparr>) xs)) =
      map gn_generation (filter (\<lambda>x. gn_generation x = gn_generation r) xs)" if "set xs \<subseteq> set rows" for xs
    using that
  proof (induction xs)
    case (Cons x xs)
    then have "gn_id x = gn_id r \<longleftrightarrow> gn_generation x = gn_generation r"
      using by_id_generation [OF assms(1) r(1)] by simp
    with Cons show ?case by (auto simp: active_names_def update_where_def)
  qed (simp add: active_names_def update_where_def)
  have ids: "gn_id x = gn_id r \<longleftrightarrow> gn_generation x = g" if "x \<in> set rows" for x
    using by_id_generation [OF assms(1) r(1) that] r(2) by simp
  show ?thesis
  proof (rule that [OF e])
    show "generations_ok ?rows" using assms(1) by (simp add: generations_ok_def m)
    show "active_names ?rows = [g]" using names [OF subset_refl] filter_generation [OF assms(1) r(1)] r(2) by simp
    show "gn_generation ` set ?rows = gn_generation ` set rows" using m(2) by (metis set_map)
  next
    fix x assume "x \<in> set ?rows" "gn_generation x = g"
    then obtain y where y: "y \<in> set rows" "x = (if gn_id y = gn_id r then ?act (y\<lparr>gn_is_active := False\<rparr>) else y\<lparr>gn_is_active := False\<rparr>)"
      by (auto simp: update_where_def)
    with \<open>gn_generation x = g\<close> have g: "gn_generation y = g" by (simp split: if_splits)
    with ids [OF y(1)] y(2) have "x = ?act (y\<lparr>gn_is_active := False\<rparr>)" by simp
    then show "gn_previous_generation x = (case active_names rows of [] \<Rightarrow> PNone | n # _ \<Rightarrow> PStr n) \<and> gn_state x = ''active'' \<and>
       gn_activated_at x = Some now \<and> (\<exists>s\<in>set rows. gn_generation s = g \<and> gn_files x = gn_files s)"
      using y(1) g by (auto split: list.split)
  qed
qed

section \<open>Laws of the leases\<close>

text \<open>A request to the lease table; a request that raises is rolled back.\<close>

datatype lease_op = Acquire int payload | Renew int int payload | Release payload

fun lease_step :: "lease_op \<Rightarrow> lease_row list \<Rightarrow> lease_row list" where
  "lease_step (Acquire now p) rows = (case acquire now p rows of Inl _ \<Rightarrow> rows | Inr (rows', _) \<Rightarrow> rows')"
| "lease_step (Renew now later p) rows = (case renew now later p rows of Inl _ \<Rightarrow> rows | Inr (rows', _) \<Rightarrow> rows')"
| "lease_step (Release p) rows = (case release p rows of Inl _ \<Rightarrow> rows | Inr (rows', _) \<Rightarrow> rows')"

fun op_payload :: "lease_op \<Rightarrow> payload" where
  "op_payload (Acquire _ p) = p"
| "op_payload (Renew _ _ p) = p"
| "op_payload (Release p) = p"

text \<open>A request of another holder, made before the time \<open>e\<close>.\<close>

definition foreign_op :: "string \<Rightarrow> int \<Rightarrow> lease_op \<Rightarrow> bool" where
  "foreign_op holder e op \<longleftrightarrow> required_text ''holder'' (op_payload op) \<noteq> Inr holder \<and>
     (case op of Acquire now _ \<Rightarrow> now < e | _ \<Rightarrow> True)"

definition leases_ok :: "lease_row list \<Rightarrow> bool" where
  "leases_ok rows \<longleftrightarrow> distinct (map ls_name rows)"

definition held :: "string \<Rightarrow> string \<Rightarrow> int \<Rightarrow> lease_row list \<Rightarrow> bool" where
  "held name holder e rows \<longleftrightarrow> find (\<lambda>r. ls_name r = name) rows = Some \<lparr>ls_name = name, ls_holder = holder, ls_expires_at = e\<rparr>"

lemma find_lease_append: "find p (xs @ ys) = (case find p xs of None \<Rightarrow> find p ys | Some x \<Rightarrow> Some x)"
  by (induction xs) auto

lemma find_lease_update:
  "(\<And>r. ls_name (f r) = ls_name r) \<Longrightarrow> find (\<lambda>r. ls_name r = n) (update_where p f rows) =
     map_option (\<lambda>r. if p r then f r else r) (find (\<lambda>r. ls_name r = n) rows)"
  by (induction rows) (auto simp: update_where_def)

lemma find_lease_filter:
  "leases_ok rows \<Longrightarrow> find (\<lambda>r. ls_name r = n) (filter p rows) =
     (case find (\<lambda>r. ls_name r = n) rows of None \<Rightarrow> None | Some r \<Rightarrow> if p r then Some r else None)"
proof (induction rows)
  case (Cons r rows)
  have "find (\<lambda>x. ls_name x = ls_name r) (filter p rows) = None"
    using Cons.prems by (auto simp: leases_ok_def find_None_iff image_iff)
  with Cons show ?case by (auto simp: leases_ok_def split: option.splits)
qed simp

lemma acquire_unique:
  assumes "acquire now p rows = Inr (rows', answer)" "leases_ok rows"
  shows "leases_ok rows' \<and> required_text ''name'' p = Inr (la_name answer) \<and>
    (la_acquired answer \<longrightarrow> required_text ''holder'' p = Inr (la_holder answer) \<and> now < la_expires_at answer \<and>
       held (la_name answer) (la_holder answer) (la_expires_at answer) rows')"
proof -
  from assms(1) obtain name holder where n: "required_text ''name'' p = Inr name" and h: "required_text ''holder'' p = Inr holder"
    by (auto simp: acquire_def result_simps)
  have t: "0 < ttl" if "ttl_of p = Inr ttl" for ttl
    using that by (cases "py_int (py_or (pget ''ttl_seconds'' p) (PInt 60))") (auto simp: ttl_of_def)
  show ?thesis
  proof (cases "find (\<lambda>r. ls_name r = name) rows")
    case None
    then have fresh: "name \<notin> ls_name ` set rows" by (auto simp: find_None_iff)
    from assms(1) obtain ttl where "ttl_of p = Inr ttl"
      and r: "rows' = rows @ [\<lparr>ls_name = name, ls_holder = holder, ls_expires_at = now + ttl\<rparr>]"
      and "answer = \<lparr>la_acquired = True, la_name = name, la_holder = holder, la_expires_at = now + ttl\<rparr>"
      by (auto simp: acquire_def n h None Let_def result_simps)
    with t [of ttl] None fresh assms(2) n h show ?thesis
      by (simp add: held_def find_lease_append leases_ok_def)
  next
    case (Some row)
    then have rn: "ls_name row = name" by (auto simp: find_Some_iff)
    show ?thesis
    proof (cases "now < ls_expires_at row \<and> ls_holder row \<noteq> holder")
      case True
      with assms(1) have "rows' = rows" "\<not> la_acquired answer" "la_name answer = name"
        by (auto simp: acquire_def n h Some)
      with assms(2) n show ?thesis by simp
    next
      case False
      with assms(1) obtain ttl where "ttl_of p = Inr ttl"
        and r: "rows' = update_where (\<lambda>r. ls_name r = name) (\<lambda>r. r\<lparr>ls_holder := holder, ls_expires_at := now + ttl\<rparr>) rows"
        and "answer = \<lparr>la_acquired = True, la_name = name, la_holder = holder, la_expires_at = now + ttl\<rparr>"
        by (auto simp: acquire_def n h Some Let_def result_simps)
      with t [of ttl] Some rn assms(2) n h show ?thesis
        by (cases row) (simp add: held_def find_lease_update leases_ok_def map_update_where)
    qed
  qed
qed

lemma foreign_step:
  assumes "held name holder e rows" "leases_ok rows" "foreign_op holder e op"
  shows "held name holder e (lease_step op rows) \<and> leases_ok (lease_step op rows)"
proof (cases op)
  case (Acquire now p)
  show ?thesis
  proof (cases "acquire now p rows")
    case (Inr x)
    obtain rows' answer where x: "x = (rows', answer)" by (cases x)
    have ok: "leases_ok rows'" using acquire_unique [OF Inr [unfolded x] assms(2)] by blast
    from Inr obtain n h where n: "required_text ''name'' p = Inr n" and h: "required_text ''holder'' p = Inr h"
      by (auto simp: acquire_def x result_simps)
    have foreign: "h \<noteq> holder" "now < e" using assms(3) h by (auto simp: foreign_op_def Acquire)
    have "held name holder e rows'"
    proof (cases "n = name")
      case True
      with Inr assms(1) foreign have "rows' = rows" by (auto simp: acquire_def n h x held_def)
      with assms(1) show ?thesis by simp
    next
      case False
      then show ?thesis using Inr assms(1)
        by (auto simp: acquire_def n h x held_def Let_def result_simps find_lease_append find_lease_update
            split: option.splits if_splits)
    qed
    with ok show ?thesis by (simp add: Acquire Inr x)
  qed (use assms in \<open>simp add: Acquire\<close>)
next
  case (Renew now later p)
  show ?thesis
  proof (cases "renew now later p rows")
    case (Inr x)
    obtain rows' y where x: "x = (rows', y)" by (cases x)
    from Inr obtain n h where n: "required_text ''name'' p = Inr n" and h: "required_text ''holder'' p = Inr h"
      by (auto simp: renew_def result_simps)
    have "h \<noteq> holder" using assms(3) h by (auto simp: foreign_op_def Renew)
    with Inr assms(1,2) have "held name holder e rows' \<and> leases_ok rows'"
      by (auto simp: renew_def n h x held_def leases_ok_def result_simps find_lease_update map_update_where
          split: option.splits if_splits)
    then show ?thesis by (simp add: Renew Inr x)
  qed (use assms in \<open>simp add: Renew\<close>)
next
  case (Release p)
  show ?thesis
  proof (cases "release p rows")
    case (Inr x)
    obtain rows' y where x: "x = (rows', y)" by (cases x)
    from Inr obtain n h where n: "required_text ''name'' p = Inr n" and h: "required_text ''holder'' p = Inr h"
      by (auto simp: release_def result_simps)
    have "h \<noteq> holder" using assms(3) h by (auto simp: foreign_op_def Release)
    with Inr assms(1,2) have "held name holder e rows' \<and> leases_ok rows'"
      by (auto simp: release_def n h x held_def find_lease_filter) (auto simp: leases_ok_def intro: distinct_map_filter)
    then show ?thesis by (simp add: Release Inr x)
  qed (use assms in \<open>simp add: Release\<close>)
qed

lemma foreign_steps:
  assumes "held name holder e rows" "leases_ok rows" "\<forall>op\<in>set ops. foreign_op holder e op"
  shows "held name holder e (fold lease_step ops rows) \<and> leases_ok (fold lease_step ops rows)"
  using assms by (induction ops arbitrary: rows) (auto dest: foreign_step)

text \<open>C27. A lease excludes: after a holder has acquired a name, whatever requests other holders make before it
  expires (acquiring, renewing and releasing, of this and of other names), the row stays the holder's, and an
  acquisition of that name by another holder is refused and told who holds it.\<close>

theorem lease_exclusive:
  assumes "leases_ok rows" and "acquire t p rows = Inr (rows', answer)" and "la_acquired answer"
    and "\<forall>op\<in>set ops. foreign_op (la_holder answer) (la_expires_at answer) op"
    and "foreign_op (la_holder answer) (la_expires_at answer) (Acquire now q)"
    and "required_text ''name'' q = Inr (la_name answer)" and "required_text ''holder'' q = Inr other"
  shows "acquire now q (fold lease_step ops rows') =
      Inr (fold lease_step ops rows', \<lparr>la_acquired = False, la_name = la_name answer, la_holder = la_holder answer,
        la_expires_at = la_expires_at answer\<rparr>)"
proof -
  have "held (la_name answer) (la_holder answer) (la_expires_at answer) rows'" "leases_ok rows'"
    using acquire_unique [OF assms(2,1)] assms(3) by auto
  then have "held (la_name answer) (la_holder answer) (la_expires_at answer) (fold lease_step ops rows')"
    using foreign_steps assms(4) by blast
  moreover have "other \<noteq> la_holder answer" "now < la_expires_at answer"
    using assms(5,7) by (auto simp: foreign_op_def)
  ultimately show ?thesis by (simp add: acquire_def assms(6,7) held_def)
qed

definition lease_request :: "string \<Rightarrow> payload" where
  "lease_request holder = [(''name'', PStr ''nginx-reconcile''), (''holder'', PStr holder)]"

theorem lease_exclusive_witness:
  "\<exists>rows answer. acquire 1000 (lease_request ''a'') [] = Inr (rows, answer) \<and>
     acquire 1030 (lease_request ''b'') (fold lease_step [Release (lease_request ''b''), Acquire 1010 (lease_request ''c'')] rows) =
       Inr (fold lease_step [Release (lease_request ''b''), Acquire 1010 (lease_request ''c'')] rows,
         \<lparr>la_acquired = False, la_name = ''nginx-reconcile'', la_holder = ''a'', la_expires_at = 1060\<rparr>)"
proof -
  have r: "required_text ''name'' (lease_request h) = Inr ''nginx-reconcile''" "required_text ''holder'' (lease_request h) = Inr h"
    "ttl_of (lease_request h) = Inr 60" for h
    by (simp_all add: required_text_def lease_request_def ttl_of_def pget_def dict_get_or_def py_or_def)
  have a: "acquire 1000 (lease_request ''a'') [] = Inr ([\<lparr>ls_name = ''nginx-reconcile'', ls_holder = ''a'', ls_expires_at = 1060\<rparr>],
      \<lparr>la_acquired = True, la_name = ''nginx-reconcile'', la_holder = ''a'', la_expires_at = 1060\<rparr>)"
    by (simp add: acquire_def r Let_def)
  show ?thesis
    using lease_exclusive [OF _ a, of "[Release (lease_request ''b''), Acquire 1010 (lease_request ''c'')]" 1030 "lease_request ''b''" "''b''"] a
    by (simp add: leases_ok_def foreign_op_def r)
qed

end
