(* ===== verification/Controller.thy ===== *)
theory Controller
  imports Nginx_Laws Routing_Table Quic_Passthrough Reconcile Runtime_Tables
begin

text \<open>
  \<open>runtime/controller.py\<close>: the table-backed runtime controller renders the tables, runs the reconciler
  under a lease, and records the outcome as a generation, an attempt and a revision for every host. Each call of a
  table operation is a transaction of its own, so what was written before an exception stays. The \<open>asyncio\<close> lock
  makes reconciliations of one controller follow each other. The clock values of the lease, of the activation and
  of the revisions are arguments.
\<close>

section \<open>State\<close>

record runtime_state =
  rs_store :: store
  rs_generations :: "generation_row list"
  rs_attempts :: "attempt_row list"
  rs_leases :: "lease_row list"
  rs_routing :: routing_db

record controller =
  co_reconciler :: reconciler
  co_holder :: string

record clock =
  ck_acquire :: int
  ck_activate :: int
  ck_applied :: int

definition routing_collections :: "string set" where
  "routing_collections = set [''proxy-hosts'', ''redirection-hosts'', ''dead-hosts'', ''streams'',
     ''quic-passthrough-hosts'', ''access-lists'', ''certificates'', ''settings'']"

section \<open>Host files\<close>

text \<open>\<open>re.fullmatch(r"http/(?:proxy|redirection|dead)-(\d+)\.conf", path)\<close>.\<close>

definition host_prefixes :: "string list" where
  "host_prefixes = [''http/proxy-'', ''http/redirection-'', ''http/dead-'']"

definition host_digits :: "string \<Rightarrow> string \<Rightarrow> string option" where
  "host_digits prefix path =
     (if startswith prefix path \<and> endswith ''.conf'' (drop (length prefix) path)
      then let digits = take (length path - length prefix - 5) (drop (length prefix) path) in
        if digits \<noteq> [] \<and> list_all is_digit digits then Some digits else None
      else None)"

definition host_file_id :: "string \<Rightarrow> int option" where
  "host_file_id path =
     Option.bind (fold (\<lambda>prefix found. case found of Some d \<Rightarrow> Some d | None \<Rightarrow> host_digits prefix path) host_prefixes None)
       parse_int"

definition host_ids :: "(string, string) dict \<Rightarrow> int list" where
  "host_ids files = remdups (List.map_filter (\<lambda>(path, _). host_file_id path) files)"

text \<open>Has the stored text of a revision's host changed on disk?\<close>

definition host_revision_drifted :: "(string \<Rightarrow> string) \<Rightarrow> store \<Rightarrow> revision_row \<Rightarrow> bool" where
  "host_revision_drifted sha256 st revision =
     (case Option.bind (active_path st) (dict_get (generations st)) of
        None \<Rightarrow> (case active_path st of None \<Rightarrow> False | Some _ \<Rightarrow> True)
      | Some t \<Rightarrow>
          (case List.map_filter (\<lambda>family. dict_get t [''http'', family @ ''-'' @ int_str (rv_host revision) @ ''.conf''])
                  [''proxy'', ''redirection'', ''dead''] of
             [] \<Rightarrow> True
           | text # _ \<Rightarrow> sha256 text \<noteq> rv_config_digest revision))"

definition runtime_view_of :: "controller \<Rightarrow> int list \<Rightarrow> runtime_state \<Rightarrow> runtime_view" where
  "runtime_view_of co applying rs = \<lparr>rt_applying = applying, rt_active_generation = active_id (rs_store rs),
     rt_drifted = host_revision_drifted (rc_sha256 (co_reconciler co)) (rs_store rs)\<rparr>"

section \<open>Rendering the tables\<close>

definition render_tables :: "routing_db \<Rightarrow> stream_row list \<Rightarrow> quic_row list \<Rightarrow> access_db \<Rightarrow> py_error + (string, string) dict" where
  "render_tables routing streams quic access =
     ebind (runtime_list routing) (\<lambda>hosts.
     ebind (stream_runtime_list streams) (\<lambda>streams.
     ebind (quic_runtime_list quic) (\<lambda>quic_routes.
     ebind (access_runtime_list access) (\<lambda>access_lists.
       render default_platform (filter (\<lambda>h. rh_kind h = Kind_Proxy) hosts) (filter (\<lambda>h. rh_kind h = Kind_Redirect) hosts)
         (filter (\<lambda>h. rh_kind h = Kind_Dead) hosts) streams quic_routes access_lists))))"

section \<open>Recording an outcome\<close>

definition opt_str :: "string option \<Rightarrow> pyval" where
  "opt_str x = (case x of None \<Rightarrow> PNone | Some s \<Rightarrow> PStr s)"

definition generation_values :: "string \<Rightarrow> (string, string) dict \<Rightarrow> reconcile_result \<Rightarrow> payload" where
  "generation_values g files result =
     [(''generation'', PStr g), (''previous_generation'', opt_str (rr_previous result)),
      (''files'', PDict (map (\<lambda>(path, text). (path, PStr text)) files)),
      (''state'', PStr (if rr_applied result then ''active'' else ''failed'')),
      (''is_active'', PBool False), (''diagnostic'', opt_str (rr_diagnostic result))]"

definition revision_values :: "(string \<Rightarrow> string) \<Rightarrow> int \<Rightarrow> string \<Rightarrow> bool \<Rightarrow> int \<Rightarrow> string \<Rightarrow> payload" where
  "revision_values sha256 now g applied i text =
     [(''routing_host_id'', PInt i), (''generation'', PStr g), (''config_text'', PStr text),
      (''config_digest'', PStr (sha256 text)), (''applied'', PBool applied),
      (''applied_at'', if applied then PInt now else PNone)]"

definition record_file :: "(string \<Rightarrow> string) \<Rightarrow> int \<Rightarrow> string \<Rightarrow> bool \<Rightarrow> string \<times> string \<Rightarrow> routing_db \<Rightarrow> py_error + routing_db" where
  "record_file sha256 now g applied = (\<lambda>(path, text) db.
     case host_file_id path of
       None \<Rightarrow> Inr db
     | Some i \<Rightarrow> map_sum id fst (record_revision (revision_values sha256 now g applied i text) db))"

definition persist_outcome :: "(string \<Rightarrow> string) \<Rightarrow> clock \<Rightarrow> string \<Rightarrow> (string, string) dict \<Rightarrow> reconcile_result \<Rightarrow> runtime_state \<Rightarrow>
    py_error + runtime_state" where
  "persist_outcome sha256 clk g files result rs =
     ebind (record_generation (generation_values g files result) (rs_generations rs)) (\<lambda>(rows, row).
     ebind (if rr_applied result then map_sum id fst (activate_generation (ck_activate clk) [(''generation'', PStr g)] rows)
            else Inr rows) (\<lambda>rows.
     let attempt = \<lparr>at_id = next_id at_id (rs_attempts rs), at_generation_id = gn_id row,
           at_previous_generation = rr_previous result, at_changed = rr_changed result, at_applied = rr_applied result,
           at_status = (if rr_applied result then ''applied'' else ''failed''), at_diagnostic = rr_diagnostic result\<rparr> in
     ebind (efold (record_file sha256 (ck_applied clk) g (rr_applied result)) files (rs_routing rs)) (\<lambda>routing.
       Inr (rs\<lparr>rs_generations := rows, rs_attempts := rs_attempts rs @ [attempt], rs_routing := routing\<rparr>))))"

section \<open>Reconciliation under a lease\<close>

definition lease_payload :: "string \<Rightarrow> payload" where
  "lease_payload holder = [(''name'', PStr ''nginx-reconcile''), (''holder'', PStr holder), (''ttl_seconds'', PInt 120)]"

text \<open>The body of the outer \<open>try\<close>: reconcile, and record the outcome whether it succeeded or not.\<close>

definition apply_files :: "controller \<Rightarrow> clock \<Rightarrow> (string, string) dict \<Rightarrow> runtime_state \<Rightarrow>
    runtime_state \<times> (py_error + reconcile_result)" where
  "apply_files co clk files rs =
     (let sha256 = rc_sha256 (co_reconciler co) in
      case reconcile (co_reconciler co) files (rs_store rs) of
        (st, Inr result) \<Rightarrow>
          let rs = rs\<lparr>rs_store := st\<rparr> in
          (case persist_outcome sha256 clk (rr_generation result) files result rs of
             Inl e \<Rightarrow> (rs, Inl e)
           | Inr rs \<Rightarrow> (rs, Inr result))
      | (st, Inl e) \<Rightarrow>
          let rs = rs\<lparr>rs_store := st\<rparr> in
          (case generation_id sha256 files of
             Inl e \<Rightarrow> (rs, Inl e)
           | Inr g \<Rightarrow>
               (case persist_outcome sha256 clk g files \<lparr>rr_generation = g, rr_previous = active_id st, rr_changed = True,
                      rr_applied = False, rr_diagnostic = Some (error_text e)\<rparr> rs of
                  Inl e \<Rightarrow> (rs, Inl e)
                | Inr rs \<Rightarrow> (rs, Inl e))))"

definition reconcile_files :: "controller \<Rightarrow> clock \<Rightarrow> (string, string) dict \<Rightarrow> runtime_state \<Rightarrow>
    runtime_state \<times> (py_error + reconcile_result)" where
  "reconcile_files co clk files rs =
     (case acquire (ck_acquire clk) (lease_payload (co_holder co)) (rs_leases rs) of
        Inl e \<Rightarrow> (rs, Inl e)
      | Inr (leases, answer) \<Rightarrow>
          let rs = rs\<lparr>rs_leases := leases\<rparr> in
          if \<not> la_acquired answer
          then (rs, Inl (RuntimeError (''reconciliation lease is held by '' @ la_holder answer)))
          else
            (case apply_files co clk files rs of
               (rs, result) \<Rightarrow>
                 (case release [(''name'', PStr ''nginx-reconcile''), (''holder'', PStr (co_holder co))] (rs_leases rs) of
                    Inl e \<Rightarrow> (rs, Inl e)
                  | Inr (leases, _) \<Rightarrow> (rs\<lparr>rs_leases := leases\<rparr>, result))))"

text \<open>\<open>reconcile\<close> and \<open>changed\<close>; a collection the runtime does not render changes nothing.\<close>

definition reconcile_tables :: "controller \<Rightarrow> clock \<Rightarrow> stream_row list \<Rightarrow> quic_row list \<Rightarrow> access_db \<Rightarrow> runtime_state \<Rightarrow>
    runtime_state \<times> (py_error + reconcile_result)" where
  "reconcile_tables co clk streams quic access rs =
     (case render_tables (rs_routing rs) streams quic access of
        Inl e \<Rightarrow> (rs, Inl e)
      | Inr files \<Rightarrow> reconcile_files co clk files rs)"

definition changed_collection :: "string \<Rightarrow> controller \<Rightarrow> clock \<Rightarrow> stream_row list \<Rightarrow> quic_row list \<Rightarrow> access_db \<Rightarrow> runtime_state \<Rightarrow>
    runtime_state \<times> (py_error + reconcile_result option)" where
  "changed_collection collection co clk streams quic access rs =
     (if replace_char CHR ''_'' ''-'' collection \<notin> routing_collections then (rs, Inr None)
      else map_prod id (map_sum id Some) (reconcile_tables co clk streams quic access rs))"

definition stage_files :: "(string \<Rightarrow> string) \<Rightarrow> (string, string) dict \<Rightarrow> store \<Rightarrow> store \<times> (py_error + string \<times> bool)" where
  "stage_files sha256 files st =
     (case generation_id sha256 files of
        Inl e \<Rightarrow> (st, Inl e)
      | Inr g \<Rightarrow> map_prod id (map_sum id (\<lambda>created. (g, created))) (stage g files st))"

section \<open>Staging rendered files\<close>

definition relative_name :: "string \<Rightarrow> bool" where
  "relative_name n \<longleftrightarrow> safe_relative n = Inr (path_parts n)"

lemma generation_id_relative: "\<forall>f\<in>set files. relative_name (fst f) \<Longrightarrow> \<exists>g. generation_id sha files = Inr g"
proof -
  assume r: "\<forall>f\<in>set files. relative_name (fst f)"
  have "emap (\<lambda>(name, contents). ebind (safe_relative name) (\<lambda>_. Inr (name @ [CHR 0x00] @ contents @ [CHR 0x00]))) (sort_key fst files)
     = Inr (map (\<lambda>(name, contents). name @ [CHR 0x00] @ contents @ [CHR 0x00]) (sort_key fst files))"
    using r by (intro emap_pure) (auto simp: relative_name_def)
  then show ?thesis by (simp add: generation_id_def)
qed

lemma write_file_apply: "write_file (n, c) t =
    ebind (safe_relative n) (\<lambda>parts.
       if (\<exists>q\<in>dict_keys t. strict_prefix_of q parts \<or> strict_prefix_of parts q)
       then Inl (OSError n) else Inr (dict_set parts c t))"
  by (simp add: write_file_def)

lemma write_files:
  assumes "\<forall>f\<in>set fs. relative_name (fst f)" "distinct (map (path_parts \<circ> fst) fs)"
    and "\<forall>f\<in>set fs. path_parts (fst f) \<notin> dict_keys t"
    and "\<forall>p\<in>path_parts ` fst ` set fs \<union> dict_keys t. \<forall>q\<in>path_parts ` fst ` set fs \<union> dict_keys t. \<not> strict_prefix_of p q"
  shows "\<exists>t'. efold write_file fs t = Inr t' \<and> (\<forall>(n, c)\<in>set fs. dict_get t' (path_parts n) = Some c) \<and>
    (\<forall>k. k \<notin> path_parts ` fst ` set fs \<longrightarrow> dict_get t' k = dict_get t k)"
  using assms
proof (induction fs arbitrary: t)
  case (Cons f fs)
  obtain n c where f: "f = (n, c)" by (cases f)
  have "\<not> strict_prefix_of q (path_parts n) \<and> \<not> strict_prefix_of (path_parts n) q" if "q \<in> dict_keys t" for q
    using Cons.prems(4) that by (simp add: f)
  then have step: "write_file (n, c) t = Inr (dict_set (path_parts n) c t)"
    using Cons.prems(1) by (auto simp: write_file_apply relative_name_def f)
  have "\<exists>t'. efold write_file fs (dict_set (path_parts n) c t) = Inr t' \<and>
      (\<forall>(n, c)\<in>set fs. dict_get t' (path_parts n) = Some c) \<and>
      (\<forall>k. k \<notin> path_parts ` fst ` set fs \<longrightarrow> dict_get t' k = dict_get (dict_set (path_parts n) c t) k)"
  proof (rule Cons.IH)
    show "\<forall>f\<in>set fs. path_parts (fst f) \<notin> dict_keys (dict_set (path_parts n) c t)"
      using Cons.prems(2,3) by (auto simp: f image_iff)
  qed (use Cons.prems in \<open>auto simp: f\<close>)
  then obtain t' where t': "efold write_file fs (dict_set (path_parts n) c t) = Inr t'"
    "\<forall>(n, c)\<in>set fs. dict_get t' (path_parts n) = Some c"
    "\<forall>k. k \<notin> path_parts ` fst ` set fs \<longrightarrow> dict_get t' k = dict_get (dict_set (path_parts n) c t) k" by blast
  have "path_parts n \<notin> path_parts ` fst ` set fs" using Cons.prems(2) by (auto simp: f)
  with t' show ?case by (auto simp: step f)
qed simp

lemma tree_of_files:
  assumes "dict_ok files" "\<forall>f\<in>set files. relative_name (fst f)" "inj_on path_parts (dict_keys files)"
    and "\<forall>p\<in>path_parts ` dict_keys files. \<forall>q\<in>path_parts ` dict_keys files. \<not> strict_prefix_of p q"
  shows "\<exists>t. tree_of files = Inr t \<and> (\<forall>(n, c)\<in>set files. dict_get t (path_parts n) = Some c) \<and>
    dict_keys t = path_parts ` dict_keys files"
proof -
  have "distinct (map path_parts (map fst files))"
    using assms(1,3) unfolding distinct_map dict_ok_def dict_keys_def by simp
  then have d: "distinct (map (path_parts \<circ> fst) (sort_key fst files))"
    by (metis distinct_map list.map_comp distinct_sort set_sort)
  have "\<exists>t'. efold write_file (sort_key fst files) [] = Inr t' \<and>
      (\<forall>(n, c)\<in>set (sort_key fst files). dict_get t' (path_parts n) = Some c) \<and>
      (\<forall>k. k \<notin> path_parts ` fst ` set (sort_key fst files) \<longrightarrow> dict_get t' k = dict_get [] k)"
    using assms(2,4) d by (intro write_files) (auto simp: dict_keys_def)
  then obtain t where t: "tree_of files = Inr t" "\<forall>(n, c)\<in>set files. dict_get t (path_parts n) = Some c"
    "\<forall>k. k \<notin> path_parts ` fst ` set files \<longrightarrow> dict_get t k = None"
    by (auto simp: tree_of_def)
  have "k \<in> dict_keys t \<longleftrightarrow> k \<in> path_parts ` dict_keys files" for k
  proof
    assume "k \<in> dict_keys t"
    then have "dict_get t k \<noteq> None" by (metis dict_get_None)
    moreover note t(3) [rule_format, of k]
    ultimately show "k \<in> path_parts ` dict_keys files" by (cases "k \<in> path_parts ` dict_keys files") (simp_all add: dict_keys_def)
  next
    assume "k \<in> path_parts ` dict_keys files"
    then obtain n c where "(n, c) \<in> set files" "k = path_parts n" by (auto simp: dict_keys_def)
    with t(2) have "dict_get t k = Some c" by blast
    then show "k \<in> dict_keys t" by (rule dict_keys_SomeI)
  qed
  then have "dict_keys t = path_parts ` dict_keys files" by blast
  with t show ?thesis by blast
qed

section \<open>The names of rendered files\<close>

definition plain_part :: "string \<Rightarrow> bool" where
  "plain_part p \<longleftrightarrow> p \<noteq> [] \<and> p \<noteq> ''.'' \<and> p \<noteq> ''..'' \<and> CHR ''/'' \<notin> set p"

definition rendered_parts :: "string list \<Rightarrow> bool" where
  "rendered_parts ps \<longleftrightarrow> (\<forall>p\<in>set ps. plain_part p) \<and>
     (ps = [''nginx.conf''] \<or> (\<exists>d n. ps = [d, n] \<and> d \<noteq> ''nginx.conf'' \<and> d \<noteq> ''conf.d'') \<or>
      (\<exists>n. ps = [''conf.d'', ''include'', n]))"

definition rendered_name :: "string \<Rightarrow> bool" where
  "rendered_name n \<longleftrightarrow> (\<exists>ps. rendered_parts ps \<and> n = join ''/'' ps)"

lemma path_parts_join:
  assumes "\<forall>p\<in>set ps. plain_part p"
  shows "path_parts (join ''/'' ps) = ps"
proof (cases "ps = []")
  case True
  then show ?thesis by (simp add: path_parts_def)
next
  case False
  have "split_on CHR ''/'' (join ''/'' ps) = ps"
    using assms False by (intro split_on_join) (auto simp: plain_part_def)
  moreover have "filter (\<lambda>p. p \<noteq> [] \<and> p \<noteq> ''.'') ps = ps"
    using assms by (auto simp: filter_id_conv plain_part_def)
  ultimately show ?thesis by (simp add: path_parts_def)
qed

lemma rendered_name_parts:
  assumes "rendered_name n"
  shows "rendered_parts (path_parts n)" "n = join ''/'' (path_parts n)"
proof -
  from assms obtain ps where ps: "rendered_parts ps" "n = join ''/'' ps" by (auto simp: rendered_name_def)
  then have "path_parts n = ps" using path_parts_join by (simp add: rendered_parts_def)
  with ps show "rendered_parts (path_parts n)" "n = join ''/'' (path_parts n)" by simp_all
qed

lemma rendered_relative: "rendered_name n \<Longrightarrow> relative_name n"
proof -
  assume r: "rendered_name n"
  note p = rendered_name_parts [OF r]
  have "\<not> plain_part ''..''" by (simp add: plain_part_def)
  then have parts: "path_parts n \<noteq> []" "''..'' \<notin> set (path_parts n)"
    using p(1) unfolding rendered_parts_def by (elim conjE disjE exE; force)+
  have "\<not> startswith ''/'' n"
  proof
    assume "startswith ''/'' n"
    then have h: "n \<noteq> []" "hd n = CHR ''/''" by (cases n; simp add: startswith_def)+
    obtain q qs where q: "path_parts n = q # qs" using parts(1) by (cases "path_parts n") auto
    then have "plain_part q" using p(1) by (simp add: rendered_parts_def)
    then have "q \<noteq> []" "CHR ''/'' \<notin> set q" by (auto simp: plain_part_def)
    moreover have "hd n = hd q" using p(2) q \<open>q \<noteq> []\<close> by (cases qs) (metis hd_append2 join.simps(2,3))+
    ultimately show False using h by (metis hd_in_set)
  qed
  with parts show ?thesis by (simp add: relative_name_def safe_relative_def)
qed

lemma rendered_no_prefix:
  assumes "rendered_parts p" "rendered_parts q"
  shows "\<not> strict_prefix_of p q"
  using assms by (auto simp: rendered_parts_def strict_prefix_of_def)

lemma rendered_tree:
  assumes "dict_ok files" "\<forall>n\<in>dict_keys files. rendered_name n"
  shows "\<exists>t. tree_of files = Inr t \<and> (\<forall>(n, c)\<in>set files. dict_get t (path_parts n) = Some c) \<and>
    dict_keys t = path_parts ` dict_keys files"
proof (rule tree_of_files [OF assms(1)])
  show "\<forall>f\<in>set files. relative_name (fst f)" using assms(2) rendered_relative by (auto simp: dict_keys_def)
  show "inj_on path_parts (dict_keys files)" using assms(2) rendered_name_parts(2) by (metis inj_onI)
  show "\<forall>p\<in>path_parts ` dict_keys files. \<forall>q\<in>path_parts ` dict_keys files. \<not> strict_prefix_of p q"
    using assms(2) rendered_name_parts(1) rendered_no_prefix by blast
qed

definition tidy_files :: "(string, string) dict \<Rightarrow> bool" where
  "tidy_files files \<longleftrightarrow> dict_ok files \<and> (\<forall>n\<in>dict_keys files. rendered_name n)"

lemma tidy_set: "tidy_files f \<Longrightarrow> rendered_name n \<Longrightarrow> tidy_files (dict_set n c f)"
  by (simp add: tidy_files_def)

lemma two_parts:
  assumes "plain_part d" "plain_part n" "d \<noteq> ''nginx.conf''" "d \<noteq> ''conf.d''"
  shows "rendered_name (d @ ''/'' @ n)"
proof -
  have "rendered_parts [d, n]" using assms by (simp add: rendered_parts_def)
  moreover have "d @ ''/'' @ n = join ''/'' [d, n]" by simp
  ultimately show ?thesis unfolding rendered_name_def by blast
qed

lemma plain_int: "plain_part (int_str i)"
proof -
  have "\<not> is_digit CHR ''.''" by code_simp
  then have "CHR ''.'' \<notin> set (int_str i)" using nat_str_digits by (auto simp: int_str_def)
  moreover have "int_str i \<noteq> []" by (simp add: int_str_def)
  ultimately show ?thesis using slash_int by (auto simp: plain_part_def)
qed

lemma plain_named: "CHR ''/'' \<notin> set a \<Longrightarrow> CHR ''/'' \<notin> set n \<Longrightarrow> 2 < length a \<Longrightarrow> plain_part (a @ n)"
  by (auto simp: plain_part_def append_eq_Cons_conv)

lemma named_conf:
  assumes "CHR ''/'' \<notin> set n"
  shows "rendered_name (conf_name ''http/proxy-'' n)" "rendered_name (conf_name ''http/redirection-'' n)"
    "rendered_name (conf_name ''http/dead-'' n)" "rendered_name (conf_name ''stream/stream-'' n)"
    "rendered_name (''access/proxy-host-'' @ n)"
  using two_parts [of "''http''" "''proxy-'' @ n @ ''.conf''"] two_parts [of "''http''" "''redirection-'' @ n @ ''.conf''"]
    two_parts [of "''http''" "''dead-'' @ n @ ''.conf''"] two_parts [of "''stream''" "''stream-'' @ n @ ''.conf''"]
    two_parts [of "''access''" "''proxy-host-'' @ n"] assms
  by (simp_all add: conf_name_def plain_part_def)

lemma access_name: "rendered_name (''access/'' @ int_str i)"
  using two_parts [of "''access''" "int_str i"] plain_int by (simp add: plain_part_def)

lemma custom_name: "n \<in> set custom_include_names \<Longrightarrow> rendered_name (conf_name ''custom/'' n)"
proof -
  assume n: "n \<in> set custom_include_names"
  have "list_all (\<lambda>n. CHR ''/'' \<notin> set n \<and> n \<noteq> []) custom_include_names" by code_simp
  with n have "CHR ''/'' \<notin> set n" "n \<noteq> []" by (simp_all add: list_all_iff)
  then have "plain_part (n @ ''.conf'')" by (auto simp: plain_part_def append_eq_Cons_conv)
  then show ?thesis using two_parts [of "''custom''" "n @ ''.conf''"] by (simp add: conf_name_def plain_part_def)
qed

lemma three_parts: "plain_part n \<Longrightarrow> rendered_name (''conf.d/include/'' @ n)"
proof -
  assume "plain_part n"
  then have "rendered_parts [''conf.d'', ''include'', n]" by (simp add: rendered_parts_def plain_part_def)
  moreover have "''conf.d/include/'' @ n = join ''/'' [''conf.d'', ''include'', n]" by simp
  ultimately show ?thesis unfolding rendered_name_def by blast
qed

lemma tidy_base: "tidy_files (base_files platform qs)"
proof -
  let ?names = "[''nginx.conf'', ''http/default.conf'', ''http/status.conf'', ''include/trusted-proxies.conf'',
     ''conf.d/include/proxy.conf'', ''conf.d/include/block-exploits.conf'', ''quic/routes.json''] @
     map (conf_name ''custom/'') custom_include_names"
  have m: "map fst (base_files platform qs) = ?names" by (simp add: base_files_def comp_def)
  have "distinct ?names" by code_simp
  then have "dict_ok (base_files platform qs)" by (simp add: dict_ok_def m)
  moreover have "rendered_name n" if "n \<in> set ?names" for n
  proof -
    have "rendered_name (join ''/'' [''nginx.conf''])" unfolding rendered_name_def
      by (intro exI conjI [rotated], rule refl) (simp add: rendered_parts_def plain_part_def)
    moreover have "rendered_name (''http'' @ ''/'' @ ''default.conf'')" "rendered_name (''http'' @ ''/'' @ ''status.conf'')"
      "rendered_name (''include'' @ ''/'' @ ''trusted-proxies.conf'')" "rendered_name (''quic'' @ ''/'' @ ''routes.json'')"
      by (rule two_parts; simp add: plain_part_def)+
    moreover have "rendered_name (''conf.d/include/'' @ ''proxy.conf'')" "rendered_name (''conf.d/include/'' @ ''block-exploits.conf'')"
      by (rule three_parts; simp add: plain_part_def)+
    ultimately show ?thesis using that custom_name by auto
  qed
  moreover have "dict_keys (base_files platform qs) = set ?names" by (metis m dict_keys_def set_map)
  ultimately show ?thesis by (simp add: tidy_files_def)
qed

lemma tidy_fold: "(\<And>x. x \<in> set xs \<Longrightarrow> rendered_name (key x)) \<Longrightarrow> tidy_files f \<Longrightarrow>
    tidy_files (fold (\<lambda>x. dict_set (key x) (val x)) xs f)"
  by (induction xs arbitrary: f) (auto simp: tidy_set)

lemma render_tidy:
  assumes "render platform ps rs ds ss qs ls = Inr files"
  shows "tidy_files files"
proof -
  from assms obtain f1 f2 f3 where
    1: "efold (render_proxy_files platform (access_index ls)) (sort_key rh_id ps) (initial_files platform qs ls) = Inr f1"
    and 2: "efold (render_host_file ''http/redirection-'' (render_redirection platform)) (sort_key rh_id rs) f1 = Inr f2"
    and 3: "efold (render_host_file ''http/dead-'' (render_dead platform)) (sort_key rh_id ds) f2 = Inr f3"
    and 4: "efold custom_include (sort_key fst (pc_custom_includes platform))
       (fold (\<lambda>s. dict_set (conf_name ''stream/stream-'' (int_str (st_id s))) (render_stream platform s))
          (sort_key st_id ss) f3) = Inr files"
    by (rule render_stages)
  note names = named_conf [OF slash_int]
  have "rendered_name (''default_www'' @ ''/'' @ ''index.html'')" by (rule two_parts; simp add: plain_part_def)
  then have "tidy_files (initial_files platform qs ls)"
    unfolding initial_files_def by (intro tidy_fold access_name) (simp add: tidy_set tidy_base)
  with 1 have "tidy_files f1"
  proof (rule efold_invariant)
    fix h s s'
    assume t: "tidy_files s" and r: "render_proxy_files platform (access_index ls) h s = Inr s'"
    let ?name = "''access/proxy-host-'' @ int_str (rh_id h)" and ?conf = "conf_name ''http/proxy-'' (int_str (rh_id h))"
    from r obtain c l where "s' = dict_set ?conf c s \<or> s' = dict_set ?conf c (dict_set ?name l s)"
      unfolding render_proxy_files_def Let_def ebind_Inr_iff
      by (fastforce simp: password_file_of_def split: option.splits if_splits)
    with t show "tidy_files s'" using names by (auto intro!: tidy_set)
  qed
  with 2 have "tidy_files f2"
    by (rule efold_invariant) (auto simp: render_host_file_def result_simps intro!: tidy_set names)
  with 3 have "tidy_files f3"
    by (rule efold_invariant) (auto simp: render_host_file_def result_simps intro!: tidy_set names)
  then have "tidy_files (fold (\<lambda>s. dict_set (conf_name ''stream/stream-'' (int_str (st_id s))) (render_stream platform s))
          (sort_key st_id ss) f3)"
    by (intro tidy_fold names)
  with 4 show ?thesis
    by (rule efold_invariant) (auto simp: custom_include_apply intro!: tidy_set custom_name split: if_splits)
qed

section \<open>Recording never fails\<close>

lemma record_file_total: "\<exists>db'. record_file sha now g applied f db = Inr db'"
proof (cases f)
  case (Pair path contents)
  show ?thesis
    by (cases "host_file_id path")
      (simp_all add: Pair record_file_def record_revision_def revision_values_def pget_def dict_get_or_def Let_def split: option.split)
qed

lemma record_files_total: "\<exists>db'. efold (record_file sha now g applied) files db = Inr db'"
proof (induction files arbitrary: db)
  case (Cons f files)
  obtain d where "record_file sha now g applied f db = Inr d" using record_file_total by blast
  then show ?case using Cons.IH by simp
qed simp

lemma files_payload: "dict_or_empty (PDict (map (\<lambda>(path, text). (path, PStr text)) files)) = Inr (map (\<lambda>(path, text). (path, PStr text)) files)"
  by (simp add: dict_or_empty_def)

definition stored_files :: "(string, string) dict \<Rightarrow> payload" where
  "stored_files files = map (\<lambda>(path, text). (path, PStr text)) files"

definition attempt_of :: "runtime_state \<Rightarrow> int \<Rightarrow> reconcile_result \<Rightarrow> attempt_row" where
  "attempt_of rs row result = \<lparr>at_id = next_id at_id (rs_attempts rs), at_generation_id = row,
     at_previous_generation = rr_previous result, at_changed = rr_changed result, at_applied = rr_applied result,
     at_status = (if rr_applied result then ''applied'' else ''failed''), at_diagnostic = rr_diagnostic result\<rparr>"

lemma persist_outcome_total:
  assumes "generations_ok (rs_generations rs)" "g \<noteq> []"
  obtains rs' row where "persist_outcome sha clk g files result rs = Inr rs'" "rs_store rs' = rs_store rs" "rs_leases rs' = rs_leases rs"
    "generations_ok (rs_generations rs')" "rs_attempts rs' = rs_attempts rs @ [attempt_of rs row result]"
    "active_names (rs_generations rs') = (if rr_applied result then [g] else filter (\<lambda>n. n \<noteq> g) (active_names (rs_generations rs)))"
    "\<And>r. rr_applied result \<Longrightarrow> r \<in> set (rs_generations rs') \<Longrightarrow> gn_generation r = g \<Longrightarrow>
       gn_files r = stored_files files \<and> gn_state r = ''active'' \<and>
       gn_previous_generation r = (case filter (\<lambda>n. n \<noteq> g) (active_names (rs_generations rs)) of [] \<Rightarrow> PNone | n # _ \<Rightarrow> PStr n)"
proof -
  let ?p = "generation_values g files result"
  have p: "pget ''generation'' ?p = PStr g" "dict_get ?p ''generation'' = Some (PStr g)"
    "dict_or_empty (pget ''files'' ?p) = Inr (stored_files files)" "pget ''is_active'' ?p = PBool False"
    "dict_get ?p ''is_active'' = Some (PBool False)"
    by (simp_all add: generation_values_def pget_def dict_get_or_def files_payload stored_files_def)
  show ?thesis
  proof (rule record_generation_inactive [OF assms(1) p], goal_cases)
    case (1 rows row)
    note rows = 1
    obtain routing where routing: "efold (record_file sha (ck_applied clk) g (rr_applied result)) files (rs_routing rs) = Inr routing"
      using record_files_total by blast
    show ?thesis
    proof (cases "rr_applied result")
      case False
      show ?thesis
        by (rule that [of "rs\<lparr>rs_generations := rows, rs_attempts := rs_attempts rs @ [attempt_of rs (gn_id row) result], rs_routing := routing\<rparr>" "gn_id row"])
          (use rows routing False in \<open>simp_all add: persist_outcome_def attempt_of_def Let_def\<close>)
    next
      case True
      show ?thesis
      proof (rule activate_generation_exact [OF rows(2,4) assms(2), of "ck_activate clk"], goal_cases)
        case (1 rows')
        note a = 1
        have f: "gn_files r = stored_files files" if "r \<in> set rows'" "gn_generation r = g" for r
        proof -
          from a(5) [OF that] obtain s where s: "s \<in> set rows" "gn_generation s = g" "gn_files r = gn_files s" by blast
          have "s = row" using rows(2,6,7) s by (metis by_id_generation distinct_map generations_ok_def inj_onD)
          with s rows(8) show ?thesis by simp
        qed
        show ?thesis
        proof (rule that [of "rs\<lparr>rs_generations := rows', rs_attempts := rs_attempts rs @ [attempt_of rs (gn_id row) result], rs_routing := routing\<rparr>" "gn_id row"])
          fix r assume "r \<in> set (rs_generations (rs\<lparr>rs_generations := rows',
              rs_attempts := rs_attempts rs @ [attempt_of rs (gn_id row) result], rs_routing := routing\<rparr>))" "gn_generation r = g"
          then have r: "r \<in> set rows'" "gn_generation r = g" by simp_all
          from f [OF r] a(5) [OF r] show "gn_files r = stored_files files \<and> gn_state r = ''active'' \<and>
              gn_previous_generation r = (case filter (\<lambda>n. n \<noteq> g) (active_names (rs_generations rs)) of [] \<Rightarrow> PNone | n # _ \<Rightarrow> PStr n)"
            unfolding rows(3) by blast
        qed (use rows(1) a(1-4) routing True in \<open>simp_all add: persist_outcome_def attempt_of_def Let_def\<close>)
      qed
    qed
  qed
qed

section \<open>The table and the store\<close>

definition tables_agree :: "runtime_state \<Rightarrow> bool" where
  "tables_agree rs \<longleftrightarrow> generations_ok (rs_generations rs) \<and>
     active_names (rs_generations rs) = (case active_id (rs_store rs) of None \<Rightarrow> [] | Some g \<Rightarrow> [g])"

lemma plain_not_Nil: "plain_id g \<Longrightarrow> g \<noteq> []"
  by (simp add: plain_id_def)

text \<open>How a reconciliation ends, in terms of the active generation.\<close>

lemma reconcile_ends:
  assumes "\<And>x. hex_digest (rc_sha256 rc x)" "active_exists st" "generation_id (rc_sha256 rc) files = Inr g"
    and "reconcile rc files st = (st', r)"
  shows "(\<forall>result. r = Inr result \<longrightarrow> active_id st' = Some g \<and> rr_generation result = g \<and> rr_applied result \<and>
       rr_previous result = active_id st \<and> rr_diagnostic result = None \<and> rr_changed result = (active_id st \<noteq> Some g)) \<and>
    (\<forall>e. r = Inl e \<longrightarrow> active_id st' = active_id st \<and> active_id st \<noteq> Some g)"
proof -
  note d = reconcile_deploys [OF assms(1,2), of files]
  note out = reconcile_outcomes [where st = st, OF assms(3)]
  show ?thesis
  proof (cases r)
    case (Inl e)
    with d assms(4) have n: "\<not> accepted rc files st" by simp
    then have "active_id st \<noteq> Some g" by (auto simp: accepted_def assms(3))
    moreover have "dp_active (deployed st') = active_id st"
      using d assms(4) n by (simp add: deploy_def assms(3)) (simp add: deployed_def split: option.splits sum.splits)
    ultimately show ?thesis using Inl by (simp add: deployed_def)
  next
    case (Inr result)
    with d assms(4) have acc: "accepted rc files st" by simp
    have a: "active_id st' = Some g"
    proof (cases "active_id st = Some g")
      case True
      then show ?thesis using out(1) assms(4) by simp
    next
      case False
      then obtain t where "stored g files st = Inr t" using acc by (auto simp: accepted_def assms(3))
      then have "(case dict_get (generations st) g of None \<Rightarrow> tree_of files | Some t \<Rightarrow> Inr t) = Inr t"
        by (simp add: stored_def)
      then have "dp_active (deploy (generation_id (rc_sha256 rc) files) (tree_of files) (accepted rc files st) (deployed st)) = Some g"
        using False acc by (simp add: deploy_def assms(3) deployed_def)
      with d assms(4) have "dp_active (deployed st') = Some g" by simp
      then show ?thesis by (simp add: deployed_def)
    qed
    have "rr_generation result = g \<and> rr_applied result \<and> rr_previous result = active_id st \<and> rr_diagnostic result = None \<and>
        rr_changed result = (active_id st \<noteq> Some g)"
    proof (cases "active_id st = Some g")
      case True
      then show ?thesis using out(1) assms(4) Inr by auto
    next
      case False
      from False acc obtain t where t: "stored g files st = Inr t" and "accepts rc g (staged_store g files st)"
        by (auto simp: accepted_def assms(3))
      then have "reconcile rc files st = (publish g ((staged_store g files st)\<lparr>active_manifest := Some (g @ newline)\<rparr>),
        Inr \<lparr>rr_generation = g, rr_previous = active_id st, rr_changed = True, rr_applied = True, rr_diagnostic = None\<rparr>)"
        by (intro out(5) [OF False]) (simp_all add: accepts_def)
      then show ?thesis using assms(4) Inr False by auto
    qed
    with a Inr show ?thesis by simp
  qed
qed

lemma apply_files_ends:
  assumes "\<And>x. hex_digest (rc_sha256 (co_reconciler co) x)" "active_exists (rs_store rs)" "tables_agree rs"
  obtains rs' r where "apply_files co clk files rs = (rs', r)" "tables_agree rs'" "rs_leases rs' = rs_leases rs"
    "rs_store rs' = fst (reconcile (co_reconciler co) files (rs_store rs))"
    "r = snd (reconcile (co_reconciler co) files (rs_store rs))"
    "\<And>result g. r = Inr result \<Longrightarrow> generation_id (rc_sha256 (co_reconciler co)) files = Inr g \<Longrightarrow>
       active_id (rs_store rs') = Some g \<and> rr_changed result = (active_id (rs_store rs) \<noteq> Some g) \<and>
       (\<exists>i. rs_attempts rs' = rs_attempts rs @ [attempt_of rs i result]) \<and>
       (\<forall>row\<in>set (rs_generations rs'). gn_generation row = g \<longrightarrow> gn_files row = stored_files files \<and> gn_state row = ''active'' \<and>
          gn_previous_generation row = (if rr_changed result then opt_str (active_id (rs_store rs)) else PNone))"
proof (cases "generation_id (rc_sha256 (co_reconciler co)) files")
  case (Inl e)
  then have "reconcile (co_reconciler co) files (rs_store rs) = (rs_store rs, Inl e)" by (simp add: reconcile_def)
  with Inl assms(3) show ?thesis by (intro that [of rs "Inl e"]) (simp_all add: apply_files_def)
next
  case (Inr g)
  let ?rc = "co_reconciler co" and ?st = "rs_store rs"
  obtain st' r where rec: "reconcile ?rc files ?st = (st', r)" by (cases "reconcile ?rc files ?st")
  note ends = reconcile_ends [OF assms(1,2) Inr rec]
  have ok: "generations_ok (rs_generations rs)"
    and names: "active_names (rs_generations rs) = (case active_id ?st of None \<Rightarrow> [] | Some g \<Rightarrow> [g])"
    using assms(3) by (auto simp: tables_agree_def)
  have g: "g \<noteq> []" using generation_id_plain [OF Inr assms(1)] by (rule plain_not_Nil)
  let ?rs = "rs\<lparr>rs_store := st'\<rparr>"
  have ok': "generations_ok (rs_generations ?rs)" using ok by simp
  show ?thesis
  proof (cases r)
    case e: (Inl e)
    let ?result = "\<lparr>rr_generation = g, rr_previous = active_id st', rr_changed = True, rr_applied = False, rr_diagnostic = Some (error_text e)\<rparr>"
    show ?thesis
    proof (rule persist_outcome_total [OF ok' g, of "rc_sha256 ?rc" clk files ?result], goal_cases)
      case (1 rs' row)
      have "active_id st' = active_id ?st" "active_id ?st \<noteq> Some g" using ends e by auto
      then have "tables_agree rs'" using 1 names by (auto simp: tables_agree_def split: option.splits)
      then show ?thesis
        by (intro that [of rs' "Inl e"]) (use rec e 1 Inr in \<open>simp_all add: apply_files_def Let_def\<close>)
    qed
  next
    case result: (Inr result)
    then have end_facts: "active_id st' = Some g" "rr_generation result = g" "rr_applied result" "rr_previous result = active_id ?st"
      "rr_changed result = (active_id ?st \<noteq> Some g)" using ends by auto
    show ?thesis
    proof (rule persist_outcome_total [OF ok' g, of "rc_sha256 ?rc" clk files result], goal_cases)
      case (1 rs' i)
      show ?thesis
      proof (rule that [of rs' r])
        show "apply_files co clk files rs = (rs', r)" using rec result 1 end_facts by (simp add: apply_files_def Let_def)
        show "tables_agree rs'" using 1 end_facts by (simp add: tables_agree_def)
        show "rs_leases rs' = rs_leases rs" "rs_store rs' = fst (reconcile ?rc files ?st)" using 1 rec by simp_all
        show "r = snd (reconcile ?rc files ?st)" by (simp add: rec)
        fix result' g' assume "r = Inr result'" "generation_id (rc_sha256 ?rc) files = Inr g'"
        then have same: "result' = result" "g' = g" using result Inr by auto
        have prev: "(case filter (\<lambda>n. n \<noteq> g) (active_names (rs_generations ?rs)) of [] \<Rightarrow> PNone | n # _ \<Rightarrow> PStr n)
            = (if rr_changed result then opt_str (active_id ?st) else PNone)"
          using names end_facts by (auto simp: opt_str_def split: option.split)
        have attempt: "attempt_of ?rs i result = attempt_of rs i result" by (simp add: attempt_of_def)
        show "active_id (rs_store rs') = Some g' \<and> rr_changed result' = (active_id ?st \<noteq> Some g') \<and>
          (\<exists>i. rs_attempts rs' = rs_attempts rs @ [attempt_of rs i result']) \<and>
          (\<forall>row\<in>set (rs_generations rs'). gn_generation row = g' \<longrightarrow> gn_files row = stored_files files \<and> gn_state row = ''active'' \<and>
             gn_previous_generation row = (if rr_changed result' then opt_str (active_id ?st) else PNone))"
          unfolding same
        proof (intro conjI ballI impI)
          show "active_id (rs_store rs') = Some g" using 1 end_facts by simp
          show "rr_changed result = (active_id ?st \<noteq> Some g)" by (rule end_facts)
          show "\<exists>i. rs_attempts rs' = rs_attempts rs @ [attempt_of rs i result]" using 1 attempt by auto
          fix row assume "row \<in> set (rs_generations rs')" "gn_generation row = g"
          from 1(7) [OF end_facts(3) this] show "gn_files row = stored_files files" "gn_state row = ''active''"
            "gn_previous_generation row = (if rr_changed result then opt_str (active_id ?st) else PNone)"
            unfolding prev by blast+
        qed
      qed
    qed
  qed
qed

lemma lease_fields:
  "required_text ''name'' (lease_payload h) = Inr ''nginx-reconcile''" "required_text ''holder'' (lease_payload h) = Inr h"
  "ttl_of (lease_payload h) = Inr 120"
  "required_text ''name'' [(''name'', PStr ''nginx-reconcile''), (''holder'', PStr h)] = Inr ''nginx-reconcile''"
  "required_text ''holder'' [(''name'', PStr ''nginx-reconcile''), (''holder'', PStr h)] = Inr h"
  by (simp_all add: required_text_def lease_payload_def ttl_of_def pget_def dict_get_or_def py_or_def)

text \<open>Whether the lease is granted, and what \<open>reconcile_files\<close> then is.\<close>

definition lease_free :: "controller \<Rightarrow> clock \<Rightarrow> runtime_state \<Rightarrow> bool" where
  "lease_free co clk rs \<longleftrightarrow>
     (case find (\<lambda>r. ls_name r = ''nginx-reconcile'') (rs_leases rs) of
        None \<Rightarrow> True
      | Some row \<Rightarrow> ls_expires_at row \<le> ck_acquire clk \<or> ls_holder row = co_holder co)"

lemma acquire_lease:
  obtains leases answer where "acquire (ck_acquire clk) (lease_payload (co_holder co)) (rs_leases rs) = Inr (leases, answer)"
    "la_acquired answer = lease_free co clk rs" "\<not> lease_free co clk rs \<Longrightarrow> leases = rs_leases rs"
proof (cases "find (\<lambda>r. ls_name r = ''nginx-reconcile'') (rs_leases rs)")
  case None
  show ?thesis by (rule that) (simp_all add: acquire_def lease_fields lease_free_def Let_def None)+
next
  case (Some row)
  show ?thesis
  proof (cases "ck_acquire clk < ls_expires_at row \<and> ls_holder row \<noteq> co_holder co")
    case True
    show ?thesis by (rule that) (use True in \<open>simp_all add: acquire_def lease_fields lease_free_def Let_def Some\<close>)+
  next
    case False
    show ?thesis by (rule that) (use False in \<open>auto simp: acquire_def lease_fields lease_free_def Let_def Some\<close>)
  qed
qed

lemma reconcile_files_cases:
  obtains (refused) m where "\<not> lease_free co clk rs" "reconcile_files co clk files rs = (rs, Inl (RuntimeError m))"
  | (ran) leases released where "lease_free co clk rs"
      "reconcile_files co clk files rs = ((fst (apply_files co clk files (rs\<lparr>rs_leases := leases\<rparr>)))\<lparr>rs_leases := released\<rparr>,
         snd (apply_files co clk files (rs\<lparr>rs_leases := leases\<rparr>)))"
      "\<forall>row\<in>set released. ls_name row \<noteq> ''nginx-reconcile'' \<or> ls_holder row \<noteq> co_holder co"
proof (rule acquire_lease [of clk co rs])
  fix leases answer
  assume a: "acquire (ck_acquire clk) (lease_payload (co_holder co)) (rs_leases rs) = Inr (leases, answer)"
    "la_acquired answer = lease_free co clk rs" "\<not> lease_free co clk rs \<Longrightarrow> leases = rs_leases rs"
  show thesis
  proof (cases "lease_free co clk rs")
    case False
    with a show thesis by (intro refused) (simp_all add: reconcile_files_def)
  next
    case True
    obtain rs' r where r: "apply_files co clk files (rs\<lparr>rs_leases := leases\<rparr>) = (rs', r)" by fastforce
    show thesis
      by (rule ran [OF True, where leases = leases and released =
          "filter (\<lambda>r. \<not> (ls_name r = ''nginx-reconcile'' \<and> ls_holder r = co_holder co)) (rs_leases rs')"])
        (use True a r in \<open>auto simp: reconcile_files_def release_def lease_fields Let_def map_sum_def\<close>)
  qed
qed

section \<open>Runs of the controller\<close>

text \<open>Reconciliations of any controllers on any files, and between them any change of the routing tables and any
  request to the lease table.\<close>

inductive controller_step :: "(string \<Rightarrow> string) \<Rightarrow> runtime_state \<Rightarrow> runtime_state \<Rightarrow> bool" for sha where
  reconcile: "rc_sha256 (co_reconciler co) = sha \<Longrightarrow> controller_step sha rs (fst (reconcile_files co clk files rs))"
| tables: "controller_step sha rs (rs\<lparr>rs_routing := db\<rparr>)"
| lease: "controller_step sha rs (rs\<lparr>rs_leases := lease_step op (rs_leases rs)\<rparr>)"

inductive_cases controller_stepE: "controller_step sha rs rs'"

definition fresh_runtime :: "runtime_state \<Rightarrow> bool" where
  "fresh_runtime rs \<longleftrightarrow> rs_store rs = empty_store \<and> rs_generations rs = []"

definition runtime_ok :: "(string \<Rightarrow> string) \<Rightarrow> runtime_state \<Rightarrow> bool" where
  "runtime_ok sha rs \<longleftrightarrow> store_ok sha (rs_store rs) \<and> ((\<forall>x. hex_digest (sha x)) \<longrightarrow> tables_agree rs)"

lemma runtime_ok_reconcile:
  assumes "runtime_ok (rc_sha256 (co_reconciler co)) rs"
  shows "runtime_ok (rc_sha256 (co_reconciler co)) (fst (reconcile_files co clk files rs))"
proof (cases "\<forall>x. hex_digest (rc_sha256 (co_reconciler co) x)")
  case False
  then show ?thesis unfolding runtime_ok_def store_ok_def by blast
next
  case True
  then have h: "\<And>x. hex_digest (rc_sha256 (co_reconciler co) x)" by blast
  have t: "tables_agree rs" and s: "store_ok (rc_sha256 (co_reconciler co)) (rs_store rs)"
    using assms True by (simp_all add: runtime_ok_def)
  then have e: "active_exists (rs_store rs)" using True by (simp add: store_ok_def)
  show ?thesis
  proof (cases rule: reconcile_files_cases [where co = co and clk = clk and rs = rs and files = files])
    case (refused m)
    then show ?thesis using assms by simp
  next
    case (ran leases released)
    let ?rs = "rs\<lparr>rs_leases := leases\<rparr>"
    have "active_exists (rs_store ?rs)" "tables_agree ?rs" using e t by (simp_all add: tables_agree_def)
    from apply_files_ends [OF h this] obtain rs' r where "apply_files co clk files ?rs = (rs', r)" "tables_agree rs'"
      "rs_store rs' = fst (reconcile (co_reconciler co) files (rs_store ?rs))" by metis
    then show ?thesis using ran(2) store_ok_reconcile [OF s, of files]
      by (simp add: runtime_ok_def tables_agree_def)
  qed
qed

interpretation rt: state_machine fresh_runtime "controller_step sha" "runtime_ok sha" for sha
proof unfold_locales
  show "fresh_runtime rs \<Longrightarrow> runtime_ok sha rs" for rs
    using gs.start_inv [OF refl, of sha]
    by (simp add: fresh_runtime_def runtime_ok_def tables_agree_def generations_ok_def active_names_def)
      (simp add: empty_store_def active_id_def)
  show "runtime_ok sha rs \<Longrightarrow> controller_step sha rs rs' \<Longrightarrow> runtime_ok sha rs'" for rs rs'
  proof (erule controller_stepE)
    fix co clk files
    assume "runtime_ok sha rs" "rs' = fst (reconcile_files co clk files rs)" "rc_sha256 (co_reconciler co) = sha"
    then show "runtime_ok sha rs'" using runtime_ok_reconcile by blast
  qed (simp_all add: runtime_ok_def tables_agree_def)
qed

section \<open>Properties of the controller\<close>

text \<open>C19. In every run from an empty store and table, in which controllers reconcile any files with hooks that fail
  at any point, while the routing tables change and others use the leases: no generation is recorded twice, at most
  one is marked active, and the one that is marked is the one that \<open>ACTIVE\<close> names.\<close>

theorem active_row_is_active:
  assumes "\<And>x. hex_digest (sha x)" and "fresh_runtime rs" and "(controller_step sha)\<^sup>*\<^sup>* rs rs'"
  shows "distinct (map gn_generation (rs_generations rs')) \<and>
    map gn_generation (filter gn_is_active (rs_generations rs')) =
      (case active_id (rs_store rs') of None \<Rightarrow> [] | Some g \<Rightarrow> [g])"
  using rt.run_inv [OF assms(2,3)] assms(1)
  by (simp add: runtime_ok_def tables_agree_def generations_ok_def active_names_def)

definition sample_controller :: controller where
  "sample_controller = \<lparr>co_reconciler = sample_reconciler False, co_holder = ''a''\<rparr>"

definition sample_clock :: clock where
  "sample_clock = \<lparr>ck_acquire = 1000, ck_activate = 1001, ck_applied = 1002\<rparr>"

definition sample_runtime :: runtime_state where
  "sample_runtime = \<lparr>rs_store = empty_store, rs_generations = [], rs_attempts = [], rs_leases = [],
     rs_routing = \<lparr>rdb_hosts = [], rdb_sources = [], rdb_upstreams = [], rdb_locations = [], rdb_access = [],
       rdb_observations = [], rdb_revisions = []\<rparr>\<rparr>"

lemma sample_runtime_ok: "fresh_runtime sample_runtime" "active_exists (rs_store sample_runtime)" "tables_agree sample_runtime"
  by (simp_all add: fresh_runtime_def sample_runtime_def active_exists_def tables_agree_def generations_ok_def
      active_names_def active_id_def empty_store_def)

lemma sample_reconcile_files:
  obtains rs result where "reconcile_files sample_controller sample_clock [] sample_runtime = (rs, Inr result)"
    "active_id (rs_store rs) = Some (replicate 20 CHR ''a'')" "rr_changed result"
proof (cases rule: reconcile_files_cases [where co = sample_controller and clk = sample_clock and rs = sample_runtime and files = "[]"])
  case (refused m)
  then show ?thesis by (simp add: lease_free_def sample_runtime_def)
next
  case (ran leases released)
  let ?rs = "sample_runtime\<lparr>rs_leases := leases\<rparr>"
  have rec: "reconcile (sample_reconciler False) [] empty_store = (sample_store,
     Inr \<lparr>rr_generation = replicate 20 CHR ''a'', rr_previous = None, rr_changed = True, rr_applied = True, rr_diagnostic = None\<rparr>)"
    unfolding reconcile_def sample_generation sample_store_value
    by (simp add: active_id_def empty_store_def stage_def validator_def hooks_validate_def run_command_def
      sample_runner_def sample_reconciler_def activate_def reloader_def publish_def dict_set_def Let_def)
  have c: "co_reconciler sample_controller = sample_reconciler False" by (simp add: sample_controller_def)
  have h: "hex_digest (rc_sha256 (co_reconciler sample_controller) x)" for x
    by (simp add: c sample_reconciler_def sample_sha_hex)
  have o: "active_exists (rs_store ?rs)" "tables_agree ?rs" using sample_runtime_ok by (simp_all add: tables_agree_def)
  have st: "rs_store ?rs = empty_store" by (simp add: sample_runtime_def)
  show ?thesis
  proof (rule apply_files_ends [OF h o, of sample_clock "[]"], goal_cases)
    case (1 rs' r)
    note a = 1
    from a(5) have r: "r = Inr \<lparr>rr_generation = replicate 20 CHR ''a'', rr_previous = None, rr_changed = True,
        rr_applied = True, rr_diagnostic = None\<rparr>" unfolding st c rec by simp
    with a(6) [OF this] have "active_id (rs_store rs') = Some (replicate 20 CHR ''a'')"
      using sample_generation [of False] by (simp add: c)
    with ran(2) a(1) r show ?thesis
      by (intro that [of "rs'\<lparr>rs_leases := released\<rparr>"]) simp_all+
  qed
qed

theorem active_row_is_active_witness:
  "\<exists>rs. (controller_step sample_sha)\<^sup>*\<^sup>* sample_runtime rs \<and>
     map gn_generation (filter gn_is_active (rs_generations rs)) = [replicate 20 CHR ''a'']"
proof (rule sample_reconcile_files)
  fix rs result
  assume r: "reconcile_files sample_controller sample_clock [] sample_runtime = (rs, Inr result)"
    "active_id (rs_store rs) = Some (replicate 20 CHR ''a'')"
  have "controller_step sample_sha sample_runtime (fst (reconcile_files sample_controller sample_clock [] sample_runtime))"
    by (rule controller_step.reconcile) (simp add: sample_controller_def sample_reconciler_def)
  then have s: "(controller_step sample_sha)\<^sup>*\<^sup>* sample_runtime rs" using r by auto
  with active_row_is_active [OF sample_sha_hex sample_runtime_ok(1) s] r(2) show ?thesis by auto
qed

text \<open>C31. A reconciliation that returns records its outcome: the files' generation is the active one and its row
  holds the files, one attempt is added, and the lease is given back. The row names the previously active generation
  when something changed; reconciling the same files once more overwrites that name with nothing.\<close>

theorem reconcile_files_records:
  assumes "\<And>x. hex_digest (rc_sha256 (co_reconciler co) x)"
    and "active_exists (rs_store rs)" and "tables_agree rs"
    and "reconcile_files co clk files rs = (rs', Inr result)"
  shows "\<exists>g. generation_id (rc_sha256 (co_reconciler co)) files = Inr g \<and> active_id (rs_store rs') = Some g \<and>
    (\<exists>attempt. rs_attempts rs' = rs_attempts rs @ [attempt] \<and> at_status attempt = ''applied'' \<and>
       at_previous_generation attempt = active_id (rs_store rs)) \<and>
    (\<forall>row\<in>set (rs_generations rs'). gn_generation row = g \<longrightarrow> gn_files row = stored_files files \<and> gn_is_active row \<and>
       gn_previous_generation row = (if active_id (rs_store rs) = Some g then PNone else opt_str (active_id (rs_store rs)))) \<and>
    (\<forall>row\<in>set (rs_leases rs'). ls_name row \<noteq> ''nginx-reconcile'' \<or> ls_holder row \<noteq> co_holder co)"
proof (cases rule: reconcile_files_cases [where co = co and clk = clk and rs = rs and files = files])
  case (refused m)
  with assms(4) show ?thesis by simp
next
  case (ran leases released)
  let ?rs = "rs\<lparr>rs_leases := leases\<rparr>" and ?rc = "co_reconciler co"
  have ok: "active_exists (rs_store ?rs)" "tables_agree ?rs" using assms(2,3) by (simp_all add: tables_agree_def)
  show ?thesis
  proof (rule apply_files_ends [OF assms(1) ok, of clk files], goal_cases)
    case (1 rs1 r)
    note a = 1
    have r: "r = Inr result" and rs': "rs' = rs1\<lparr>rs_leases := released\<rparr>" using ran(2) a(1) assms(4) by auto
    have "generation_id (rc_sha256 ?rc) files \<noteq> Inl e" for e
    proof
      assume "generation_id (rc_sha256 ?rc) files = Inl e"
      then have "snd (reconcile ?rc files (rs_store ?rs)) = Inl e" by (simp add: reconcile_def)
      with a(5) r show False by simp
    qed
    then obtain g where g: "generation_id (rc_sha256 ?rc) files = Inr g" by (cases "generation_id (rc_sha256 ?rc) files") auto
    obtain st' where rec: "reconcile ?rc files (rs_store ?rs) = (st', Inr result)" using a(5) r by (metis prod.collapse)
    note e = reconcile_ends [OF assms(1) ok(1) g rec]
    note f = a(6) [OF r g]
    have act: "gn_is_active row" if "row \<in> set (rs_generations rs1)" "gn_generation row = g" for row
    proof -
      have names: "active_names (rs_generations rs1) = [g]" and u: "generations_ok (rs_generations rs1)"
        using a(2) f by (auto simp: tables_agree_def)
      then have "g \<in> gn_generation ` {x \<in> set (rs_generations rs1). gn_is_active x}"
        by (metis active_names_def list.set_intros(1) set_filter set_map)
      then obtain x where "x \<in> set (rs_generations rs1)" "gn_is_active x" "gn_generation x = g" by auto
      with that u have "x = row" unfolding generations_ok_def distinct_map by (metis inj_onD)
      with \<open>gn_is_active x\<close> show ?thesis by simp
    qed
    from f obtain i where i: "rs_attempts rs1 = rs_attempts rs @ [attempt_of ?rs i result]" by auto
    show ?thesis
    proof (intro exI [of _ g] conjI exI [of _ "attempt_of ?rs i result"] ballI impI)
      show "at_status (attempt_of ?rs i result) = ''applied''" "at_previous_generation (attempt_of ?rs i result) = active_id (rs_store rs)"
        using e by (auto simp: attempt_of_def)
      show "active_id (rs_store rs') = Some g" "rs_attempts rs' = rs_attempts rs @ [attempt_of ?rs i result]"
        using f i by (simp_all add: rs')
      fix row assume "row \<in> set (rs_generations rs')" "gn_generation row = g"
      then have row: "row \<in> set (rs_generations rs1)" "gn_generation row = g" by (simp_all add: rs')
      show "gn_files row = stored_files files" "gn_is_active row" using f row act by auto
      show "gn_previous_generation row = (if active_id (rs_store rs) = Some g then PNone else opt_str (active_id (rs_store rs)))"
        using f row by auto
    next
      fix row assume "row \<in> set (rs_leases rs')"
      then show "ls_name row \<noteq> ''nginx-reconcile'' \<or> ls_holder row \<noteq> co_holder co" using ran(3) by (auto simp: rs')
    qed (rule g)
  qed
qed

theorem reconcile_files_records_witness:
  "\<exists>rs result attempt. reconcile_files sample_controller sample_clock [] sample_runtime = (rs, Inr result) \<and>
     rs_attempts rs = [attempt] \<and> at_status attempt = ''applied''"
proof (rule sample_reconcile_files)
  fix rs result
  assume r: "reconcile_files sample_controller sample_clock [] sample_runtime = (rs, Inr result)"
  have h: "hex_digest (rc_sha256 (co_reconciler sample_controller) x)" for x
    by (simp add: sample_controller_def sample_reconciler_def sample_sha_hex)
  have "rs_attempts sample_runtime = []" by (simp add: sample_runtime_def)
  with reconcile_files_records [OF h sample_runtime_ok(2,3) r] r show ?thesis by auto
qed

lemma reconcile_stored:
  assumes "\<And>x. hex_digest (rc_sha256 rc x)" "active_exists st" "generation_id (rc_sha256 rc) files = Inr g"
    and "reconcile rc files st = (st', Inr result)" "tree_of files = Inr t"
    and "\<And>u. dict_get (generations st) g = Some u \<Longrightarrow> u = t"
  shows "dict_get (generations st') g = Some t"
proof -
  note d = reconcile_deploys [OF assms(1,2), of files]
  have g: "dict_get (generations st') = dp_generations (deploy (Inr g) (Inr t) True (deployed st))"
    using d assms(3,4,5) by (metis deployed_def deployment.select_convs(1) fst_conv snd_conv)
  show ?thesis
  proof (cases "active_id st = Some g")
    case True
    then obtain u where "dict_get (generations st) g = Some u" using assms(2) by (auto simp: active_exists_def dict_keys_get)
    with assms(6) True show ?thesis unfolding g by (simp add: deploy_def deployed_def)
  next
    case False
    then show ?thesis unfolding g
      using assms(6) by (cases "dict_get (generations st) g") (simp_all add: deploy_def deployed_def)
  qed
qed

text \<open>C20. What the tables describe is what is served: rendering never makes a file name that staging refuses or
  that hides another, so a reconciliation of the tables that returns leaves an active generation that holds, for every
  rendered file, its path with its contents, and nothing else (unless a stored generation with other files has the
  same digest).\<close>

theorem tables_served:
  assumes "\<And>x. hex_digest (rc_sha256 (co_reconciler co) x)"
    and "active_exists (rs_store rs)" and "tables_agree rs"
    and "render_tables (rs_routing rs) streams quic access = Inr files"
    and "\<And>g t. generation_id (rc_sha256 (co_reconciler co)) files = Inr g \<Longrightarrow>
       dict_get (generations (rs_store rs)) g = Some t \<Longrightarrow> tree_of files = Inr t"
    and "reconcile_tables co clk streams quic access rs = (rs', Inr result)"
  shows "\<exists>g t. active_id (rs_store rs') = Some g \<and> dict_get (generations (rs_store rs')) g = Some t \<and>
    (\<forall>(n, c)\<in>set files. dict_get t (path_parts n) = Some c) \<and> dict_keys t = path_parts ` dict_keys files"
proof -
  let ?rc = "co_reconciler co"
  have "tidy_files files"
    using assms(4) unfolding render_tables_def by (elim ebind_InrE) (rule render_tidy)
  then obtain t where t: "tree_of files = Inr t" "\<forall>(n, c)\<in>set files. dict_get t (path_parts n) = Some c"
    "dict_keys t = path_parts ` dict_keys files"
    using rendered_tree unfolding tidy_files_def by blast
  obtain g where g: "generation_id (rc_sha256 ?rc) files = Inr g"
    using generation_id_relative [of files] rendered_relative \<open>tidy_files files\<close>
    by (fastforce simp: tidy_files_def dict_keys_def)
  have f: "reconcile_files co clk files rs = (rs', Inr result)"
    using assms(6) by (simp add: reconcile_tables_def assms(4))
  show ?thesis
  proof (cases rule: reconcile_files_cases [where co = co and clk = clk and rs = rs and files = files])
    case (refused m)
    with f show ?thesis by simp
  next
    case (ran leases released)
    let ?rs = "rs\<lparr>rs_leases := leases\<rparr>"
    have ok: "active_exists (rs_store ?rs)" "tables_agree ?rs" using assms(2,3) by (simp_all add: tables_agree_def)
    show ?thesis
    proof (rule apply_files_ends [OF assms(1) ok, of clk files], goal_cases)
      case (1 rs1 r)
      have r: "r = Inr result" and rs': "rs' = rs1\<lparr>rs_leases := released\<rparr>" using ran(2) 1(1) f by auto
      obtain st' where rec: "reconcile ?rc files (rs_store ?rs) = (st', Inr result)" using 1(5) r by (metis prod.collapse)
      have "dict_get (generations st') g = Some t"
      proof (rule reconcile_stored [OF assms(1) ok(1) g rec t(1)])
        fix u assume "dict_get (generations (rs_store ?rs)) g = Some u"
        then have "tree_of files = Inr u" using assms(5) [OF g] by simp
        with t(1) show "u = t" by simp
      qed
      moreover have "active_id (rs_store rs1) = Some g" using 1(6) [OF r g] by blast
      ultimately show ?thesis using t(2,3) 1(4) rec by (auto simp: rs')
    qed
  qed
qed

lemma sample_accepts:
  assumes "generation_id sample_sha files = Inr g" "tree_of files = Inr t"
  shows "\<exists>rs result. reconcile_files sample_controller sample_clock files sample_runtime = (rs, Inr result)"
proof (cases rule: reconcile_files_cases [where co = sample_controller and clk = sample_clock and rs = sample_runtime and files = files])
  case (refused m)
  then show ?thesis by (simp add: lease_free_def sample_runtime_def)
next
  case (ran leases released)
  let ?rs = "sample_runtime\<lparr>rs_leases := leases\<rparr>" and ?rc = "sample_reconciler False"
  have c: "co_reconciler sample_controller = ?rc" "rc_sha256 ?rc = sample_sha"
    by (simp_all add: sample_controller_def sample_reconciler_def)
  have h: "hex_digest (rc_sha256 (co_reconciler sample_controller) x)" for x by (simp add: c sample_sha_hex)
  have ok: "active_exists (rs_store ?rs)" "tables_agree ?rs" using sample_runtime_ok by (simp_all add: tables_agree_def)
  have st: "rs_store ?rs = empty_store" by (simp add: sample_runtime_def)
  have "stored g files empty_store = Inr t" by (simp add: stored_def empty_store_def assms(2))
  moreover have "accepts ?rc g u" for u
    by (simp add: accepts_def validator_def reloader_def Let_def sample_reconciler_def hooks_validate_def run_command_def sample_runner_def)
  ultimately have "accepted ?rc files empty_store" by (simp add: accepted_def c assms(1))
  then have "\<exists>r. snd (reconcile ?rc files empty_store) = Inr r"
    using reconcile_deploys [of ?rc empty_store files] ok(1) st by (simp add: c sample_sha_hex)
  then obtain result where result: "snd (reconcile ?rc files empty_store) = Inr result" by blast
  show ?thesis
    by (rule apply_files_ends [OF h ok, of sample_clock files]) (use ran(2) result in \<open>simp add: c st\<close>)
qed

theorem tables_served_witness:
  "\<exists>rs result g t. reconcile_tables sample_controller sample_clock [] []
      \<lparr>adb_lists = [], adb_rules = [], adb_credentials = [], adb_principals = []\<rparr> sample_runtime = (rs, Inr result) \<and>
     active_id (rs_store rs) = Some g \<and> dict_get (generations (rs_store rs)) g = Some t \<and>
     dict_get t [''http'', ''status.conf''] = Some render_status_site"
proof -
  let ?access = "\<lparr>adb_lists = [], adb_rules = [], adb_credentials = [], adb_principals = []\<rparr>"
  let ?files = "base_files default_platform []"
  have r: "render_tables (rs_routing sample_runtime) [] [] ?access = Inr ?files"
    by (simp add: render_tables_def runtime_list_def stream_runtime_list_def quic_runtime_list_def access_runtime_list_def
        sample_runtime_def render_def Let_def default_platform_def)
  have tidy: "tidy_files ?files" by (rule tidy_base)
  then obtain t where t: "tree_of ?files = Inr t" using rendered_tree unfolding tidy_files_def by blast
  obtain g where g: "generation_id sample_sha ?files = Inr g"
    using generation_id_relative [of ?files] rendered_relative tidy by (fastforce simp: tidy_files_def dict_keys_def)
  obtain rs result where f: "reconcile_files sample_controller sample_clock ?files sample_runtime = (rs, Inr result)"
    using sample_accepts [OF g t] by blast
  have rt: "reconcile_tables sample_controller sample_clock [] [] ?access sample_runtime = (rs, Inr result)"
    by (simp add: reconcile_tables_def r f)
  have h: "hex_digest (rc_sha256 (co_reconciler sample_controller) x)" for x
    by (simp add: sample_controller_def sample_reconciler_def sample_sha_hex)
  have "generations (rs_store sample_runtime) = []" by (simp add: sample_runtime_def empty_store_def)
  then obtain g t where t: "active_id (rs_store rs) = Some g" "dict_get (generations (rs_store rs)) g = Some t"
      "\<forall>(n, c)\<in>set ?files. dict_get t (path_parts n) = Some c"
    using tables_served [OF h sample_runtime_ok(2,3) r _ rt] by auto
  moreover have "(''http/status.conf'', render_status_site) \<in> set ?files" by (simp add: base_files_def)
  moreover have "path_parts ''http/status.conf'' = [''http'', ''status.conf'']" by code_simp
  ultimately have "dict_get t [''http'', ''status.conf''] = Some render_status_site" by fastforce
  with rt t show ?thesis by blast
qed

end
