(* ===== verification/Identity.thy ===== *)
theory Identity
  imports Py_Value
begin

text \<open>
  Who may do what: \<open>identity/permissions.py\<close> and \<open>identity/token_policy.py\<close> (permission levels, token scopes and
  the authority a token has), \<open>tables/identities.py\<close> with \<open>tables/rbac.py\<close> (principals, their roles and stored
  permissions) and \<open>tables/credentials.py\<close> (passwords). Argon2 is a parameter: \<open>hash\<close> gives a digest and
  \<open>check\<close> compares one with a secret. A frozen set of scopes is a list whose order does not matter.
\<close>

section \<open>Permission levels\<close>

fun permission_allows :: "pyval \<Rightarrow> string \<Rightarrow> bool" where
  "permission_allows (PStr grant) action = (if grant = ''manage'' then True else if grant = ''view'' then action = ''read'' else False)"
| "permission_allows (PDict grant) action = (dict_get grant action = Some (PBool True))"
| "permission_allows _ action = False"

definition permission_actions :: "string list" where
  "permission_actions = [''create'', ''read'', ''update'', ''delete'']"

section \<open>Token scopes\<close>

definition token_scope_sections :: "string list" where
  "token_scope_sections = [''proxy_hosts'', ''redirection_hosts'', ''dead_hosts'', ''streams'', ''access_lists'', ''certificates'']"

definition full_account_scope :: string where
  "full_account_scope = ''user''"

text \<open>\<open>s.partition(c)\<close>: the parts before and after the first occurrence, or no occurrence.\<close>

fun partition_at :: "char \<Rightarrow> string \<Rightarrow> (string \<times> string) option" where
  "partition_at d [] = None"
| "partition_at d (c # s) =
     (if c = d then Some ([], s) else map_option (\<lambda>(a, b). (c # a, b)) (partition_at d s))"

definition normal_scope :: "string \<Rightarrow> string" where
  "normal_scope scope = replace_char CHR ''-'' ''_'' (casefold (strip scope))"

definition parse_scope :: "string \<Rightarrow> py_error + string \<times> string" where
  "parse_scope scope =
     (case partition_at CHR '':'' (normal_scope scope) of
        None \<Rightarrow> Inl (ValueError ''invalid token scopes'')
      | Some (section, action) \<Rightarrow>
          if section \<notin> set token_scope_sections \<or> action \<notin> set permission_actions
          then Inl (ValueError ''invalid token scopes'') else Inr (section, action))"

definition normalize_token_scopes :: "pyval \<Rightarrow> py_error + string list" where
  "normalize_token_scopes scopes =
     (case as_list scopes of
        None \<Rightarrow> Inl (ValueError ''invalid token scopes'')
      | Some items \<Rightarrow>
          let normalized = remdups (map (\<lambda>s. normal_scope (py_str s)) items) in
          if normalized = [] \<or> [] \<in> set normalized then Inl (ValueError ''select at least one access scope'')
          else if normalized = [full_account_scope] then Inr normalized
          else
            let resource_scopes = filter (\<lambda>s. s \<noteq> full_account_scope) normalized in
            if resource_scopes = [] then Inl (ValueError ''select at least one access scope'')
            else ebind (emap parse_scope resource_scopes) (\<lambda>_. Inr (resource_scopes @ [full_account_scope])))"

text \<open>The scope matcher of the identity contract: all required scopes, or any of them.\<close>

record scope_match =
  sm_allowed :: bool
  sm_granted :: "string list"
  sm_required :: "string list"
  sm_missing :: "string list"

definition scope_match_of :: "string list \<Rightarrow> string list \<Rightarrow> string \<Rightarrow> py_error + scope_match" where
  "scope_match_of granted required mode =
     (let granted = remdups granted; required = remdups required in
      if mode \<noteq> ''all'' \<and> mode \<noteq> ''any'' then Inl (ValueError ''unsupported scope matching mode'')
      else
        let missing = filter (\<lambda>s. s \<notin> set granted) required;
            allowed = (if mode = ''all'' then missing = [] else set required \<inter> set granted \<noteq> {}) in
        Inr \<lparr>sm_allowed = (if required = [] then True else allowed), sm_granted = granted, sm_required = required,
          sm_missing = missing\<rparr>)"

definition scope_granted :: "payload \<Rightarrow> bool \<Rightarrow> string \<Rightarrow> py_error + bool" where
  "scope_granted permissions is_admin scope =
     ebind (parse_scope scope) (\<lambda>(section, action). Inr (is_admin \<or> permission_allows (pget section permissions) action))"

definition validate_requested_scopes :: "pyval \<Rightarrow> payload \<Rightarrow> bool \<Rightarrow> py_error + string list" where
  "validate_requested_scopes scopes permissions is_admin =
     ebind (normalize_token_scopes scopes) (\<lambda>normalized.
       if normalized = [full_account_scope] then Inr normalized
       else
         let required = sort (filter (\<lambda>s. s \<noteq> full_account_scope) normalized) in
         ebind (efold (\<lambda>scope granted. ebind (scope_granted permissions is_admin scope) (\<lambda>ok.
                  Inr (if ok then granted @ [scope] else granted))) required []) (\<lambda>granted.
         ebind (scope_match_of granted required ''all'') (\<lambda>match.
           if sm_allowed match then Inr normalized
           else Inl (ValueError (''scope exceeds account permission: '' @ hd (sm_missing match))))))"

type_synonym grants = "(string, (string, bool) dict) dict"

text \<open>\<open>d.setdefault(section, {})[action] = value\<close>.\<close>

definition grant_set :: "string \<Rightarrow> string \<Rightarrow> bool \<Rightarrow> grants \<Rightarrow> grants" where
  "grant_set section action v d = dict_set section (dict_set action v (dict_get_or d section [])) d"

definition grants_payload :: "grants \<Rightarrow> payload" where
  "grants_payload d = map (\<lambda>(section, actions). (section, PDict (map (\<lambda>(a, v). (a, PBool v)) actions))) d"

definition permissions_from_scopes :: "pyval \<Rightarrow> py_error + grants" where
  "permissions_from_scopes scopes =
     ebind (normalize_token_scopes scopes) (\<lambda>normalized.
       efold (\<lambda>scope d. ebind (parse_scope scope) (\<lambda>(section, action). Inr (grant_set section action True d)))
         (filter (\<lambda>s. s \<noteq> full_account_scope) normalized) [])"

definition effective_step :: "payload \<Rightarrow> bool \<Rightarrow> string \<Rightarrow> grants \<Rightarrow> py_error + grants" where
  "effective_step permissions is_admin scope effective =
     ebind (parse_scope scope) (\<lambda>(section, action).
     let principal_granted = is_admin \<or> permission_allows (pget section permissions) action in
     ebind (scope_match_of (if principal_granted then [scope] else []) [scope] ''all'') (\<lambda>match.
       Inr (if sm_allowed match then grant_set section action True effective else effective)))"

definition effective_token_authority :: "pyval \<Rightarrow> payload \<Rightarrow> bool \<Rightarrow> py_error + payload \<times> bool \<times> string list" where
  "effective_token_authority scopes permissions is_admin =
     ebind (normalize_token_scopes scopes) (\<lambda>normalized.
       if normalized = [full_account_scope] then Inr (permissions, is_admin, normalized)
       else ebind (efold (effective_step permissions is_admin) (filter (\<lambda>s. s \<noteq> full_account_scope) normalized) []) (\<lambda>effective.
         Inr (grants_payload effective, False, normalized)))"

section \<open>The authenticated principal\<close>

record security_principal =
  sp_user_id :: int
  sp_identity :: string
  sp_display_name :: string
  sp_is_admin :: bool
  sp_must_change_password :: bool
  sp_permissions :: payload
  sp_visibility :: string
  sp_scopes :: "string list"
  sp_owner :: pyval

definition may :: "security_principal \<Rightarrow> string \<Rightarrow> bool \<Rightarrow> string \<Rightarrow> bool" where
  "may p section write action =
     (if sp_is_admin p then True
      else
        let requested = (if action \<noteq> [] then action else if write then ''update'' else ''read'');
            normalized = replace_char CHR ''-'' ''_'' section in
        permission_allows (dict_get_or (sp_permissions p) normalized (PStr ''hidden'')) requested)"

definition may_manage_foreign_tokens :: "security_principal \<Rightarrow> string \<Rightarrow> bool" where
  "may_manage_foreign_tokens p action \<longleftrightarrow> sp_is_admin p \<or> may p ''access_tokens'' False action"

section \<open>Principals, roles and stored permissions\<close>

record principal_row =
  pc_id :: int
  pc_email :: string
  pc_display_name :: string
  pc_nickname :: string
  pc_is_admin :: bool
  pc_must_change_password :: bool
  pc_is_disabled :: bool
  pc_is_deleted :: bool
  pc_visibility :: string
  pc_metadata :: payload

record credential_row =
  cr_principal_id :: int
  cr_password_hash :: string
  cr_password_version :: int

record role_row =
  ro_id :: int
  ro_name :: string
  ro_description :: string
  ro_is_system :: bool

record permission_row =
  pm_id :: int
  pm_key :: string
  pm_section :: string
  pm_action :: string

record principal_permission_row =
  pp_principal_id :: int
  pp_permission_id :: int
  pp_effect :: string

record identity_db =
  idb_principals :: "principal_row list"
  idb_credentials :: "credential_row list"
  idb_roles :: "role_row list"
  idb_permissions :: "permission_row list"
  idb_principal_roles :: "(int \<times> int) list"
  idb_role_permissions :: "(int \<times> int) list"
  idb_principal_permissions :: "principal_permission_row list"

definition find_principal :: "identity_db \<Rightarrow> int \<Rightarrow> principal_row option" where
  "find_principal db i = find (\<lambda>r. pc_id r = i) (idb_principals db)"

definition role_names :: "pyval \<Rightarrow> bool \<Rightarrow> py_error + string list" where
  "role_names value is_admin =
     ebind (py_iter (py_or value (PList []))) (\<lambda>items.
       Inr (sort (remdups (map (\<lambda>i. casefold (strip (py_str i))) (filter (\<lambda>i. strip (py_str i) \<noteq> []) items) @
         (if is_admin then [''admin''] else [])))))"

definition grant_effects :: "string \<Rightarrow> pyval \<Rightarrow> (string, string) dict \<Rightarrow> (string, string) dict" where
  "grant_effects section grant effects =
     (case grant of
        PDict actions \<Rightarrow>
          fold (\<lambda>(action, allowed). dict_set (section @ ''.'' @ strip action) (if truthy allowed then ''allow'' else ''deny'')) actions effects
      | _ \<Rightarrow>
          let level = casefold (strip (py_str grant)) in
          if level = ''manage'' \<or> level = ''view'' then dict_set (section @ ''.'' @ level) ''allow'' effects
          else if level = ''hidden'' then dict_set (section @ ''.view'') ''deny'' effects
          else effects)"

definition permission_effects :: "pyval \<Rightarrow> (string, string) dict" where
  "permission_effects value =
     (case value of
        PDict d \<Rightarrow> fold (\<lambda>(section, grant) effects. if strip section = [] then effects else grant_effects (strip section) grant effects) d []
      | _ \<Rightarrow> [])"

definition permission_projection :: "(string, string) dict \<Rightarrow> grants" where
  "permission_projection effects =
     fold (\<lambda>(key, effect) projected.
       case partition_at CHR ''.'' key of
         Some (section, action) \<Rightarrow> if action \<noteq> [] then grant_set section action (effect = ''allow'') projected else projected
       | None \<Rightarrow> projected) effects []"

text \<open>Authorization is replaced as a whole; roles and permissions that do not exist yet are added.\<close>

definition add_role :: "int \<Rightarrow> string \<Rightarrow> identity_db \<Rightarrow> identity_db" where
  "add_role i name db =
     (let (db, role) =
        (case find (\<lambda>r. ro_name r = name) (idb_roles db) of
           Some r \<Rightarrow> (db, ro_id r)
         | None \<Rightarrow>
             let r = \<lparr>ro_id = next_id ro_id (idb_roles db), ro_name = name,
                   ro_description = (if name = ''admin'' then ''Portwyrm administrator'' else []),
                   ro_is_system = (name = ''admin'')\<rparr> in
             (db\<lparr>idb_roles := idb_roles db @ [r]\<rparr>, ro_id r)) in
      db\<lparr>idb_principal_roles := idb_principal_roles db @ [(i, role)]\<rparr>)"

definition add_permission :: "int \<Rightarrow> string \<times> string \<Rightarrow> identity_db \<Rightarrow> identity_db" where
  "add_permission i = (\<lambda>(key, effect) db.
     let (section, action) = (case partition_at CHR ''.'' key of Some p \<Rightarrow> p | None \<Rightarrow> (key, []));
         (db, permission) =
        (case find (\<lambda>r. pm_key r = key) (idb_permissions db) of
           Some r \<Rightarrow> (db, pm_id r)
         | None \<Rightarrow>
             let r = \<lparr>pm_id = next_id pm_id (idb_permissions db), pm_key = key, pm_section = section,
                   pm_action = (if action = [] then ''manage'' else action)\<rparr> in
             (db\<lparr>idb_permissions := idb_permissions db @ [r]\<rparr>, pm_id r)) in
      db\<lparr>idb_principal_permissions := idb_principal_permissions db @
        [\<lparr>pp_principal_id = i, pp_permission_id = permission, pp_effect = effect\<rparr>]\<rparr>)"

definition replace_authorization :: "principal_row \<Rightarrow> payload \<Rightarrow> identity_db \<Rightarrow> py_error + identity_db" where
  "replace_authorization row p db =
     (let i = pc_id row;
          db = db\<lparr>idb_principal_roles := filter (\<lambda>e. fst e \<noteq> i) (idb_principal_roles db),
                 idb_principal_permissions := filter (\<lambda>r. pp_principal_id r \<noteq> i) (idb_principal_permissions db)\<rparr> in
      ebind (role_names (pget ''roles'' p) (pc_is_admin row)) (\<lambda>names.
        Inr (fold (add_permission i) (permission_effects (pget ''permissions'' p)) (fold (add_role i) names db))))"

text \<open>Direct grants come first; a permission of a role counts only where there is no direct one.\<close>

definition roles_of :: "identity_db \<Rightarrow> int \<Rightarrow> role_row list" where
  "roles_of db i = concat (map (\<lambda>e. filter (\<lambda>r. ro_id r = snd e) (idb_roles db)) (filter (\<lambda>e. fst e = i) (idb_principal_roles db)))"

definition direct_grants :: "identity_db \<Rightarrow> int \<Rightarrow> (string, string) dict" where
  "direct_grants db i =
     fold (\<lambda>e g. fold (\<lambda>r. dict_set (pm_key r) (pp_effect e)) (filter (\<lambda>r. pm_id r = pp_permission_id e) (idb_permissions db)) g)
       (filter (\<lambda>e. pp_principal_id e = i) (idb_principal_permissions db)) []"

definition inherited_keys :: "identity_db \<Rightarrow> role_row list \<Rightarrow> string list" where
  "inherited_keys db roles =
     concat (map (\<lambda>e. map pm_key (filter (\<lambda>r. pm_id r = snd e) (idb_permissions db)))
       (filter (\<lambda>e. fst e \<in> ro_id ` set roles) (idb_role_permissions db)))"

definition authorization :: "identity_db \<Rightarrow> int \<Rightarrow> string list \<times> payload" where
  "authorization db i =
     (let roles = roles_of db i;
          grants = fold (\<lambda>key. dict_setdefault key ''allow'') (inherited_keys db roles) (direct_grants db i) in
      (map ro_name roles, grants_payload (permission_projection grants)))"

definition text_field :: "string \<Rightarrow> payload \<Rightarrow> string" where
  "text_field key p = py_str (py_or (pget key p) (PStr []))"

definition principal_of_payload :: "payload \<Rightarrow> py_error + int" where
  "principal_of_payload p = ebind (note_none (KeyError ''principal_id'') (dict_get p ''principal_id'')) py_int"

definition email_of :: "payload \<Rightarrow> string" where
  "email_of p = casefold (strip (text_field ''email'' p))"

definition register :: "(string \<Rightarrow> string) \<Rightarrow> payload \<Rightarrow> identity_db \<Rightarrow> py_error + identity_db \<times> principal_row" where
  "register hash p db =
     (let email = email_of p; password = text_field ''password'' p in
      if email = [] \<or> CHR ''@'' \<notin> set email then Inl (ValueError ''a valid email is required'')
      else if length password < 8 then Inl (ValueError ''password must contain at least 8 characters'')
      else if (\<exists>r\<in>set (idb_principals db). pc_email r = email) then Inl (ValueError ''email is already registered'')
      else
        ebind (dict_or_empty (pget ''metadata_json'' p)) (\<lambda>metadata.
        let row = \<lparr>pc_id = next_id pc_id (idb_principals db), pc_email = email, pc_display_name = text_field ''display_name'' p,
              pc_nickname = text_field ''nickname'' p, pc_is_admin = truthy (pget ''is_admin'' p),
              pc_must_change_password = truthy (pget ''must_change_password'' p), pc_is_disabled = False,
              pc_is_deleted = False, pc_visibility = (if truthy (pget ''is_admin'' p) then ''all'' else ''user''),
              pc_metadata = metadata\<rparr>;
            credential = \<lparr>cr_principal_id = pc_id row, cr_password_hash = hash password, cr_password_version = 1\<rparr>;
            db = db\<lparr>idb_principals := idb_principals db @ [row], idb_credentials := idb_credentials db @ [credential]\<rparr> in
        ebind (replace_authorization row p db) (\<lambda>db. Inr (db, row))))"

definition no_principal :: "int \<Rightarrow> py_error" where
  "no_principal i = ValueError (''principal does not exist: '' @ int_str i)"

definition set_authorization :: "payload \<Rightarrow> identity_db \<Rightarrow> py_error + identity_db \<times> (string list \<times> payload)" where
  "set_authorization p db =
     ebind (principal_of_payload p) (\<lambda>i.
     ebind (note_none (no_principal i) (find_principal db i)) (\<lambda>row.
     ebind (replace_authorization row p db) (\<lambda>db. Inr (db, authorization db i))))"

text \<open>The unique constraint on the e-mail address is the database's check of an update.\<close>

definition update_identity :: "payload \<Rightarrow> identity_db \<Rightarrow> py_error + identity_db \<times> principal_row" where
  "update_identity p db =
     ebind (principal_of_payload p) (\<lambda>i.
     ebind (note_none (no_principal i) (find_principal db i)) (\<lambda>row.
     ebind (required_text ''email'' p) (\<lambda>email.
     ebind (dict_or_empty (pget ''metadata_json'' p)) (\<lambda>metadata.
     let visibility = text_field ''visibility'' p;
         row = row\<lparr>pc_email := casefold (strip email), pc_display_name := text_field ''display_name'' p,
           pc_nickname := text_field ''nickname'' p, pc_is_admin := truthy (pget ''is_admin'' p),
           pc_is_disabled := truthy (pget ''is_disabled'' p), pc_is_deleted := truthy (pget ''is_deleted'' p),
           pc_visibility := (if visibility = [] then ''user'' else visibility), pc_metadata := metadata\<rparr> in
     ebind (ensure (\<forall>r\<in>set (idb_principals db). pc_id r \<noteq> i \<longrightarrow> pc_email r \<noteq> pc_email row)
             (RuntimeError ''UNIQUE constraint failed: principals.email'')) (\<lambda>_.
     ebind (replace_authorization row p (db\<lparr>idb_principals := update_where (\<lambda>r. pc_id r = i) (\<lambda>_. row) (idb_principals db)\<rparr>))
       (\<lambda>db. Inr (db, row)))))))"

text \<open>\<open>resolve\<close>: the current identity and authorization behind a token.\<close>

definition resolve :: "int \<Rightarrow> string list \<Rightarrow> pyval \<Rightarrow> identity_db \<Rightarrow> py_error + security_principal" where
  "resolve i scopes owner db =
     (case find_principal db i of
        None \<Rightarrow> Inl (ValueError ''principal is unavailable'')
      | Some row \<Rightarrow>
          if pc_is_disabled row \<or> pc_is_deleted row then Inl (ValueError ''principal is unavailable'')
          else Inr \<lparr>sp_user_id = pc_id row, sp_identity = pc_email row, sp_display_name = pc_display_name row,
            sp_is_admin = pc_is_admin row, sp_must_change_password = pc_must_change_password row,
            sp_permissions = snd (authorization db i), sp_visibility = (if pc_visibility row = ''all'' then ''all'' else ''user''),
            sp_scopes = (if scopes = [] then [''user''] else scopes), sp_owner = owner\<rparr>)"

section \<open>Passwords\<close>

definition credential_of :: "identity_db \<Rightarrow> int \<Rightarrow> credential_row option" where
  "credential_of db i = find (\<lambda>r. cr_principal_id r = i) (idb_credentials db)"

definition authenticate :: "(string \<Rightarrow> string \<Rightarrow> bool) \<Rightarrow> payload \<Rightarrow> identity_db \<Rightarrow> py_error + principal_row \<times> (string list \<times> payload)" where
  "authenticate check p db =
     (let row = find (\<lambda>r. pc_email r = email_of p) (idb_principals db);
          credential = Option.bind row (\<lambda>r. credential_of db (pc_id r));
          digest = (case credential of Some c \<Rightarrow> cr_password_hash c | None \<Rightarrow> ''invalid'');
          valid = check digest (text_field ''password'' p) in
      case (row, credential) of
        (Some r, Some c) \<Rightarrow>
          if \<not> valid \<or> pc_is_disabled r \<or> pc_is_deleted r then Inl (ValueError ''invalid credentials'')
          else Inr (r, authorization db (pc_id r))
      | _ \<Rightarrow> Inl (ValueError ''invalid credentials''))"

definition replace_password :: "(string \<Rightarrow> string) \<Rightarrow> int \<Rightarrow> string \<Rightarrow> identity_db \<Rightarrow> py_error + identity_db" where
  "replace_password hash i password db =
     (if length password < 8 then Inl (ValueError ''password must contain at least 8 characters'')
      else Inr (db\<lparr>idb_credentials := update_where (\<lambda>r. cr_principal_id r = i)
             (\<lambda>r. r\<lparr>cr_password_hash := hash password, cr_password_version := cr_password_version r + 1\<rparr>) (idb_credentials db)\<rparr>))"

text \<open>The hooks after the two operations set whether the next password must be changed.\<close>

definition set_must_change :: "int \<Rightarrow> bool \<Rightarrow> identity_db \<Rightarrow> identity_db" where
  "set_must_change i b db =
     db\<lparr>idb_principals := update_where (\<lambda>r. pc_id r = i) (\<lambda>r. r\<lparr>pc_must_change_password := b\<rparr>) (idb_principals db)\<rparr>"

definition change_password :: "(string \<Rightarrow> string) \<Rightarrow> (string \<Rightarrow> string \<Rightarrow> bool) \<Rightarrow> payload \<Rightarrow> identity_db \<Rightarrow> py_error + identity_db" where
  "change_password hash check p db =
     ebind (principal_of_payload p) (\<lambda>i.
     let old = text_field ''old_password'' p; new = text_field ''new_password'' p in
     ebind (ensure (case credential_of db i of None \<Rightarrow> False | Some c \<Rightarrow> check (cr_password_hash c) old)
             (ValueError ''current password is invalid'')) (\<lambda>_.
     ebind (ensure (new \<noteq> old) (ValueError ''new password must differ from the current password'')) (\<lambda>_.
     ebind (replace_password hash i new db) (\<lambda>db. Inr (set_must_change i False db)))))"

definition set_password :: "(string \<Rightarrow> string) \<Rightarrow> payload \<Rightarrow> identity_db \<Rightarrow> py_error + identity_db" where
  "set_password hash p db =
     ebind (principal_of_payload p) (\<lambda>i.
     ebind (note_none (ValueError ''principal credential does not exist'') (credential_of db i)) (\<lambda>_.
     ebind (replace_password hash i (text_field ''new_password'' p) db) (\<lambda>db. Inr (set_must_change i True db))))"

section \<open>Laws of scopes\<close>

lemma partition_at_Some: "partition_at d s = Some (a, b) \<longleftrightarrow> s = a @ d # b \<and> d \<notin> set a"
proof (induction s arbitrary: a)
  case (Cons c s)
  show ?case
    by (cases "c = d"; cases a) (auto simp: Cons.IH)
qed simp

lemma partition_at_None: "partition_at d s = None \<longleftrightarrow> d \<notin> set s"
  by (induction s) auto

lemma grant_set_get [simp]:
  "dict_get (dict_get_or (grant_set s a v d) s' []) a' =
     (if s' = s \<and> a' = a then Some v else dict_get (dict_get_or d s' []) a')"
  by (simp add: grant_set_def)

lemma grants_payload_get: "pget s (grants_payload d) = (case dict_get d s of None \<Rightarrow> PNone | Some g \<Rightarrow> PDict (map (\<lambda>(a, v). (a, PBool v)) g))"
proof -
  have "dict_get (grants_payload d) s = map_option (\<lambda>g. PDict (map (\<lambda>(a, v). (a, PBool v)) g)) (dict_get d s)"
    unfolding grants_payload_def by (induction d) auto
  then show ?thesis by (simp add: pget_def dict_get_or_def split: option.split)
qed

lemma grants_allow: "permission_allows (pget s (grants_payload d)) a \<longleftrightarrow> dict_get (dict_get_or d s []) a = Some True"
proof -
  have "dict_get (map (\<lambda>(a, v). (a, PBool v)) g) a = map_option PBool (dict_get g a)" for g by (induction g) auto
  then show ?thesis by (simp add: grants_payload_get dict_get_or_def split: option.split) auto
qed

lemma effective_step_Inr:
  "effective_step permissions adm scope d = Inr d' \<longleftrightarrow>
     (\<exists>s a. parse_scope scope = Inr (s, a) \<and>
        d' = (if adm \<or> permission_allows (pget s permissions) a then grant_set s a True d else d))"
proof (cases "parse_scope scope")
  case (Inr x)
  obtain s a where x: "x = (s, a)" by (cases x)
  show ?thesis unfolding Inr x
    by (cases "adm \<or> permission_allows (pget s permissions) a") (auto simp: effective_step_def scope_match_of_def Let_def Inr x)
qed (simp add: effective_step_def)

lemma effective_steps:
  assumes "efold (effective_step permissions adm) scopes d = Inr d'"
  shows "dict_get (dict_get_or d' s []) a = Some True \<longleftrightarrow>
    dict_get (dict_get_or d s []) a = Some True \<or>
    (\<exists>scope\<in>set scopes. parse_scope scope = Inr (s, a)) \<and> (adm \<or> permission_allows (pget s permissions) a)"
  using assms
proof (induction scopes arbitrary: d)
  case (Cons scope scopes)
  then obtain d1 where d1: "effective_step permissions adm scope d = Inr d1"
    and r: "efold (effective_step permissions adm) scopes d1 = Inr d'" by (auto simp: result_simps)
  from d1 obtain s' a' where p: "parse_scope scope = Inr (s', a')"
    and d1: "d1 = (if adm \<or> permission_allows (pget s' permissions) a' then grant_set s' a' True d else d)"
    by (auto simp: effective_step_Inr)
  show ?case unfolding Cons.IH [OF r] by (auto simp: d1 p)
qed simp

lemma user_not_scope: "parse_scope full_account_scope = Inl (ValueError ''invalid token scopes'')"
  by code_simp

lemma token_authority_law:
  assumes "effective_token_authority scopes permissions adm = Inr (effective, adm', normalized)"
  shows "(normalized = [full_account_scope] \<longrightarrow> effective = permissions \<and> adm' = adm) \<and>
    (normalized \<noteq> [full_account_scope] \<longrightarrow> \<not> adm' \<and>
      (\<forall>s a. permission_allows (pget s effective) a \<longleftrightarrow>
        (\<exists>scope\<in>set normalized. parse_scope scope = Inr (s, a)) \<and> (adm \<or> permission_allows (pget s permissions) a)))"
proof (cases "normalized = [full_account_scope]")
  case True
  with assms show ?thesis
    by (auto simp: effective_token_authority_def result_simps split: if_splits)
next
  case False
  from assms obtain n where n: "normalize_token_scopes scopes = Inr n" by (auto simp: effective_token_authority_def result_simps)
  with assms False obtain e where e: "efold (effective_step permissions adm) (filter (\<lambda>s. s \<noteq> full_account_scope) n) [] = Inr e"
    and r: "effective = grants_payload e" "adm' = False" "normalized = n"
    by (auto simp: effective_token_authority_def result_simps split: if_splits)
  have "permission_allows (pget s effective) a \<longleftrightarrow>
        (\<exists>scope\<in>set normalized. parse_scope scope = Inr (s, a)) \<and> (adm \<or> permission_allows (pget s permissions) a)" for s a
    unfolding r(1) grants_allow effective_steps [OF e] using user_not_scope by (auto simp: r(3))
  with False r(2) show ?thesis by simp
qed

lemma token_authority_bound:
  assumes "effective_token_authority scopes permissions adm = Inr (effective, adm', normalized)"
  shows "adm' \<longrightarrow> adm" "permission_allows (pget s effective) a \<longrightarrow> adm \<or> permission_allows (pget s permissions) a"
  using token_authority_law [OF assms] by (cases "normalized = [full_account_scope]"; auto)+

section \<open>Properties of token authority\<close>

text \<open>C21. A token never has more than its principal and never more than its scopes. The full-account scope alone
  keeps the principal's authority; any other token is no administrator, and it may do exactly those actions that one
  of its scopes names and that its principal may do.\<close>

theorem token_authority_exact:
  assumes "effective_token_authority scopes permissions adm = Inr (effective, adm', normalized)"
  shows "(normalized = [full_account_scope] \<longrightarrow> effective = permissions \<and> adm' = adm) \<and>
    (normalized \<noteq> [full_account_scope] \<longrightarrow> \<not> adm' \<and>
      (\<forall>s a. permission_allows (pget s effective) a \<longleftrightarrow>
        (\<exists>scope\<in>set normalized. parse_scope scope = Inr (s, a)) \<and> (adm \<or> permission_allows (pget s permissions) a)))"
  by (rule token_authority_law [OF assms])

theorem token_authority_exact_witness:
  "\<exists>effective normalized. effective_token_authority (PList [PStr ''proxy-hosts:read'', PStr ''streams:delete''])
       [(''proxy_hosts'', PStr ''manage''), (''streams'', PStr ''view'')] False = Inr (effective, False, normalized) \<and>
     permission_allows (pget ''proxy_hosts'' effective) ''read'' \<and> \<not> permission_allows (pget ''proxy_hosts'' effective) ''update'' \<and>
     \<not> permission_allows (pget ''streams'' effective) ''delete''"
proof -
  let ?p = "[(''proxy_hosts'', PStr ''manage''), (''streams'', PStr ''view'')]"
  have n: "normalize_token_scopes (PList [PStr ''proxy-hosts:read'', PStr ''streams:delete'']) =
      Inr [''proxy_hosts:read'', ''streams:delete'', ''user'']"
    and s: "parse_scope ''proxy_hosts:read'' = Inr (''proxy_hosts'', ''read'')" "parse_scope ''streams:delete'' = Inr (''streams'', ''delete'')"
    by code_simp+
  have u: "parse_scope ''user'' = Inl (ValueError ''invalid token scopes'')" using user_not_scope by (simp add: full_account_scope_def)
  obtain effective where e: "effective_token_authority (PList [PStr ''proxy-hosts:read'', PStr ''streams:delete'']) ?p False =
      Inr (effective, False, [''proxy_hosts:read'', ''streams:delete'', ''user''])"
    by (simp add: effective_token_authority_def n full_account_scope_def effective_step_def scope_match_of_def s Let_def)
  show ?thesis
    using token_authority_exact [OF e] e by (simp add: full_account_scope_def s u pget_def dict_get_or_def)
qed

section \<open>Laws of stored permissions\<close>

definition permission_key :: "string \<Rightarrow> string \<Rightarrow> string" where
  "permission_key section action = section @ ''.'' @ action"

definition clean_section :: "string \<Rightarrow> bool" where
  "clean_section s \<longleftrightarrow> strip s = s \<and> s \<noteq> [] \<and> CHR ''.'' \<notin> set s"

text \<open>Grants as the user interface sends them: a level, or a truth value for each action.\<close>

definition clean_permissions :: "payload \<Rightarrow> bool" where
  "clean_permissions d \<longleftrightarrow> dict_ok d \<and> (\<forall>(s, g)\<in>set d. clean_section s \<and>
     (case g of PDict acts \<Rightarrow> dict_ok acts \<and> (\<forall>(a, v)\<in>set acts. strip a = a \<and> a \<noteq> []) | PStr _ \<Rightarrow> True | _ \<Rightarrow> False))"

lemma permission_key_inj:
  assumes "CHR ''.'' \<notin> set s" "CHR ''.'' \<notin> set s'"
  shows "permission_key s a = permission_key s' a' \<longleftrightarrow> s = s' \<and> a = a'"
proof
  assume "permission_key s a = permission_key s' a'"
  moreover have "partition_at CHR ''.'' (permission_key s a) = Some (s, a)" "partition_at CHR ''.'' (permission_key s' a') = Some (s', a')"
    using assms unfolding permission_key_def partition_at_Some by simp_all
  ultimately show "s = s' \<and> a = a'" by (metis option.inject prod.inject)
qed simp

lemma permission_key_partition: "CHR ''.'' \<notin> set s \<Longrightarrow> partition_at CHR ''.'' (permission_key s a) = Some (s, a)"
  by (simp add: partition_at_Some permission_key_def)

text \<open>What one stored grant says of an action.\<close>

definition grant_effect :: "pyval \<Rightarrow> string \<Rightarrow> string option" where
  "grant_effect g a =
     (case g of
        PDict acts \<Rightarrow> map_option (\<lambda>v. if truthy v then ''allow'' else ''deny'') (dict_get acts a)
      | _ \<Rightarrow>
          let level = casefold (strip (py_str g)) in
          if level = ''manage'' \<or> level = ''view'' then (if a = level then Some ''allow'' else None)
          else if level = ''hidden'' \<and> a = ''view'' then Some ''deny'' else None)"

definition dotted :: "(string, string) dict \<Rightarrow> bool" where
  "dotted eff \<longleftrightarrow> dict_ok eff \<and> (\<forall>k\<in>dict_keys eff. \<exists>s a. clean_section s \<and> a \<noteq> [] \<and> k = permission_key s a)"

lemma action_effects:
  assumes "dict_ok acts" "\<forall>(a, v)\<in>set acts. strip a = a \<and> a \<noteq> []" "CHR ''.'' \<notin> set s" "CHR ''.'' \<notin> set s'"
  shows "dict_get (fold (\<lambda>(action, allowed). dict_set (s @ ''.'' @ strip action) (if truthy allowed then ''allow'' else ''deny'')) acts eff)
      (permission_key s' a) = (case (if s' = s then dict_get acts a else None) of
         Some v \<Rightarrow> Some (if truthy v then ''allow'' else ''deny'') | None \<Rightarrow> dict_get eff (permission_key s' a))"
  using assms(1,2)
proof (induction acts arbitrary: eff)
  case (Cons p acts)
  obtain b v where p: "p = (b, v)" by (cases p)
  have b: "strip b = b" and acts: "dict_ok acts" "\<forall>(a, v)\<in>set acts. strip a = a \<and> a \<noteq> []" and n: "dict_get acts b = None"
    using Cons.prems by (auto simp: p dict_ok_def map_of_eq_None_iff)
  have k: "permission_key s' a = s @ ''.'' @ b \<longleftrightarrow> s' = s \<and> a = b"
    using permission_key_inj [OF assms(4,3), of a b] by (simp add: permission_key_def)
  show ?case
  proof (cases "s' = s \<and> a = b")
    case True
    then show ?thesis using Cons.IH [OF acts, of "dict_set (s @ ''.'' @ b) (if truthy v then ''allow'' else ''deny'') eff"] n k
      by (simp add: p b)
  next
    case False
    then have "permission_key s' a \<noteq> s @ ''.'' @ b" using k by simp
    then show ?thesis using Cons.IH [OF acts, of "dict_set (s @ ''.'' @ b) (if truthy v then ''allow'' else ''deny'') eff"] False
      by (auto simp: p b split: option.splits)
  qed
qed simp

lemma grant_effects_get:
  assumes "case g of PDict acts \<Rightarrow> dict_ok acts \<and> (\<forall>(a, v)\<in>set acts. strip a = a \<and> a \<noteq> []) | PStr _ \<Rightarrow> True | _ \<Rightarrow> False"
    and "CHR ''.'' \<notin> set s" "CHR ''.'' \<notin> set s'"
  shows "dict_get (grant_effects s g eff) (permission_key s' a) =
    (case (if s' = s then grant_effect g a else None) of Some e \<Rightarrow> Some e | None \<Rightarrow> dict_get eff (permission_key s' a))"
proof (cases g)
  case (PDict acts)
  with assms(1) have c: "dict_ok acts" "\<forall>(a, v)\<in>set acts. strip a = a \<and> a \<noteq> []" by auto
  show ?thesis
    using action_effects [OF c assms(2,3), of eff a] by (simp add: grant_effects_def grant_effect_def PDict split: option.split)
next
  case (PStr l)
  define level where "level = casefold (strip l)"
  have e: "grant_effects s g eff =
      (if level = ''manage'' \<or> level = ''view'' then dict_set (permission_key s level) ''allow'' eff
       else if level = ''hidden'' then dict_set (permission_key s ''view'') ''deny'' eff else eff)"
    by (simp add: grant_effects_def PStr level_def permission_key_def Let_def)
  have g: "grant_effect g a = (if level = ''manage'' \<or> level = ''view'' then (if a = level then Some ''allow'' else None)
          else if level = ''hidden'' \<and> a = ''view'' then Some ''deny'' else None)"
    by (simp add: grant_effect_def PStr level_def Let_def)
  have k: "permission_key s' a = permission_key s b \<longleftrightarrow> s' = s \<and> a = b" for b
    by (rule permission_key_inj [OF assms(3,2)])
  consider "level = ''manage'' \<or> level = ''view''" | "level = ''hidden''" | "level \<notin> {''manage'', ''view'', ''hidden''}" by blast
  then show ?thesis
  proof cases
    case 1
    then have "grant_effects s g eff = dict_set (permission_key s level) ''allow'' eff"
      "grant_effect g a = (if a = level then Some ''allow'' else None)" unfolding e g by simp_all
    then show ?thesis using k [of level] by (cases "s' = s"; cases "a = level") simp_all
  next
    case 2
    then have "grant_effects s g eff = dict_set (permission_key s ''view'') ''deny'' eff"
      "grant_effect g a = (if a = ''view'' then Some ''deny'' else None)" unfolding e g by simp_all
    then show ?thesis using k [of "''view''"] by (cases "s' = s"; cases "a = ''view''") simp_all
  next
    case 3
    then show ?thesis unfolding e g by simp
  qed
qed (use assms(1) in auto)

lemma permission_effects_get:
  assumes "clean_permissions d" "CHR ''.'' \<notin> set s"
  shows "dict_get (permission_effects (PDict d)) (permission_key s a) = (case dict_get d s of None \<Rightarrow> None | Some g \<Rightarrow> grant_effect g a)"
proof -
  have "dict_get (fold (\<lambda>(section, grant) effects. if strip section = [] then effects else grant_effects (strip section) grant effects) d eff)
      (permission_key s a) = (case Option.bind (dict_get d s) (\<lambda>g. grant_effect g a) of Some e \<Rightarrow> Some e | None \<Rightarrow> dict_get eff (permission_key s a))" for eff
    using assms(1)
  proof (induction d arbitrary: eff)
    case (Cons p d)
    obtain s1 g where p: "p = (s1, g)" by (cases p)
    have c: "clean_section s1" "case g of PDict acts \<Rightarrow> dict_ok acts \<and> (\<forall>(a, v)\<in>set acts. strip a = a \<and> a \<noteq> []) | PStr _ \<Rightarrow> True | _ \<Rightarrow> False"
      and d: "clean_permissions d" and n: "dict_get d s1 = None"
      using Cons.prems by (auto simp: p clean_permissions_def dict_ok_def map_of_eq_None_iff)
    from c(1) have s1: "strip s1 = s1" "s1 \<noteq> []" "CHR ''.'' \<notin> set s1" by (auto simp: clean_section_def)
    show ?case
    proof (cases "s = s1")
      case True
      then show ?thesis using Cons.IH [OF d, of "grant_effects s1 g eff"] grant_effects_get [OF c(2) s1(3) assms(2), of eff a] s1 n
        by (simp add: p split: option.splits)
    next
      case False
      then show ?thesis using Cons.IH [OF d, of "grant_effects s1 g eff"] grant_effects_get [OF c(2) s1(3) assms(2), of eff a] s1
        by (simp add: p split: option.splits)
    qed
  qed simp
  from this [of "[]"] show ?thesis by (simp add: permission_effects_def split: option.split)
qed

lemma dotted_set: "dotted eff \<Longrightarrow> clean_section s \<Longrightarrow> a \<noteq> [] \<Longrightarrow> dotted (dict_set (permission_key s a) e eff)"
  by (auto simp: dotted_def)

lemma grant_effects_dotted:
  assumes "dotted eff" "clean_section s"
    and "case g of PDict acts \<Rightarrow> dict_ok acts \<and> (\<forall>(a, v)\<in>set acts. strip a = a \<and> a \<noteq> []) | PStr _ \<Rightarrow> True | _ \<Rightarrow> False"
  shows "dotted (grant_effects s g eff)"
proof (cases g)
  case (PDict acts)
  have "dotted (fold (\<lambda>(action, allowed). dict_set (permission_key s (strip action)) (if truthy allowed then ''allow'' else ''deny'')) acts eff)"
    if "\<forall>(a, v)\<in>set acts. strip a = a \<and> a \<noteq> []"
    using that assms(1)
  proof (induction acts arbitrary: eff)
    case (Cons p acts)
    then show ?case using assms(2) by (cases p) (simp add: dotted_set)
  qed simp
  then show ?thesis using assms(3) by (simp add: grant_effects_def PDict permission_key_def)
next
  case (PStr l)
  have "dotted (dict_set (permission_key s a) e eff)" if "a \<in> {''manage'', ''view''}" for a e
    using that assms(1,2) by (intro dotted_set) auto
  then show ?thesis using assms(1) by (auto simp: grant_effects_def PStr Let_def permission_key_def)
qed (use assms(3) in auto)

lemma permission_effects_dotted:
  assumes "clean_permissions d"
  shows "dotted (permission_effects (PDict d))"
proof -
  have "dotted (fold (\<lambda>(section, grant) effects. if strip section = [] then effects else grant_effects (strip section) grant effects) d eff)"
    if "dotted eff" for eff
    using assms that
  proof (induction d arbitrary: eff)
    case (Cons p d)
    obtain s g where p: "p = (s, g)" by (cases p)
    have c: "clean_section s" "case g of PDict acts \<Rightarrow> dict_ok acts \<and> (\<forall>(a, v)\<in>set acts. strip a = a \<and> a \<noteq> []) | PStr _ \<Rightarrow> True | _ \<Rightarrow> False"
      and d: "clean_permissions d"
      using Cons.prems by (auto simp: p clean_permissions_def dict_ok_def)
    show ?case using Cons.IH [OF d grant_effects_dotted [OF Cons.prems(2) c]] c(1) by (simp add: p clean_section_def)
  qed simp
  moreover have "dotted []" by (simp add: dotted_def)
  ultimately have "dotted (fold (\<lambda>(section, grant) effects.
      if strip section = [] then effects else grant_effects (strip section) grant effects) d [])" by blast
  then show ?thesis by (simp add: permission_effects_def)
qed

lemma permission_projection_get:
  assumes "dict_ok eff" "CHR ''.'' \<notin> set s"
  shows "dict_get (dict_get_or (permission_projection eff) s []) a =
    (if a = [] then None else map_option (\<lambda>e. e = ''allow'') (dict_get eff (permission_key s a)))"
proof -
  let ?step = "\<lambda>(key, effect) projected. case partition_at CHR ''.'' key of
         Some (section, action) \<Rightarrow> if action \<noteq> [] then grant_set section action (effect = ''allow'') projected else projected
       | None \<Rightarrow> projected"
  have "dict_get (dict_get_or (fold ?step eff proj) s []) a =
      (case (if a = [] then None else dict_get eff (permission_key s a)) of Some e \<Rightarrow> Some (e = ''allow'') | None \<Rightarrow> dict_get (dict_get_or proj s []) a)" for proj
    using assms(1)
  proof (induction eff arbitrary: proj)
    case (Cons p eff)
    obtain k e where p: "p = (k, e)" by (cases p)
    have d: "dict_ok eff" and n: "dict_get eff k = None"
      using Cons.prems by (auto simp: p dict_ok_def map_of_eq_None_iff)
    show ?case
    proof (cases "partition_at CHR ''.'' k")
      case None
      then have "permission_key s a \<noteq> k" using permission_key_partition [OF assms(2), of a] by auto
      then show ?thesis using Cons.IH [OF d, of proj] by (simp add: p None)
    next
      case (Some q)
      obtain s1 a1 where q: "q = (s1, a1)" by (cases q)
      then have k: "k = permission_key s1 a1" and s1: "CHR ''.'' \<notin> set s1"
        using Some by (auto simp: partition_at_Some permission_key_def)
      have eq: "permission_key s a = k \<longleftrightarrow> s = s1 \<and> a = a1" using permission_key_inj [OF assms(2) s1] k by simp
      show ?thesis
      proof (cases "a1 = []")
        case True
        then have "a = [] \<or> permission_key s a \<noteq> k" using eq by blast
        then show ?thesis using Cons.IH [OF d, of proj] True by (auto simp: p Some q)
      next
        case False
        have "?step (k, e) proj = grant_set s1 a1 (e = ''allow'') proj" using False by (simp add: Some q)
        then show ?thesis
          using Cons.IH [OF d, of "grant_set s1 a1 (e = ''allow'') proj"] n False eq
          by (cases "s = s1 \<and> a = a1") (auto simp: p split: option.splits)
      qed
    qed
  qed simp
  from this [of "[]"] show ?thesis by (auto simp: permission_projection_def split: option.split)
qed

lemma inherited_get:
  "dict_get (fold (\<lambda>key. dict_setdefault key v) ks g) k = (case dict_get g k of Some e \<Rightarrow> Some e | None \<Rightarrow> if k \<in> set ks then Some v else None)"
  "dict_ok g \<Longrightarrow> dict_ok (fold (\<lambda>key. dict_setdefault key v) ks g)"
  by (induction ks arbitrary: g) (auto simp: dict_setdefault_def split: option.splits)

text \<open>The tables of permissions as the database keeps them: unique keys, and links to existing rows.\<close>

definition permissions_ok :: "identity_db \<Rightarrow> bool" where
  "permissions_ok db \<longleftrightarrow> distinct (map pm_id (idb_permissions db)) \<and> distinct (map pm_key (idb_permissions db)) \<and>
     (\<forall>e\<in>set (idb_principal_permissions db). pp_permission_id e \<in> pm_id ` set (idb_permissions db))"

lemma find_unique: "distinct (map f xs) \<Longrightarrow> x \<in> set xs \<Longrightarrow> filter (\<lambda>y. f y = f x) xs = [x]"
  by (induction xs) (auto simp: filter_empty_conv image_iff)

definition grants_of :: "permission_row list \<Rightarrow> principal_permission_row list \<Rightarrow> (string, string) dict" where
  "grants_of ps es = fold (\<lambda>e g. fold (\<lambda>r. dict_set (pm_key r) (pp_effect e)) (filter (\<lambda>r. pm_id r = pp_permission_id e) ps) g) es []"

lemma direct_grants_of: "direct_grants db i = grants_of (idb_permissions db) (filter (\<lambda>e. pp_principal_id e = i) (idb_principal_permissions db))"
  by (simp add: direct_grants_def grants_of_def)

lemma grants_of_append:
  assumes "pm_id r \<notin> pp_permission_id ` set es"
  shows "grants_of (ps @ [r]) es = grants_of ps es"
proof -
  have "filter (\<lambda>r. pm_id r = pp_permission_id e) (ps @ [r]) = filter (\<lambda>r. pm_id r = pp_permission_id e) ps" if "e \<in> set es" for e
    using assms that by auto
  then show ?thesis unfolding grants_of_def by (intro fold_cong) auto
qed

lemma add_permission_apply:
  assumes "permissions_ok db"
  shows "permissions_ok (add_permission i (k, e) db) \<and>
    direct_grants (add_permission i (k, e) db) i = dict_set k e (direct_grants db i) \<and>
    idb_role_permissions (add_permission i (k, e) db) = idb_role_permissions db"
proof -
  obtain sec act where sa: "(case partition_at CHR ''.'' k of Some p \<Rightarrow> p | None \<Rightarrow> (k, [])) = (sec, act)" by fastforce
  show ?thesis
  proof (cases "find (\<lambda>r. pm_key r = k) (idb_permissions db)")
    case (Some r)
    then have r: "r \<in> set (idb_permissions db)" "pm_key r = k" by (auto simp: find_Some_iff)
    have "filter (\<lambda>y. pm_id y = pm_id r) (idb_permissions db) = [r]"
      using assms r(1) by (intro find_unique) (simp_all add: permissions_ok_def)
    with assms r show ?thesis
      by (simp add: add_permission_def sa Some Let_def direct_grants_def permissions_ok_def)
  next
    case None
    then have fresh: "k \<notin> pm_key ` set (idb_permissions db)" by (auto simp: find_None_iff)
    let ?n = "next_id pm_id (idb_permissions db)"
    have n: "?n \<notin> pm_id ` set (idb_permissions db)" by (rule next_id_fresh)
    then have nf: "filter (\<lambda>y. pm_id y = ?n) (idb_permissions db) = []" by (metis (mono_tags, lifting) filter_False image_eqI)
    define r where "r = \<lparr>pm_id = ?n, pm_key = k, pm_section = sec, pm_action = (if act = [] then ''manage'' else act)\<rparr>"
    define new where "new = \<lparr>pp_principal_id = i, pp_permission_id = ?n, pp_effect = e\<rparr>"
    have rn: "pm_id r = ?n" "pm_key r = k" by (simp_all add: r_def)
    have db': "add_permission i (k, e) db = db\<lparr>idb_permissions := idb_permissions db @ [r],
        idb_principal_permissions := idb_principal_permissions db @ [new]\<rparr>"
      by (simp add: add_permission_def sa None Let_def r_def new_def)
    have old: "grants_of (idb_permissions db @ [r]) (filter (\<lambda>e. pp_principal_id e = i) (idb_principal_permissions db)) =
        grants_of (idb_permissions db) (filter (\<lambda>e. pp_principal_id e = i) (idb_principal_permissions db))"
      using assms n rn by (intro grants_of_append) (auto simp: permissions_ok_def)
    have "filter (\<lambda>y. pm_id y = pp_permission_id new) (idb_permissions db @ [r]) = [r]" using nf rn by (simp add: new_def)
    then have "direct_grants (add_permission i (k, e) db) i = dict_set k e (direct_grants db i)"
      unfolding db' direct_grants_of using old by (simp add: grants_of_def new_def rn)
    moreover have "permissions_ok (add_permission i (k, e) db)"
      unfolding db' using assms n fresh rn by (auto simp: permissions_ok_def new_def)
    ultimately show ?thesis by (simp add: db')
  qed
qed

lemma add_permissions:
  assumes "permissions_ok db"
  shows "permissions_ok (fold (add_permission i) effs db) \<and>
    direct_grants (fold (add_permission i) effs db) i = dict_update (direct_grants db i) effs \<and>
    idb_role_permissions (fold (add_permission i) effs db) = idb_role_permissions db"
  using assms
proof (induction effs arbitrary: db)
  case (Cons p effs)
  obtain k e where p: "p = (k, e)" by (cases p)
  from add_permission_apply [OF Cons.prems, of i k e] Cons.IH [of "add_permission i (k, e) db"]
  show ?case by (simp add: p dict_update_def)
qed (simp add: dict_update_def)

lemma add_roles:
  "idb_permissions (fold (add_role i) names db) = idb_permissions db \<and>
   idb_principal_permissions (fold (add_role i) names db) = idb_principal_permissions db \<and>
   idb_role_permissions (fold (add_role i) names db) = idb_role_permissions db"
  by (induction names arbitrary: db) (auto simp: add_role_def Let_def split: option.split prod.split)

text \<open>A dictionary with the keys of another is that one.\<close>

lemma dict_update_Nil:
  assumes "dict_ok d"
  shows "dict_update [] d = d"
proof -
  have "dict_update e f = e @ f" if "dict_ok f" "dict_keys e \<inter> dict_keys f = {}" for e f :: "('a, 'b) dict"
    using that
  proof (induction f arbitrary: e)
    case (Cons q f)
    obtain k v where q: "q = (k, v)" by (cases q)
    have k: "k \<notin> dict_keys e" using Cons.prems(2) by (simp add: q)
    have "dict_set k v e = e @ [(k, v)]"
      using k unfolding dict_set_def by (induction e) auto
    then show ?case using Cons.IH [of "e @ [(k, v)]"] Cons.prems
      by (auto simp: q dict_update_def dict_ok_def dict_keys_def)
  qed (simp add: dict_update_def)
  with assms show ?thesis by simp
qed

lemma set_authorization_roles:
  assumes "permissions_ok db" and "set_authorization p db = Inr (db', x)"
  shows "idb_role_permissions db' = idb_role_permissions db"
proof -
  from assms(2) obtain i names where "db' = fold (add_permission i) (permission_effects (pget ''permissions'' p)) (fold (add_role i) names
      (db\<lparr>idb_principal_roles := filter (\<lambda>e. fst e \<noteq> i) (idb_principal_roles db),
          idb_principal_permissions := filter (\<lambda>r. pp_principal_id r \<noteq> i) (idb_principal_permissions db)\<rparr>))" (is "_ = fold _ _ ?db")
    by (auto simp: set_authorization_def replace_authorization_def Let_def result_simps)
  moreover have "permissions_ok ?db" using assms(1) by (simp add: permissions_ok_def add_roles)
  ultimately show ?thesis using add_permissions [of ?db] by (simp add: add_roles)
qed

text \<open>What the roles of a principal allow: a permission that is linked to one of them.\<close>

definition role_allows :: "identity_db \<Rightarrow> int \<Rightarrow> string \<Rightarrow> string \<Rightarrow> bool" where
  "role_allows db i s a \<longleftrightarrow> (\<exists>role\<in>set (idb_roles db). \<exists>permission\<in>set (idb_permissions db).
     (i, ro_id role) \<in> set (idb_principal_roles db) \<and> (ro_id role, pm_id permission) \<in> set (idb_role_permissions db) \<and>
     pm_key permission = s @ ''.'' @ a)"

lemma role_allows_keys: "role_allows db i s a \<longleftrightarrow> permission_key s a \<in> set (inherited_keys db (roles_of db i))"
  by (force simp: role_allows_def inherited_keys_def roles_of_def permission_key_def)

text \<open>C32. What authorization allows after it was stored, action by action of the six sections. Where the payload gave the
  section a mapping with a value for the action, that value decides; otherwise the action is allowed exactly when a role
  of the principal has it. So a section that was given as a level, \<open>manage\<close> or \<open>view\<close>, allows nothing of its own: the
  level is stored as an action of that name, against the feature matrix (ID-04). The payload's sections and actions are
  names without white space around them, a section's grant is a mapping or a text.\<close>

theorem stored_grants_exact:
  assumes "permissions_ok db" and "set_authorization p db = Inr (db', roles, permissions)" and "principal_of_payload p = Inr i"
    and "pget ''permissions'' p = PDict d" and "clean_permissions d"
    and "s \<in> set token_scope_sections" and "a \<in> set permission_actions"
  shows "permission_allows (pget s permissions) a \<longleftrightarrow>
    (case dict_get d s of
       Some (PDict acts) \<Rightarrow> (case dict_get acts a of Some v \<Rightarrow> truthy v | None \<Rightarrow> role_allows db' i s a)
     | _ \<Rightarrow> role_allows db' i s a)"
proof -
  have "list_all (\<lambda>s. CHR ''.'' \<notin> set s) token_scope_sections" by code_simp
  then have s: "CHR ''.'' \<notin> set s" using assms(6) by (simp add: list_all_iff)
  have "list_all (\<lambda>a. a \<noteq> [] \<and> a \<noteq> ''manage'' \<and> a \<noteq> ''view'') permission_actions" by code_simp
  then have a: "a \<noteq> []" "a \<noteq> ''manage''" "a \<noteq> ''view''" using assms(7) by (auto simp: list_all_iff)
  from assms(2,3) obtain row where row: "find_principal db i = Some row"
    and r: "replace_authorization row p db = Inr db'" and perms: "permissions = snd (authorization db' i)"
    by (auto simp: set_authorization_def result_simps)
  have i: "pc_id row = i" using row by (auto simp: find_principal_def find_Some_iff)
  let ?eff = "permission_effects (PDict d)"
  from r obtain names where db': "db' = fold (add_permission i) ?eff (fold (add_role i) names
      (db\<lparr>idb_principal_roles := filter (\<lambda>e. fst e \<noteq> i) (idb_principal_roles db),
          idb_principal_permissions := filter (\<lambda>r. pp_principal_id r \<noteq> i) (idb_principal_permissions db)\<rparr>))" (is "_ = fold _ _ ?db")
    by (auto simp: replace_authorization_def Let_def result_simps i assms(4))
  have "permissions_ok ?db" "direct_grants ?db i = []"
    using assms(1) by (simp_all add: permissions_ok_def direct_grants_def add_roles)
  moreover have ok: "dict_ok ?eff" using permission_effects_dotted [OF assms(5)] by (simp add: dotted_def)
  ultimately have g: "direct_grants db' i = ?eff" using add_permissions [of ?db i ?eff] by (simp add: db' dict_update_Nil)
  let ?inherited = "inherited_keys db' (roles_of db' i)"
  have "permissions = grants_payload (permission_projection (fold (\<lambda>key. dict_setdefault key ''allow'') ?inherited ?eff))"
    by (simp add: perms authorization_def Let_def g)
  then have "permission_allows (pget s permissions) a \<longleftrightarrow>
      (case dict_get ?eff (permission_key s a) of Some e \<Rightarrow> e = ''allow'' | None \<Rightarrow> role_allows db' i s a)"
    using ok a(1) by (simp add: grants_allow permission_projection_get [OF _ s] inherited_get role_allows_keys split: option.split)
  also have "\<dots> \<longleftrightarrow> (case Option.bind (dict_get d s) (\<lambda>g. grant_effect g a) of Some e \<Rightarrow> e = ''allow'' | None \<Rightarrow> role_allows db' i s a)"
    by (simp add: permission_effects_get [OF assms(5) s] split: option.split)
  also have "\<dots> \<longleftrightarrow> (case dict_get d s of
       Some (PDict acts) \<Rightarrow> (case dict_get acts a of Some v \<Rightarrow> truthy v | None \<Rightarrow> role_allows db' i s a)
     | _ \<Rightarrow> role_allows db' i s a)"
    using a by (auto simp: grant_effect_def Let_def split: option.split pyval.split)
  finally show ?thesis .
qed

definition sample_identities :: identity_db where
  "sample_identities = \<lparr>idb_principals = [\<lparr>pc_id = 1, pc_email = ''ann@x'', pc_display_name = [], pc_nickname = [], pc_is_admin = False,
       pc_must_change_password = False, pc_is_disabled = False, pc_is_deleted = False, pc_visibility = ''user'', pc_metadata = []\<rparr>],
     idb_credentials = [\<lparr>cr_principal_id = 1, cr_password_hash = ''#password'', cr_password_version = 1\<rparr>],
     idb_roles = [], idb_permissions = [], idb_principal_roles = [], idb_role_permissions = [], idb_principal_permissions = []\<rparr>"

definition sample_grants :: payload where
  "sample_grants = [(''proxy_hosts'', PStr ''manage''), (''streams'', PDict [(''read'', PBool True), (''delete'', PBool False)])]"

theorem stored_grants_exact_witness:
  "\<exists>db roles permissions. set_authorization [(''principal_id'', PInt 1), (''permissions'', PDict sample_grants)] sample_identities =
       Inr (db, roles, permissions) \<and>
     permission_allows (pget ''streams'' permissions) ''read'' \<and> \<not> permission_allows (pget ''proxy_hosts'' permissions) ''read''"
proof -
  let ?p = "[(''principal_id'', PInt 1), (''permissions'', PDict sample_grants)]"
  have "set_authorization ?p sample_identities \<noteq> Inl e" for e
    by (simp add: set_authorization_def principal_of_payload_def find_principal_def sample_identities_def
        replace_authorization_def role_names_def py_or_def pget_def dict_get_or_def Let_def)
  then obtain db roles permissions where r: "set_authorization ?p sample_identities = Inr (db, roles, permissions)"
    by (metis sum.exhaust prod.exhaust)
  have c: "clean_permissions sample_grants" by code_simp
  have ok: "permissions_ok sample_identities" by (simp add: permissions_ok_def sample_identities_def)
  have i: "principal_of_payload ?p = Inr 1" by (simp add: principal_of_payload_def)
  have "idb_role_permissions db = []"
    using set_authorization_roles [OF ok r] by (simp add: sample_identities_def)
  then have no_role: "\<not> role_allows db j s a" for j s a by (simp add: role_allows_def)
  have p: "pget ''permissions'' ?p = PDict sample_grants" by (simp add: pget_def dict_get_or_def)
  have in_sets: "''streams'' \<in> set token_scope_sections" "''proxy_hosts'' \<in> set token_scope_sections" "''read'' \<in> set permission_actions"
    by (simp_all add: token_scope_sections_def permission_actions_def)
  from stored_grants_exact [OF ok r i p c in_sets(1,3)] stored_grants_exact [OF ok r i p c in_sets(2,3)] r no_role
  show ?thesis by (auto simp: sample_grants_def)
qed

section \<open>Laws of passwords\<close>

definition accounts_ok :: "identity_db \<Rightarrow> bool" where
  "accounts_ok db \<longleftrightarrow> distinct (map pc_id (idb_principals db)) \<and> distinct (map pc_email (idb_principals db)) \<and>
     distinct (map cr_principal_id (idb_credentials db))"

lemma find_update_where:
  assumes "\<And>r. key (f r) = key r"
  shows "find (\<lambda>r. key r = k) (update_where p f rows) = map_option (\<lambda>r. if p r then f r else r) (find (\<lambda>r. key r = k) rows)"
  using assms by (induction rows) (auto simp: update_where_def)

lemma find_unique_row: "distinct (map key rows) \<Longrightarrow> row \<in> set rows \<Longrightarrow> find (\<lambda>r. key r = key row) rows = Some row"
  by (induction rows) auto

lemma authenticate_iff:
  "(\<exists>x. authenticate check p db = Inr x) \<longleftrightarrow>
     (\<exists>r c. find (\<lambda>r. pc_email r = email_of p) (idb_principals db) = Some r \<and> credential_of db (pc_id r) = Some c \<and>
        check (cr_password_hash c) (text_field ''password'' p) \<and> \<not> pc_is_disabled r \<and> \<not> pc_is_deleted r)"
  by (auto simp: authenticate_def Let_def split: option.splits)

text \<open>After a password change the principal signs in with the new password and with no other, and is no longer
  asked to change it; whether anybody else can sign in is as before. The change needs the current password, and a
  new one of eight characters or more that differs from it.\<close>

theorem password_change_exact:
  assumes "\<And>a b. check (hash a) b \<longleftrightarrow> a = b" and "accounts_ok db"
    and "principal_of_payload p = Inr (pc_id row)" and "row \<in> set (idb_principals db)"
    and "change_password hash check p db = Inr db'"
  shows "(\<exists>c. credential_of db (pc_id row) = Some c \<and> check (cr_password_hash c) (text_field ''old_password'' p)) \<and>
    8 \<le> length (text_field ''new_password'' p) \<and> text_field ''new_password'' p \<noteq> text_field ''old_password'' p \<and>
    (\<forall>q. email_of q = pc_email row \<longrightarrow> ((\<exists>x. authenticate check q db' = Inr x) \<longleftrightarrow>
       text_field ''password'' q = text_field ''new_password'' p \<and> \<not> pc_is_disabled row \<and> \<not> pc_is_deleted row)) \<and>
    (\<forall>q. email_of q \<noteq> pc_email row \<longrightarrow>
       (\<exists>x. authenticate check q db' = Inr x) = (\<exists>x. authenticate check q db = Inr x)) \<and>
    (\<exists>r. find_principal db' (pc_id row) = Some r \<and> \<not> pc_must_change_password r)"
proof -
  let ?i = "pc_id row" and ?new = "text_field ''new_password'' p"
  from assms(5) obtain c where c: "credential_of db ?i = Some c" "check (cr_password_hash c) (text_field ''old_password'' p)"
    and new: "?new \<noteq> text_field ''old_password'' p" "\<not> length ?new < 8"
    and db': "db' = set_must_change ?i False (db\<lparr>idb_credentials := update_where (\<lambda>r. cr_principal_id r = ?i)
      (\<lambda>r. r\<lparr>cr_password_hash := hash ?new, cr_password_version := cr_password_version r + 1\<rparr>) (idb_credentials db)\<rparr>)"
    by (auto simp: change_password_def assms(3) Let_def replace_password_def result_simps split: option.splits if_splits)
  have principals: "find (\<lambda>r. key r = k) (idb_principals db') = map_option (\<lambda>r. if pc_id r = ?i then r\<lparr>pc_must_change_password := False\<rparr> else r)
      (find (\<lambda>r. key r = k) (idb_principals db))" if "\<And>r. key (r\<lparr>pc_must_change_password := False\<rparr>) = key r" for key :: "principal_row \<Rightarrow> 'k" and k
    unfolding db' set_must_change_def using that by (simp add: find_update_where)
  have credentials: "credential_of db' k = (if k = ?i then map_option (\<lambda>r. r\<lparr>cr_password_hash := hash ?new,
      cr_password_version := cr_password_version r + 1\<rparr>) (credential_of db k) else credential_of db k)" for k
  proof -
    have "credential_of db' k = map_option (\<lambda>r. if cr_principal_id r = ?i then r\<lparr>cr_password_hash := hash ?new,
        cr_password_version := cr_password_version r + 1\<rparr> else r) (credential_of db k)"
      unfolding db' set_must_change_def credential_of_def by (simp add: find_update_where)
    moreover have "cr_principal_id c = k" if "credential_of db k = Some c" for c
      using that by (auto simp: credential_of_def find_Some_iff)
    ultimately show ?thesis by (cases "k = ?i"; cases "credential_of db k") simp_all
  qed
  have row: "find (\<lambda>r. pc_email r = pc_email row) (idb_principals db) = Some row"
    "find (\<lambda>r. pc_id r = ?i) (idb_principals db) = Some row"
    using assms(2,4) unfolding accounts_ok_def by (metis find_unique_row)+
  have ids: "r = row" if "r \<in> set (idb_principals db)" "pc_id r = ?i" for r
    using assms(2,4) that unfolding accounts_ok_def distinct_map by (meson inj_onD)
  show ?thesis
  proof (intro conjI allI impI)
    show "\<exists>c. credential_of db ?i = Some c \<and> check (cr_password_hash c) (text_field ''old_password'' p)" using c by blast
    show "8 \<le> length ?new" "?new \<noteq> text_field ''old_password'' p" using new by simp_all
  next
    fix q assume "email_of q = pc_email row"
    then show "(\<exists>x. authenticate check q db' = Inr x) \<longleftrightarrow>
       text_field ''password'' q = ?new \<and> \<not> pc_is_disabled row \<and> \<not> pc_is_deleted row"
      unfolding authenticate_iff by (auto simp: principals row credentials c assms(1))
  next
    fix q assume e: "email_of q \<noteq> pc_email row"
    have "pc_id r \<noteq> ?i" if "find (\<lambda>r. pc_email r = email_of q) (idb_principals db) = Some r" for r
      using that e ids [of r] by (auto simp: find_Some_iff)
    then show "(\<exists>x. authenticate check q db' = Inr x) = (\<exists>x. authenticate check q db = Inr x)"
      unfolding authenticate_iff by (auto simp: principals credentials)
  next
    show "\<exists>r. find_principal db' ?i = Some r \<and> \<not> pc_must_change_password r"
      by (simp add: find_principal_def principals row)
  qed
qed

theorem password_change_exact_witness:
  "\<exists>db. change_password (\<lambda>s. ''#'' @ s) (\<lambda>d s. d = ''#'' @ s)
       [(''principal_id'', PInt 1), (''old_password'', PStr ''password''), (''new_password'', PStr ''correct horse'')] sample_identities = Inr db \<and>
     (\<exists>x. authenticate (\<lambda>d s. d = ''#'' @ s) [(''email'', PStr ''ann@x''), (''password'', PStr ''correct horse'')] db = Inr x) \<and>
     \<not> (\<exists>x. authenticate (\<lambda>d s. d = ''#'' @ s) [(''email'', PStr ''ann@x''), (''password'', PStr ''password'')] db = Inr x)"
proof -
  let ?p = "[(''principal_id'', PInt 1), (''old_password'', PStr ''password''), (''new_password'', PStr ''correct horse'')]"
  let ?row = "hd (idb_principals sample_identities)"
  have e: "email_of [(''email'', PStr ''ann@x''), (''password'', PStr s)] = ''ann@x''" for s
  proof -
    have "casefold (strip ''ann@x'') = ''ann@x''" by code_simp
    then show ?thesis by (simp add: email_of_def text_field_def pget_def dict_get_or_def py_or_def)
  qed
  obtain db where db: "change_password (\<lambda>s. ''#'' @ s) (\<lambda>d s. d = ''#'' @ s) ?p sample_identities = Inr db"
    by (simp add: change_password_def principal_of_payload_def text_field_def pget_def dict_get_or_def py_or_def Let_def
        credential_of_def sample_identities_def replace_password_def)
  have ok: "accounts_ok sample_identities" "principal_of_payload ?p = Inr (pc_id ?row)" "?row \<in> set (idb_principals sample_identities)"
    by (simp_all add: accounts_ok_def sample_identities_def principal_of_payload_def)
  have h: "(\<lambda>d s. d = ''#'' @ s) ((\<lambda>s. ''#'' @ s) a) b \<longleftrightarrow> a = b" for a b :: string by simp
  have r: "pc_email ?row = ''ann@x''" "\<not> pc_is_disabled ?row" "\<not> pc_is_deleted ?row" by (simp_all add: sample_identities_def)
  have t: "text_field ''password'' [(''email'', PStr ''ann@x''), (''password'', PStr s)] = s"
    "text_field ''new_password'' ?p = ''correct horse''" for s
    by (simp_all add: text_field_def pget_def dict_get_or_def py_or_def)
  from password_change_exact [OF h ok db]
  have "(\<exists>x. authenticate (\<lambda>d s. d = ''#'' @ s) q db = Inr x) \<longleftrightarrow> text_field ''password'' q = text_field ''new_password'' ?p"
    if "email_of q = pc_email ?row" for q
    using that r(2,3) by blast
  from this [of "[(''email'', PStr ''ann@x''), (''password'', PStr ''correct horse'')]"]
    this [of "[(''email'', PStr ''ann@x''), (''password'', PStr ''password'')]"] db
  show ?thesis unfolding e r(1) t by (intro exI [of _ db]) simp
qed

end
