(* ===== verification/Mfa.thy ===== *)
theory Mfa
  imports Identity Quic_Wire
begin

text \<open>
  The second factor: \<open>identity/mfa.py\<close> (time-based codes of RFC 6238 over a base-32 secret, and backup codes) and
  \<open>tables/mfa.py\<close> (enrolment, confirmation, verification, removal). HMAC-SHA1, the cipher of the stored secret, the
  hash of the backup codes and the random bytes are parameters; the clock is in whole seconds.
\<close>

section \<open>Base 32\<close>

definition base32_alphabet :: string where
  "base32_alphabet = ''ABCDEFGHIJKLMNOPQRSTUVWXYZ234567''"

fun base32_digits :: "nat \<Rightarrow> nat \<Rightarrow> string" where
  "base32_digits 0 v = []"
| "base32_digits (Suc n) v = base32_digits n (v div 32) @ [base32_alphabet ! (v mod 32)]"

function b32_blocks :: "bytes \<Rightarrow> string" where
  "b32_blocks bs =
     (if bs = [] then []
      else base32_digits 8 (from_bytes (take 5 bs @ replicate (5 - length (take 5 bs)) 0)) @ b32_blocks (drop 5 bs))"
  by pat_completeness auto
termination
  by (relation "measure length") auto

definition b32_padding :: "nat \<Rightarrow> nat" where
  "b32_padding leftover = (if leftover = 1 then 6 else if leftover = 2 then 4 else if leftover = 3 then 3 else if leftover = 4 then 1 else 0)"

definition b32encode :: "bytes \<Rightarrow> string" where
  "b32encode bs =
     (let encoded = b32_blocks bs; pad = b32_padding (length bs mod 5) in
      take (length encoded - pad) encoded @ replicate pad CHR ''='')"

definition base32_value :: "char \<Rightarrow> nat option" where
  "base32_value c = (if c \<in> set base32_alphabet then Some (length (takeWhile (\<lambda>d. d \<noteq> c) base32_alphabet)) else None)"

definition quantum :: "string \<Rightarrow> py_error + nat" where
  "quantum s = efold (\<lambda>c acc. ebind (note_none (ValueError ''Non-base32 digit found'') (base32_value c)) (\<lambda>v. Inr (acc * 32 + v))) s 0"

function b32_quanta :: "string \<Rightarrow> py_error + nat list" where
  "b32_quanta s =
     (if s = [] then Inr []
      else ebind (quantum (take 8 s)) (\<lambda>v. ebind (b32_quanta (drop 8 s)) (\<lambda>vs. Inr (v # vs))))"
  by pat_completeness auto
termination
  by (relation "measure length") auto

definition b32decode :: "string \<Rightarrow> py_error + bytes" where
  "b32decode s =
     (let total = length s; s = map upper_char s in
      if total mod 8 \<noteq> 0 then Inl (ValueError ''Incorrect padding'')
      else
        let body = rstrip_by (\<lambda>c. c = CHR ''='') s; pad = total - length body in
        ebind (b32_quanta body) (\<lambda>vs.
        let decoded = concat (map (be_bytes 5) vs) in
        if pad \<notin> {0, 1, 3, 4, 6} then Inl (ValueError ''Incorrect padding'')
        else if pad \<noteq> 0 \<and> decoded \<noteq> []
        then Inr (take (length decoded - 5) decoded @ take ((43 - 5 * pad) div 8) (be_bytes 5 (last vs * 32 ^ pad)))
        else Inr decoded))"

definition decode_base32 :: "string \<Rightarrow> py_error + bytes" where
  "decode_base32 secret =
     (let normalized = filter (\<lambda>c. \<not> is_space c) (map upper_char secret);
          padding = replicate ((8 - length normalized mod 8) mod 8) CHR ''='' in
      map_sum (\<lambda>_. ValueError ''invalid base32 TOTP secret'') id (b32decode (normalized @ padding)))"

definition generate_totp_secret :: "bytes \<Rightarrow> py_error + string" where
  "generate_totp_secret random =
     (if length random < 16 then Inl (ValueError ''TOTP secrets must contain at least 128 bits'')
      else Inr (rstrip_by (\<lambda>c. c = CHR ''='') (b32encode random)))"

declare b32_blocks.simps [simp del] b32_quanta.simps [simp del]

section \<open>Time-based codes\<close>

text \<open>\<open>s.zfill(width)\<close> on digits.\<close>

definition zfill :: "nat \<Rightarrow> string \<Rightarrow> string" where
  "zfill width s = replicate (width - length s) CHR ''0'' @ s"

text \<open>\<open>struct.pack(">Q", n)\<close> raises outside 64 bits.\<close>

definition pack_u64 :: "int \<Rightarrow> py_error + bytes" where
  "pack_u64 n = (if n < 0 \<or> 2 ^ 64 \<le> n then Inl (OSError ''struct.error'') else Inr (be_bytes 8 (nat n)))"

definition totp_code :: "(bytes \<Rightarrow> bytes \<Rightarrow> bytes) \<Rightarrow> string \<Rightarrow> int \<Rightarrow> int \<Rightarrow> nat \<Rightarrow> py_error + string" where
  "totp_code hmac_sha1 secret at period digits =
     (if period < 1 \<or> digits \<notin> {6, 7, 8} then Inl (ValueError ''invalid TOTP parameters'')
      else
        ebind (decode_base32 secret) (\<lambda>key.
        ebind (pack_u64 (at div period)) (\<lambda>counter.
        let digest = hmac_sha1 key counter;
            offset = unat (last digest AND 0x0F);
            binary = from_bytes (take 4 (drop offset digest)) mod 2 ^ 31 in
        Inr (zfill digits (nat_str (binary mod 10 ^ digits))))))"

text \<open>\<open>any(...)\<close> stops at the first match.\<close>

fun any_match :: "('a \<Rightarrow> py_error + bool) \<Rightarrow> 'a list \<Rightarrow> py_error + bool" where
  "any_match f [] = Inr False"
| "any_match f (x # xs) = ebind (f x) (\<lambda>b. if b then Inr True else any_match f xs)"

definition verify_totp :: "(bytes \<Rightarrow> bytes \<Rightarrow> bytes) \<Rightarrow> string \<Rightarrow> string \<Rightarrow> int \<Rightarrow> int \<Rightarrow> int \<Rightarrow> nat \<Rightarrow> py_error + bool" where
  "verify_totp hmac_sha1 secret code at window period digits =
     (if window < 0 \<or> code = [] \<or> \<not> list_all is_digit code \<or> length code \<noteq> digits then Inr False
      else any_match (\<lambda>offset. map_sum id (\<lambda>c. c = code) (totp_code hmac_sha1 secret (at + offset * period) period digits))
             [- window..window])"

section \<open>Enrolment\<close>

record enrollment_row =
  en_principal_id :: int
  en_encrypted_secret :: string
  en_confirmed :: bool

record recovery_row =
  rc_principal_id :: int
  rc_code_digest :: string
  rc_used_at :: "int option"

record mfa_db =
  mdb_enrollments :: "enrollment_row list"
  mdb_codes :: "recovery_row list"

record mfa_crypto =
  mc_encrypt :: "string \<Rightarrow> string"
  mc_decrypt :: "string \<Rightarrow> string option"
  mc_hash :: "string \<Rightarrow> string"
  mc_check :: "string \<Rightarrow> string \<Rightarrow> bool"
  mc_hmac_sha1 :: "bytes \<Rightarrow> bytes \<Rightarrow> bytes"

definition enrollment_of :: "mfa_db \<Rightarrow> int \<Rightarrow> enrollment_row option" where
  "enrollment_of db i = find (\<lambda>r. en_principal_id r = i) (mdb_enrollments db)"

definition delete_enrollment :: "int \<Rightarrow> mfa_db \<Rightarrow> mfa_db" where
  "delete_enrollment i db =
     (case enrollment_of db i of
        None \<Rightarrow> db
      | Some _ \<Rightarrow> db\<lparr>mdb_codes := filter (\<lambda>r. rc_principal_id r \<noteq> i) (mdb_codes db),
          mdb_enrollments := filter (\<lambda>r. en_principal_id r \<noteq> i) (mdb_enrollments db)\<rparr>)"

definition recovery_rows :: "mfa_crypto \<Rightarrow> int \<Rightarrow> string list \<Rightarrow> recovery_row list" where
  "recovery_rows mc i codes = map (\<lambda>c. \<lparr>rc_principal_id = i, rc_code_digest = mc_hash mc c, rc_used_at = None\<rparr>) codes"

text \<open>\<open>begin\<close>: the random bytes of the secret and the backup codes are arguments.\<close>

definition mfa_begin :: "mfa_crypto \<Rightarrow> bytes \<Rightarrow> string list \<Rightarrow> payload \<Rightarrow> mfa_db \<Rightarrow> py_error + mfa_db \<times> string \<times> string list" where
  "mfa_begin mc random codes p db =
     ebind (principal_of_payload p) (\<lambda>i.
     let db = delete_enrollment i db in
     ebind (generate_totp_secret random) (\<lambda>secret.
       Inr (db\<lparr>mdb_enrollments := mdb_enrollments db @
                [\<lparr>en_principal_id = i, en_encrypted_secret = mc_encrypt mc secret, en_confirmed = False\<rparr>],
              mdb_codes := mdb_codes db @ recovery_rows mc i codes\<rparr>, secret, codes)))"

definition mfa_enabled :: "payload \<Rightarrow> mfa_db \<Rightarrow> py_error + bool" where
  "mfa_enabled p db =
     map_sum id (\<lambda>i. case enrollment_of db i of None \<Rightarrow> False | Some r \<Rightarrow> en_confirmed r) (principal_of_payload p)"

definition stored_secret :: "mfa_crypto \<Rightarrow> enrollment_row \<Rightarrow> py_error + string" where
  "stored_secret mc row = note_none (RuntimeError ''MFA secret cannot be decrypted'') (mc_decrypt mc (en_encrypted_secret row))"

definition code_matches :: "mfa_crypto \<Rightarrow> int \<Rightarrow> enrollment_row \<Rightarrow> string \<Rightarrow> py_error + bool" where
  "code_matches mc now row code =
     ebind (stored_secret mc row) (\<lambda>secret. verify_totp (mc_hmac_sha1 mc) secret code now 1 30 6)"

definition mfa_confirm :: "mfa_crypto \<Rightarrow> int \<Rightarrow> payload \<Rightarrow> mfa_db \<Rightarrow> py_error + mfa_db \<times> bool" where
  "mfa_confirm mc now p db =
     ebind (principal_of_payload p) (\<lambda>i.
     case enrollment_of db i of
       None \<Rightarrow> Inr (db, False)
     | Some row \<Rightarrow>
         if en_confirmed row then Inr (db, False)
         else ebind (code_matches mc now row (text_field ''code'' p)) (\<lambda>ok.
           Inr (if ok then db\<lparr>mdb_enrollments := update_where (\<lambda>r. en_principal_id r = i) (\<lambda>r. r\<lparr>en_confirmed := True\<rparr>) (mdb_enrollments db)\<rparr>
                else db, ok)))"

text \<open>The first unused recovery code that matches is marked as used.\<close>

fun consume_code :: "mfa_crypto \<Rightarrow> int \<Rightarrow> int \<Rightarrow> string \<Rightarrow> recovery_row list \<Rightarrow> recovery_row list option" where
  "consume_code mc now i code [] = None"
| "consume_code mc now i code (r # rs) =
     (if rc_principal_id r = i \<and> rc_used_at r = None \<and> mc_check mc (rc_code_digest r) code
      then Some (r\<lparr>rc_used_at := Some now\<rparr> # rs) else map_option ((#) r) (consume_code mc now i code rs))"

definition mfa_verify :: "mfa_crypto \<Rightarrow> int \<Rightarrow> payload \<Rightarrow> mfa_db \<Rightarrow> py_error + mfa_db \<times> bool" where
  "mfa_verify mc now p db =
     ebind (principal_of_payload p) (\<lambda>i.
     case enrollment_of db i of
       None \<Rightarrow> Inr (db, True)
     | Some row \<Rightarrow>
         if \<not> en_confirmed row then Inr (db, True)
         else
           let code = text_field ''code'' p in
           ebind (code_matches mc now row code) (\<lambda>ok.
             if ok then Inr (db, True)
             else case consume_code mc now i code (mdb_codes db) of
                 None \<Rightarrow> Inr (db, False)
               | Some codes \<Rightarrow> Inr (db\<lparr>mdb_codes := codes\<rparr>, True)))"

definition mfa_disable :: "mfa_crypto \<Rightarrow> int \<Rightarrow> payload \<Rightarrow> mfa_db \<Rightarrow> py_error + mfa_db \<times> bool" where
  "mfa_disable mc now p db =
     ebind (mfa_verify mc now p db) (\<lambda>(db, verified).
     if \<not> verified then Inr (db, False)
     else ebind (principal_of_payload p) (\<lambda>i. Inr (delete_enrollment i db, True)))"

definition regenerate_backup_codes :: "mfa_crypto \<Rightarrow> int \<Rightarrow> string list \<Rightarrow> payload \<Rightarrow> mfa_db \<Rightarrow> py_error + mfa_db \<times> string list option" where
  "regenerate_backup_codes mc now codes p db =
     ebind (mfa_verify mc now p db) (\<lambda>(db, verified).
     ebind (principal_of_payload p) (\<lambda>i.
       Inr (if verified \<and> (case enrollment_of db i of None \<Rightarrow> False | Some r \<Rightarrow> en_confirmed r)
            then (db\<lparr>mdb_codes := filter (\<lambda>r. rc_principal_id r \<noteq> i) (mdb_codes db) @ recovery_rows mc i codes\<rparr>, Some codes)
            else (db, None))))"

section \<open>Laws of base 32\<close>

lemma be_bytes_from: "length bs = n \<Longrightarrow> be_bytes n (from_bytes bs) = bs"
proof (induction bs arbitrary: n rule: rev_induct)
  case (snoc b bs)
  then obtain m where n: "n = Suc m" "length bs = m" by (cases n) auto
  have "(from_bytes bs * 256 + unat b) div 256 = from_bytes bs" using unat_byte_less [of b] by simp
  moreover have "of_nat (from_bytes bs * 256 + unat b) = b"
    by (metis from_bytes_snoc of_nat_add of_nat_mult of_nat_numeral unat_of_nat_byte unsigned_of_nat word_unat_eq_iff unat_byte_less mod_less mod_mult_self3)
  ultimately show ?case using snoc.IH [OF n(2)] n by (simp add: from_bytes_snoc)
qed simp

lemma alphabet_facts:
  "length base32_alphabet = 32" "distinct base32_alphabet"
  "list_all (\<lambda>c. \<not> is_space c \<and> upper_char c = c \<and> c \<noteq> CHR ''='') base32_alphabet"
  by code_simp+

lemma base32_value_nth:
  assumes "i < 32"
  shows "base32_value (base32_alphabet ! i) = Some i"
proof -
  have "takeWhile (\<lambda>d. d \<noteq> base32_alphabet ! i) base32_alphabet = take i base32_alphabet"
  proof (rule takeWhile_eq_take_P_nth)
    show "base32_alphabet ! j \<noteq> base32_alphabet ! i" if "j < i" "j < length base32_alphabet" for j
      using that assms alphabet_facts(1,2) by (simp add: nth_eq_iff_index_eq)
    show "\<not> base32_alphabet ! i \<noteq> base32_alphabet ! i" if "i < length base32_alphabet" by simp
  qed
  then show ?thesis using assms alphabet_facts(1) by (simp add: base32_value_def)
qed

lemma length_base32_digits [simp]: "length (base32_digits n v) = n"
  by (induction n arbitrary: v) auto

lemma base32_digits_alphabet: "set (base32_digits n v) \<subseteq> set base32_alphabet"
  using alphabet_facts(1) by (induction n arbitrary: v) (auto simp: subset_iff)

lemma quantum_digits:
  "efold (\<lambda>c acc. ebind (note_none e (base32_value c)) (\<lambda>v. Inr (acc * 32 + v))) (base32_digits n v) a = Inr (a * 32 ^ n + v mod 32 ^ n)"
proof (induction n arbitrary: v)
  case (Suc n)
  have m: "v mod 32 < 32" by simp
  have "v mod 32 ^ Suc n = (v div 32) mod 32 ^ n * 32 + v mod 32"
    by (metis add.commute mod_mult2_eq mult.commute power_Suc)
  then show ?case by (simp add: efold_append Suc.IH base32_value_nth [OF m])
qed simp

lemma b32_blocks_chunk:
  assumes "length c = 5"
  shows "b32_blocks (c @ bs) = base32_digits 8 (from_bytes c) @ b32_blocks bs"
proof -
  have "c @ bs \<noteq> []" "take 5 (c @ bs) = c" "drop 5 (c @ bs) = bs" using assms by auto
  moreover have "c \<noteq> []" using assms by auto
  ultimately show ?thesis using assms by (subst b32_blocks.simps) simp
qed

lemma b32_quanta_block:
  assumes "length d = 8"
  shows "b32_quanta (d @ s) = ebind (quantum d) (\<lambda>v. ebind (b32_quanta s) (\<lambda>vs. Inr (v # vs)))"
proof -
  have "d @ s \<noteq> []" "take 8 (d @ s) = d" "drop 8 (d @ s) = s" using assms by auto
  moreover have "d \<noteq> []" using assms by auto
  ultimately show ?thesis by (subst b32_quanta.simps) simp
qed

lemma b32_blocks_quanta:
  assumes "length bs mod 5 = 0"
  shows "\<exists>vs. b32_quanta (b32_blocks bs) = Inr vs \<and> concat (map (be_bytes 5) vs) = bs \<and> length (b32_blocks bs) mod 8 = 0 \<and>
    set (b32_blocks bs) \<subseteq> set base32_alphabet"
  using assms
proof (induction "length bs" arbitrary: bs rule: less_induct)
  case less
  show ?case
  proof (cases "bs = []")
    case True
    then have "b32_blocks bs = []" by (subst b32_blocks.simps) simp
    moreover have "b32_quanta [] = Inr []" by (subst b32_quanta.simps) simp
    ultimately show ?thesis using True by simp
  next
    case False
    then have "5 \<le> length bs" using less.prems by (cases "length bs < 5") auto
    then obtain c r where bs: "bs = c @ r" "length c = 5" by (metis append_take_drop_id length_take min.absorb2)
    then have r: "length r mod 5 = 0" "length r < length bs" using less.prems by auto
    obtain vs where vs: "b32_quanta (b32_blocks r) = Inr vs" "concat (map (be_bytes 5) vs) = r" "length (b32_blocks r) mod 8 = 0"
      "set (b32_blocks r) \<subseteq> set base32_alphabet" using less.hyps [OF r(2,1)] by (elim exE conjE) (rule that)
    have "from_bytes c < 32 ^ 8" using from_bytes_less [of c] bs(2) by simp
    then have "quantum (base32_digits 8 (from_bytes c)) = Inr (from_bytes c)"
      unfolding quantum_def quantum_digits by simp
    then have "b32_quanta (b32_blocks bs) = Inr (from_bytes c # vs)"
      unfolding bs(1) b32_blocks_chunk [OF bs(2)] by (simp add: b32_quanta_block vs(1))
    moreover have "concat (map (be_bytes 5) (from_bytes c # vs)) = bs"
      using be_bytes_from [OF bs(2)] vs(2) by (simp add: bs(1))
    moreover have "length (b32_blocks bs) mod 8 = 0" "set (b32_blocks bs) \<subseteq> set base32_alphabet"
      unfolding bs(1) b32_blocks_chunk [OF bs(2)] using vs(3,4) base32_digits_alphabet by (auto simp: mod_add_left_eq)
    ultimately show ?thesis by (intro exI conjI)
  qed
qed

lemma rstrip_alphabet: "set s \<subseteq> set base32_alphabet \<Longrightarrow> rstrip_by (\<lambda>c. c = CHR ''='') s = s"
proof -
  assume s: "set s \<subseteq> set base32_alphabet"
  have "CHR ''='' \<notin> set base32_alphabet" by code_simp
  with s show ?thesis by (intro rstrip_by_id) (metis last_in_set subsetD)
qed

lemma generated_secret_decodes:
  assumes "length random mod 5 = 0" and "16 \<le> length random"
  obtains s where "generate_totp_secret random = Inr s" "decode_base32 s = Inr random"
proof -
  obtain vs where vs: "b32_quanta (b32_blocks random) = Inr vs" "concat (map (be_bytes 5) vs) = random"
    "length (b32_blocks random) mod 8 = 0" "set (b32_blocks random) \<subseteq> set base32_alphabet"
    using b32_blocks_quanta [OF assms(1)] by (elim exE conjE) (rule that)
  let ?s = "b32_blocks random"
  have enc: "rstrip_by (\<lambda>c. c = CHR ''='') (b32encode random) = ?s"
    using rstrip_alphabet [OF vs(4)] by (simp add: b32encode_def b32_padding_def assms Let_def)
  have up: "map upper_char ?s = ?s" "filter (\<lambda>c. \<not> is_space c) ?s = ?s"
    using alphabet_facts(3) vs(4) by (auto simp: list_all_iff subset_iff intro!: map_idI filter_True)
  have "decode_base32 ?s = Inr random"
    using vs rstrip_alphabet [OF vs(4)] by (simp add: decode_base32_def b32decode_def up Let_def)
  with that [of ?s] assms(2) show ?thesis by (simp add: generate_totp_secret_def enc)
qed

section \<open>Properties of the second factor\<close>

text \<open>The secret that is generated decodes to the random bytes it was made of, for every number of bytes that is a
  multiple of five (the code draws twenty), and shorter secrets than 128 bits are refused.\<close>

theorem totp_secret_roundtrip:
  assumes "length random mod 5 = 0"
  shows "if length random < 16 then \<exists>e. generate_totp_secret random = Inl e
    else \<exists>s. generate_totp_secret random = Inr s \<and> decode_base32 s = Inr random"
proof (cases "length random < 16")
  case True
  then show ?thesis by (simp add: generate_totp_secret_def)
next
  case False
  then obtain s where "generate_totp_secret random = Inr s" "decode_base32 s = Inr random"
    using generated_secret_decodes [OF assms] by (metis not_less)
  with False show ?thesis by simp
qed

theorem totp_secret_roundtrip_witness:
  "\<exists>s. generate_totp_secret (replicate 20 0xA5) = Inr s \<and> decode_base32 s = Inr (replicate 20 0xA5)"
  using totp_secret_roundtrip [of "replicate 20 0xA5"] by simp

text \<open>The code of a counter value, as RFC 6238 defines it.\<close>

definition code_at :: "(bytes \<Rightarrow> bytes \<Rightarrow> bytes) \<Rightarrow> bytes \<Rightarrow> int \<Rightarrow> string" where
  "code_at hmac key counter =
     (let digest = hmac key (be_bytes 8 (nat counter));
          offset = unat (last digest AND 0x0F) in
      zfill 6 (nat_str ((from_bytes (take 4 (drop offset digest)) mod 2 ^ 31) mod 10 ^ 6)))"

lemma any_match_pure: "(\<And>x. x \<in> set xs \<Longrightarrow> f x = Inr (g x)) \<Longrightarrow> any_match f xs = Inr (\<exists>x\<in>set xs. g x)"
  by (induction xs) auto

lemma code_in_window:
  assumes "decode_base32 secret = Inr key" "30 \<le> now" "now < 2 ^ 64" "code \<noteq> []" "list_all is_digit code" "length code = 6"
  shows "verify_totp hmac secret code now 1 30 6 = Inr (\<exists>k\<in>{-1, 0, 1}. code = code_at hmac key (now div 30 + k))"
proof -
  have c: "totp_code hmac secret (now + k * 30) 30 6 = Inr (code_at hmac key (now div 30 + k))" if "k \<in> {-1, 0, 1}" for k
  proof -
    have d: "(now + k * 30) div 30 = now div 30 + k" by simp
    have "1 \<le> now div 30" using zdiv_mono1 [OF assms(2), of 30] by simp
    moreover have "now div 30 * 30 \<le> now" by simp
    ultimately have "0 \<le> now div 30 + k" "now div 30 + k < 2 ^ 64" using that assms(3) by auto
    then have "pack_u64 (now div 30 + k) = Inr (be_bytes 8 (nat (now div 30 + k)))" by (simp add: pack_u64_def)
    then show ?thesis by (simp add: totp_code_def assms(1) d code_at_def Let_def)
  qed
  have "any_match (\<lambda>offset. map_sum id (\<lambda>c. c = code) (totp_code hmac secret (now + offset * 30) 30 6)) [- 1..1] =
      Inr (\<exists>k\<in>set [- 1..1]. code_at hmac key (now div 30 + k) = code)"
  proof (rule any_match_pure)
    fix k assume "k \<in> set [- 1..(1::int)]"
    then have "k \<in> {-1, 0, 1}" by auto
    then show "map_sum id (\<lambda>c. c = code) (totp_code hmac secret (now + k * 30) 30 6) = Inr (code_at hmac key (now div 30 + k) = code)"
      by (simp add: c)
  qed
  moreover have "set [- 1..(1::int)] = {-1, 0, 1}" by auto
  ultimately show ?thesis using assms(4-6) by (auto simp: verify_totp_def)
qed

text \<open>C34. A time-based code is accepted exactly in the window of three: six digits that are the code of the current
  thirty-second step, of the one before, or of the one after; nothing else is accepted.\<close>

theorem totp_window_exact:
  assumes "decode_base32 secret = Inr key" and "30 \<le> now" and "now < 2 ^ 64"
  shows "verify_totp hmac secret code now 1 30 6 =
    Inr (list_all is_digit code \<and> length code = 6 \<and> (\<exists>k\<in>{-1, 0, 1}. code = code_at hmac key (now div 30 + k)))"
proof (cases "code \<noteq> [] \<and> list_all is_digit code \<and> length code = 6")
  case True
  then show ?thesis using code_in_window [OF assms] by simp
next
  case False
  then show ?thesis by (auto simp: verify_totp_def)
qed

theorem totp_window_exact_witness:
  "\<exists>secret. verify_totp (\<lambda>key counter. replicate 20 0) secret ''000000'' 1000 1 30 6 = Inr True \<and>
     verify_totp (\<lambda>key counter. replicate 20 0) secret ''000001'' 1000 1 30 6 = Inr False"
proof -
  obtain secret where d: "decode_base32 secret = Inr (replicate 20 0xA5)"
    by (rule generated_secret_decodes [of "replicate 20 0xA5"]) simp_all
  have f: "from_bytes (replicate 4 0) = 0" by (simp add: from_bytes_def eval_nat_numeral)
  have z: "zfill 6 (nat_str 0) = ''000000''" by code_simp
  have c: "code_at (\<lambda>key counter. replicate 20 0) key k = ''000000''" for key k
    by (simp add: code_at_def z f)
  have digits: "list_all is_digit ''000000''" "list_all is_digit ''000001''" by code_simp+
  show ?thesis
    using totp_window_exact [OF d, of 1000 "\<lambda>key counter. replicate 20 0" "''000000''"]
      totp_window_exact [OF d, of 1000 "\<lambda>key counter. replicate 20 0" "''000001''"] digits
    unfolding c by (intro exI [of _ secret]) (simp, blast)
qed

text \<open>Recovery codes: the digests of a principal's unused codes.\<close>

definition unused_digests :: "int \<Rightarrow> recovery_row list \<Rightarrow> string list" where
  "unused_digests i rows = map rc_code_digest (filter (\<lambda>r. rc_principal_id r = i \<and> rc_used_at r = None) rows)"

lemma unused_digests_Cons:
  "unused_digests i (r # rows) =
     (if rc_principal_id r = i \<and> rc_used_at r = None then [rc_code_digest r] else []) @ unused_digests i rows"
  by (simp add: unused_digests_def)

lemma consume_code_iff:
  "(\<exists>rows'. consume_code mc now i code rows = Some rows') \<longleftrightarrow> (\<exists>d\<in>set (unused_digests i rows). mc_check mc d code)"
proof (induction rows)
  case Nil
  then show ?case by (simp add: unused_digests_def)
next
  case (Cons r rows)
  have "(\<exists>rows'. map_option ((#) r) (consume_code mc now i code rows) = Some rows') \<longleftrightarrow>
      (\<exists>rows'. consume_code mc now i code rows = Some rows')" by auto
  then show ?case using Cons by (auto simp: unused_digests_Cons)
qed

lemma consume_code_removes:
  assumes "consume_code mc now i code rows = Some rows'"
  obtains xs d ys where "unused_digests i rows = xs @ d # ys" "unused_digests i rows' = xs @ ys" "mc_check mc d code"
    "\<forall>x\<in>set xs. \<not> mc_check mc x code"
proof -
  have "\<exists>xs d ys. unused_digests i rows = xs @ d # ys \<and> unused_digests i rows' = xs @ ys \<and> mc_check mc d code \<and>
      (\<forall>x\<in>set xs. \<not> mc_check mc x code)"
    using assms
  proof (induction rows arbitrary: rows')
    case Nil
    then show ?case by simp
  next
    case (Cons r rows)
    show ?case
    proof (cases "rc_principal_id r = i \<and> rc_used_at r = None \<and> mc_check mc (rc_code_digest r) code")
      case True
      then have "unused_digests i (r # rows) = [] @ rc_code_digest r # unused_digests i rows"
        "unused_digests i rows' = [] @ unused_digests i rows"
        using Cons.prems by (auto simp: unused_digests_Cons)
      with True show ?thesis by fastforce
    next
      case False
      with Cons.prems obtain rows1 where r1: "consume_code mc now i code rows = Some rows1" "rows' = r # rows1" by auto
      define pre where "pre = (if rc_principal_id r = i \<and> rc_used_at r = None then [rc_code_digest r] else [])"
      from Cons.IH [OF r1(1)] obtain xs d ys where d: "unused_digests i rows = xs @ d # ys" "unused_digests i rows1 = xs @ ys"
        "mc_check mc d code" "\<forall>x\<in>set xs. \<not> mc_check mc x code" by blast
      have "unused_digests i (r # rows) = (pre @ xs) @ d # ys" "unused_digests i rows' = (pre @ xs) @ ys"
        by (simp_all only: unused_digests_Cons r1(2) d(1,2) pre_def append_assoc)
      moreover have "\<forall>x\<in>set (pre @ xs). \<not> mc_check mc x code" using False d(4) by (auto simp: pre_def)
      ultimately show ?thesis using d(3) by blast
    qed
  qed
  with that show ?thesis by blast
qed

lemma consume_code_others:
  assumes "consume_code mc now i code rows = Some rows'" and "j \<noteq> i"
  shows "unused_digests j rows' = unused_digests j rows"
  using assms(1)
proof (induction rows arbitrary: rows')
  case Nil
  then show ?case by simp
next
  case (Cons r rows)
  show ?case
  proof (cases "rc_principal_id r = i \<and> rc_used_at r = None \<and> mc_check mc (rc_code_digest r) code")
    case True
    then show ?thesis using Cons.prems assms(2) by (auto simp: unused_digests_Cons)
  next
    case False
    with Cons.prems obtain rows1 where "consume_code mc now i code rows = Some rows1" "rows' = r # rows1" by auto
    then show ?thesis using Cons.IH by (simp add: unused_digests_Cons)
  qed
qed

text \<open>How many more times a code can be used by a principal.\<close>

definition uses_left :: "mfa_crypto \<Rightarrow> int \<Rightarrow> string \<Rightarrow> mfa_db \<Rightarrow> nat" where
  "uses_left mc i code db = length (filter (\<lambda>d. mc_check mc d code) (unused_digests i (mdb_codes db)))"

lemma recovery_verify:
  assumes "principal_of_payload p = Inr i" "length (text_field ''code'' p) \<noteq> 6"
    and "enrollment_of db i = Some row" "en_confirmed row" "stored_secret mc row = Inr secret"
  shows "mfa_verify mc now p db =
    (case consume_code mc now i (text_field ''code'' p) (mdb_codes db) of
       None \<Rightarrow> Inr (db, False) | Some codes \<Rightarrow> Inr (db\<lparr>mdb_codes := codes\<rparr>, True))"
  using assms by (simp add: mfa_verify_def code_matches_def verify_totp_def Let_def)

text \<open>C33. A recovery code (ten characters, never six) lets a principal in exactly as often as it has unused digests of
  it: the verification succeeds when one is left, uses up exactly one, and touches neither the codes of another
  principal nor an enrolment.\<close>

theorem recovery_code_counted:
  assumes "principal_of_payload p = Inr i" and "text_field ''code'' p = code" and "length code \<noteq> 6"
    and "enrollment_of db i = Some row" and "en_confirmed row" and "stored_secret mc row = Inr secret"
  shows "\<exists>db'. mfa_verify mc now p db = Inr (db', 0 < uses_left mc i code db) \<and>
    uses_left mc i code db' = uses_left mc i code db - 1 \<and> mdb_enrollments db' = mdb_enrollments db \<and>
    (\<forall>j. j \<noteq> i \<longrightarrow> unused_digests j (mdb_codes db') = unused_digests j (mdb_codes db))"
proof (cases "consume_code mc now i code (mdb_codes db)")
  case None
  then have "uses_left mc i code db = 0"
    using consume_code_iff [of mc now i code "mdb_codes db"] by (auto simp: uses_left_def filter_empty_conv)
  moreover have "mfa_verify mc now p db = Inr (db, False)"
    using recovery_verify [of p i db row mc secret now] assms None by simp
  ultimately show ?thesis by simp
next
  case (Some codes)
  obtain xs d ys where d: "unused_digests i (mdb_codes db) = xs @ d # ys" "unused_digests i codes = xs @ ys" "mc_check mc d code"
    using consume_code_removes [OF Some] by metis
  have "uses_left mc i code db = Suc (uses_left mc i code (db\<lparr>mdb_codes := codes\<rparr>))"
    using d by (simp add: uses_left_def)
  moreover have "mfa_verify mc now p db = Inr (db\<lparr>mdb_codes := codes\<rparr>, True)"
    using recovery_verify [of p i db row mc secret now] assms Some by simp
  ultimately show ?thesis using consume_code_others [OF Some] by (intro exI [of _ "db\<lparr>mdb_codes := codes\<rparr>"]) simp
qed

theorem recovery_code_counted_witness:
  "let mc = \<lparr>mc_encrypt = id, mc_decrypt = Some, mc_hash = id, mc_check = (=), mc_hmac_sha1 = \<lambda>k m. []\<rparr>;
       p = [(''principal_id'', PInt 7), (''code'', PStr ''0123456789'')];
       db = \<lparr>mdb_enrollments = [\<lparr>en_principal_id = 7, en_encrypted_secret = ''s'', en_confirmed = True\<rparr>],
         mdb_codes = recovery_rows mc 7 [''0123456789'', ''abcdefabcd'']\<rparr> in
     (\<exists>db'. mfa_verify mc 5 p db = Inr (db', True) \<and> uses_left mc 7 ''0123456789'' db' = 0)"
proof -
  define mc where "mc = \<lparr>mc_encrypt = id, mc_decrypt = Some, mc_hash = id, mc_check = (=), mc_hmac_sha1 = \<lambda>k m. []\<rparr>"
  define p where "p = [(''principal_id'', PInt 7), (''code'', PStr ''0123456789'')]"
  define row where "row = \<lparr>en_principal_id = 7, en_encrypted_secret = ''s'', en_confirmed = True\<rparr>"
  define db where "db = \<lparr>mdb_enrollments = [row], mdb_codes = recovery_rows mc 7 [''0123456789'', ''abcdefabcd'']\<rparr>"
  have p: "principal_of_payload p = Inr 7" "text_field ''code'' p = ''0123456789''"
    unfolding p_def by (code_simp, code_simp)
  have u: "uses_left mc 7 ''0123456789'' db = 1"
    by (simp add: uses_left_def unused_digests_def db_def recovery_rows_def mc_def)
  have row: "enrollment_of db 7 = Some row" "en_confirmed row" "stored_secret mc row = Inr ''s''"
    by (simp_all add: enrollment_of_def db_def row_def stored_secret_def mc_def)
  show ?thesis
    using recovery_code_counted [OF p(1) p(2) _ row, of 5] u
    unfolding Let_def mc_def [symmetric] p_def [symmetric] row_def [symmetric] db_def [symmetric] by auto
qed

end
