(* ===== verification/Tokens.thy ===== *)
theory Tokens
  imports Identity
begin

text \<open>
  Bearer credentials: \<open>identity/api_keys.py\<close>, the personal access tokens of \<open>tables/tokens.py\<close>, the browser
  sessions of \<open>tables/sessions.py\<close>, and \<open>api/security.py\<close>, which turns a token into the principal of a request.
  Random prefixes, secrets and ids are arguments, and so are the clock and the hash functions. A principal in an
  operation's context is the model that the security dependency returns.
\<close>

section \<open>API keys\<close>

record key_hashes =
  kh_bcrypt :: "string \<Rightarrow> string"
  kh_bcrypt_check :: "string \<Rightarrow> string \<Rightarrow> bool"
  kh_argon_check :: "string \<Rightarrow> string \<Rightarrow> bool"
  kh_sha256 :: "string \<Rightarrow> string"
  kh_dummy :: string

definition bcrypt_input :: "key_hashes \<Rightarrow> string \<Rightarrow> py_error + string" where
  "bcrypt_input kh secret =
     (if secret = [] then Inl (ValueError ''API key must not be empty'') else Inr (kh_sha256 kh (''portwyrm-pat-v1:'' @ secret)))"

definition hash_api_key :: "key_hashes \<Rightarrow> string \<Rightarrow> py_error + string" where
  "hash_api_key kh secret = map_sum id (kh_bcrypt kh) (bcrypt_input kh secret)"

definition verify_api_key :: "key_hashes \<Rightarrow> string \<Rightarrow> string \<Rightarrow> py_error + bool" where
  "verify_api_key kh digest secret =
     (if startswith ''$argon2'' digest then Inr (kh_argon_check kh digest secret)
      else map_sum id (kh_bcrypt_check kh (if digest = [] then kh_dummy kh else digest)) (bcrypt_input kh secret))"

section \<open>Personal access tokens\<close>

record pat_row =
  pt_id :: int
  pt_principal_id :: int
  pt_name :: string
  pt_token_prefix :: string
  pt_token_digest :: string
  pt_scopes :: "string list"
  pt_expires_at :: "int option"
  pt_last_used_at :: "int option"
  pt_revoked_at :: "int option"
  pt_replaced_by_id :: "int option"

text \<open>What \<open>secrets\<close> gives for a new token.\<close>

record fresh_token =
  ft_id :: int
  ft_prefix :: string
  ft_secret :: string

definition plaintext :: "fresh_token \<Rightarrow> string" where
  "plaintext ft = ''pwyrm_'' @ ft_prefix ft @ ''_'' @ ft_secret ft"

definition by_prefix :: "string \<Rightarrow> pat_row list \<Rightarrow> pat_row option" where
  "by_prefix prefix rows = find (\<lambda>r. pt_token_prefix r = prefix) rows"

definition authorize_owner :: "security_principal option \<Rightarrow> int \<Rightarrow> string \<Rightarrow> py_error + unit" where
  "authorize_owner actor owner action =
     (case actor of
        None \<Rightarrow> Inr ()
      | Some p \<Rightarrow> ensure (sp_user_id p = owner \<or> may_manage_foreign_tokens p action)
                    (PermissionError ''access-token permission required''))"

definition new_token :: "key_hashes \<Rightarrow> int \<Rightarrow> fresh_token \<Rightarrow> payload \<Rightarrow> py_error + pat_row" where
  "new_token kh now ft p =
     (let name = strip (text_field ''name'' p) in
      ebind (ensure (name \<noteq> []) (ValueError ''PAT name must not be empty'')) (\<lambda>_.
      ebind (case pget ''expires_at'' p of PNone \<Rightarrow> Inr None | v \<Rightarrow> map_sum id Some (py_int v)) (\<lambda>expires_at.
      ebind (ensure (case expires_at of None \<Rightarrow> True | Some t \<Rightarrow> now < t) (ValueError ''PAT expiry must be in the future'')) (\<lambda>_.
      ebind (hash_api_key kh (plaintext ft)) (\<lambda>digest.
      ebind (principal_of_payload p) (\<lambda>i.
      ebind (normalize_token_scopes (py_or (pget ''scopes'' p) (PList []))) (\<lambda>scopes.
        Inr \<lparr>pt_id = ft_id ft, pt_principal_id = i, pt_name = name, pt_token_prefix = ft_prefix ft, pt_token_digest = digest,
          pt_scopes = sort scopes, pt_expires_at = expires_at, pt_last_used_at = None, pt_revoked_at = None,
          pt_replaced_by_id = None\<rparr>)))))))"

text \<open>The primary key and the unique prefix are the database's checks of an insertion.\<close>

definition insert_token :: "pat_row \<Rightarrow> pat_row list \<Rightarrow> py_error + pat_row list" where
  "insert_token row rows =
     (if \<exists>r\<in>set rows. pt_id r = pt_id row \<or> pt_token_prefix r = pt_token_prefix row
      then Inl (RuntimeError ''UNIQUE constraint failed'') else Inr (rows @ [row]))"

definition pat_issue :: "key_hashes \<Rightarrow> security_principal option \<Rightarrow> int \<Rightarrow> fresh_token \<Rightarrow> payload \<Rightarrow> pat_row list \<Rightarrow>
    py_error + pat_row list \<times> pat_row" where
  "pat_issue kh actor now ft p rows =
     ebind (principal_of_payload p) (\<lambda>i.
     ebind (authorize_owner actor i ''create'') (\<lambda>_.
     ebind (new_token kh now ft p) (\<lambda>row.
     ebind (insert_token row rows) (\<lambda>rows. Inr (rows, row)))))"

definition update_token :: "string \<Rightarrow> (pat_row \<Rightarrow> pat_row) \<Rightarrow> pat_row list \<Rightarrow> pat_row list" where
  "update_token prefix f rows = update_where (\<lambda>r. pt_token_prefix r = prefix) f rows"

definition pat_revoke :: "security_principal option \<Rightarrow> int \<Rightarrow> string \<Rightarrow> pat_row list \<Rightarrow> py_error + pat_row list \<times> bool" where
  "pat_revoke actor now prefix rows =
     (case by_prefix prefix rows of
        None \<Rightarrow> Inr (rows, False)
      | Some row \<Rightarrow>
          ebind (authorize_owner actor (pt_principal_id row) ''delete'') (\<lambda>_.
            Inr (update_token prefix (\<lambda>r. if pt_revoked_at r = None then r\<lparr>pt_revoked_at := Some now\<rparr> else r) rows, True)))"

definition live_token :: "string \<Rightarrow> pat_row list \<Rightarrow> py_error + pat_row" where
  "live_token prefix rows =
     (case by_prefix prefix rows of
        None \<Rightarrow> Inl (ValueError ''token not found or revoked'')
      | Some row \<Rightarrow> if pt_revoked_at row \<noteq> None then Inl (ValueError ''token not found or revoked'') else Inr row)"

definition pat_refresh :: "security_principal option \<Rightarrow> int \<Rightarrow> string \<Rightarrow> pyval \<Rightarrow> pat_row list \<Rightarrow> py_error + pat_row list \<times> int" where
  "pat_refresh actor now prefix expires rows =
     ebind (live_token prefix rows) (\<lambda>row.
     ebind (authorize_owner actor (pt_principal_id row) ''update'') (\<lambda>_.
     ebind (py_int expires) (\<lambda>expires_at.
     ebind (ensure (now < expires_at) (ValueError ''PAT expiry must be in the future'')) (\<lambda>_.
       Inr (update_token prefix (\<lambda>r. r\<lparr>pt_expires_at := Some expires_at\<rparr>) rows, expires_at)))))"

definition pat_rotate :: "key_hashes \<Rightarrow> security_principal option \<Rightarrow> int \<Rightarrow> fresh_token \<Rightarrow> string \<Rightarrow> pat_row list \<Rightarrow>
    py_error + pat_row list \<times> pat_row" where
  "pat_rotate kh actor now ft prefix rows =
     ebind (live_token prefix rows) (\<lambda>row.
     ebind (authorize_owner actor (pt_principal_id row) ''update'') (\<lambda>_.
     ebind (new_token kh now ft
        [(''principal_id'', PInt (pt_principal_id row)), (''name'', PStr (pt_name row)),
         (''scopes'', PList (map PStr (pt_scopes row))),
         (''expires_at'', case pt_expires_at row of None \<Rightarrow> PNone | Some t \<Rightarrow> PInt t)]) (\<lambda>replacement.
     ebind (insert_token replacement rows) (\<lambda>rows.
       Inr (update_token prefix (\<lambda>r. r\<lparr>pt_revoked_at := Some now, pt_replaced_by_id := Some (pt_id replacement)\<rparr>) rows,
            replacement)))))"

text \<open>\<open>token.split("_", 2)\<close>.\<close>

definition token_parts :: "string \<Rightarrow> string list" where
  "token_parts token =
     (case partition_at CHR ''_'' token of
        None \<Rightarrow> [token]
      | Some (a, rest) \<Rightarrow>
          (case partition_at CHR ''_'' rest of None \<Rightarrow> [a, rest] | Some (b, c) \<Rightarrow> [a, b, c]))"

definition last_used_interval :: int where
  "last_used_interval = 300"

definition pat_verify :: "key_hashes \<Rightarrow> int \<Rightarrow> identity_db \<Rightarrow> string \<Rightarrow> pat_row list \<Rightarrow> py_error + pat_row list \<times> payload" where
  "pat_verify kh now db token rows =
     (case token_parts token of
        [scheme, prefix, _] \<Rightarrow>
          if scheme \<noteq> ''pwyrm'' then Inl (ValueError ''invalid token'')
          else
            let row = by_prefix prefix rows in
            ebind (verify_api_key kh (case row of None \<Rightarrow> [] | Some r \<Rightarrow> pt_token_digest r) token) (\<lambda>matches.
            case row of
              None \<Rightarrow> Inl (ValueError ''invalid token'')
            | Some r \<Rightarrow>
                if \<not> matches \<or> pt_revoked_at r \<noteq> None \<or> (case pt_expires_at r of None \<Rightarrow> False | Some t \<Rightarrow> t \<le> now)
                then Inl (ValueError ''invalid token'')
                else
                  (case find_principal db (pt_principal_id r) of
                     None \<Rightarrow> Inl (ValueError ''invalid token'')
                   | Some owner \<Rightarrow>
                       if pc_is_disabled owner \<or> pc_is_deleted owner then Inl (ValueError ''invalid token'')
                       else Inr
                         (if (case pt_last_used_at r of None \<Rightarrow> True | Some t \<Rightarrow> last_used_interval \<le> now - t)
                          then update_token prefix (\<lambda>r. r\<lparr>pt_last_used_at := Some now\<rparr>) rows else rows,
                          [(''principal_id'', PInt (pc_id owner)), (''email'', PStr (pc_email owner)),
                           (''display_name'', PStr (pc_display_name owner)), (''is_admin'', PBool (pc_is_admin owner)),
                           (''scopes'', PList (map PStr (pt_scopes r)))])))
      | _ \<Rightarrow> Inl (ValueError ''invalid token''))"

section \<open>Browser sessions\<close>

record session_row =
  bs_token_id :: string
  bs_token_digest :: string
  bs_principal_snapshot :: payload
  bs_expires_at :: int

definition session_token :: "string \<Rightarrow> string \<Rightarrow> string" where
  "session_token token_id secret = ''pws_'' @ token_id @ ''_'' @ secret"

definition session_issue :: "(string \<Rightarrow> string) \<Rightarrow> int \<Rightarrow> string \<Rightarrow> string \<Rightarrow> payload \<Rightarrow> session_row list \<Rightarrow>
    py_error + session_row list \<times> string \<times> int" where
  "session_issue hash now token_id secret p rows =
     ebind (py_int (py_or (pget ''expires_at'' p) (PInt (now + 86400)))) (\<lambda>expires_at.
     ebind (dict_or_empty (pget ''principal'' p)) (\<lambda>snapshot.
       if \<exists>r\<in>set rows. bs_token_id r = token_id then Inl (RuntimeError ''UNIQUE constraint failed'')
       else Inr (rows @ [\<lparr>bs_token_id = token_id, bs_token_digest = hash (session_token token_id secret),
                    bs_principal_snapshot = snapshot, bs_expires_at = expires_at\<rparr>],
                 session_token token_id secret, expires_at)))"

definition token_id_of :: "string \<Rightarrow> string option" where
  "token_id_of token = (case token_parts token of [scheme, i, _] \<Rightarrow> if scheme = ''pws'' then Some i else None | _ \<Rightarrow> None)"

definition session_verify :: "(string \<Rightarrow> string \<Rightarrow> bool) \<Rightarrow> int \<Rightarrow> string \<Rightarrow> session_row list \<Rightarrow> py_error + payload" where
  "session_verify check now token rows =
     (case Option.bind (token_id_of token) (\<lambda>i. find (\<lambda>r. bs_token_id r = i) rows) of
        None \<Rightarrow> Inl (ValueError ''invalid token'')
      | Some row \<Rightarrow>
          if bs_expires_at row \<le> now \<or> \<not> check (bs_token_digest row) token then Inl (ValueError ''invalid token'')
          else Inr (bs_principal_snapshot row))"

definition session_revoke :: "(string \<Rightarrow> string \<Rightarrow> bool) \<Rightarrow> string \<Rightarrow> session_row list \<Rightarrow> session_row list \<times> bool" where
  "session_revoke check token rows =
     (case Option.bind (token_id_of token) (\<lambda>i. find (\<lambda>r. bs_token_id r = i) rows) of
        None \<Rightarrow> (rows, False)
      | Some row \<Rightarrow>
          if \<not> check (bs_token_digest row) token then (rows, False)
          else (filter (\<lambda>r. bs_token_id r \<noteq> bs_token_id row) rows, True))"

section \<open>The identity of a request\<close>

record identity_state =
  is_db :: identity_db
  is_tokens :: "pat_row list"
  is_sessions :: "session_row list"

record crypto =
  cy_keys :: key_hashes
  cy_hash :: "string \<Rightarrow> string"
  cy_check :: "string \<Rightarrow> string \<Rightarrow> bool"

definition snapshot_of :: "security_principal \<Rightarrow> payload" where
  "snapshot_of p = [(''principal_id'', PInt (sp_user_id p)), (''email'', PStr (sp_identity p)),
     (''display_name'', PStr (sp_display_name p)), (''is_admin'', PBool (sp_is_admin p)),
     (''must_change_password'', PBool (sp_must_change_password p)), (''permissions'', PDict (sp_permissions p)),
     (''scopes'', PList (map PStr (sort (sp_scopes p)))), (''visibility'', PStr (sp_visibility p)), (''owner'', sp_owner p)]"

definition issue_session :: "crypto \<Rightarrow> int \<Rightarrow> int \<Rightarrow> string \<Rightarrow> string \<Rightarrow> security_principal \<Rightarrow> identity_state \<Rightarrow>
    py_error + identity_state \<times> string \<times> int" where
  "issue_session cy now ttl token_id secret p st =
     ebind (session_issue (cy_hash cy) now token_id secret
        [(''principal'', PDict (snapshot_of p)), (''expires_at'', PInt (now + ttl))] (is_sessions st)) (\<lambda>(rows, token, expires).
       Inr (st\<lparr>is_sessions := rows\<rparr>, token, expires))"

definition verified_payload :: "crypto \<Rightarrow> int \<Rightarrow> string \<Rightarrow> identity_state \<Rightarrow> py_error + identity_state \<times> payload" where
  "verified_payload cy now token st =
     (if startswith ''pws_'' token
      then map_sum id (\<lambda>p. (st, p)) (session_verify (cy_check cy) now token (is_sessions st))
      else map_sum id (\<lambda>(rows, p). (st\<lparr>is_tokens := rows\<rparr>, p)) (pat_verify (cy_keys cy) now (is_db st) token (is_tokens st)))"

text \<open>The scopes of a verified payload; both kinds of token store a list of strings.\<close>

definition payload_scopes :: "payload \<Rightarrow> string list" where
  "payload_scopes p = (case pget ''scopes'' p of PList xs \<Rightarrow> if xs = [] then [''user''] else remdups (map py_str xs) | _ \<Rightarrow> [''user''])"

text \<open>\<open>verify\<close>: the authority comes from the current rows of the principal, narrowed by the scopes of the token.\<close>

definition identity_verify :: "crypto \<Rightarrow> int \<Rightarrow> string \<Rightarrow> identity_state \<Rightarrow> py_error + identity_state \<times> security_principal" where
  "identity_verify cy now token st =
     ebind (verified_payload cy now token st) (\<lambda>(st, p).
     let scopes = payload_scopes p in
     ebind (py_int (dict_get_or p ''principal_id'' (pget ''user_id'' p))) (\<lambda>i.
     ebind (resolve i (sort scopes) (pget ''owner'' p) (is_db st)) (\<lambda>sp.
     ebind (effective_token_authority (PList (map PStr scopes)) (sp_permissions sp) (sp_is_admin sp)) (\<lambda>(permissions, adm, normalized).
       Inr (st, sp\<lparr>sp_is_admin := adm, sp_permissions := permissions, sp_scopes := normalized\<rparr>)))))"

definition refresh_session :: "crypto \<Rightarrow> int \<Rightarrow> int \<Rightarrow> string \<Rightarrow> string \<Rightarrow> string \<Rightarrow> identity_state \<Rightarrow>
    py_error + identity_state \<times> string \<times> int" where
  "refresh_session cy now ttl token_id secret token st =
     ebind (identity_verify cy now token st) (\<lambda>(st, p).
       issue_session cy now ttl token_id secret p (st\<lparr>is_sessions := fst (session_revoke (cy_check cy) token (is_sessions st))\<rparr>))"

section \<open>The security dependency\<close>

text \<open>The status of the answer; the framework hands on an exception of an operation as an HTTP error of its own,
  and the dependency answers both with 401.\<close>

datatype http_error = Http int

definition http_unauthorized :: "py_error \<Rightarrow> http_error" where
  "http_unauthorized e =
     (case e of ValueError _ \<Rightarrow> Http 401 | DomainValidationError _ \<Rightarrow> Http 401 | CollisionError _ \<Rightarrow> Http 401 | _ \<Rightarrow> Http 500)"

definition request_principal :: "crypto \<Rightarrow> int \<Rightarrow> bool \<Rightarrow> bool \<Rightarrow> string option \<Rightarrow> identity_state \<Rightarrow>
    http_error + identity_state \<times> security_principal" where
  "request_principal cy now mfa_only allow_password_change token st =
     (case (case token of None \<Rightarrow> [] | Some t \<Rightarrow> t) of
        [] \<Rightarrow> Inl (Http 401)
      | t \<Rightarrow>
          (case identity_verify cy now t st of
             Inl e \<Rightarrow> Inl (http_unauthorized e)
           | Inr (st, p) \<Rightarrow>
               if mfa_only \<and> set (sp_scopes p) \<noteq> {''mfa''} then Inl (Http 403)
               else if \<not> mfa_only \<and> ''user'' \<notin> set (sp_scopes p) then Inl (Http 403)
               else if sp_must_change_password p \<and> \<not> allow_password_change then Inl (Http 403)
               else Inr (st, p)))"

text \<open>The challenge of a sign-in that still needs a second factor.\<close>

definition mfa_challenge :: "int \<Rightarrow> string \<Rightarrow> security_principal" where
  "mfa_challenge i email = \<lparr>sp_user_id = i, sp_identity = email, sp_display_name = [], sp_is_admin = False,
     sp_must_change_password = False, sp_permissions = [], sp_visibility = ''user'', sp_scopes = [''mfa''], sp_owner = PNone\<rparr>"

section \<open>Laws of tokens\<close>

definition tokens_ok :: "pat_row list \<Rightarrow> bool" where
  "tokens_ok rows \<longleftrightarrow> distinct (map pt_token_prefix rows)"

text \<open>Any operation on the token table, by anybody.\<close>

inductive pat_step :: "pat_row list \<Rightarrow> pat_row list \<Rightarrow> bool" where
  issue: "pat_issue kh actor now ft p rows = Inr (rows', row) \<Longrightarrow> pat_step rows rows'"
| revoke: "pat_revoke actor now prefix rows = Inr (rows', b) \<Longrightarrow> pat_step rows rows'"
| refresh: "pat_refresh actor now prefix v rows = Inr (rows', t) \<Longrightarrow> pat_step rows rows'"
| rotate: "pat_rotate kh actor now ft prefix rows = Inr (rows', row) \<Longrightarrow> pat_step rows rows'"
| verify: "pat_verify kh now db token rows = Inr (rows', p) \<Longrightarrow> pat_step rows rows'"

inductive_cases pat_stepE: "pat_step rows rows'"

text \<open>A row with this prefix is there, and it is revoked.\<close>

definition revoked :: "string \<Rightarrow> pat_row list \<Rightarrow> bool" where
  "revoked prefix rows \<longleftrightarrow> tokens_ok rows \<and> (\<exists>r. by_prefix prefix rows = Some r \<and> pt_revoked_at r \<noteq> None)"

lemma find_append: "find p (xs @ ys) = (case find p xs of None \<Rightarrow> find p ys | Some x \<Rightarrow> Some x)"
  by (induction xs) auto

lemma by_prefix_update:
  assumes "\<And>r. pt_token_prefix (f r) = pt_token_prefix r"
  shows "by_prefix q (update_token prefix f rows) = map_option (\<lambda>r. if q = prefix then f r else r) (by_prefix q rows)"
proof -
  have "by_prefix q (update_token prefix f rows) = map_option (\<lambda>r. if pt_token_prefix r = prefix then f r else r) (by_prefix q rows)"
    unfolding by_prefix_def update_token_def by (rule find_update_where) (rule assms)
  moreover have "pt_token_prefix r = q" if "by_prefix q rows = Some r" for r
    using that by (auto simp: by_prefix_def find_Some_iff)
  ultimately show ?thesis by (cases "by_prefix q rows") simp_all
qed

lemma tokens_ok_update: "(\<And>r. pt_token_prefix (f r) = pt_token_prefix r) \<Longrightarrow> tokens_ok (update_token prefix f rows) = tokens_ok rows"
  by (simp add: tokens_ok_def update_token_def map_update_where)

lemma insert_token_Inr:
  "insert_token row rows = Inr rows' \<longleftrightarrow> rows' = rows @ [row] \<and> pt_token_prefix row \<notin> pt_token_prefix ` set rows \<and> pt_id row \<notin> pt_id ` set rows"
  by (force simp: insert_token_def image_iff)

lemma insert_keeps:
  assumes "insert_token row rows = Inr rows'"
  shows "revoked q rows \<Longrightarrow> revoked q rows'" "tokens_ok rows \<Longrightarrow> tokens_ok rows'"
  using assms by (auto simp: insert_token_Inr revoked_def tokens_ok_def by_prefix_def find_append)

lemma update_keeps:
  assumes "\<And>r. pt_token_prefix (f r) = pt_token_prefix r" "\<And>r. pt_revoked_at r \<noteq> None \<Longrightarrow> pt_revoked_at (f r) \<noteq> None"
  shows "revoked q rows \<Longrightarrow> revoked q (update_token prefix f rows)"
  using assms by (cases "q = prefix") (auto simp: revoked_def tokens_ok_update by_prefix_update)

lemma revoked_step:
  assumes "pat_step rows rows'" "revoked q rows"
  shows "revoked q rows'"
  using assms(1)
proof (rule pat_stepE)
  fix kh actor now ft p row assume "pat_issue kh actor now ft p rows = Inr (rows', row)"
  then show ?thesis using insert_keeps(1) assms(2) by (auto simp: pat_issue_def result_simps)
next
  fix actor now prefix b assume "pat_revoke actor now prefix rows = Inr (rows', b)"
  then have "rows' = rows \<or> rows' = update_token prefix (\<lambda>r. if pt_revoked_at r = None then r\<lparr>pt_revoked_at := Some now\<rparr> else r) rows"
    by (auto simp: pat_revoke_def result_simps split: option.splits)
  then show ?thesis using assms(2) by (auto intro: update_keeps)
next
  fix actor now prefix v t assume "pat_refresh actor now prefix v rows = Inr (rows', t)"
  then obtain e where "rows' = update_token prefix (\<lambda>r. r\<lparr>pt_expires_at := Some e\<rparr>) rows"
    by (auto simp: pat_refresh_def result_simps)
  then show ?thesis using assms(2) by (auto intro: update_keeps)
next
  fix kh actor now ft prefix row assume "pat_rotate kh actor now ft prefix rows = Inr (rows', row)"
  then obtain rows1 i where "insert_token row rows = Inr rows1"
    "rows' = update_token prefix (\<lambda>r. r\<lparr>pt_revoked_at := Some now, pt_replaced_by_id := Some i\<rparr>) rows1"
    by (auto simp: pat_rotate_def result_simps)
  then show ?thesis using insert_keeps(1) [of row rows rows1 q] assms(2) by (auto intro: update_keeps)
next
  fix kh now db token p assume "pat_verify kh now db token rows = Inr (rows', p)"
  then have "rows' = rows \<or> (\<exists>prefix. rows' = update_token prefix (\<lambda>r. r\<lparr>pt_last_used_at := Some now\<rparr>) rows)"
    by (auto simp: pat_verify_def result_simps Let_def split: list.splits option.splits if_splits)
  then show ?thesis using assms(2) by (auto intro: update_keeps)
qed

interpretation pat: state_machine "revoked q" pat_step "revoked q" for q
  by unfold_locales (auto intro: revoked_step)

lemma revoked_refused:
  assumes "revoked q rows" "token_parts token = [scheme, q, secret]"
  shows "\<exists>e. pat_verify kh now db token rows = Inl e"
proof -
  from assms obtain r where r: "by_prefix q rows = Some r" "pt_revoked_at r \<noteq> None" by (auto simp: revoked_def)
  then show ?thesis
    by (cases "verify_api_key kh (pt_token_digest r) token") (simp_all add: pat_verify_def assms(2) Let_def)
qed

text \<open>C18. A token that was revoked or rotated is refused for ever: after the revocation, whatever anybody does with
  the token table, verifying a token with that prefix fails, at every time, and refreshing or rotating it fails too.\<close>

theorem revoked_for_ever:
  assumes "tokens_ok rows" and "by_prefix prefix rows = Some r"
    and "pat_revoke actor now prefix rows = Inr (rows1, b) \<or> pat_rotate kh actor now ft prefix rows = Inr (rows1, new)"
    and "pat_step\<^sup>*\<^sup>* rows1 rows2"
    and "token_parts token = [scheme, prefix, secret]"
  shows "(\<exists>e. pat_verify kh' now' db token rows2 = Inl e) \<and> (\<exists>e. pat_refresh actor' now' prefix v rows2 = Inl e) \<and>
    (\<exists>e. pat_rotate kh' actor' now' ft' prefix rows2 = Inl e)"
proof -
  have "revoked prefix rows1"
    using assms(3)
  proof
    assume "pat_revoke actor now prefix rows = Inr (rows1, b)"
    then have "rows1 = update_token prefix (\<lambda>r. if pt_revoked_at r = None then r\<lparr>pt_revoked_at := Some now\<rparr> else r) rows"
      by (auto simp: pat_revoke_def assms(2) result_simps)
    then show ?thesis using assms(1,2) by (simp add: revoked_def tokens_ok_update by_prefix_update)
  next
    assume "pat_rotate kh actor now ft prefix rows = Inr (rows1, new)"
    then obtain rows' i where i: "insert_token new rows = Inr rows'"
      "rows1 = update_token prefix (\<lambda>r. r\<lparr>pt_revoked_at := Some now, pt_replaced_by_id := Some i\<rparr>) rows'"
      by (auto simp: pat_rotate_def result_simps)
    then have "by_prefix prefix rows' = Some r" "tokens_ok rows'"
      using assms(1,2) by (auto simp: insert_token_Inr by_prefix_def find_append insert_keeps tokens_ok_def)
    with i(2) show ?thesis by (simp add: revoked_def tokens_ok_update by_prefix_update)
  qed
  then have rev: "revoked prefix rows2" using pat.steps_inv [OF assms(4)] by blast
  then have "live_token prefix rows2 = Inl (ValueError ''token not found or revoked'')"
    by (auto simp: revoked_def live_token_def)
  with revoked_refused [OF rev assms(5)] show ?thesis by (simp add: pat_refresh_def pat_rotate_def)
qed

definition sample_keys :: key_hashes where
  "sample_keys = \<lparr>kh_bcrypt = (\<lambda>s. CHR ''#'' # s), kh_bcrypt_check = (\<lambda>d s. d = CHR ''#'' # s), kh_argon_check = (\<lambda>d s. False),
     kh_sha256 = (\<lambda>s. s), kh_dummy = ''-''\<rparr>"

definition sample_token :: pat_row where
  "sample_token = \<lparr>pt_id = 1, pt_principal_id = 1, pt_name = ''ci'', pt_token_prefix = ''ab'',
     pt_token_digest = ''#portwyrm-pat-v1:pwyrm_ab_secret'', pt_scopes = [''proxy_hosts:read'', ''user''], pt_expires_at = None,
     pt_last_used_at = None, pt_revoked_at = None, pt_replaced_by_id = None\<rparr>"

lemma sample_token_verifies:
  "\<exists>rows p. pat_verify sample_keys 1000 sample_identities ''pwyrm_ab_secret'' [sample_token] = Inr (rows, p)"
proof -
  have "token_parts ''pwyrm_ab_secret'' = [''pwyrm'', ''ab'', ''secret'']" by code_simp
  moreover have "startswith ''$argon2'' ''#portwyrm-pat-v1:pwyrm_ab_secret'' = False" by code_simp
  ultimately show ?thesis
    by (simp add: pat_verify_def sample_token_def by_prefix_def verify_api_key_def bcrypt_input_def
        sample_keys_def find_principal_def sample_identities_def)
qed

theorem revoked_for_ever_witness:
  "\<exists>rows1 rows2. pat_revoke None 1000 ''ab'' [sample_token] = Inr (rows1, True) \<and> pat_step rows1 rows2 \<and>
     (\<exists>e. pat_verify sample_keys 1000 sample_identities ''pwyrm_ab_secret'' rows2 = Inl e)"
proof -
  have f: "by_prefix ''ab'' [sample_token] = Some sample_token" "tokens_ok [sample_token]"
    by (simp_all add: by_prefix_def sample_token_def tokens_ok_def)
  obtain rows1 where r1: "pat_revoke None 1000 ''ab'' [sample_token] = Inr (rows1, True)"
    by (simp add: pat_revoke_def f authorize_owner_def)
  have "\<exists>rows2. pat_revoke None 1001 ''ab'' rows1 = Inr (rows2, True)"
    using r1 by (auto simp: pat_revoke_def f authorize_owner_def by_prefix_update)
  then obtain rows2 where r2: "pat_step rows1 rows2" using pat_step.revoke by blast
  have "token_parts ''pwyrm_ab_secret'' = [''pwyrm'', ''ab'', ''secret'']" by code_simp
  with revoked_for_ever [OF f(2,1) disjI1 [OF r1] r_into_rtranclp [of pat_step, OF r2]] r1 r2 show ?thesis by blast
qed

section \<open>Laws of requests\<close>

lemma distinct_singleton: "distinct xs \<Longrightarrow> set xs = {x} \<Longrightarrow> xs = [x]"
  by (cases xs; cases "tl xs") auto

lemma normalized_scopes:
  assumes "normalize_token_scopes (PList (map PStr scopes)) = Inr n"
  shows "n = [full_account_scope] \<longleftrightarrow> normal_scope ` set scopes = {full_account_scope}"
    and "n \<noteq> [full_account_scope] \<Longrightarrow> set n = insert full_account_scope (normal_scope ` set scopes)"
proof -
  let ?m = "remdups (map normal_scope scopes)"
  let ?r = "filter (\<lambda>s. s \<noteq> full_account_scope) ?m"
  have n: "n = (if ?m = [full_account_scope] then ?m else ?r @ [full_account_scope])"
    and r: "?m = [full_account_scope] \<or> ?r \<noteq> []"
    using assms by (auto simp: normalize_token_scopes_def result_simps comp_def Let_def split: if_splits)
  have m: "?m = [full_account_scope] \<longleftrightarrow> normal_scope ` set scopes = {full_account_scope}"
  proof
    assume "normal_scope ` set scopes = {full_account_scope}"
    then show "?m = [full_account_scope]" by (intro distinct_singleton) simp_all
  qed (metis list.set(1) list.simps(15) set_map set_remdups)
  have differ: "?r @ [full_account_scope] \<noteq> [full_account_scope]" if "?r \<noteq> []" using that by auto
  show "n = [full_account_scope] \<longleftrightarrow> normal_scope ` set scopes = {full_account_scope}" using n r m differ by (auto split: if_splits)
  show "set n = insert full_account_scope (normal_scope ` set scopes)" if "n \<noteq> [full_account_scope]"
    using n that by (auto split: if_splits)
qed

lemma pat_verify_Inr:
  assumes "pat_verify kh now db token rows = Inr (rows', q)"
  shows "\<exists>secret r. token_parts token = [''pwyrm'', pt_token_prefix r, secret] \<and> r \<in> set rows \<and> pt_revoked_at r = None \<and>
    (pt_expires_at r = None \<or> now < the (pt_expires_at r)) \<and>
    pget ''scopes'' q = PList (map PStr (pt_scopes r)) \<and> dict_get q ''principal_id'' = Some (PInt (pt_principal_id r))"
proof -
  from assms obtain prefix secret r owner where p: "token_parts token = [''pwyrm'', prefix, secret]" and r: "by_prefix prefix rows = Some r"
    and o: "find_principal db (pt_principal_id r) = Some owner" and live: "pt_revoked_at r = None"
      "\<not> (case pt_expires_at r of None \<Rightarrow> False | Some t \<Rightarrow> t \<le> now)"
    and q: "q = [(''principal_id'', PInt (pc_id owner)), (''email'', PStr (pc_email owner)),
      (''display_name'', PStr (pc_display_name owner)), (''is_admin'', PBool (pc_is_admin owner)), (''scopes'', PList (map PStr (pt_scopes r)))]"
    unfolding pat_verify_def Let_def
    by (auto simp: result_simps split: list.splits if_splits option.splits)
  have "r \<in> set rows" "pt_token_prefix r = prefix" using r by (auto simp: by_prefix_def find_Some_iff)
  moreover have "pc_id owner = pt_principal_id r" using o by (auto simp: find_principal_def find_Some_iff)
  ultimately show ?thesis using p live by (intro exI [of _ secret] exI [of _ r])
      (auto simp: q pget_def dict_get_or_def split: option.splits)
qed

text \<open>The scopes of the stored token that a plaintext names: those of a live personal access token, or those of the
  snapshot of a live browser session.\<close>

definition token_has_scopes :: "crypto \<Rightarrow> int \<Rightarrow> string \<Rightarrow> identity_state \<Rightarrow> int \<Rightarrow> string list \<Rightarrow> bool" where
  "token_has_scopes cy now token st i scopes \<longleftrightarrow>
     (if startswith ''pws_'' token
      then \<exists>s\<in>set (is_sessions st). Some (bs_token_id s) = token_id_of token \<and> now < bs_expires_at s \<and> cy_check cy (bs_token_digest s) token \<and>
        py_int (dict_get_or (bs_principal_snapshot s) ''principal_id'' (pget ''user_id'' (bs_principal_snapshot s))) = Inr i \<and>
        scopes = payload_scopes (bs_principal_snapshot s)
      else \<exists>r\<in>set (is_tokens st). (\<exists>secret. token_parts token = [''pwyrm'', pt_token_prefix r, secret]) \<and> pt_revoked_at r = None \<and>
        (pt_expires_at r = None \<or> now < the (pt_expires_at r)) \<and> pt_principal_id r = i \<and>
        set scopes = (if pt_scopes r = [] then {''user''} else set (pt_scopes r)))"

lemma verified_payload_scopes:
  assumes "verified_payload cy now token st = Inr (st1, q)"
    and "py_int (dict_get_or q ''principal_id'' (pget ''user_id'' q)) = Inr i"
  shows "token_has_scopes cy now token st i (payload_scopes q)"
proof (cases "startswith ''pws_'' token")
  case True
  then obtain s where "find (\<lambda>r. Some (bs_token_id r) = token_id_of token) (is_sessions st) = Some s" "q = bs_principal_snapshot s"
    "now < bs_expires_at s" "cy_check cy (bs_token_digest s) token"
    using assms(1) by (auto simp: verified_payload_def session_verify_def result_simps bind_eq_Some_conv split: option.splits if_splits)
  with True assms(2) show ?thesis by (fastforce simp: token_has_scopes_def find_Some_iff)
next
  case False
  then obtain rows where v: "pat_verify (cy_keys cy) now (is_db st) token (is_tokens st) = Inr (rows, q)"
    using assms(1) by (auto simp: verified_payload_def map_sum_def split: sum.splits prod.splits)
  from pat_verify_Inr [OF v] obtain secret r where r: "token_parts token = [''pwyrm'', pt_token_prefix r, secret]"
    "r \<in> set (is_tokens st)" "pt_revoked_at r = None" "pt_expires_at r = None \<or> now < the (pt_expires_at r)"
    "pget ''scopes'' q = PList (map PStr (pt_scopes r))" "dict_get q ''principal_id'' = Some (PInt (pt_principal_id r))"
    by blast
  then have "i = pt_principal_id r" using assms(2) by (simp add: dict_get_or_def)
  moreover have "set (payload_scopes q) = (if pt_scopes r = [] then {''user''} else set (pt_scopes r))"
    by (simp add: payload_scopes_def r(5) comp_def)
  ultimately show ?thesis using False r by (auto simp: token_has_scopes_def)
qed

text \<open>C16. The authority of a request is that of the database now, cut down to what the token was given. A token that is
  verified is a stored one that is live, and belongs to a principal that exists now and is neither disabled nor deleted.
  With the full-account scope alone the request is an administrator's and has the permissions exactly as the
  principal does now; with any other scopes it is no administrator, and it may do exactly those actions that a scope
  of the token names and that the principal may do now. Whose rows it sees is the principal's visibility of now,
  whatever the scopes. What the token or session recorded about its principal when it
  was issued plays no part.\<close>

theorem authority_is_current:
  assumes "identity_verify cy now token st = Inr (st', p)"
  shows "\<exists>row scopes. token_has_scopes cy now token st (sp_user_id p) scopes \<and>
    find_principal (is_db st) (sp_user_id p) = Some row \<and> \<not> pc_is_disabled row \<and> \<not> pc_is_deleted row \<and>
    sp_must_change_password p = pc_must_change_password row \<and>
    sp_visibility p = (if pc_visibility row = ''all'' then ''all'' else ''user'') \<and>
    (if normal_scope ` set scopes = {''user''}
     then sp_is_admin p = pc_is_admin row \<and> sp_permissions p = snd (authorization (is_db st) (sp_user_id p))
     else \<not> sp_is_admin p \<and>
       (\<forall>s a. permission_allows (pget s (sp_permissions p)) a \<longleftrightarrow>
          (\<exists>scope\<in>set scopes. parse_scope (normal_scope scope) = Inr (s, a)) \<and>
          (pc_is_admin row \<or> permission_allows (pget s (snd (authorization (is_db st) (sp_user_id p)))) a)))"
proof -
  from assms obtain st1 q i sp permissions adm normalized where
    v: "verified_payload cy now token st = Inr (st1, q)"
    and i: "py_int (dict_get_or q ''principal_id'' (pget ''user_id'' q)) = Inr i"
    and r: "resolve i (sort (payload_scopes q)) (pget ''owner'' q) (is_db st1) = Inr sp"
    and e: "effective_token_authority (PList (map PStr (payload_scopes q))) (sp_permissions sp) (sp_is_admin sp) =
      Inr (permissions, adm, normalized)"
    and p: "p = sp\<lparr>sp_is_admin := adm, sp_permissions := permissions, sp_scopes := normalized\<rparr>"
    unfolding identity_verify_def Let_def by (elim ebind_InrE) (auto elim!: ebind_InrE)
  have db: "is_db st1 = is_db st"
    using v by (auto simp: verified_payload_def map_sum_def split: if_splits sum.splits prod.splits)
  from r obtain row where row: "find_principal (is_db st) i = Some row" "\<not> pc_is_disabled row" "\<not> pc_is_deleted row"
    and sp: "sp_user_id sp = pc_id row" "sp_is_admin sp = pc_is_admin row" "sp_must_change_password sp = pc_must_change_password row"
      "sp_permissions sp = snd (authorization (is_db st) i)" "sp_visibility sp = (if pc_visibility row = ''all'' then ''all'' else ''user'')"
    by (auto simp: resolve_def db split: option.splits if_splits)
  have id: "pc_id row = i" using row(1) by (auto simp: find_principal_def find_Some_iff)
  have n: "normalize_token_scopes (PList (map PStr (payload_scopes q))) = Inr normalized"
    using e by (auto simp: effective_token_authority_def result_simps split: if_splits)
  note only = normalized_scopes(1) [OF n, unfolded full_account_scope_def]
  have named: "(\<exists>scope\<in>set normalized. parse_scope scope = Inr (s, a)) \<longleftrightarrow>
      (\<exists>scope\<in>set (payload_scopes q). parse_scope (normal_scope scope) = Inr (s, a))" if "normalized \<noteq> [full_account_scope]" for s a
    using user_not_scope unfolding normalized_scopes(2) [OF n that] by auto
  have "token_has_scopes cy now token st i (payload_scopes q)" by (rule verified_payload_scopes [OF v i])
  moreover note token_authority_law [OF e]
  ultimately show ?thesis
    using row sp id only named unfolding p full_account_scope_def
    by (intro exI [of _ row] exI [of _ "payload_scopes q"]) auto
qed

definition sample_crypto :: crypto where
  "sample_crypto = \<lparr>cy_keys = sample_keys, cy_hash = (\<lambda>s. CHR ''#'' # s), cy_check = (\<lambda>d s. d = CHR ''#'' # s)\<rparr>"

definition sample_identity_state :: identity_state where
  "sample_identity_state = \<lparr>is_db = sample_identities, is_tokens = [sample_token], is_sessions = []\<rparr>"

theorem authority_is_current_witness:
  "\<exists>st p row. identity_verify sample_crypto 1000 ''pwyrm_ab_secret'' sample_identity_state = Inr (st, p) \<and>
     find_principal sample_identities (sp_user_id p) = Some row \<and> \<not> pc_is_disabled row \<and> \<not> sp_is_admin p"
proof -
  have f: "token_parts ''pwyrm_ab_secret'' = [''pwyrm'', ''ab'', ''secret'']" "startswith ''$argon2'' ''#portwyrm-pat-v1:pwyrm_ab_secret'' = False"
    "startswith ''pws_'' ''pwyrm_ab_secret'' = False" "sort [''proxy_hosts:read'', ''user''] = [''proxy_hosts:read'', ''user'']"
    "normalize_token_scopes (PList [PStr ''proxy_hosts:read'', PStr ''user'']) = Inr [''proxy_hosts:read'', ''user'']"
    "parse_scope ''proxy_hosts:read'' = Inr (''proxy_hosts'', ''read'')" by code_simp+
  obtain rows q where v: "verified_payload sample_crypto 1000 ''pwyrm_ab_secret'' sample_identity_state =
      Inr (sample_identity_state\<lparr>is_tokens := rows\<rparr>, q)"
    and q: "payload_scopes q = [''proxy_hosts:read'', ''user'']" "dict_get_or q ''principal_id'' (pget ''user_id'' q) = PInt 1"
    by (simp add: verified_payload_def f pat_verify_def sample_token_def by_prefix_def verify_api_key_def bcrypt_input_def
        sample_keys_def find_principal_def sample_identities_def sample_crypto_def sample_identity_state_def payload_scopes_def
        pget_def dict_get_or_def)
  have r: "\<exists>sp. resolve 1 ss owner sample_identities = Inr sp" for ss owner
    by (simp add: resolve_def find_principal_def sample_identities_def)
  have "\<exists>st p. identity_verify sample_crypto 1000 ''pwyrm_ab_secret'' sample_identity_state = Inr (st, p)"
  proof -
    obtain sp where sp: "resolve 1 (sort (payload_scopes q)) (pget ''owner'' q) sample_identities = Inr sp" using r by blast
    have db: "is_db (sample_identity_state\<lparr>is_tokens := rows\<rparr>) = sample_identities" by (simp add: sample_identity_state_def)
    show ?thesis
      unfolding identity_verify_def v ebind.simps prod.case Let_def q(2) py_int.simps db sp
      by (simp add: q(1) effective_token_authority_def f full_account_scope_def effective_step_def scope_match_of_def Let_def)
  qed
  then obtain st p where p: "identity_verify sample_crypto 1000 ''pwyrm_ab_secret'' sample_identity_state = Inr (st, p)" by blast
  from authority_is_current [OF p] obtain row scopes where
    scopes: "token_has_scopes sample_crypto 1000 ''pwyrm_ab_secret'' sample_identity_state (sp_user_id p) scopes"
    and row: "find_principal (is_db sample_identity_state) (sp_user_id p) = Some row" "\<not> pc_is_disabled row"
    and narrowed: "normal_scope ` set scopes \<noteq> {''user''} \<Longrightarrow> \<not> sp_is_admin p"
    by (elim exE conjE) (rule that, auto split: if_splits)
  have "set scopes = {''proxy_hosts:read'', ''user''}"
    using scopes by (simp add: token_has_scopes_def f(3) sample_identity_state_def sample_token_def)
  moreover have "normal_scope ''proxy_hosts:read'' = ''proxy_hosts:read''" by code_simp
  ultimately have "\<not> sp_is_admin p" by (intro narrowed) auto
  with p row show ?thesis by (auto simp: sample_identity_state_def)
qed

text \<open>Signing in with a second factor cannot be completed: whatever challenge session is issued for a principal, the
  dependency answers its token with 401, also where a challenge is required, because the scope \<open>mfa\<close> is not a scope
  that the token policy knows.\<close>

theorem mfa_challenge_rejected:
  assumes "set token_id \<subseteq> set ''0123456789abcdef''"
    and "issue_session cy issued ttl token_id secret (mfa_challenge i email) st = Inr (st1, token, expires)"
    and "is_sessions st2 = is_sessions st1"
  shows "request_principal cy now mfa_only allow_password_change (Some token) st2 = Inl (Http 401)"
proof -
  have token: "token = ''pws_'' @ token_id @ ''_'' @ secret"
    and rows: "is_sessions st1 = is_sessions st @ [\<lparr>bs_token_id = token_id, bs_token_digest = cy_hash cy token,
       bs_principal_snapshot = snapshot_of (mfa_challenge i email), bs_expires_at = expires\<rparr>]"
    and fresh: "token_id \<notin> bs_token_id ` set (is_sessions st)"
    using assms(2) by (auto simp: issue_session_def session_issue_def result_simps session_token_def dict_or_empty_def snapshot_of_def
      pget_def dict_get_or_def py_or_def image_iff split: if_splits)
  have "CHR ''_'' \<notin> set token_id" using assms(1) by auto
  then have parts: "partition_at CHR ''_'' (''pws_'' @ token_id @ ''_'' @ secret) = Some (''pws'', token_id @ ''_'' @ secret)"
    "partition_at CHR ''_'' (token_id @ ''_'' @ secret) = Some (token_id, secret)"
    by (simp_all add: partition_at_Some)
  have id: "token_id_of token = Some token_id" unfolding token_id_of_def token_parts_def token parts option.case prod.case list.case by simp
  have "find (\<lambda>r. bs_token_id r = token_id) (is_sessions st) = None" using fresh by (auto simp: find_None_iff)
  then have row: "find (\<lambda>r. bs_token_id r = token_id) (is_sessions st2) = Some \<lparr>bs_token_id = token_id, bs_token_digest = cy_hash cy token,
       bs_principal_snapshot = snapshot_of (mfa_challenge i email), bs_expires_at = expires\<rparr>"
    unfolding assms(3) rows by (simp add: find_append)
  have "normal_scope ''mfa'' = ''mfa''" "parse_scope ''mfa'' = Inl (ValueError ''invalid token scopes'')" by code_simp+
  then have scopes: "effective_token_authority (PList (map PStr [''mfa''])) q b = Inl (ValueError ''invalid token scopes'')" for q b
    by (simp add: effective_token_authority_def normalize_token_scopes_def full_account_scope_def)
  have snapshot: "payload_scopes (snapshot_of (mfa_challenge i email)) = [''mfa'']"
    "dict_get_or (snapshot_of (mfa_challenge i email)) ''principal_id'' v = PInt i" for v
    by (simp_all add: payload_scopes_def snapshot_of_def mfa_challenge_def pget_def dict_get_or_def)
  have resolved: "\<exists>m. resolve i ss owner db = Inl (ValueError m) \<or> (\<exists>sp. resolve i ss owner db = Inr sp)" for ss owner db
    by (cases "resolve i ss owner db") (auto simp: resolve_def split: option.splits if_splits)
  have start: "startswith ''pws_'' token" unfolding token by (simp add: startswith_def)
  have "\<exists>m. identity_verify cy now token st2 = Inl (ValueError m)"
  proof (cases "session_verify (cy_check cy) now token (is_sessions st2)")
    case (Inl e)
    then have "e = ValueError ''invalid token''" by (auto simp: session_verify_def split: option.splits if_splits)
    with Inl start show ?thesis by (simp add: identity_verify_def verified_payload_def)
  next
    case (Inr q)
    then have q: "q = snapshot_of (mfa_challenge i email)" by (simp add: session_verify_def id row split: if_splits)
    have v: "verified_payload cy now token st2 = Inr (st2, q)" using start Inr by (simp add: verified_payload_def)
    show ?thesis
      unfolding identity_verify_def v ebind.simps prod.case Let_def q snapshot py_int.simps
      using resolved [of "sort [''mfa'']" "pget ''owner'' (snapshot_of (mfa_challenge i email))" "is_db st2"] scopes by fastforce
  qed
  moreover have "token \<noteq> []" by (simp add: token)
  ultimately show ?thesis by (cases token) (auto simp: request_principal_def http_unauthorized_def)
qed

theorem mfa_challenge_rejected_witness:
  "\<exists>st token expires. issue_session sample_crypto 1000 300 ''0f'' ''s'' (mfa_challenge 1 ''ann@x'') sample_identity_state = Inr (st, token, expires) \<and>
     request_principal sample_crypto 1001 True False (Some token) st = Inl (Http 401)"
proof -
  obtain st token expires where i: "issue_session sample_crypto 1000 300 ''0f'' ''s'' (mfa_challenge 1 ''ann@x'') sample_identity_state =
      Inr (st, token, expires)"
    by (simp add: issue_session_def session_issue_def sample_identity_state_def pget_def dict_get_or_def py_or_def
        dict_or_empty_def snapshot_of_def)
  have "set ''0f'' \<subseteq> set ''0123456789abcdef''" by simp
  from mfa_challenge_rejected [OF this i refl] i show ?thesis by blast
qed

end
