(* ===== verification/Lifecycle.thy ===== *)
theory Lifecycle
  imports Tokens
begin

text \<open>
  The policy around every table operation: \<open>tables/lifecycle.py\<close> with \<open>domain/ownership.py\<close> and
  \<open>domain/attribution.py\<close>. The hooks run before the handler (permission, raw Nginx directives, ownership), after it
  (visibility), before the commit (the audit row) and after it (reconciliation, health scheduler, bootstrap file).
  A context is a record; the model class is its table name, a stored row the dictionary of its attributes, and
  \<open>None\<close> an absent key. The database lookup and the projection of a row are parameters.
\<close>

section \<open>Ownership metadata\<close>

record ownership =
  ow_managed_by :: string
  ow_owner :: string
  ow_resource_id :: string

definition ownership_keys :: "string list" where
  "ownership_keys = [''managed_by'', ''owner'', ''resource_id'']"

definition ownership_field :: "payload \<Rightarrow> string \<Rightarrow> py_error + string" where
  "ownership_field meta key =
     (case pget key meta of
        PStr s \<Rightarrow> if strip s = [] then Inl (DomainValidationError (''ownership '' @ key @ '' must be a non-empty string'')) else Inr s
      | _ \<Rightarrow> Inl (DomainValidationError (''ownership '' @ key @ '' must be a non-empty string'')))"

definition ownership_from_meta :: "payload \<Rightarrow> py_error + ownership option" where
  "ownership_from_meta meta =
     (let present = map (\<lambda>k. k \<in> dict_keys meta) ownership_keys in
      if True \<notin> set present then Inr None
      else if False \<in> set present then Inl (DomainValidationError ''ownership metadata must contain all three canonical keys'')
      else
        ebind (ownership_field meta ''managed_by'') (\<lambda>m.
        ebind (ownership_field meta ''owner'') (\<lambda>w.
        ebind (ownership_field meta ''resource_id'') (\<lambda>r.
          Inr (Some \<lparr>ow_managed_by = m, ow_owner = w, ow_resource_id = r\<rparr>)))))"

definition apply_to :: "ownership \<Rightarrow> payload \<Rightarrow> payload" where
  "apply_to own meta =
     dict_set ''resource_id'' (PStr (ow_resource_id own))
       (dict_set ''owner'' (PStr (ow_owner own)) (dict_set ''managed_by'' (PStr (ow_managed_by own)) meta))"

definition assert_mutable_by :: "ownership \<Rightarrow> string \<Rightarrow> string \<Rightarrow> bool \<Rightarrow> py_error + unit" where
  "assert_mutable_by own managed_by owner adopt =
     (if ow_managed_by own = managed_by \<and> ow_owner own = owner then Inr ()
      else if adopt then Inr ()
      else Inl (OwnershipError (''resource is owned by '' @ ow_managed_by own @ ''/'' @ ow_owner own
             @ ''; explicit adoption is required'')))"

definition assert_owner_scoped_prune :: "ownership option list \<Rightarrow> string \<Rightarrow> string \<Rightarrow> py_error + unit" where
  "assert_owner_scoped_prune resources managed_by owner =
     efold (\<lambda>r _. case r of
         None \<Rightarrow> Inl (OwnershipError ''unmanaged resources cannot be pruned implicitly'')
       | Some own \<Rightarrow> assert_mutable_by own managed_by owner False) resources ()"

section \<open>The context of an operation\<close>

text \<open>The caller is the model of the security dependency or a mapping of the same fields.\<close>

datatype caller = Authenticated security_principal | Fields payload

fun caller_dict :: "caller \<Rightarrow> payload" where
  "caller_dict (Fields d) = d"
| "caller_dict (Authenticated p) =
     [(''user_id'', PInt (sp_user_id p)), (''identity'', PStr (sp_identity p)), (''display_name'', PStr (sp_display_name p)),
      (''is_admin'', PBool (sp_is_admin p)), (''must_change_password'', PBool (sp_must_change_password p)),
      (''permissions'', PDict (sp_permissions p)), (''visibility'', PStr (sp_visibility p)),
      (''scopes'', PList (map PStr (sp_scopes p))), (''owner'', sp_owner p)]"

record op_context =
  cx_op :: string
  cx_alias :: string
  cx_target :: string
  cx_table :: string
  cx_principal :: "caller option"
  cx_actor :: "caller option"
  cx_payload :: pyval
  cx_result :: pyval
  cx_temp :: payload
  cx_obj_id :: pyval
  cx_target_principal_id :: pyval
  cx_attribution :: pyval

definition first_text :: "string list \<Rightarrow> string" where
  "first_text xs = (case filter (\<lambda>s. s \<noteq> []) xs of [] \<Rightarrow> [] | s # _ \<Rightarrow> s)"

definition alias_of :: "op_context \<Rightarrow> string" where
  "alias_of cx = casefold (first_text [cx_op cx, cx_alias cx, cx_target cx])"

text \<open>\<open>ctx.get("principal") or ctx.get("actor")\<close>.\<close>

definition acting :: "op_context \<Rightarrow> caller option" where
  "acting cx = (case cx_principal cx of None \<Rightarrow> cx_actor cx | Some c \<Rightarrow> if c = Fields [] then cx_actor cx else Some c)"

definition principal_value :: "op_context \<Rightarrow> string \<Rightarrow> pyval" where
  "principal_value cx name = (case acting cx of None \<Rightarrow> PNone | Some c \<Rightarrow> pget name (caller_dict c))"

definition is_admin_caller :: "op_context \<Rightarrow> bool" where
  "is_admin_caller cx \<longleftrightarrow> truthy (principal_value cx ''is_admin'')"

text \<open>\<open>d.get(a, d.get(b))\<close>.\<close>

definition pget2 :: "string \<Rightarrow> string \<Rightarrow> payload \<Rightarrow> pyval" where
  "pget2 a b d = dict_get_or d a (pget b d)"

definition principal_id_of :: "op_context \<Rightarrow> py_error + int option" where
  "principal_id_of cx =
     (let v1 = (case acting cx of None \<Rightarrow> PNone | Some c \<Rightarrow> pget2 ''user_id'' ''id'' (caller_dict c));
          v2 = (if v1 \<noteq> PNone then v1
                else case cx_payload cx of
                    PDict d \<Rightarrow>
                      if pget ''principal_id'' d \<noteq> PNone then pget ''principal_id'' d
                      else (case pget ''principal'' d of PDict e \<Rightarrow> pget2 ''principal_id'' ''id'' e | _ \<Rightarrow> PNone)
                  | _ \<Rightarrow> PNone);
          v3 = (if v2 \<noteq> PNone then v2 else case cx_result cx of PDict d \<Rightarrow> pget ''principal_id'' d | _ \<Rightarrow> PNone) in
      if v3 = PNone then Inr None else map_sum id Some (py_int v3))"

section \<open>Which operations and tables the policy covers\<close>

definition mutations :: "string list" where
  "mutations = [''create'', ''update'', ''replace'', ''delete'', ''enable'', ''disable'', ''register'', ''update_identity'',
     ''set_authorization'', ''authenticate'', ''change_password'', ''set_password'', ''issue'', ''refresh'', ''revoke'',
     ''rotate'', ''verify'', ''begin'', ''enroll'', ''confirm'', ''remove'', ''recover'', ''regenerate_backup_codes'',
     ''record_failure'', ''record'', ''apply'', ''stage'', ''upload'', ''request'', ''renew'', ''activate'', ''clear_active'',
     ''reconcile'', ''reload'', ''acquire'', ''release'']"

definition ownership_mutations :: "string list" where
  "ownership_mutations = mutations @ [''probe'']"

definition audit_excluded_tables :: "string list" where
  "audit_excluded_tables = [''audit_events'', ''runtime_leases'']"

definition audit_action :: "string \<Rightarrow> string" where
  "audit_action alias =
     dict_get_or [(''create'', ''created''), (''update'', ''updated''), (''replace'', ''replaced''), (''delete'', ''deleted''),
       (''enable'', ''enabled''), (''disable'', ''disabled'')] alias alias"

definition reconciled_tables :: "string list" where
  "reconciled_tables = [''access_lists'', ''access_rules'', ''access_list_rules'', ''access_credentials'',
     ''access_list_credentials'', ''access_principals'', ''access_list_principals'', ''certificates'', ''certificate_domains'',
     ''certificate_challenges'', ''routing_hosts'', ''routing_sources'', ''routing_upstreams'', ''routing_locations'',
     ''routing_host_access_lists'', ''stream_routes'', ''quic_passthrough_routes'', ''settings'']"

definition reconcile_collection :: "(string, string) dict" where
  "reconcile_collection =
     map (\<lambda>t. (t, ''access_lists'')) [''access_lists'', ''access_rules'', ''access_list_rules'', ''access_credentials'',
       ''access_list_credentials'', ''access_principals'', ''access_list_principals''] @
     map (\<lambda>t. (t, ''certificates'')) [''certificates'', ''certificate_domains'', ''certificate_challenges''] @
     [(''stream_routes'', ''streams''), (''quic_passthrough_routes'', ''quic_passthrough_hosts''), (''settings'', ''settings'')]"

definition section_by_table :: "(string, string) dict" where
  "section_by_table = [(''access_lists'', ''access_lists''), (''certificates'', ''certificates''),
     (''personal_access_tokens'', ''access_tokens''), (''routing_hosts'', ''proxy_hosts''), (''stream_routes'', ''streams''),
     (''quic_passthrough_routes'', ''streams'')]"

definition action_by_alias :: "(string, string) dict" where
  "action_by_alias = [(''create'', ''create''), (''read'', ''read''), (''list'', ''read''), (''update'', ''update''),
     (''replace'', ''update''), (''enable'', ''update''), (''disable'', ''update''), (''delete'', ''delete''),
     (''health_read'', ''read''), (''health_list'', ''read''), (''probe'', ''update''), (''issue'', ''create''),
     (''refresh'', ''update''), (''rotate'', ''update''), (''revoke'', ''delete'')]"

text \<open>The tables whose model has an \<open>owner_principal_id\<close> column.\<close>

definition owned_tables :: "string list" where
  "owned_tables = [''routing_hosts'', ''stream_routes'', ''quic_passthrough_routes'', ''certificates'']"

section \<open>Before the handler\<close>

text \<open>\<open>may_manage_foreign_tokens\<close>: a mapping has neither an \<open>is_admin\<close> attribute nor a \<open>may\<close> method.\<close>

fun manages_foreign_tokens :: "caller \<Rightarrow> string \<Rightarrow> bool" where
  "manages_foreign_tokens (Authenticated p) action \<longleftrightarrow> may_manage_foreign_tokens p action"
| "manages_foreign_tokens (Fields d) action \<longleftrightarrow> False"

type_synonym row_lookup = "string \<Rightarrow> int \<Rightarrow> payload option"

definition section_of_kind :: "pyval \<Rightarrow> string" where
  "section_of_kind kind =
     dict_get_or [(''redirect'', ''redirection_hosts''), (''dead'', ''dead_hosts'')] (py_str kind) ''proxy_hosts''"

definition routing_section :: "row_lookup \<Rightarrow> op_context \<Rightarrow> py_error + string" where
  "routing_section find_row cx =
     (case cx_payload cx of
        PDict d \<Rightarrow>
          if pget ''kind'' d \<noteq> PNone then Inr (section_of_kind (pget ''kind'' d))
          else if pget ''id'' d = PNone then Inr (section_of_kind PNone)
          else ebind (py_int (pget ''id'' d)) (\<lambda>i.
            Inr (section_of_kind (case find_row (cx_table cx) i of None \<Rightarrow> PNone | Some row \<Rightarrow> pget ''kind'' row)))
      | _ \<Rightarrow> Inr (section_of_kind PNone))"

definition section_grant :: "op_context \<Rightarrow> string \<Rightarrow> pyval" where
  "section_grant cx s = (case principal_value cx ''permissions'' of PDict d \<Rightarrow> dict_get_or d s (PStr ''hidden'') | _ \<Rightarrow> PStr ''hidden'')"

definition token_target :: "op_context \<Rightarrow> pyval" where
  "token_target cx =
     (if cx_target_principal_id cx \<noteq> PNone then cx_target_principal_id cx
      else case cx_payload cx of PDict d \<Rightarrow> pget ''principal_id'' d | _ \<Rightarrow> PNone)"

definition enforce_authorization :: "row_lookup \<Rightarrow> op_context \<Rightarrow> py_error + unit" where
  "enforce_authorization find_row cx =
     (case acting cx of
        None \<Rightarrow> Inr ()
      | Some caller \<Rightarrow>
          if is_admin_caller cx then Inr ()
          else case dict_get action_by_alias (alias_of cx) of
              None \<Rightarrow> Inr ()
            | Some action \<Rightarrow>
                if cx_table cx \<in> {''principals'', ''settings''} then Inl (AuthorizationError ''administrator permission is required'')
                else case dict_get section_by_table (cx_table cx) of
                    None \<Rightarrow> Inr ()
                  | Some table_section \<Rightarrow>
                      if cx_table cx = ''personal_access_tokens''
                      then
                        ebind (principal_id_of cx) (\<lambda>principal_id.
                        if token_target cx = PNone then Inr ()
                        else ebind (py_int (token_target cx)) (\<lambda>target.
                          if principal_id = Some target \<or> manages_foreign_tokens caller action then Inr ()
                          else Inl (AuthorizationError ''permission denied'')))
                      else
                        ebind (if cx_table cx = ''routing_hosts'' then routing_section find_row cx else Inr table_section) (\<lambda>s.
                        if permission_allows (section_grant cx s) action then Inr ()
                        else Inl (AuthorizationError ''permission denied'')))"

fun contains_advanced_config :: "pyval \<Rightarrow> bool" where
  "contains_advanced_config (PDict d) =
     list_ex (\<lambda>(k, v). k = ''advanced_config'' \<and> strip (py_str v) \<noteq> [] \<or> contains_advanced_config v) d"
| "contains_advanced_config (PList xs) = list_ex contains_advanced_config xs"
| "contains_advanced_config _ = False"

definition enforce_raw_nginx_policy :: "op_context \<Rightarrow> py_error + unit" where
  "enforce_raw_nginx_policy cx =
     (if alias_of cx \<notin> {''create'', ''update'', ''replace'', ''validate''} then Inr ()
      else if cx_table cx \<notin> {''routing_hosts'', ''routing_locations''} then Inr ()
      else if acting cx = None \<or> is_admin_caller cx then Inr ()
      else if contains_advanced_config (cx_payload cx)
      then Inl (AuthorizationError ''advanced Nginx configuration requires an administrator'')
      else Inr ())"

definition ownership_from_row :: "payload \<Rightarrow> py_error + ownership option" where
  "ownership_from_row row =
     ebind (dict_or_empty (pget ''metadata_json'' row)) (\<lambda>metadata.
     ebind (dict_or_empty (pget ''extensions'' metadata)) (\<lambda>ext.
       case pget ''meta'' ext of PDict meta \<Rightarrow> ownership_from_meta meta | _ \<Rightarrow> Inr None))"

definition kind_object_type :: "pyval \<Rightarrow> string \<Rightarrow> string" where
  "kind_object_type kind otherwise =
     dict_get_or [(''proxy'', ''proxy_hosts''), (''redirect'', ''redirection_hosts''), (''dead'', ''dead_hosts'')] (py_str kind) otherwise"

definition deleted_snapshot :: "pyval \<Rightarrow> payload \<Rightarrow> payload \<Rightarrow> py_error + payload" where
  "deleted_snapshot resource_id row projected =
     ebind (py_iter (py_or (pget ''domain_names'' projected) (PList []))) (\<lambda>names.
       Inr [(''id'', dict_get_or row ''id'' resource_id), (''kind'', pget ''kind'' row), (''domain_names'', PList names),
            (''forward_host'', pget ''forward_host'' projected), (''forward_port'', pget ''forward_port'' projected)])"

definition note_routing_row :: "(payload \<Rightarrow> payload) \<Rightarrow> pyval \<Rightarrow> payload \<Rightarrow> op_context \<Rightarrow> py_error + op_context" where
  "note_routing_row project resource_id row cx =
     (if cx_table cx \<noteq> ''routing_hosts'' then Inr cx
      else
        let temp = dict_set ''object_type'' (PStr (kind_object_type (pget ''kind'' row) ''routing_hosts'')) (cx_temp cx) in
        if alias_of cx = ''delete'' \<and> as_dict (pget ''deleted_resource'' temp) = None
        then ebind (deleted_snapshot resource_id row (project row)) (\<lambda>d.
          Inr (cx\<lparr>cx_temp := dict_set ''deleted_resource'' (PDict d) temp\<rparr>))
        else Inr (cx\<lparr>cx_temp := temp\<rparr>))"

definition check_owner :: "op_context \<Rightarrow> int option \<Rightarrow> payload \<Rightarrow> py_error + unit" where
  "check_owner cx principal_id row =
     ebind (case principal_id of
              None \<Rightarrow> Inr ()
            | Some i \<Rightarrow>
                if pget ''owner_principal_id'' row = PNone then Inr ()
                else ebind (py_int (pget ''owner_principal_id'' row)) (\<lambda>w.
                  if w \<noteq> i then Inl (OwnershipError ''foreign-owned resources cannot be mutated'') else Inr ())) (\<lambda>_.
     ebind (ownership_from_row row) (\<lambda>ownership.
       case ownership of
         None \<Rightarrow> Inr ()
       | Some own \<Rightarrow>
           if principal_value cx ''owner'' \<noteq> PNone \<and> PStr (ow_owner own) \<noteq> principal_value cx ''owner''
           then Inl (OwnershipError ''foreign npmctl resources require explicit adoption'') else Inr ()))"

definition enforce_ownership :: "row_lookup \<Rightarrow> (payload \<Rightarrow> payload) \<Rightarrow> op_context \<Rightarrow> py_error + op_context" where
  "enforce_ownership find_row project cx =
     (if alias_of cx \<notin> set ownership_mutations then Inr cx
      else case cx_payload cx of
          PDict d \<Rightarrow>
            ebind (principal_id_of cx) (\<lambda>principal_id.
            if alias_of cx = ''create'' \<and> principal_id \<noteq> None \<and> cx_table cx \<in> set owned_tables
            then Inr (if pget ''owner_principal_id'' d = PNone
                      then cx\<lparr>cx_payload := PDict (dict_set ''owner_principal_id'' (PInt (the principal_id)) d)\<rparr> else cx)
            else if pget ''id'' d = PNone then Inr cx
            else ebind (py_int (pget ''id'' d)) (\<lambda>i.
              case find_row (cx_table cx) i of
                None \<Rightarrow> Inr cx
              | Some row \<Rightarrow>
                  ebind (note_routing_row project (pget ''id'' d) row cx) (\<lambda>cx.
                  if is_admin_caller cx then Inr cx
                  else ebind (check_owner cx principal_id row) (\<lambda>_. Inr cx))))
        | _ \<Rightarrow> Inr cx)"

text \<open>The hooks before the handler, in their order.\<close>

definition pre_handler :: "row_lookup \<Rightarrow> (payload \<Rightarrow> payload) \<Rightarrow> op_context \<Rightarrow> py_error + op_context" where
  "pre_handler find_row project cx =
     ebind (enforce_authorization find_row cx) (\<lambda>_.
     ebind (enforce_raw_nginx_policy cx) (\<lambda>_.
       enforce_ownership find_row project cx))"

section \<open>After the handler: visibility\<close>

definition visible_to :: "op_context \<Rightarrow> pyval \<Rightarrow> py_error + bool" where
  "visible_to cx result =
     (if is_admin_caller cx \<or> principal_value cx ''visibility'' = PStr ''all'' then Inr True
      else
        ebind (principal_id_of cx) (\<lambda>principal_id.
        let owner = (case result of PDict d \<Rightarrow> pget2 ''owner_principal_id'' ''owner_user_id'' d | _ \<Rightarrow> PNone) in
        if owner = PNone \<or> principal_id = None then Inr True
        else map_sum id (\<lambda>w. Some w = principal_id) (py_int owner)))"

fun efilter :: "('a \<Rightarrow> py_error + bool) \<Rightarrow> 'a list \<Rightarrow> py_error + 'a list" where
  "efilter f [] = Inr []"
| "efilter f (x # xs) = ebind (f x) (\<lambda>b. ebind (efilter f xs) (\<lambda>ys. Inr (if b then x # ys else ys)))"

definition enforce_visibility :: "op_context \<Rightarrow> py_error + op_context" where
  "enforce_visibility cx =
     (if alias_of cx \<notin> {''read'', ''list'', ''health_read'', ''health_list''} \<or> cx_principal cx = None then Inr cx
      else
        let items = (case cx_result cx of PDict d \<Rightarrow> as_list (pget ''items'' d) | _ \<Rightarrow> None) in
        case (items, cx_result cx) of
          (Some xs, PDict d) \<Rightarrow>
            ebind (efilter (visible_to cx) xs) (\<lambda>ys. Inr (cx\<lparr>cx_result := PDict (dict_set ''items'' (PList ys) d)\<rparr>))
        | (_, PList xs) \<Rightarrow> ebind (efilter (visible_to cx) xs) (\<lambda>ys. Inr (cx\<lparr>cx_result := PList ys\<rparr>))
        | (_, PNone) \<Rightarrow> Inr cx
        | (_, result) \<Rightarrow>
            ebind (visible_to cx result) (\<lambda>v. if v then Inr cx else Inl (LookupError ''resource not found'')))"

section \<open>Before the commit: the audit row\<close>

record audit_event =
  ae_actor_principal_id :: "int option"
  ae_actor_snapshot :: payload
  ae_target_principal_id :: "int option"
  ae_outcome :: string
  ae_action :: string
  ae_object_type :: string
  ae_object_id :: string
  ae_details :: payload

definition secret_fields :: "string list" where
  "secret_fields = [''password'', ''old_password'', ''new_password'', ''secret'', ''token'', ''private_key'', ''certificate'',
     ''certificate_key'']"

definition redact :: "payload \<Rightarrow> payload" where
  "redact d = map (\<lambda>(k, v). (k, if k \<in> set secret_fields then PStr ''[redacted]'' else v)) d"

definition audit_details :: "op_context \<Rightarrow> py_error + payload" where
  "audit_details cx =
     ebind (dict_or_empty (cx_payload cx)) (\<lambda>d.
     let d = redact d;
         d = (case cx_attribution cx of PDict a \<Rightarrow> dict_set ''attribution'' (PDict a) d | _ \<Rightarrow> d) in
     Inr (case pget ''deleted_resource'' (cx_temp cx) of PDict r \<Rightarrow> dict_set ''deleted_resource'' (PDict r) d | _ \<Rightarrow> d))"

definition object_id_of :: "op_context \<Rightarrow> string" where
  "object_id_of cx =
     (let v1 = cx_obj_id cx;
          v2 = (if v1 \<noteq> PNone then v1 else case cx_result cx of PDict d \<Rightarrow> pget ''id'' d | _ \<Rightarrow> PNone);
          v3 = (if v2 \<noteq> PNone then v2
                else case cx_payload cx of PDict d \<Rightarrow> dict_get_or d ''id'' (PStr ''collection'') | _ \<Rightarrow> PNone) in
      if v3 = PNone then ''collection'' else py_str v3)"

definition before_at :: "string \<Rightarrow> string" where
  "before_at s = takeWhile (\<lambda>c. c \<noteq> CHR ''@'') s"

definition actor_snapshot :: "op_context \<Rightarrow> py_error + payload" where
  "actor_snapshot cx =
     (case acting cx of
        None \<Rightarrow> Inr []
      | Some caller \<Rightarrow>
          let d = caller_dict caller; email = pget2 ''identity'' ''email'' d; display_name = pget ''display_name'' d in
          map_sum id (\<lambda>i. [(''principal_id'', case i of None \<Rightarrow> PNone | Some n \<Rightarrow> PInt n), (''email'', email),
             (''display_name'', display_name),
             (''actor_name'', if truthy email then PStr (before_at (py_str email)) else display_name),
             (''is_admin'', PBool (truthy (pget ''is_admin'' d)))]) (principal_id_of cx))"

definition target_principal_id_of :: "op_context \<Rightarrow> py_error + int option" where
  "target_principal_id_of cx =
     (let v1 = cx_target_principal_id cx;
          v2 = (if v1 \<noteq> PNone then v1 else pget ''target_principal_id'' (cx_temp cx));
          v3 = (if v2 \<noteq> PNone then v2
                else if cx_table cx = ''personal_access_tokens''
                then (case cx_payload cx of PDict d \<Rightarrow> pget ''principal_id'' d | _ \<Rightarrow> PNone) else PNone) in
      if v3 = PNone then Inr None else map_sum id Some (py_int v3))"

definition object_type_of :: "op_context \<Rightarrow> string" where
  "object_type_of cx =
     (if cx_table cx \<noteq> ''routing_hosts'' then cx_table cx
      else if truthy (pget ''object_type'' (cx_temp cx)) then py_str (pget ''object_type'' (cx_temp cx))
      else
        let k1 = (case cx_result cx of PDict d \<Rightarrow> pget ''kind'' d | _ \<Rightarrow> PNone);
            k2 = (if k1 \<noteq> PNone then k1 else case cx_payload cx of PDict d \<Rightarrow> pget ''kind'' d | _ \<Rightarrow> PNone) in
        kind_object_type k2 (cx_table cx))"

definition audit_row :: "op_context \<Rightarrow> string \<Rightarrow> string \<Rightarrow> string \<Rightarrow> payload \<Rightarrow> py_error + audit_event" where
  "audit_row cx action object_type object_id details =
     ebind (principal_id_of cx) (\<lambda>i.
     ebind (actor_snapshot cx) (\<lambda>snapshot.
     ebind (target_principal_id_of cx) (\<lambda>target.
       Inr \<lparr>ae_actor_principal_id = i, ae_actor_snapshot = snapshot, ae_target_principal_id = target, ae_outcome = ''success'',
         ae_action = action, ae_object_type = object_type, ae_object_id = object_id, ae_details = details\<rparr>)))"

text \<open>\<open>temp.get(flag)\<close> and \<open>temp[flag] = True\<close>.\<close>

definition flagged :: "string \<Rightarrow> op_context \<Rightarrow> bool" where
  "flagged flag cx \<longleftrightarrow> truthy (pget flag (cx_temp cx))"

definition set_flag :: "string \<Rightarrow> op_context \<Rightarrow> op_context" where
  "set_flag flag cx = cx\<lparr>cx_temp := dict_set flag (PBool True) (cx_temp cx)\<rparr>"

text \<open>\<open>statuses\<close> gives the statuses of a proxy host's two latest observations, latest first.\<close>

definition audit_probe :: "(int \<Rightarrow> string list) \<Rightarrow> op_context \<Rightarrow> py_error + op_context \<times> audit_event list" where
  "audit_probe statuses cx =
     (case cx_result cx of
        PDict d \<Rightarrow>
          ebind (note_none (KeyError ''id'') (dict_get d ''id'')) (\<lambda>idv.
          ebind (py_int idv) (\<lambda>i.
          case statuses i of
            current # previous # _ \<Rightarrow>
              if previous \<notin> {''online'', ''offline''} \<or> current = previous then Inr (cx, [])
              else ebind (audit_row cx ''proxy_host.health.changed'' ''proxy_hosts'' (py_str idv)
                     [(''from'', PStr previous), (''to'', PStr current), (''phase'', pget ''phase'' d),
                      (''error_code'', pget ''error_code'' d)]) (\<lambda>ev.
                Inr (set_flag ''portwyrm_audit_staged'' cx, [ev]))
          | _ \<Rightarrow> Inr (cx, [])))
      | _ \<Rightarrow> Inr (cx, []))"

definition audit_mutation :: "(int \<Rightarrow> string list) \<Rightarrow> op_context \<Rightarrow> py_error + op_context \<times> audit_event list" where
  "audit_mutation statuses cx =
     (if flagged ''portwyrm_audit_staged'' cx then Inr (cx, [])
      else if alias_of cx = ''probe'' \<and> cx_table cx = ''routing_hosts'' then audit_probe statuses cx
      else if alias_of cx \<notin> set mutations \<or> cx_table cx \<in> set audit_excluded_tables then Inr (cx, [])
      else
        ebind (audit_details cx) (\<lambda>details.
        ebind (audit_row cx (audit_action (alias_of cx)) (object_type_of cx) (object_id_of cx) details) (\<lambda>ev.
          Inr (set_flag ''portwyrm_audit_staged'' cx, [ev]))))"

section \<open>After the commit\<close>

text \<open>What the hooks after the commit do outside the database.\<close>

record attribution =
  oa_principal :: "caller option"
  oa_executor_kind :: string
  oa_executor_name :: string
  oa_correlation_id :: string

definition reconciliation_attribution :: "string \<Rightarrow> caller option \<Rightarrow> attribution" where
  "reconciliation_attribution uuid p =
     \<lparr>oa_principal = p, oa_executor_kind = ''service'', oa_executor_name = ''Portwyrm reconciler'', oa_correlation_id = uuid\<rparr>"

definition attribution_details :: "string \<Rightarrow> attribution \<Rightarrow> (string, string) dict" where
  "attribution_details uuid a =
     [(''executor_kind'', oa_executor_kind a), (''executor_name'', oa_executor_name a),
      (''correlation_id'', if oa_correlation_id a = [] then uuid else oa_correlation_id a)]"

datatype effect = Changed string attribution | Wake | Unlink string

definition reconcile_committed_change :: "string \<Rightarrow> bool \<Rightarrow> op_context \<Rightarrow> op_context \<times> effect list" where
  "reconcile_committed_change uuid has_runtime cx =
     (if alias_of cx \<notin> set mutations \<or> cx_table cx \<notin> set reconciled_tables then (cx, [])
      else if flagged ''portwyrm_reconciled'' cx then (cx, [])
      else (set_flag ''portwyrm_reconciled'' cx,
        if has_runtime
        then [Changed (dict_get_or reconcile_collection (cx_table cx) (object_type_of cx))
                (reconciliation_attribution uuid (acting cx))]
        else []))"

definition schedule_committed_health_probe :: "bool \<Rightarrow> op_context \<Rightarrow> effect list" where
  "schedule_committed_health_probe has_scheduler cx =
     (if cx_table cx \<noteq> ''routing_hosts'' \<or> alias_of cx \<notin> {''create'', ''update'', ''replace'', ''enable''} then []
      else if has_scheduler then [Wake] else [])"

definition remove_consumed_bootstrap_credentials :: "string \<Rightarrow> op_context \<Rightarrow> effect list" where
  "remove_consumed_bootstrap_credentials configured cx =
     (if cx_table cx \<noteq> ''credentials'' \<or> alias_of cx \<noteq> ''change_password'' then []
      else if configured = [] then [] else [Unlink configured])"

definition post_commit :: "string \<Rightarrow> bool \<Rightarrow> bool \<Rightarrow> string \<Rightarrow> op_context \<Rightarrow> op_context \<times> effect list" where
  "post_commit uuid has_runtime has_scheduler configured cx =
     (let (cx, es) = reconcile_committed_change uuid has_runtime cx in
      (cx, es @ schedule_committed_health_probe has_scheduler cx @ remove_consumed_bootstrap_credentials configured cx))"

section \<open>Laws of the policy\<close>

text \<open>A signed-in principal without administrator rights.\<close>

definition member :: "op_context \<Rightarrow> security_principal \<Rightarrow> bool" where
  "member cx p \<longleftrightarrow> acting cx = Some (Authenticated p) \<and> \<not> sp_is_admin p"

lemma principal_value_member:
  assumes "acting cx = Some (Authenticated p)"
  shows "principal_value cx ''is_admin'' = PBool (sp_is_admin p)" "principal_value cx ''permissions'' = PDict (sp_permissions p)"
    "principal_value cx ''visibility'' = PStr (sp_visibility p)" "principal_value cx ''owner'' = sp_owner p"
    "principal_id_of cx = Inr (Some (sp_user_id p))"
  using assms by (simp_all add: principal_value_def principal_id_of_def pget_def pget2_def dict_get_or_def)

lemma member_facts:
  assumes "member cx p"
  shows "is_admin_caller cx = False" "section_grant cx s = dict_get_or (sp_permissions p) s (PStr ''hidden'')"
    "principal_id_of cx = Inr (Some (sp_user_id p))" "principal_value cx ''owner'' = sp_owner p"
    "acting cx = Some (Authenticated p)" "principal_value cx ''visibility'' = PStr (sp_visibility p)"
  using assms principal_value_member [of cx p] by (simp_all add: member_def is_admin_caller_def section_grant_def)

definition write_aliases :: "string set" where
  "write_aliases = {''update'', ''replace'', ''enable'', ''disable'', ''delete'', ''probe''}"

definition action_of :: "string \<Rightarrow> string" where
  "action_of alias = (if alias = ''delete'' then ''delete'' else ''update'')"

text \<open>The section whose permission decides: the table's, and for a routing host the kind that the payload names, or
  else the kind of the stored row.\<close>

definition written_section :: "string \<Rightarrow> payload \<Rightarrow> payload \<Rightarrow> string" where
  "written_section tbl d row =
     (if tbl = ''routing_hosts'' then section_of_kind (if pget ''kind'' d = PNone then pget ''kind'' row else pget ''kind'' d)
      else if tbl = ''certificates'' then ''certificates'' else ''streams'')"

lemma write_alias_facts:
  assumes "a \<in> write_aliases"
  shows "dict_get action_by_alias a = Some (action_of a)" "a \<in> set ownership_mutations" "a \<noteq> ''create''" "a \<noteq> ''validate''"
  using assms by (auto simp: write_aliases_def action_by_alias_def action_of_def ownership_mutations_def mutations_def)

lemma authorization_of_write:
  assumes "member cx p" "alias_of cx \<in> write_aliases" "cx_table cx \<in> set owned_tables"
    and "cx_payload cx = PDict d" "pget ''id'' d = PInt i" "find_row (cx_table cx) i = Some row"
  shows "enforce_authorization find_row cx =
    (if permission_allows (dict_get_or (sp_permissions p) (written_section (cx_table cx) d row) (PStr ''hidden'')) (action_of (alias_of cx))
     then Inr () else Inl (AuthorizationError ''permission denied''))"
proof -
  have t: "cx_table cx \<in> {''routing_hosts'', ''stream_routes'', ''quic_passthrough_routes'', ''certificates''}"
    using assms(3) by (simp add: owned_tables_def)
  have s: "dict_get section_by_table (cx_table cx) =
      Some (if cx_table cx = ''routing_hosts'' then ''proxy_hosts'' else written_section (cx_table cx) d row)"
    using t by (auto simp: section_by_table_def written_section_def)
  have r: "(if cx_table cx = ''routing_hosts'' then routing_section find_row cx
      else Inr (if cx_table cx = ''routing_hosts'' then ''proxy_hosts'' else written_section (cx_table cx) d row)) =
      Inr (written_section (cx_table cx) d row)"
    using assms(4-6) by (auto simp: routing_section_def written_section_def)
  show ?thesis
    using t by (auto simp: enforce_authorization_def member_facts [OF assms(1)] write_alias_facts [OF assms(2)] s r)
qed

lemma raw_policy_of_write:
  assumes "member cx p" "alias_of cx \<in> write_aliases" "cx_table cx \<in> set owned_tables" "cx_payload cx = PDict d"
  shows "enforce_raw_nginx_policy cx = Inr () \<longleftrightarrow>
    \<not> (alias_of cx \<in> {''update'', ''replace''} \<and> cx_table cx = ''routing_hosts'' \<and> contains_advanced_config (PDict d))"
  using assms by (auto simp: enforce_raw_nginx_policy_def member_facts [OF assms(1)] write_alias_facts owned_tables_def
      simp del: contains_advanced_config.simps)

definition names_listed :: "(payload \<Rightarrow> payload) \<Rightarrow> payload \<Rightarrow> bool" where
  "names_listed project row \<longleftrightarrow> (\<exists>xs. py_iter (py_or (pget ''domain_names'' (project row)) (PList [])) = Inr xs)"

lemma note_routing_row_total:
  assumes "names_listed project row"
  obtains t where "note_routing_row project rid row cx = Inr (cx\<lparr>cx_temp := t\<rparr>)"
proof -
  obtain xs where "py_iter (py_or (pget ''domain_names'' (project row)) (PList [])) = Inr xs"
    using assms unfolding names_listed_def by blast
  then have "\<exists>t. note_routing_row project rid row cx = Inr (cx\<lparr>cx_temp := t\<rparr>)"
    by (auto simp: note_routing_row_def deleted_snapshot_def Let_def intro: exI [of _ "cx_temp cx"])
  with that show ?thesis by blast
qed

lemma check_owner_exact:
  assumes "member cx p" "pget ''owner_principal_id'' row = PNone \<or> pget ''owner_principal_id'' row = PInt w"
    and "ownership_from_row row = Inr ow"
  shows "check_owner cx (Some (sp_user_id p)) row = Inr () \<longleftrightarrow>
    pget ''owner_principal_id'' row \<in> {PNone, PInt (sp_user_id p)} \<and>
    (case ow of None \<Rightarrow> True | Some own \<Rightarrow> sp_owner p \<in> {PNone, PStr (ow_owner own)})"
  using assms(2,3) by (auto simp: check_owner_def member_facts [OF assms(1)] split: option.splits if_splits)

lemma member_temp: "member (cx\<lparr>cx_temp := t\<rparr>) p \<longleftrightarrow> member cx p"
  by (simp add: member_def acting_def split: option.splits)

lemma ownership_of_write:
  assumes m: "member cx p" and a: "alias_of cx \<in> write_aliases"
    and d: "cx_payload cx = PDict d" "pget ''id'' d = PInt i" "find_row (cx_table cx) i = Some row"
    and o: "pget ''owner_principal_id'' row = PNone \<or> pget ''owner_principal_id'' row = PInt w"
    "ownership_from_row row = Inr ow" and n: "names_listed project row"
  shows "(\<exists>cx'. enforce_ownership find_row project cx = Inr cx') \<longleftrightarrow>
    pget ''owner_principal_id'' row \<in> {PNone, PInt (sp_user_id p)} \<and>
    (case ow of None \<Rightarrow> True | Some own \<Rightarrow> sp_owner p \<in> {PNone, PStr (ow_owner own)})"
proof -
  obtain t where t: "note_routing_row project (PInt i) row cx = Inr (cx\<lparr>cx_temp := t\<rparr>)"
    using note_routing_row_total [OF n] .
  have m': "member (cx\<lparr>cx_temp := t\<rparr>) p" using m by (simp add: member_temp)
  have "enforce_ownership find_row project cx =
      ebind (check_owner (cx\<lparr>cx_temp := t\<rparr>) (Some (sp_user_id p)) row) (\<lambda>_. Inr (cx\<lparr>cx_temp := t\<rparr>))"
    by (simp add: enforce_ownership_def write_alias_facts [OF a] d member_facts [OF m] member_facts [OF m'] t)
  then show ?thesis using check_owner_exact [OF m' o] by (auto simp: ebind_Inr_iff)
qed

lemma member_write_law:
  assumes "member cx p" and "alias_of cx \<in> write_aliases" and "cx_table cx \<in> set owned_tables"
    and "cx_payload cx = PDict d" and "pget ''id'' d = PInt i" and "find_row (cx_table cx) i = Some row"
    and "pget ''owner_principal_id'' row = PNone \<or> pget ''owner_principal_id'' row = PInt w"
    and "ownership_from_row row = Inr ow" and "names_listed project row"
  shows "(\<exists>cx'. pre_handler find_row project cx = Inr cx') \<longleftrightarrow>
    permission_allows (dict_get_or (sp_permissions p) (written_section (cx_table cx) d row) (PStr ''hidden'')) (action_of (alias_of cx)) \<and>
    \<not> (alias_of cx \<in> {''update'', ''replace''} \<and> cx_table cx = ''routing_hosts'' \<and> contains_advanced_config (PDict d)) \<and>
    pget ''owner_principal_id'' row \<in> {PNone, PInt (sp_user_id p)} \<and>
    (case ow of None \<Rightarrow> True | Some own \<Rightarrow> sp_owner p \<in> {PNone, PStr (ow_owner own)})"
  unfolding pre_handler_def ebind_Inr_iff authorization_of_write [OF assms(1-5), where find_row = find_row, OF assms(6)]
  using raw_policy_of_write [OF assms(1-4)] ownership_of_write [OF assms(1,2) assms(4,5), where find_row = find_row, OF assms(6-9)]
  by (auto simp del: contains_advanced_config.simps)


text \<open>C14. What a principal without administrator rights may write is exactly this: an update, deletion, switch or probe
  of a stored route, host or certificate passes the hooks before its handler if and only if the permission of the
  section allows it, the payload has no raw Nginx directives where it would store them, the row belongs to nobody or to
  the principal, and the npmctl owner of the row, if both have one, is the principal's.\<close>

theorem member_write_exact:
  assumes "member cx p" and "alias_of cx \<in> write_aliases" and "cx_table cx \<in> set owned_tables"
    and "cx_payload cx = PDict d" and "pget ''id'' d = PInt i" and "find_row (cx_table cx) i = Some row"
    and "pget ''owner_principal_id'' row = PNone \<or> pget ''owner_principal_id'' row = PInt w"
    and "ownership_from_row row = Inr ow" and "names_listed project row"
  shows "(\<exists>cx'. pre_handler find_row project cx = Inr cx') \<longleftrightarrow>
    permission_allows (dict_get_or (sp_permissions p) (written_section (cx_table cx) d row) (PStr ''hidden'')) (action_of (alias_of cx)) \<and>
    \<not> (alias_of cx \<in> {''update'', ''replace''} \<and> cx_table cx = ''routing_hosts'' \<and> contains_advanced_config (PDict d)) \<and>
    pget ''owner_principal_id'' row \<in> {PNone, PInt (sp_user_id p)} \<and>
    (case ow of None \<Rightarrow> True | Some own \<Rightarrow> sp_owner p \<in> {PNone, PStr (ow_owner own)})"
  by (rule member_write_law [OF assms(1-5), where find_row = find_row, OF assms(6-9)])

definition sample_member :: security_principal where
  "sample_member = \<lparr>sp_user_id = 7, sp_identity = ''m@x.org'', sp_display_name = ''M'', sp_is_admin = False,
     sp_must_change_password = False, sp_permissions = [(''redirection_hosts'', PDict [(''update'', PBool True)])],
     sp_visibility = ''user'', sp_scopes = [''user''], sp_owner = PNone\<rparr>"

definition sample_write :: "string \<Rightarrow> payload \<Rightarrow> op_context" where
  "sample_write alias d = \<lparr>cx_op = alias, cx_alias = [], cx_target = [], cx_table = ''routing_hosts'',
     cx_principal = Some (Authenticated sample_member), cx_actor = None, cx_payload = PDict d, cx_result = PNone, cx_temp = [],
     cx_obj_id = PNone, cx_target_principal_id = PNone, cx_attribution = PNone\<rparr>"

definition sample_row :: "string \<Rightarrow> int \<Rightarrow> payload" where
  "sample_row kind owner = [(''id'', PInt 4), (''kind'', PStr kind), (''owner_principal_id'', PInt owner)]"

lemma sample_write_facts:
  "member (sample_write a d) sample_member" "cx_table (sample_write a d) = ''routing_hosts''" "cx_payload (sample_write a d) = PDict d"
  "alias_of (sample_write ''update'' d) = ''update''" "ownership_from_row (sample_row k w) = Inr None"
  by (simp_all add: sample_write_def member_def acting_def sample_member_def alias_of_def first_text_def casefold_def
      ownership_from_row_def sample_row_def pget_def dict_get_or_def dict_or_empty_def) (code_simp+)?

lemma sample_write_exact:
  assumes "pget ''id'' d = PInt 4"
  shows "(\<exists>cx'. pre_handler (\<lambda>t i. Some (sample_row k w)) id (sample_write ''update'' d) = Inr cx') \<longleftrightarrow>
    section_of_kind (if pget ''kind'' d = PNone then PStr k else pget ''kind'' d) = ''redirection_hosts'' \<and>
    \<not> contains_advanced_config (PDict d) \<and> w = 7"
proof -
  let ?cx = "sample_write ''update'' d" and ?find = "\<lambda>(t::string) (i::int). Some (sample_row k w)"
  have row: "pget ''owner_principal_id'' (sample_row k w) = PInt w" "pget ''kind'' (sample_row k w) = PStr k" "names_listed id (sample_row k w)"
    by (simp_all add: sample_row_def pget_def dict_get_or_def names_listed_def py_or_def)
  have m: "member ?cx sample_member" and a: "alias_of ?cx \<in> write_aliases" and t: "cx_table ?cx \<in> set owned_tables"
    and f: "?find (cx_table ?cx) 4 = Some (sample_row k w)"
    by (simp_all add: sample_write_facts write_aliases_def owned_tables_def)
  have grant: "permission_allows (dict_get_or (sp_permissions sample_member) s (PStr ''hidden'')) ''update'' \<longleftrightarrow> s = ''redirection_hosts''" for s
    by (simp add: sample_member_def dict_get_or_def)
  have p: "sp_user_id sample_member = 7" "sp_owner sample_member = PNone" by (simp_all add: sample_member_def)
  show ?thesis
    using member_write_law [OF m a t sample_write_facts(3) assms, where find_row = ?find, OF f _ sample_write_facts(5) row(3), of w]
    by (simp add: row grant p sample_write_facts written_section_def action_of_def del: contains_advanced_config.simps)
qed

theorem member_write_exact_witness:
  "(\<exists>cx'. pre_handler (\<lambda>t i. Some (sample_row ''redirect'' 7)) id (sample_write ''update'' [(''id'', PInt 4)]) = Inr cx') \<and>
   \<not> (\<exists>cx'. pre_handler (\<lambda>t i. Some (sample_row ''redirect'' 8)) id (sample_write ''update'' [(''id'', PInt 4)]) = Inr cx')"
proof -
  let ?d = "[(''id'', PInt 4)]" and ?find = "\<lambda>w (t::string) (i::int). Some (sample_row ''redirect'' w)"
  have d: "pget ''id'' ?d = PInt 4" "pget ''kind'' ?d = PNone" by (simp_all add: pget_def dict_get_or_def)
  have row: "pget ''owner_principal_id'' (sample_row k w) = PInt w" "pget ''kind'' (sample_row k w) = PStr k" "names_listed id (sample_row k w)" for k w
    by (simp_all add: sample_row_def pget_def dict_get_or_def names_listed_def py_or_def)
  have m: "member (sample_write ''update'' ?d) sample_member" and a: "alias_of (sample_write ''update'' ?d) \<in> write_aliases"
    and t: "cx_table (sample_write ''update'' ?d) \<in> set owned_tables"
    by (simp_all add: sample_write_facts write_aliases_def owned_tables_def)
  have p: "sp_user_id sample_member = 7" "sp_owner sample_member = PNone"
    "permission_allows (dict_get_or (sp_permissions sample_member) (section_of_kind (PStr ''redirect'')) (PStr ''hidden'')) ''update''"
    by (simp_all add: sample_member_def section_of_kind_def dict_get_or_def)
  have e: "(\<exists>cx'. pre_handler (?find w) id (sample_write ''update'' ?d) = Inr cx') \<longleftrightarrow> w = 7" for w
    using member_write_exact [OF m a t sample_write_facts(3) d(1), where find_row = "?find w", OF refl _ sample_write_facts(5) row(3), of w]
    by (simp add: row d p sample_write_facts written_section_def action_of_def)
  show ?thesis unfolding e by simp
qed

text \<open>The kind that decides is the one the payload names: a principal who may update redirections only may update a
  proxy host by calling it a redirection in the payload.\<close>

theorem kind_of_payload_decides:
  "\<not> (\<exists>cx'. pre_handler (\<lambda>t i. Some (sample_row ''proxy'' 7)) id (sample_write ''update'' [(''id'', PInt 4)]) = Inr cx') \<and>
   (\<exists>cx'. pre_handler (\<lambda>t i. Some (sample_row ''proxy'' 7)) id
      (sample_write ''update'' [(''id'', PInt 4), (''kind'', PStr ''redirect'')]) = Inr cx')"
proof -
  have k: "section_of_kind (PStr ''proxy'') \<noteq> ''redirection_hosts''" "section_of_kind (PStr ''redirect'') = ''redirection_hosts''"
    by (simp_all add: section_of_kind_def dict_get_or_def)
  show ?thesis
    by (simp add: sample_write_exact pget_def dict_get_or_def k)
qed

text \<open>An operation that is not among the named actions needs no permission: a principal for whom certificates are
  hidden passes the hooks of an upload.\<close>

lemma unlisted_alias_allowed:
  assumes "member cx p" and "dict_get action_by_alias (alias_of cx) = None"
  shows "enforce_authorization find_row cx = Inr ()"
  using assms(2) by (simp add: enforce_authorization_def member_facts [OF assms(1)])

lemma certificate_operations_unlisted:
  "list_all (\<lambda>a. dict_get action_by_alias a = None) [''upload'', ''request'', ''renew'', ''remove'', ''download'']"
  by code_simp

section \<open>Visibility\<close>

definition owner_field :: "payload \<Rightarrow> pyval" where
  "owner_field d = pget2 ''owner_principal_id'' ''owner_user_id'' d"

definition sees_all :: "security_principal \<Rightarrow> bool" where
  "sees_all p \<longleftrightarrow> sp_is_admin p \<or> sp_visibility p = ''all''"

lemma visible_to_caller:
  assumes "acting cx = Some (Authenticated p)" "owner_field d = PNone \<or> owner_field d = PInt w"
  shows "visible_to cx (PDict d) = Inr (sees_all p \<or> owner_field d \<in> {PNone, PInt (sp_user_id p)})"
  using assms(2)
  by (auto simp: visible_to_def principal_value_member [OF assms(1)] is_admin_caller_def sees_all_def owner_field_def [symmetric])

lemma efilter_dicts:
  "(\<And>d. d \<in> set rows \<Longrightarrow> f (PDict d) = Inr (g d)) \<Longrightarrow> efilter f (map PDict rows) = Inr (map PDict (filter g rows))"
  by (induction rows) auto

text \<open>C30. What a signed-in principal gets to see of the stored rows. An administrator, and a principal whose visibility is
  \<open>all\<close>, gets every row; any other gets exactly the rows that belong to nobody or to the principal, in their order,
  whether the handler gives a list or a page with its items, and a single row of somebody else is reported as not found.
  So it is for the operations that read and list rows and their health; the result of any other operation is handed on.\<close>

theorem visibility_exact:
  assumes "acting cx = Some (Authenticated p)" and "cx_principal cx \<noteq> None"
    and "\<forall>d\<in>set rows. owner_field d = PNone \<or> (\<exists>w. owner_field d = PInt w)"
  shows "let visible = (\<lambda>d. sp_is_admin p \<or> sp_visibility p = ''all'' \<or> owner_field d \<in> {PNone, PInt (sp_user_id p)}) in
    (if alias_of cx \<in> {''read'', ''list'', ''health_read'', ''health_list''}
     then (cx_result cx = PList (map PDict rows) \<longrightarrow>
         enforce_visibility cx = Inr (cx\<lparr>cx_result := PList (map PDict (filter visible rows))\<rparr>)) \<and>
       (\<forall>e. cx_result cx = PDict e \<and> pget ''items'' e = PList (map PDict rows) \<longrightarrow>
         enforce_visibility cx = Inr (cx\<lparr>cx_result := PDict (dict_set ''items'' (PList (map PDict (filter visible rows))) e)\<rparr>)) \<and>
       (\<forall>e\<in>set rows. cx_result cx = PDict e \<and> as_list (pget ''items'' e) = None \<longrightarrow>
         enforce_visibility cx = (if visible e then Inr cx else Inl (LookupError ''resource not found'')))
     else enforce_visibility cx = Inr cx)"
proof -
  define visible where "visible = (\<lambda>d. sp_is_admin p \<or> sp_visibility p = ''all'' \<or> owner_field d \<in> {PNone, PInt (sp_user_id p)})"
  have v: "visible_to cx (PDict d) = Inr (visible d)" if "d \<in> set rows" for d
    using visible_to_caller [OF assms(1)] assms(3) that by (fastforce simp: visible_def sees_all_def)
  have f: "efilter (visible_to cx) (map PDict rows) = Inr (map PDict (filter visible rows))"
    by (rule efilter_dicts) (rule v)
  obtain c where c: "cx_principal cx = Some c" using assms(2) by blast
  show ?thesis
    unfolding visible_def [symmetric] by (auto simp: enforce_visibility_def c f v Let_def)
qed

theorem visibility_exact_witness:
  "\<exists>cx. enforce_visibility cx = Inr (cx\<lparr>cx_result := PList [PDict [(''owner_principal_id'', PInt 7)]]\<rparr>) \<and>
     cx_result cx = PList [PDict [(''owner_principal_id'', PInt 7)], PDict [(''owner_principal_id'', PInt 8)]]"
proof -
  let ?rows = "[[(''owner_principal_id'', PInt 7)], [(''owner_principal_id'', PInt 8)]]"
  define cx where "cx = (sample_write ''list'' [])\<lparr>cx_result := PList (map PDict ?rows)\<rparr>"
  have m: "acting cx = Some (Authenticated sample_member)" "cx_principal cx \<noteq> None" "alias_of cx = ''list''"
    by (simp_all add: cx_def sample_write_def acting_def alias_of_def first_text_def) code_simp
  have p: "sp_visibility sample_member \<noteq> ''all''" "sp_user_id sample_member = 7" "\<not> sp_is_admin sample_member" by (simp_all add: sample_member_def)
  have w: "\<forall>d\<in>set ?rows. owner_field d = PNone \<or> (\<exists>w. owner_field d = PInt w)"
    by (simp add: owner_field_def pget2_def dict_get_or_def)
  have r: "cx_result cx = PList (map PDict ?rows)" by (simp add: cx_def)
  have "enforce_visibility cx =
      Inr (cx\<lparr>cx_result := PList (map PDict (filter (\<lambda>d. owner_field d \<in> {PNone, PInt (sp_user_id sample_member)}) ?rows))\<rparr>)"
    using visibility_exact [OF m(1,2) w] r p unfolding Let_def m(3) by simp
  moreover have "filter (\<lambda>d. owner_field d \<in> {PNone, PInt 7}) ?rows = [[(''owner_principal_id'', PInt 7)]]"
    by (simp add: owner_field_def pget2_def dict_get_or_def)
  ultimately show ?thesis using r by (intro exI [of _ cx]) (simp add: p)
qed

section \<open>The audit trail\<close>

lemma dict_get_redact: "dict_get (redact d) k = (if k \<in> set secret_fields then map_option (\<lambda>_. PStr ''[redacted]'') (dict_get d k) else dict_get d k)"
  by (induction d) (auto simp: redact_def)

lemma redact_pget: "redact d = redact d' \<Longrightarrow> k \<notin> set secret_fields \<Longrightarrow> pget k d = pget k d'"
  using dict_get_redact [of d k] dict_get_redact [of d' k] by (simp add: pget_def dict_get_or_def)

lemma redact_get_or: "redact d = redact d' \<Longrightarrow> k \<notin> set secret_fields \<Longrightarrow> dict_get_or d k v = dict_get_or d' k v"
  using dict_get_redact [of d k] dict_get_redact [of d' k] by (simp add: dict_get_or_def)

lemma payload_readers_blind:
  assumes r: "redact d = redact d'" and p: "cx_payload cx = PDict d" and cx': "cx' = cx\<lparr>cx_payload := PDict d'\<rparr>"
  shows "principal_id_of cx' = principal_id_of cx" "target_principal_id_of cx' = target_principal_id_of cx"
    "actor_snapshot cx' = actor_snapshot cx" "object_type_of cx' = object_type_of cx" "object_id_of cx' = object_id_of cx"
    "audit_details cx' = audit_details cx"
proof -
  have k: "pget k d' = pget k d" "dict_get_or d' k v = dict_get_or d k v" if "k \<notin> set secret_fields" for k v
    using redact_pget [OF r that] redact_get_or [OF r that] by simp_all
  have a: "acting cx' = acting cx" by (simp add: cx' acting_def split: option.splits)
  have pid: "pget ''principal_id'' d' = pget ''principal_id'' d" "pget ''principal'' d' = pget ''principal'' d"
    "pget ''kind'' d' = pget ''kind'' d" "dict_get_or d' ''id'' v = dict_get_or d ''id'' v" for v
    by (rule k; simp add: secret_fields_def)+
  show i: "principal_id_of cx' = principal_id_of cx"
    unfolding principal_id_of_def a by (simp add: cx' p pid Let_def)
  show "target_principal_id_of cx' = target_principal_id_of cx"
    unfolding target_principal_id_of_def by (simp add: cx' p pid Let_def)
  show "actor_snapshot cx' = actor_snapshot cx"
    unfolding actor_snapshot_def a i ..
  show "object_type_of cx' = object_type_of cx"
    unfolding object_type_of_def by (simp add: cx' p pid Let_def)
  show "object_id_of cx' = object_id_of cx"
    unfolding object_id_of_def by (simp add: cx' p pid Let_def)
  have e: "dict_or_empty (PDict x) = Inr x" for x by (simp add: dict_or_empty_def)
  show "audit_details cx' = audit_details cx"
    unfolding audit_details_def by (simp add: cx' p e r Let_def split: pyval.split)
qed

lemma audit_probe_outcome:
  assumes "audit_probe statuses cx = Inr (cx', evs)"
  shows "(cx' = cx \<and> evs = []) \<or> (\<exists>ev. evs = [ev] \<and> cx' = set_flag ''portwyrm_audit_staged'' cx)"
proof (cases "cx_result cx")
  case (PDict d)
  show ?thesis
    using assms unfolding audit_probe_def PDict pyval.case
    by (elim ebind_InrE) (auto simp: ebind_Inr_iff split: list.split_asm if_split_asm)
qed (use assms in \<open>simp_all add: audit_probe_def\<close>)

lemma audit_outcome:
  assumes "audit_mutation statuses cx = Inr (cx', evs)"
  shows "(cx' = cx \<and> evs = []) \<or> (\<exists>ev. evs = [ev] \<and> cx' = set_flag ''portwyrm_audit_staged'' cx)"
  using assms audit_probe_outcome unfolding audit_mutation_def
  by (auto simp: ebind_Inr_iff split: if_split_asm)

lemma flagged_set [simp]: "flagged f (set_flag f cx)"
  by (simp add: flagged_def set_flag_def pget_def)

lemma map_sum_ebind: "map_sum id f (ebind m g) = ebind m (\<lambda>x. map_sum id f (g x))"
  by (cases m) auto

lemma redact_same:
  "list_all2 (\<lambda>(k, v) (k', v'). k = k' \<and> (k \<in> set secret_fields \<or> v = v')) d d' \<Longrightarrow> redact d = redact d'"
  by (induction rule: list_all2_induct) (auto simp: redact_def)

lemma audit_details_hide:
  assumes "audit_details cx = Inr details" and "cx_payload cx = PDict d" and "k \<in> set secret_fields"
  shows "dict_get details k \<in> {None, Some (PStr ''[redacted]'')}"
proof -
  have "k \<noteq> ''attribution''" "k \<noteq> ''deleted_resource''" using assms(3) by (auto simp: secret_fields_def)
  moreover have "dict_get (redact d) k \<in> {None, Some (PStr ''[redacted]'')}"
    using assms(3) by (cases "dict_get d k") (simp_all add: dict_get_redact)
  moreover have "dict_or_empty (PDict d) = Inr d" by (simp add: dict_or_empty_def)
  ultimately show ?thesis
    using assms(1) unfolding audit_details_def assms(2) Let_def by (auto split: pyval.splits)
qed

lemma audit_details_keep:
  assumes "audit_details cx = Inr details" and "cx_payload cx = PDict d"
    and "k \<notin> set secret_fields" "k \<noteq> ''attribution''" "k \<noteq> ''deleted_resource''"
  shows "dict_get details k = dict_get d k"
proof -
  have "dict_or_empty (PDict d) = Inr d" by (simp add: dict_or_empty_def)
  with assms show ?thesis
    unfolding audit_details_def assms(2) Let_def by (auto simp: dict_get_redact split: pyval.splits)
qed

lemma audit_row_details: "audit_row cx action type i details = Inr ev \<Longrightarrow> ae_details ev = details"
  by (auto simp: audit_row_def ebind_Inr_iff)

lemma audit_probe_hides:
  assumes "audit_probe statuses cx = Inr (cx', evs)" and "ev \<in> set evs" and "k \<in> set secret_fields"
  shows "dict_get (ae_details ev) k = None"
proof (cases "cx_result cx")
  case (PDict d)
  have "k \<notin> {''from'', ''to'', ''phase'', ''error_code''}" using assms(3) by (auto simp: secret_fields_def)
  then show ?thesis
    using assms(1,2) unfolding audit_probe_def PDict pyval.case
    by (elim ebind_InrE) (auto simp: ebind_Inr_iff dest!: audit_row_details split: list.split_asm if_split_asm)
qed (use assms in \<open>simp_all add: audit_probe_def\<close>)

lemma audit_mutation_hides:
  assumes "audit_mutation statuses cx = Inr (cx', evs)" and "cx_payload cx = PDict d" and "ev \<in> set evs" and "k \<in> set secret_fields"
  shows "dict_get (ae_details ev) k \<in> {None, Some (PStr ''[redacted]'')}"
  using assms audit_probe_hides [OF _ assms(3,4)] audit_details_hide [OF _ assms(2,4)] unfolding audit_mutation_def
  by (auto simp: ebind_Inr_iff split: if_split_asm dest!: audit_row_details)

lemma audit_mutation_keeps:
  assumes "audit_mutation statuses cx = Inr (cx', evs)" and "cx_payload cx = PDict d" and "ev \<in> set evs" and "alias_of cx \<noteq> ''probe''"
    and "k \<notin> set secret_fields" "k \<noteq> ''attribution''" "k \<noteq> ''deleted_resource''"
  shows "dict_get (ae_details ev) k = dict_get d k"
  using assms(1,3,4) audit_details_keep [OF _ assms(2,5,6,7)] unfolding audit_mutation_def
  by (auto simp: ebind_Inr_iff split: if_split_asm dest!: audit_row_details)

text \<open>C24. The audit row of an operation says nothing of the eight fields of a payload that are kept secret by name: a
  payload with other values in those fields, and the same fields otherwise, leaves the same rows behind, for mutations
  and for probes; and where a row has such a field at all, its value is the marker. Fields of other names, and what is nested in them, are
  recorded as given (but for the attribution and the deleted resource, which the hook adds, and for probes, which record
  the change of status alone). Once a row is staged a second run of the hook stages none.\<close>

theorem audit_hides_secrets:
  assumes "cx_payload cx = PDict d"
    and "list_all2 (\<lambda>(k, v) (k', v'). k = k' \<and>
      (k \<in> {''password'', ''old_password'', ''new_password'', ''secret'', ''token'', ''private_key'',
        ''certificate'', ''certificate_key''} \<or> v = v')) d d'"
  shows "map_sum id snd (audit_mutation statuses (cx\<lparr>cx_payload := PDict d'\<rparr>)) = map_sum id snd (audit_mutation statuses cx) \<and>
    (\<forall>cx' evs. audit_mutation statuses cx = Inr (cx', evs) \<longrightarrow>
       length evs \<le> 1 \<and> (evs \<noteq> [] \<longrightarrow> audit_mutation statuses cx' = Inr (cx', [])) \<and>
       (\<forall>ev\<in>set evs. \<forall>k\<in>{''password'', ''old_password'', ''new_password'', ''secret'', ''token'', ''private_key'',
        ''certificate'', ''certificate_key''}.
          dict_get (ae_details ev) k \<in> {None, Some (PStr ''[redacted]'')}) \<and>
       (alias_of cx \<noteq> ''probe'' \<longrightarrow> (\<forall>ev\<in>set evs. \<forall>k. k \<notin> {''password'', ''old_password'', ''new_password'', ''secret'', ''token'', ''private_key'',
        ''certificate'', ''certificate_key''} \<union> {''attribution'', ''deleted_resource''} \<longrightarrow>
          dict_get (ae_details ev) k = dict_get d k)))"
proof (intro conjI allI impI ballI)
  let ?cx' = "cx\<lparr>cx_payload := PDict d'\<rparr>"
  have "redact d = redact d'" by (rule redact_same) (rule list_all2_mono [OF assms(2)], auto simp: secret_fields_def)
  note blind = payload_readers_blind [OF this assms(1) refl]
  have same: "alias_of ?cx' = alias_of cx" "flagged f ?cx' = flagged f cx" "cx_table ?cx' = cx_table cx" "cx_result ?cx' = cx_result cx" for f
    by (simp_all add: alias_of_def flagged_def)
  have row: "audit_row ?cx' = audit_row cx"
    by (intro ext) (simp add: audit_row_def blind)
  have probe: "map_sum id snd (audit_probe statuses ?cx') = map_sum id snd (audit_probe statuses cx)"
    unfolding audit_probe_def row same
    by (cases "cx_result cx")
      (auto simp: map_sum_ebind intro!: arg_cong2 [where f = ebind] ext split: list.split)
  show "map_sum id snd (audit_mutation statuses ?cx') = map_sum id snd (audit_mutation statuses cx)"
    unfolding audit_mutation_def same blind row using probe by (simp add: map_sum_ebind)
next
  fix cx' evs
  assume run: "audit_mutation statuses cx = Inr (cx', evs)"
  show "length evs \<le> 1"
    using audit_outcome [OF run] by auto
  show "dict_get (ae_details ev) k \<in> {None, Some (PStr ''[redacted]'')}"
    if "ev \<in> set evs" "k \<in> {''password'', ''old_password'', ''new_password'', ''secret'', ''token'', ''private_key'',
        ''certificate'', ''certificate_key''}" for ev k
    by (rule audit_mutation_hides [OF run assms(1) that(1)]) (use that(2) in \<open>auto simp: secret_fields_def\<close>)
  show "dict_get (ae_details ev) k = dict_get d k"
    if "alias_of cx \<noteq> ''probe''" "ev \<in> set evs" "k \<notin> {''password'', ''old_password'', ''new_password'', ''secret'', ''token'', ''private_key'',
        ''certificate'', ''certificate_key''} \<union> {''attribution'', ''deleted_resource''}" for ev k
    by (rule audit_mutation_keeps [OF run assms(1) that(2,1)]) (use that(3) in \<open>auto simp: secret_fields_def\<close>)
  assume "evs \<noteq> []"
  then have "cx' = set_flag ''portwyrm_audit_staged'' cx" using audit_outcome [OF run] by auto
  then show "audit_mutation statuses cx' = Inr (cx', [])" by (simp add: audit_mutation_def)
qed

theorem audit_hides_secrets_witness:
  "map_sum id snd (audit_mutation (\<lambda>_. []) (sample_write ''update'' [(''id'', PInt 4), (''password'', PStr ''a'')])) =
   map_sum id snd (audit_mutation (\<lambda>_. []) (sample_write ''update'' [(''id'', PInt 4), (''password'', PStr ''b'')]))"
proof -
  have u: "(sample_write ''update'' [(''id'', PInt 4), (''password'', PStr ''b'')])\<lparr>cx_payload := PDict [(''id'', PInt 4), (''password'', PStr ''a'')]\<rparr> =
      sample_write ''update'' [(''id'', PInt 4), (''password'', PStr ''a'')]"
    by (simp add: sample_write_def)
  show ?thesis
    using audit_hides_secrets [of "sample_write ''update'' [(''id'', PInt 4), (''password'', PStr ''b'')]" "[(''id'', PInt 4), (''password'', PStr ''b'')]"
      "[(''id'', PInt 4), (''password'', PStr ''a'')]" "\<lambda>_. []"]
    unfolding u by (simp add: sample_write_facts(3))
qed

text \<open>Only top-level fields are hidden: the credentials of a DNS provider, which a certificate request carries in a
  dictionary of its own, are written to the audit trail as they are.\<close>

theorem dns_credentials_audited:
  assumes "cx_payload cx = PDict [(''dns_credentials'', PDict creds)]" and "cx_attribution cx = PNone" and "cx_temp cx = []"
  shows "audit_details cx = Inr [(''dns_credentials'', PDict creds)]"
  using assms by (simp add: audit_details_def dict_or_empty_def redact_def secret_fields_def pget_def)

end
