(* ===== verification/Acme.thy ===== *)
theory Acme
  imports Py_Value
begin

text \<open>
  Around a certificate: \<open>certificates/pem.py\<close> (the shape of PEM text, what OpenSSL says of it, dates and keys),
  \<open>certificates/providers.py\<close> (the catalogue of DNS providers) and \<open>certificates/acme.py\<close> (an issuance and its
  challenges, and when a renewal is due). The programs
  that run outside (OpenSSL, Certbot, the ACME client) are parameters. Instants are seconds since 1970 and are parsed from
  OpenSSL's text by a parameter.
\<close>

section \<open>PEM bundles\<close>

record cert_bundle =
  bd_certificate :: string
  bd_private_key :: string
  bd_intermediate_certificate :: string

definition fullchain :: "cert_bundle \<Rightarrow> string" where
  "fullchain b =
     join newline ([strip (bd_certificate b)] @
       (if strip (bd_intermediate_certificate b) \<noteq> [] then [strip (bd_intermediate_certificate b)] else [])) @ newline"

text \<open>The body of a PEM block in the patterns: white space, then base-64 text with line breaks, then the end line.\<close>

definition pem_char :: "char \<Rightarrow> bool" where
  "pem_char c \<longleftrightarrow> is_alnum c \<or> c \<in> set ''+/='' \<or> char_nat c = 13 \<or> char_nat c = 10"

definition pem_body :: "string \<Rightarrow> bool" where
  "pem_body s \<longleftrightarrow> list_ex (\<lambda>k. list_all is_space (take k s) \<and> list_all pem_char (drop k s)) [1..<length s]"

definition pem_block :: "string list \<Rightarrow> string list \<Rightarrow> string \<Rightarrow> bool" where
  "pem_block heads tails s \<longleftrightarrow>
     list_ex (\<lambda>h. startswith h s \<and>
       (let rest = drop (length h) s; body = takeWhile (\<lambda>c. is_space c \<or> pem_char c) rest in
        pem_body body \<and> list_ex (\<lambda>t. startswith t (drop (length body) rest)) tails)) heads"

text \<open>\<open>re.search\<close>: a match anywhere.\<close>

fun search_block :: "string list \<Rightarrow> string list \<Rightarrow> string \<Rightarrow> bool" where
  "search_block heads tails [] = False"
| "search_block heads tails (c # s) = (pem_block heads tails (c # s) \<or> search_block heads tails s)"

definition certificate_shaped :: "string \<Rightarrow> bool" where
  "certificate_shaped = search_block [''-----BEGIN CERTIFICATE-----''] [''-----END CERTIFICATE-----'']"

definition private_key_shaped :: "string \<Rightarrow> bool" where
  "private_key_shaped =
     search_block (map (\<lambda>k. ''-----BEGIN '' @ k @ ''PRIVATE KEY-----'') [''RSA '', ''EC '', ''ENCRYPTED '', []])
       (map (\<lambda>k. ''-----END '' @ k @ ''PRIVATE KEY-----'') [''RSA '', ''EC '', ''ENCRYPTED '', []])"

definition validate_shape :: "cert_bundle \<Rightarrow> py_error + unit" where
  "validate_shape b =
     (if \<not> certificate_shaped (bd_certificate b) then Inl (ValueError ''certificate is not a PEM certificate'')
      else if \<not> private_key_shaped (bd_private_key b) then Inl (ValueError ''private key is not a supported PEM private key'')
      else if bd_intermediate_certificate b \<noteq> [] \<and> \<not> certificate_shaped (bd_intermediate_certificate b)
      then Inl (ValueError ''intermediate is not a PEM certificate'')
      else Inr ())"

record cert_info =
  ci_subject :: string
  ci_issuer :: string
  ci_serial :: string
  ci_not_before :: int
  ci_not_after :: int
  ci_domain_names :: "string list"

text \<open>\<open>s.replace(old, "")\<close>, \<open>s.split("=", 1)\<close> and the instant in OpenSSL's format.\<close>

function remove_all :: "string \<Rightarrow> string \<Rightarrow> string" where
  "remove_all old s =
     (if old = [] \<or> s = [] then s
      else if startswith old s then remove_all old (drop (length old) s) else hd s # remove_all old (tl s))"
  by pat_completeness auto
termination
  by (relation "measure (length \<circ> snd)") auto

declare remove_all.simps [simp del]

definition note_line :: "string \<Rightarrow> (string, string) dict \<times> string list \<Rightarrow> (string, string) dict \<times> string list" where
  "note_line line = (\<lambda>(values, domains).
     let stripped = strip line;
         values = (if CHR ''='' \<in> set stripped
           then let key = takeWhile (\<lambda>c. c \<noteq> CHR ''='') stripped in
                dict_set (casefold key) (strip (drop (length key + 1) stripped)) values
           else values);
         domains = (if contains ''DNS:'' stripped
           then domains @ filter (\<lambda>d. d \<noteq> []) (map (\<lambda>e. casefold (strip (remove_all ''DNS:'' e))) (split_on CHR '','' stripped))
           else domains) in
     (values, domains))"

definition parse_details :: "(string \<Rightarrow> int option) \<Rightarrow> string \<Rightarrow> py_error + cert_info" where
  "parse_details strptime details =
     (let (values, domains) = fold note_line (split_lines details) ([], []);
          when = (\<lambda>k. Option.bind (dict_get values k) strptime) in
      case (when ''notbefore'', when ''notafter'') of
        (Some b, Some a) \<Rightarrow>
          Inr \<lparr>ci_subject = dict_get_or values ''subject'' [], ci_issuer = dict_get_or values ''issuer'' [],
            ci_serial = dict_get_or values ''serial'' [], ci_not_before = b, ci_not_after = a,
            ci_domain_names = rev (remdups (rev domains))\<rparr>
      | _ \<Rightarrow> Inl (ValueError ''OpenSSL did not return parseable certificate dates''))"

text \<open>What OpenSSL prints for a bundle: the details, the public key of the certificate, the public key of the key; a
  failed run raises with its diagnostic.\<close>

record openssl =
  os_details :: "string \<Rightarrow> py_error + string"
  os_cert_public :: "string \<Rightarrow> py_error + string"
  os_key_public :: "string \<Rightarrow> py_error + string"
  os_strptime :: "string \<Rightarrow> int option"

definition same_key :: "string \<Rightarrow> string \<Rightarrow> bool" where
  "same_key a b \<longleftrightarrow> filter (\<lambda>c. \<not> is_space c) a = filter (\<lambda>c. \<not> is_space c) b"

definition validate_pem :: "openssl \<Rightarrow> int \<Rightarrow> cert_bundle \<Rightarrow> py_error + cert_info" where
  "validate_pem ssl now b =
     ebind (validate_shape b) (\<lambda>_.
     ebind (os_details ssl (bd_certificate b)) (\<lambda>details.
     ebind (os_cert_public ssl (bd_certificate b)) (\<lambda>cert_public.
     ebind (os_key_public ssl (bd_private_key b)) (\<lambda>key_public.
     if \<not> same_key cert_public key_public then Inl (ValueError ''certificate and private key do not match'')
     else
       ebind (parse_details (os_strptime ssl) details) (\<lambda>info.
       if now < ci_not_before info then Inl (ValueError ''certificate is not yet valid'')
       else if ci_not_after info \<le> now then Inl (ValueError ''certificate has expired'')
       else Inr info)))))"

section \<open>DNS providers\<close>

record dns_provider =
  dp_id :: string
  dp_name :: string
  dp_package_name :: string
  dp_credential_fields :: "string list"

definition provider_names :: "(string \<times> string) list" where
  "provider_names = [(''acmedns'', ''ACME-DNS''), (''active24'', ''Active24''), (''aliyun'', ''Aliyun''), (''arvan'', ''ArvanCloud''),
     (''azure'', ''Azure''), (''baidu'', ''Baidu''), (''beget'', ''Beget''), (''bunny'', ''bunny.net''),
     (''cdmon'', ''cdmon''), (''cloudflare'', ''Cloudflare''), (''cloudns'', ''ClouDNS''), (''cloudxns'', ''CloudXNS''),
     (''constellix'', ''Constellix''), (''corenetworks'', ''Core Networks''), (''cpanel'', ''cPanel''),
     (''ddnss'', ''DDNSS''), (''desec'', ''deSEC''), (''digitalocean'', ''DigitalOcean''),
     (''directadmin'', ''DirectAdmin''), (''dnsimple'', ''DNSimple''), (''dnsmadeeasy'', ''DNS Made Easy''),
     (''dnsmulti'', ''DnsMulti''), (''dnspod'', ''DNSPod''), (''domainoffensive'', ''DomainOffensive (do.de)''),
     (''domeneshop'', ''Domeneshop''), (''duckdns'', ''DuckDNS''), (''dynu'', ''Dynu''), (''easydns'', ''easyDNS''),
     (''edgedns'', ''Akamai Edge DNS''), (''eurodns'', ''EuroDNS''), (''firstdomains'', ''First Domains''),
     (''freedns'', ''FreeDNS''), (''gandi'', ''Gandi Live DNS''), (''gcore'', ''Gcore DNS''), (''glesys'', ''Glesys''),
     (''godaddy'', ''GoDaddy''), (''google'', ''Google''), (''googledomains'', ''GoogleDomainsDNS''),
     (''he'', ''Hurricane Electric''), (''he-ddns'', ''Hurricane Electric - DDNS''), (''hetzner'', ''Hetzner''),
     (''hetzner-cloud'', ''Hetzner Cloud''), (''hostinger'', ''Hostinger.com''), (''hostingnl'', ''Hosting.nl''),
     (''hover'', ''Hover''), (''hosterby'', ''hoster.by''), (''infomaniak'', ''Infomaniak''), (''inwx'', ''INWX''),
     (''ionos'', ''IONOS''), (''ispconfig'', ''ISPConfig''), (''isset'', ''Isset''), (''joker'', ''Joker''),
     (''kas'', ''All-Inkl''), (''leaseweb'', ''LeaseWeb''), (''linode'', ''Linode''), (''loopia'', ''Loopia''),
     (''luadns'', ''LuaDNS''), (''mchost24'', ''MC-HOST24''), (''mijnhost'', ''mijn.host''), (''namecheap'', ''Namecheap''),
     (''namecom'', ''Name.com''), (''netcup'', ''netcup''), (''nicru'', ''nic.ru''), (''njalla'', ''Njalla''),
     (''nsone'', ''NS1''), (''oci'', ''Oracle Cloud Infrastructure DNS''), (''ovh'', ''OVH''), (''plesk'', ''Plesk''),
     (''porkbun'', ''Porkbun''), (''powerdns'', ''PowerDNS''), (''regru'', ''reg.ru''), (''rfc2136'', ''RFC 2136''),
     (''rockenstein'', ''rockenstein AG''), (''route53'', ''Route 53 (Amazon)''), (''selectelv2'', ''Selectel api v2''),
     (''simply'', ''Simply''), (''spaceship'', ''Spaceship''), (''strato'', ''Strato''),
     (''tencentcloud'', ''Tencent Cloud''), (''timeweb'', ''Timeweb Cloud''), (''transip'', ''TransIP''),
     (''vultr'', ''Vultr''), (''websupport'', ''Websupport.sk''), (''wedos'', ''Wedos''), (''zoneedit'', ''ZoneEdit''),
     (''rcode0'', ''RcodeZero'')]"

definition provider_credential_fields :: "(string, string list) dict" where
  "provider_credential_fields = [(''cloudflare'', [''dns_cloudflare_api_token'']), (''digitalocean'', [''dns_digitalocean_token'']),
     (''duckdns'', [''dns_duckdns_token'']), (''route53'', [''aws_access_key_id'', ''aws_secret_access_key'']),
     (''rfc2136'', [''dns_rfc2136_server'', ''dns_rfc2136_name'', ''dns_rfc2136_secret''])]"

definition default_providers :: "dns_provider list" where
  "default_providers =
     map (\<lambda>(i, name). \<lparr>dp_id = i, dp_name = name,
       dp_package_name = (if i = ''acmedns'' then ''certbot-dns-acmedns'' else ''certbot-dns-'' @ i),
       dp_credential_fields = dict_get_or provider_credential_fields i []\<rparr>) provider_names"

definition new_catalog :: "dns_provider list \<Rightarrow> py_error + (string, dns_provider) dict" where
  "new_catalog ps =
     (let by_id = fold (\<lambda>p. dict_set (dp_id p) p) ps [] in
      if length ps \<noteq> length by_id then Inl (ValueError ''DNS provider ids must be unique'') else Inr by_id)"

definition get_provider :: "(string, dns_provider) dict \<Rightarrow> string \<Rightarrow> py_error + dns_provider" where
  "get_provider catalog i = note_none (KeyError (''unknown DNS provider: '' @ i)) (dict_get catalog i)"

definition validate_credentials :: "(string, dns_provider) dict \<Rightarrow> string \<Rightarrow> (string, string) dict \<Rightarrow> py_error + unit" where
  "validate_credentials catalog i values =
     ebind (get_provider catalog i) (\<lambda>p.
     let missing = filter (\<lambda>f. dict_get_or values f [] = []) (dp_credential_fields p) in
     if missing \<noteq> [] then Inl (ValueError (''missing '' @ dp_name p @ '' credential fields: '' @ join '', '' missing)) else Inr ())"

section \<open>Issuance\<close>

datatype challenge_type = Http_01 | Dns_01

fun challenge_value :: "challenge_type \<Rightarrow> string" where
  "challenge_value Http_01 = ''http-01''"
| "challenge_value Dns_01 = ''dns-01''"

definition challenge_of :: "string \<Rightarrow> py_error + challenge_type" where
  "challenge_of s = (if s = ''http-01'' then Inr Http_01 else if s = ''dns-01'' then Inr Dns_01
     else Inl (ValueError (str_repr s @ '' is not a valid ChallengeType'')))"

record issued_certificate =
  iss_certificate :: string
  iss_private_key :: string
  iss_chain :: string
  iss_expires_at :: int

text \<open>The client and the challenge handler: what they answer, and which of their calls raise. The trace holds the
  presentations and cleanups in the order in which they took effect.\<close>

datatype challenge_event = Presented string | Cleaned string

record acme_client =
  ac_order :: "string list \<Rightarrow> py_error + string list"
  ac_present :: "string \<Rightarrow> py_error + unit"
  ac_cleanup :: "string \<Rightarrow> py_error + unit"
  ac_validate :: "string list \<Rightarrow> py_error + unit"
  ac_finalize :: "string list \<Rightarrow> py_error + issued_certificate"

fun present_all :: "acme_client \<Rightarrow> string list \<Rightarrow> string list \<Rightarrow> string list \<times> (py_error + unit)" where
  "present_all ac [] presented = (presented, Inr ())"
| "present_all ac (c # cs) presented =
     (case ac_present ac c of Inl e \<Rightarrow> (presented, Inl e) | Inr _ \<Rightarrow> present_all ac cs (presented @ [c]))"

text \<open>The \<open>finally\<close> block: an error of a cleanup replaces the outcome and ends the loop.\<close>

fun clean_up :: "acme_client \<Rightarrow> string list \<Rightarrow> py_error + 'a \<Rightarrow> challenge_event list \<times> (py_error + 'a)" where
  "clean_up ac [] result = ([], result)"
| "clean_up ac (c # cs) result =
     (case ac_cleanup ac c of
        Inl e \<Rightarrow> ([], Inl e)
      | Inr _ \<Rightarrow> (let (t, r) = clean_up ac cs result in (Cleaned c # t, r)))"

definition acme_issue :: "acme_client \<Rightarrow> string list \<Rightarrow> challenge_type \<Rightarrow> string \<Rightarrow>
    challenge_event list \<times> (py_error + issued_certificate)" where
  "acme_issue ac domains challenge key_type =
     (if domains = [] \<or> 100 < length domains then ([], Inl (ValueError ''ACME orders require between 1 and 100 domains''))
      else if key_type \<notin> {''rsa'', ''ecdsa''} then ([], Inl (ValueError ''key_type must be rsa or ecdsa''))
      else if (\<exists>d\<in>set domains. startswith ''*.'' d) \<and> challenge \<noteq> Dns_01
      then ([], Inl (ValueError ''wildcard certificates require DNS-01''))
      else case ac_order ac domains of
          Inl e \<Rightarrow> ([], Inl e)
        | Inr challenges \<Rightarrow>
            let (presented, shown) = present_all ac challenges [];
                result = ebind shown (\<lambda>_. ebind (ac_validate ac challenges) (\<lambda>_. ac_finalize ac challenges));
                (t, r) = clean_up ac (rev presented) result in
            (map Presented presented @ t, r))"

definition renewal_due :: "int \<Rightarrow> int \<Rightarrow> bool" where
  "renewal_due expires_at now \<longleftrightarrow> expires_at \<le> now + 30 * 86400"

section \<open>Laws\<close>

lemma default_catalog_accepted: "distinct (map dp_id default_providers)"
proof -
  have "distinct (map fst provider_names)" by code_simp
  then show ?thesis by (simp add: default_providers_def comp_def case_prod_beta)
qed


lemma clean_up_exact:
  "fst (clean_up ac cs result) = map Cleaned (takeWhile (\<lambda>c. ac_cleanup ac c = Inr ()) cs)"
  "takeWhile (\<lambda>c. ac_cleanup ac c = Inr ()) cs = cs \<Longrightarrow> snd (clean_up ac cs result) = result"
  "takeWhile (\<lambda>c. ac_cleanup ac c = Inr ()) cs \<noteq> cs \<Longrightarrow>
     \<exists>e. ac_cleanup ac (cs ! length (takeWhile (\<lambda>c. ac_cleanup ac c = Inr ()) cs)) = Inl e \<and> snd (clean_up ac cs result) = Inl e"
  by (induction cs) (auto simp: case_prod_beta split: sum.splits)

lemma present_all_exact:
  "fst (present_all ac cs shown) = shown @ takeWhile (\<lambda>c. ac_present ac c = Inr ()) cs"
  "snd (present_all ac cs shown) = Inr () \<longleftrightarrow> takeWhile (\<lambda>c. ac_present ac c = Inr ()) cs = cs"
  by (induction cs arbitrary: shown) (auto split: sum.splits)

text \<open>The requests an issuance accepts.\<close>

definition issuable :: "string list \<Rightarrow> challenge_type \<Rightarrow> string \<Rightarrow> bool" where
  "issuable domains challenge key_type \<longleftrightarrow> 1 \<le> length domains \<and> length domains \<le> 100 \<and> key_type \<in> {''rsa'', ''ecdsa''} \<and>
     ((\<exists>d\<in>set domains. startswith ''*.'' d) \<longrightarrow> challenge = Dns_01)"

text \<open>C9. What an issuance presents and takes down, on every path. Once the order exists, the challenges are presented in
  order up to the first whose presentation raises; those presented are cleaned up in reverse, each once, up to the first
  whose cleanup raises, so all of them exactly when no cleanup raises. A cleanup that raises ends the issuance with its own
  error, in place of a certificate or of the earlier error, and leaves the challenges before it presented. A certificate is returned exactly
  when every challenge was presented, validation and finalization succeeded and every challenge was cleaned up. A request
  without 1 to 100 names, with another kind of key or with a wildcard outside DNS-01, and one without an order, presents nothing and raises.\<close>

theorem acme_cleanup_exact:
  "case acme_issue ac domains challenge key_type of (trace, result) \<Rightarrow>
    (if issuable domains challenge key_type \<and> (\<exists>order. ac_order ac domains = Inr order)
     then \<exists>order. ac_order ac domains = Inr order \<and>
       (let shown = takeWhile (\<lambda>c. ac_present ac c = Inr ()) order;
            down = takeWhile (\<lambda>c. ac_cleanup ac c = Inr ()) (rev shown) in
        trace = map Presented shown @ map Cleaned down \<and>
        (down = rev shown \<or> (\<exists>e. ac_cleanup ac (rev shown ! length down) = Inl e \<and> result = Inl e)) \<and>
        (\<forall>cert. result = Inr cert \<longleftrightarrow> down = rev shown \<and> shown = order \<and>
           ac_validate ac order = Inr () \<and> ac_finalize ac order = Inr cert))
     else trace = [] \<and> (\<exists>e. result = Inl e))"
proof (cases "issuable domains challenge key_type \<and> (\<exists>order. ac_order ac domains = Inr order)")
  case True
  then obtain order where order: "ac_order ac domains = Inr order" by blast
  define shown down where "shown = takeWhile (\<lambda>c. ac_present ac c = Inr ()) order"
    and "down = takeWhile (\<lambda>c. ac_cleanup ac c = Inr ()) (rev shown)"
  obtain ps r where pr: "present_all ac order [] = (ps, r)" by (cases "present_all ac order []")
  have ps: "ps = shown" and r: "r = Inr () \<longleftrightarrow> shown = order"
    using present_all_exact [of ac order "[]"] by (simp_all add: pr shown_def)
  let ?result = "ebind r (\<lambda>_. ebind (ac_validate ac order) (\<lambda>_. ac_finalize ac order))"
  have down: "takeWhile (\<lambda>c. ac_cleanup ac c = Inr ()) (rev ps) = down" by (simp add: down_def ps)
  have run: "acme_issue ac domains challenge key_type = (map Presented ps @ fst (clean_up ac (rev ps) ?result), snd (clean_up ac (rev ps) ?result))"
    using True order by (auto simp: acme_issue_def issuable_def pr Let_def case_prod_beta)
  have cert: "?result = Inr cert \<longleftrightarrow> shown = order \<and> ac_validate ac order = Inr () \<and> ac_finalize ac order = Inr cert" for cert
    using r by (auto simp: ebind_Inr_iff)
  note ends = clean_up_exact [where ac = ac and cs = "rev ps" and result = ?result, unfolded down]
  show ?thesis
  proof (cases "down = rev ps")
    case all: True
    then show ?thesis using True order ends(1,2) cert unfolding run ps Let_def
      by (simp only: prod.case if_True simp_thms sum.inject flip: shown_def down_def)
  next
    case False
    then obtain e where "ac_cleanup ac (rev ps ! length (down)) = Inl e" "snd (clean_up ac (rev ps) ?result) = Inl e"
      using ends(3) by blast
    then show ?thesis using True order ends(1) False unfolding run ps Let_def
      by (simp add: takeWhile_eq_all_conv [symmetric] del: takeWhile_eq_all_conv flip: shown_def down_def)
  qed
next
  case False
  have "\<exists>e. acme_issue ac domains challenge key_type = ([], Inl e)"
    using False by (cases "ac_order ac domains") (auto simp: acme_issue_def issuable_def not_le Suc_le_eq)
  then show ?thesis using False by auto
qed

text \<open>Three challenges are presented; the cleanup of the last raises, and the other two stay although they could be cleaned up.\<close>

lemma cleanup_stops_early:
  "acme_issue \<lparr>ac_order = \<lambda>_. Inr [''a'', ''b'', ''c''], ac_present = \<lambda>_. Inr (),
      ac_cleanup = \<lambda>c. if c = ''c'' then Inl (OSError []) else Inr (), ac_validate = \<lambda>_. Inr (),
      ac_finalize = \<lambda>_. Inr \<lparr>iss_certificate = [], iss_private_key = [], iss_chain = [], iss_expires_at = 0\<rparr>\<rparr>
     [''x.org''] Http_01 ''rsa'' = ([Presented ''a'', Presented ''b'', Presented ''c''], Inl (OSError []))"
  by (simp add: acme_issue_def startswith_def)

end
