(* ===== verification/Effects.thy ===== *)
theory Effects
  imports Prelude
begin

text \<open>
  Code that changes a state and may raise: a state of any type, an exception of any type, and the state at the moment of the
  exception returned with it. The rules for \<open>triple\<close> carry an assertion through such code, as Hoare triples with a
  second postcondition for exceptions.
\<close>

section \<open>Effects that can raise\<close>

type_synonym ('s, 'e, 'a) effect_of = "'s \<Rightarrow> 's \<times> ('e + 'a)"

definition io_return :: "'a \<Rightarrow> ('s, 'e, 'a) effect_of" where
  "io_return x st = (st, Inr x)"

definition io_raise :: "'e \<Rightarrow> ('s, 'e, 'a) effect_of" where
  "io_raise e st = (st, Inl e)"

definition io_lift :: "'e + 'a \<Rightarrow> ('s, 'e, 'a) effect_of" where
  "io_lift r st = (st, r)"

definition io_bind :: "('s, 'e, 'a) effect_of \<Rightarrow> ('a \<Rightarrow> ('s, 'e, 'b) effect_of) \<Rightarrow> ('s, 'e, 'b) effect_of" where
  "io_bind m f st = (case m st of (st', Inl e) \<Rightarrow> (st', Inl e) | (st', Inr x) \<Rightarrow> f x st')"

text \<open>\<open>except BaseException: handler; raise\<close>, and \<open>finally\<close>: an exception of the handler replaces the first one.\<close>

definition io_compensate :: "('s, 'e, 'a) effect_of \<Rightarrow> ('s, 'e, unit) effect_of \<Rightarrow> ('s, 'e, 'a) effect_of" where
  "io_compensate m handler st =
     (case m st of (st', Inl e) \<Rightarrow> io_bind handler (\<lambda>_. io_raise e) st' | (st', Inr x) \<Rightarrow> (st', Inr x))"

definition io_finally :: "('s, 'e, 'a) effect_of \<Rightarrow> ('s, 'e, unit) effect_of \<Rightarrow> ('s, 'e, 'a) effect_of" where
  "io_finally m final st = (case m st of (st', r) \<Rightarrow> io_bind final (\<lambda>_. io_lift r) st')"

definition io_when :: "('s \<Rightarrow> bool) \<Rightarrow> ('s, 'e, unit) effect_of \<Rightarrow> ('s, 'e, unit) effect_of" where
  "io_when b m st = (if b st then m st else (st, Inr ()))"

section \<open>Reasoning about effects\<close>

text \<open>From a state with \<open>P\<close>, a normal end satisfies \<open>Q\<close> and an exception \<open>E\<close>.\<close>

definition triple :: "('s \<Rightarrow> bool) \<Rightarrow> ('s, 'e, 'a) effect_of \<Rightarrow> ('a \<Rightarrow> 's \<Rightarrow> bool) \<Rightarrow> ('e \<Rightarrow> 's \<Rightarrow> bool) \<Rightarrow> bool" where
  "triple P m Q E \<longleftrightarrow> (\<forall>s s' x. P s \<longrightarrow> m s = (s', Inr x) \<longrightarrow> Q x s') \<and> (\<forall>s s' e. P s \<longrightarrow> m s = (s', Inl e) \<longrightarrow> E e s')"

named_theorems triple_rules

lemma triple_Inr: "triple P m Q E \<Longrightarrow> P s \<Longrightarrow> m s = (s', Inr x) \<Longrightarrow> Q x s'"
  by (simp add: triple_def)

lemma triple_Inl: "triple P m Q E \<Longrightarrow> P s \<Longrightarrow> m s = (s', Inl e) \<Longrightarrow> E e s'"
  by (simp add: triple_def)

lemma tripleI:
  "(\<And>s s' x. P s \<Longrightarrow> m s = (s', Inr x) \<Longrightarrow> Q x s') \<Longrightarrow> (\<And>s s' e. P s \<Longrightarrow> m s = (s', Inl e) \<Longrightarrow> E e s') \<Longrightarrow> triple P m Q E"
  by (simp add: triple_def)

lemma triple_return [triple_rules]: "triple (Q x) (io_return x) Q E"
  by (simp add: triple_def io_return_def)

lemma triple_raise [triple_rules]: "triple (E e) (io_raise e) Q E"
  by (simp add: triple_def io_raise_def)

lemma triple_lift: "(\<And>e s. r = Inl e \<Longrightarrow> P s \<Longrightarrow> E e s) \<Longrightarrow> (\<And>x s. r = Inr x \<Longrightarrow> P s \<Longrightarrow> Q x s) \<Longrightarrow> triple P (io_lift r) Q E"
  by (cases r) (auto simp: triple_def io_lift_def)

lemma triple_bind:
  assumes "triple P m R E" and "\<And>x. triple (R x) (f x) Q E"
  shows "triple P (io_bind m f) Q E"
proof (rule tripleI)
  fix s s' y assume P: "P s" and "io_bind m f s = (s', Inr y)"
  then obtain t x where "m s = (t, Inr x)" "f x t = (s', Inr y)" by (auto simp: io_bind_def split: prod.splits sum.splits)
  then show "Q y s'" using triple_Inr [OF assms(1) P] triple_Inr [OF assms(2)] by blast
next
  fix s s' e assume P: "P s" and "io_bind m f s = (s', Inl e)"
  then consider "m s = (s', Inl e)" | t x where "m s = (t, Inr x)" "f x t = (s', Inl e)"
    by (auto simp: io_bind_def split: prod.splits sum.splits)
  then show "E e s'" using triple_Inl [OF assms(1) P] triple_Inr [OF assms(1) P] triple_Inl [OF assms(2)] by cases blast+
qed

lemma triple_when: "triple (\<lambda>s. P s \<and> b s) m (\<lambda>_. Q) E \<Longrightarrow> (\<And>s. P s \<Longrightarrow> \<not> b s \<Longrightarrow> Q s) \<Longrightarrow> triple P (io_when b m) (\<lambda>_. Q) E"
  by (simp add: triple_def io_when_def)

lemma triple_compensate:
  assumes "triple P m Q F" and "\<And>e. triple (F e) h (\<lambda>_. E e) E"
  shows "triple P (io_compensate m h) Q E"
proof (rule tripleI)
  fix s s' y assume "P s" and "io_compensate m h s = (s', Inr y)"
  then show "Q y s'" using triple_Inr [OF assms(1)]
    by (auto simp: io_compensate_def io_bind_def io_raise_def split: prod.splits sum.splits)
next
  fix s s' e assume P: "P s" and "io_compensate m h s = (s', Inl e)"
  moreover obtain t r where "m s = (t, r)" by (cases "m s")
  ultimately consider e1 where "m s = (t, Inl e1)" "h t = (s', Inl e)" | "m s = (t, Inl e)" "h t = (s', Inr ())"
    by (cases r) (auto simp: io_compensate_def io_bind_def io_raise_def split: prod.splits sum.splits)
  then show "E e s'" using triple_Inl [OF assms(1) P] triple_Inr [OF assms(2)] triple_Inl [OF assms(2)] by cases blast+
qed

lemma triple_finally:
  assumes "triple P m Q' E'" and "\<And>x. triple (Q' x) f (\<lambda>_. Q x) E" and "\<And>e. triple (E' e) f (\<lambda>_. E e) E"
  shows "triple P (io_finally m f) Q E"
proof (rule tripleI)
  fix s s' y assume P: "P s" and "io_finally m f s = (s', Inr y)"
  then obtain t where "m s = (t, Inr y)" "f t = (s', Inr ())"
    by (auto simp: io_finally_def io_bind_def io_lift_def split: prod.splits sum.splits)
  then show "Q y s'" using triple_Inr [OF assms(1) P] triple_Inr [OF assms(2)] by blast
next
  fix s s' e assume P: "P s" and "io_finally m f s = (s', Inl e)"
  then consider t r where "m s = (t, r)" "f t = (s', Inl e)" | t where "m s = (t, Inl e)" "f t = (s', Inr ())"
    by (auto simp: io_finally_def io_bind_def io_lift_def split: prod.splits sum.splits)
  then show "E e s'"
  proof cases
    case 1
    then show ?thesis using triple_Inr [OF assms(1) P] triple_Inl [OF assms(1) P] triple_Inl [OF assms(2)] triple_Inl [OF assms(3)]
      by (cases r) blast+
  next
    case 2
    then show ?thesis using triple_Inl [OF assms(1) P] triple_Inr [OF assms(3)] by blast
  qed
qed

lemma triple_weaken:
  assumes "triple P m Q E" and "\<And>s. P' s \<Longrightarrow> P s" and "\<And>x s. Q x s \<Longrightarrow> Q' x s" and "\<And>e s. E e s \<Longrightarrow> E' e s"
  shows "triple P' m Q' E'"
proof (rule tripleI)
  fix s s' x assume "P' s" "m s = (s', Inr x)"
  then show "Q' x s'" using triple_Inr [OF assms(1) assms(2)] assms(3) by blast
next
  fix s s' e assume "P' s" "m s = (s', Inl e)"
  then show "E' e s'" using triple_Inl [OF assms(1) assms(2)] assms(4) by blast
qed

lemma triple_run: "triple P m Q E \<Longrightarrow> P s \<Longrightarrow> m s = (s', r) \<Longrightarrow> case r of Inl e \<Rightarrow> E e s' | Inr x \<Rightarrow> Q x s'"
  unfolding triple_def by (cases r) auto

end
