(* ===== verification/Cert_Store.thy ===== *)
theory Cert_Store
  imports Acme Effects
begin

text \<open>
  \<open>certificates/manager.py\<close>: the directories of certificate material under the store's root, and Certbot's command line.
  A call of the file system may fail, as a plan of faults says; a failed write may leave a torn file, and a failed removal
  a part of the directory. Symbolic links under the root are not modelled.
\<close>

type_synonym ('s, 'a) io = "('s, py_error, 'a) effect_of"

section \<open>Directories\<close>

record disk =
  dk_dirs :: "(string, (string, string) dict) dict"
  dk_calls :: nat

record faults =
  ft_fails :: "nat \<Rightarrow> bool"
  ft_torn :: "nat \<Rightarrow> string \<Rightarrow> string option"
  ft_left :: "nat \<Rightarrow> (string, string) dict \<Rightarrow> (string, string) dict"

definition dir_of :: "string \<Rightarrow> disk \<Rightarrow> (string, string) dict option" where
  "dir_of name dk = dict_get (dk_dirs dk) name"

definition dir_exists :: "string \<Rightarrow> disk \<Rightarrow> bool" where
  "dir_exists name dk \<longleftrightarrow> dir_of name dk \<noteq> None"

definition set_dir :: "string \<Rightarrow> (string, string) dict \<Rightarrow> disk \<Rightarrow> disk" where
  "set_dir name files dk = dk\<lparr>dk_dirs := dict_set name files (dk_dirs dk)\<rparr>"

definition drop_dir :: "string \<Rightarrow> disk \<Rightarrow> disk" where
  "drop_dir name dk = dk\<lparr>dk_dirs := dict_pop name (dk_dirs dk)\<rparr>"

text \<open>One call: it fails by the plan, leaving the disk as \<open>bad\<close> says, or when its condition does not hold.\<close>

definition fs_call :: "faults \<Rightarrow> (disk \<Rightarrow> bool) \<Rightarrow> (disk \<Rightarrow> disk) \<Rightarrow> (nat \<Rightarrow> disk \<Rightarrow> disk) \<Rightarrow> (disk, unit) io" where
  "fs_call ft cond good bad dk =
     (let n = dk_calls dk; dk' = dk\<lparr>dk_calls := n + 1\<rparr> in
      if ft_fails ft n then (bad n dk', Inl (OSError ''I/O error''))
      else if \<not> cond dk then (dk', Inl (OSError ''file exists or is missing''))
      else (good dk', Inr ()))"

definition make_dir :: "faults \<Rightarrow> string \<Rightarrow> (disk, unit) io" where
  "make_dir ft name = fs_call ft (\<lambda>dk. \<not> dir_exists name dk) (set_dir name []) (\<lambda>_ dk. dk)"

definition file_text :: "string \<Rightarrow> string" where
  "file_text value = (if strip value \<noteq> [] then strip value @ newline else [])"

definition put_file :: "string \<Rightarrow> string \<Rightarrow> string \<Rightarrow> disk \<Rightarrow> disk" where
  "put_file name file text dk =
     (case dir_of name dk of None \<Rightarrow> dk | Some files \<Rightarrow> set_dir name (dict_set file text files) dk)"

definition write_text :: "faults \<Rightarrow> string \<Rightarrow> string \<Rightarrow> string \<Rightarrow> (disk, unit) io" where
  "write_text ft name file value =
     fs_call ft (dir_exists name) (put_file name file (file_text value))
       (\<lambda>n dk. case ft_torn ft n (file_text value) of None \<Rightarrow> dk | Some t \<Rightarrow> put_file name file t dk)"

definition remove_tree :: "faults \<Rightarrow> string \<Rightarrow> (disk, unit) io" where
  "remove_tree ft name =
     fs_call ft (dir_exists name) (drop_dir name)
       (\<lambda>n dk. case dir_of name dk of None \<Rightarrow> dk | Some files \<Rightarrow> set_dir name (ft_left ft n files) dk)"

text \<open>\<open>os.replace\<close> on directories: the target must not exist, or be empty.\<close>

definition rename_dir :: "faults \<Rightarrow> string \<Rightarrow> string \<Rightarrow> (disk, unit) io" where
  "rename_dir ft src dst =
     fs_call ft (\<lambda>dk. dir_exists src dk \<and> dir_of dst dk \<in> {None, Some []})
       (\<lambda>dk. case dir_of src dk of None \<Rightarrow> dk | Some files \<Rightarrow> set_dir dst files (drop_dir src dk)) (\<lambda>_ dk. dk)"

section \<open>The material store\<close>

definition store_dir :: "string \<Rightarrow> int \<Rightarrow> string \<Rightarrow> py_error + string" where
  "store_dir prefix certificate_id suffix =
     (if certificate_id < 1 then Inl (ValueError ''certificate ID must be a positive integer'')
      else
        let candidate = prefix @ int_str certificate_id @ suffix in
        if CHR ''/'' \<in> set candidate then Inl (ValueError ''certificate path component is invalid'') else Inr candidate)"

definition live_dir :: "int \<Rightarrow> string" where
  "live_dir i = ''npm-'' @ int_str i"

definition swap_in :: "faults \<Rightarrow> string \<Rightarrow> string \<Rightarrow> string \<Rightarrow> (disk, unit) io" where
  "swap_in ft target stage backup =
     io_bind (io_when (dir_exists backup) (remove_tree ft backup)) (\<lambda>_.
     io_bind (io_when (dir_exists target) (rename_dir ft target backup)) (\<lambda>_.
     io_bind (io_compensate (rename_dir ft stage target) (io_when (dir_exists backup) (rename_dir ft backup target))) (\<lambda>_.
       io_when (dir_exists backup) (remove_tree ft backup))))"

definition write_bundle :: "faults \<Rightarrow> string \<Rightarrow> cert_bundle \<Rightarrow> (disk, unit) io" where
  "write_bundle ft stage b =
     io_bind (write_text ft stage ''cert.pem'' (bd_certificate b)) (\<lambda>_.
     io_bind (write_text ft stage ''chain.pem'' (bd_intermediate_certificate b)) (\<lambda>_.
     io_bind (write_text ft stage ''fullchain.pem'' (fullchain b)) (\<lambda>_.
       write_text ft stage ''privkey.pem'' (bd_private_key b))))"

definition store_put :: "faults \<Rightarrow> string \<Rightarrow> int \<Rightarrow> cert_bundle \<Rightarrow> (disk, unit) io" where
  "store_put ft uuid i b =
     io_bind (io_lift (store_dir ''npm-'' i [])) (\<lambda>target.
     io_bind (io_lift (store_dir ''.npm-'' i (''-'' @ uuid))) (\<lambda>stage.
     io_bind (make_dir ft stage) (\<lambda>_.
       io_finally
         (io_bind (write_bundle ft stage b) (\<lambda>_.
          io_bind (io_lift (store_dir ''.npm-'' i ''-backup'')) (\<lambda>backup. swap_in ft target stage backup)))
         (io_when (dir_exists stage) (remove_tree ft stage)))))"

definition store_delete :: "faults \<Rightarrow> int \<Rightarrow> (disk, bool) io" where
  "store_delete ft i =
     io_bind (io_lift (store_dir ''npm-'' i [])) (\<lambda>target dk.
       if \<not> dir_exists target dk then (dk, Inr False) else io_bind (remove_tree ft target) (\<lambda>_. io_return True) dk)"

definition store_detach :: "faults \<Rightarrow> string \<Rightarrow> int \<Rightarrow> (disk, string option) io" where
  "store_detach ft uuid i =
     io_bind (io_lift (store_dir ''npm-'' i [])) (\<lambda>target dk.
       if \<not> dir_exists target dk then (dk, Inr None)
       else
         io_bind (io_lift (store_dir ''.npm-'' i (''-delete-'' @ uuid))) (\<lambda>quarantine.
         io_bind (rename_dir ft target quarantine) (\<lambda>_. io_return (Some quarantine))) dk)"

definition rollback_detach :: "faults \<Rightarrow> int \<Rightarrow> string option \<Rightarrow> (disk, unit) io" where
  "rollback_detach ft i quarantine =
     (case quarantine of
        None \<Rightarrow> io_return ()
      | Some q \<Rightarrow> io_when (dir_exists q) (io_bind (io_lift (store_dir ''npm-'' i [])) (\<lambda>target. rename_dir ft q target)))"

definition commit_detach :: "faults \<Rightarrow> string option \<Rightarrow> (disk, unit) io" where
  "commit_detach ft quarantine =
     (case quarantine of None \<Rightarrow> io_return () | Some q \<Rightarrow> io_when (dir_exists q) (remove_tree ft q))"

text \<open>The archive is the list of its members in order; the zip container is the library's.\<close>

definition store_archive :: "int \<Rightarrow> disk \<Rightarrow> py_error + (string, string) dict" where
  "store_archive i dk =
     ebind (store_dir ''npm-'' i []) (\<lambda>target.
       case dir_of target dk of
         None \<Rightarrow> Inl (OSError (''certificate material '' @ int_str i @ '' was not found''))
       | Some files \<Rightarrow>
           Inr (concat (map (\<lambda>n. case dict_get files n of None \<Rightarrow> [] | Some text \<Rightarrow> [(n, text)])
             [''cert.pem'', ''chain.pem'', ''fullchain.pem'', ''privkey.pem''])))"

section \<open>Certbot\<close>

record certbot =
  cb_webroot :: string
  cb_config_root :: string
  cb_server :: string
  cb_staging :: bool
  cb_scratch :: string
  cb_sha256 :: "string \<Rightarrow> string"
  cb_installed :: "string \<Rightarrow> bool"
  cb_run :: "string list \<Rightarrow> int \<times> string \<times> string"
  cb_read :: "string \<Rightarrow> py_error + string"
  cb_ssl :: openssl
  cb_now :: int

definition lineage_name :: "certbot \<Rightarrow> string list \<Rightarrow> string" where
  "lineage_name cb domains = ''portwyrm-'' @ take 20 (cb_sha256 cb (join newline (sort domains)))"

definition challenge_args :: "certbot \<Rightarrow> (string, dns_provider) dict \<Rightarrow> challenge_type \<Rightarrow> string option \<Rightarrow> string option \<Rightarrow> py_error + string list" where
  "challenge_args cb catalog challenge provider credentials_file =
     (case challenge of
        Http_01 \<Rightarrow> Inr [''--webroot'', ''--webroot-path'', cb_webroot cb]
      | Dns_01 \<Rightarrow>
          case (provider, credentials_file) of
            (Some p, Some file) \<Rightarrow>
              if p = [] then Inl (ValueError ''DNS-01 requires a provider and credentials file'')
              else
                ebind (get_provider catalog p) (\<lambda>dns.
                if \<not> cb_installed cb p
                then Inl (RuntimeError (''DNS provider '' @ str_repr p @ '' is catalogued but unavailable; install '' @
                       dp_package_name dns @ '' before requesting a certificate''))
                else Inr [''--dns-'' @ p, ''--dns-'' @ p @ ''-credentials'', file])
          | _ \<Rightarrow> Inl (ValueError ''DNS-01 requires a provider and credentials file''))"

definition certbot_command :: "certbot \<Rightarrow> string list \<Rightarrow> string list \<Rightarrow> string \<Rightarrow> string \<Rightarrow> string list" where
  "certbot_command cb domains args key_type email =
     [''certbot'', ''certonly'', ''--non-interactive'', ''--agree-tos'', ''--email'', email, ''--cert-name'', lineage_name cb domains,
      ''--config-dir'', cb_config_root cb, ''--work-dir'', cb_scratch cb @ ''/work'', ''--logs-dir'', cb_scratch cb @ ''/logs'',
      ''--key-type'', key_type] @ args @ (if cb_server cb \<noteq> [] then [''--server'', cb_server cb] else []) @
     (if cb_staging cb then [''--staging''] else []) @ concat (map (\<lambda>d. [''-d'', d]) domains)"

definition certbot_issue :: "certbot \<Rightarrow> (string, dns_provider) dict \<Rightarrow> string list \<Rightarrow> challenge_type \<Rightarrow> string \<Rightarrow> string \<Rightarrow>
    string option \<Rightarrow> string option \<Rightarrow> py_error + issued_certificate" where
  "certbot_issue cb catalog domains challenge key_type email provider credentials_file =
     ebind (challenge_args cb catalog challenge provider credentials_file) (\<lambda>args.
     let (returncode, out, err) = cb_run cb (certbot_command cb domains args key_type email) in
     if returncode \<noteq> 0
     then Inl (RuntimeError (strip (if err \<noteq> [] then err else if out \<noteq> [] then out else ''Certbot failed'')))
     else
       let live = cb_config_root cb @ ''/live/'' @ lineage_name cb domains in
       ebind (cb_read cb (live @ ''/cert.pem'')) (\<lambda>certificate.
       ebind (cb_read cb (live @ ''/privkey.pem'')) (\<lambda>private_key.
       ebind (cb_read cb (live @ ''/chain.pem'')) (\<lambda>chain.
       ebind (validate_pem (cb_ssl cb) (cb_now cb)
                \<lparr>bd_certificate = certificate, bd_private_key = private_key, bd_intermediate_certificate = chain\<rparr>) (\<lambda>info.
         Inr \<lparr>iss_certificate = certificate, iss_private_key = private_key, iss_chain = chain,
           iss_expires_at = ci_not_after info\<rparr>)))))"

section \<open>Faults\<close>

text \<open>A plan with one fault left, and a plan without any.\<close>

definition at_most_one :: "faults \<Rightarrow> disk \<Rightarrow> bool" where
  "at_most_one ft dk \<longleftrightarrow> (\<forall>m n. dk_calls dk \<le> m \<and> dk_calls dk \<le> n \<and> ft_fails ft m \<and> ft_fails ft n \<longrightarrow> m = n)"

definition quiet :: "faults \<Rightarrow> disk \<Rightarrow> bool" where
  "quiet ft dk \<longleftrightarrow> (\<forall>n. dk_calls dk \<le> n \<longrightarrow> \<not> ft_fails ft n)"

definition faulty :: "faults \<Rightarrow> bool" where
  "faulty ft \<longleftrightarrow> (\<exists>n. ft_fails ft n)"

lemma quiet_at_most_one: "quiet ft dk \<Longrightarrow> at_most_one ft dk"
  by (auto simp: quiet_def at_most_one_def)

lemma dir_of_set [simp]: "dir_of n (set_dir m files dk) = (if n = m then Some files else dir_of n dk)"
  by (simp add: dir_of_def set_dir_def)

lemma dir_of_drop [simp]: "dir_of n (drop_dir m dk) = (if n = m then None else dir_of n dk)"
  by (simp add: dir_of_def drop_dir_def)

lemma dir_of_calls [simp]: "dir_of n (dk\<lparr>dk_calls := k\<rparr>) = dir_of n dk"
  by (simp add: dir_of_def)

lemma dir_exists_calls [simp]: "dir_exists n (dk\<lparr>dk_calls := k\<rparr>) = dir_exists n dk"
  by (simp add: dir_exists_def)

lemma calls_kept [simp]: "dk_calls (set_dir m files dk) = dk_calls dk" "dk_calls (drop_dir m dk) = dk_calls dk"
  by (simp_all add: set_dir_def drop_dir_def)

lemma budget_kept [simp]: "quiet ft (set_dir m files dk) = quiet ft dk" "quiet ft (drop_dir m dk) = quiet ft dk"
  "at_most_one ft (set_dir m files dk) = at_most_one ft dk" "at_most_one ft (drop_dir m dk) = at_most_one ft dk"
  by (simp_all add: quiet_def at_most_one_def)

lemma budget_step: "at_most_one ft dk \<Longrightarrow> at_most_one ft (dk\<lparr>dk_calls := Suc (dk_calls dk)\<rparr>)" "quiet ft dk \<Longrightarrow> quiet ft (dk\<lparr>dk_calls := Suc (dk_calls dk)\<rparr>)"
  "quiet ft dk \<Longrightarrow> \<not> ft_fails ft (dk_calls dk)"
  by (auto simp: at_most_one_def quiet_def)

lemma budget_spent: "at_most_one ft dk \<Longrightarrow> ft_fails ft (dk_calls dk) \<Longrightarrow> quiet ft (dk\<lparr>dk_calls := Suc (dk_calls dk)\<rparr>)"
  unfolding at_most_one_def quiet_def by (metis Suc_leD disk.select_convs(2) disk.surjective disk.update_convs(2) dual_order.refl not_less_eq_eq)

lemma triple_fs_call:
  assumes "\<And>dk. P dk \<Longrightarrow> cond dk"
    and "\<And>dk. P dk \<Longrightarrow> \<not> ft_fails ft (dk_calls dk) \<Longrightarrow> Q () (good (dk\<lparr>dk_calls := Suc (dk_calls dk)\<rparr>))"
    and "\<And>dk e. P dk \<Longrightarrow> ft_fails ft (dk_calls dk) \<Longrightarrow> E e (bad (dk_calls dk) (dk\<lparr>dk_calls := Suc (dk_calls dk)\<rparr>))"
  shows "triple P (fs_call ft cond good bad) Q E"
  using assms by (simp add: triple_def fs_call_def Let_def)

section \<open>Publication\<close>

definition bundle_files :: "cert_bundle \<Rightarrow> (string, string) dict" where
  "bundle_files b =
     map (\<lambda>(n, v). (n, file_text v))
       [(''cert.pem'', bd_certificate b), (''chain.pem'', bd_intermediate_certificate b), (''fullchain.pem'', fullchain b),
        (''privkey.pem'', bd_private_key b)]"

definition dirs :: "disk \<Rightarrow> string \<Rightarrow> (string, string) dict option" where
  "dirs dk = (\<lambda>n. dir_of n dk)"

lemma dirs_simps [simp]: "dirs (set_dir m files dk) = (dirs dk)(m \<mapsto> files)" "dirs (drop_dir m dk) = (dirs dk)(m := None)"
  "dirs (dk\<lparr>dk_calls := k\<rparr>) = dirs dk"
  by (auto simp: dirs_def)

lemma dirs_at: "dir_of n dk = dirs dk n" "dir_exists n dk \<longleftrightarrow> dirs dk n \<noteq> None"
  by (simp_all add: dirs_def dir_exists_def)

lemmas fs_simps = dirs_at budget_step budget_spent

lemma triple_make_dir:
  assumes "f name = None"
  shows "triple (\<lambda>dk. dirs dk = f \<and> at_most_one ft dk) (make_dir ft name) (\<lambda>_ dk. dirs dk = f(name \<mapsto> []) \<and> at_most_one ft dk)
     (\<lambda>_ dk. dirs dk = f \<and> quiet ft dk \<and> faulty ft)"
  unfolding make_dir_def using assms by (intro triple_fs_call) (auto simp: fs_simps faulty_def)

lemma triple_write_text:
  assumes "f stage = Some files"
  shows "triple (\<lambda>dk. dirs dk = f \<and> at_most_one ft dk) (write_text ft stage fname value)
     (\<lambda>_ dk. dirs dk = f(stage \<mapsto> dict_set fname (file_text value) files) \<and> at_most_one ft dk)
     (\<lambda>_ dk. (\<exists>x. dirs dk = f(stage \<mapsto> x)) \<and> quiet ft dk \<and> faulty ft)"
  unfolding write_text_def
proof (rule triple_fs_call)
  fix dk e assume p: "dirs dk = f \<and> at_most_one ft dk" and "ft_fails ft (dk_calls dk)"
  then have q: "quiet ft (dk\<lparr>dk_calls := Suc (dk_calls dk)\<rparr>)" "faulty ft" by (auto simp: budget_spent faulty_def)
  have "f(stage \<mapsto> files) = f" using assms by (rule map_upd_triv)
  then have "\<exists>x. dirs (dk\<lparr>dk_calls := Suc (dk_calls dk)\<rparr>) = f(stage \<mapsto> x)" using p by (metis dirs_simps(3))
  then show "(\<exists>x. dirs (case ft_torn ft (dk_calls dk) (file_text value) of None \<Rightarrow> dk\<lparr>dk_calls := Suc (dk_calls dk)\<rparr>
        | Some t \<Rightarrow> put_file stage fname t (dk\<lparr>dk_calls := Suc (dk_calls dk)\<rparr>)) = f(stage \<mapsto> x)) \<and>
      quiet ft (case ft_torn ft (dk_calls dk) (file_text value) of None \<Rightarrow> dk\<lparr>dk_calls := Suc (dk_calls dk)\<rparr>
        | Some t \<Rightarrow> put_file stage fname t (dk\<lparr>dk_calls := Suc (dk_calls dk)\<rparr>)) \<and> faulty ft"
    using p q assms by (cases "ft_torn ft (dk_calls dk) (file_text value)") (auto simp: put_file_def dirs_at)
qed (use assms in \<open>auto simp: dirs_at budget_step put_file_def\<close>)

lemma triple_remove_tree:
  assumes "f name \<noteq> None"
  shows "triple (\<lambda>dk. dirs dk = f \<and> at_most_one ft dk) (remove_tree ft name) (\<lambda>_ dk. dirs dk = f(name := None) \<and> at_most_one ft dk)
     (\<lambda>_ dk. (\<exists>x. dirs dk = f(name := x)) \<and> quiet ft dk \<and> faulty ft)"
  unfolding remove_tree_def using assms
  by (intro triple_fs_call) (auto simp: fs_simps faulty_def split: option.splits)

lemma triple_rename_dir:
  assumes "f src = Some files" and "f dst \<in> {None, Some []}" and "src \<noteq> dst"
  shows "triple (\<lambda>dk. dirs dk = f \<and> at_most_one ft dk) (rename_dir ft src dst)
     (\<lambda>_ dk. dirs dk = f(src := None, dst \<mapsto> files) \<and> at_most_one ft dk) (\<lambda>_ dk. dirs dk = f \<and> quiet ft dk \<and> faulty ft)"
  unfolding rename_dir_def using assms
  by (intro triple_fs_call) (auto simp: fs_simps faulty_def)

text \<open>The same two without faults left.\<close>

lemma triple_rename_quiet:
  assumes "f src = Some files" and "f dst \<in> {None, Some []}" and "src \<noteq> dst"
  shows "triple (\<lambda>dk. dirs dk = f \<and> quiet ft dk \<and> k) (rename_dir ft src dst)
     (\<lambda>_ dk. dirs dk = f(src := None, dst \<mapsto> files) \<and> quiet ft dk \<and> k) E"
  unfolding rename_dir_def using assms
  by (intro triple_fs_call) (auto simp: dirs_at budget_step)

lemma triple_remove_quiet:
  assumes "f name \<noteq> None"
  shows "triple (\<lambda>dk. dirs dk = f \<and> quiet ft dk \<and> k) (remove_tree ft name) (\<lambda>_ dk. dirs dk = f(name := None) \<and> quiet ft dk \<and> k) E"
  unfolding remove_tree_def using assms
  by (intro triple_fs_call) (auto simp: dirs_at budget_step split: option.splits)

text \<open>A removal and a renaming that are made only when there is something to move.\<close>

lemma triple_clear:
  "triple (\<lambda>dk. dirs dk = f \<and> at_most_one ft dk) (io_when (dir_exists name) (remove_tree ft name))
     (\<lambda>_ dk. dirs dk = f(name := None) \<and> at_most_one ft dk) (\<lambda>_ dk. (\<exists>x. dirs dk = f(name := x)) \<and> quiet ft dk \<and> faulty ft)"
proof (cases "f name")
  case None
  then have "f(name := None) = f" by auto
  with None show ?thesis by (intro triple_when tripleI) (auto simp: dirs_at)
next
  case (Some x)
  then show ?thesis by (intro triple_when triple_weaken [OF triple_remove_tree [of f name]]) (auto simp: dirs_at)
qed

lemma triple_clear_quiet:
  "triple (\<lambda>dk. dirs dk = f \<and> quiet ft dk \<and> k) (io_when (dir_exists name) (remove_tree ft name)) (\<lambda>_ dk. dirs dk = f(name := None) \<and> quiet ft dk \<and> k) E"
proof (cases "f name")
  case None
  then have "f(name := None) = f" by auto
  with None show ?thesis by (intro triple_when tripleI) (auto simp: dirs_at)
next
  case (Some x)
  then show ?thesis by (intro triple_when triple_weaken [OF triple_remove_quiet [of f name ft k]]) (auto simp: dirs_at)
qed

lemma triple_move:
  assumes "f dst = None" and "src \<noteq> dst"
  shows "triple (\<lambda>dk. dirs dk = f \<and> at_most_one ft dk) (io_when (dir_exists src) (rename_dir ft src dst))
     (\<lambda>_ dk. dirs dk = f(src := None, dst := f src) \<and> at_most_one ft dk) (\<lambda>_ dk. dirs dk = f \<and> quiet ft dk \<and> faulty ft)"
proof (cases "f src")
  case None
  then have "f(src := None, dst := f src) = f" using assms by auto
  with None show ?thesis by (intro triple_when tripleI) (auto simp: dirs_at)
next
  case (Some x)
  then show ?thesis using assms by (intro triple_when triple_weaken [OF triple_rename_dir [of f src x dst]]) (auto simp: dirs_at)
qed

lemma triple_move_quiet:
  assumes "f dst = None" and "src \<noteq> dst"
  shows "triple (\<lambda>dk. dirs dk = f \<and> quiet ft dk \<and> k) (io_when (dir_exists src) (rename_dir ft src dst))
     (\<lambda>_ dk. dirs dk = f(src := None, dst := f src) \<and> quiet ft dk \<and> k) E"
proof (cases "f src")
  case None
  then have "f(src := None, dst := f src) = f" using assms by auto
  with None show ?thesis by (intro triple_when tripleI) (auto simp: dirs_at)
next
  case (Some x)
  then show ?thesis using assms by (intro triple_when triple_weaken [OF triple_rename_quiet [of f src x dst ft k]]) (auto simp: dirs_at)
qed

lemma triple_weaken_pre: "triple P m Q E \<Longrightarrow> (\<And>s. P' s \<Longrightarrow> P s) \<Longrightarrow> triple P' m Q E"
  by (rule triple_weaken [of P m Q E]) simp_all

lemma triple_weaken_post: "triple P m Q' E' \<Longrightarrow> (\<And>x s. Q' x s \<Longrightarrow> Q x s) \<Longrightarrow> (\<And>e s. E' e s \<Longrightarrow> E e s) \<Longrightarrow> triple P m Q E"
  by (rule triple_weaken [of P m Q' E']) simp_all

lemma triple_write_bundle:
  "triple (\<lambda>dk. dirs dk = f(stage \<mapsto> []) \<and> at_most_one ft dk) (write_bundle ft stage b)
     (\<lambda>_ dk. dirs dk = f(stage \<mapsto> bundle_files b) \<and> at_most_one ft dk)
     (\<lambda>_ dk. (\<exists>x. dirs dk = f(stage \<mapsto> x)) \<and> quiet ft dk \<and> faulty ft)"
proof -
  have w: "triple (\<lambda>dk. dirs dk = f(stage \<mapsto> files) \<and> at_most_one ft dk) (write_text ft stage fname v)
     (\<lambda>_ dk. dirs dk = f(stage \<mapsto> files') \<and> at_most_one ft dk) (\<lambda>_ dk. (\<exists>x. dirs dk = f(stage \<mapsto> x)) \<and> quiet ft dk \<and> faulty ft)"
    if "files' = dict_set fname (file_text v) files" for fname v files files'
    using triple_write_text [of "f(stage \<mapsto> files)" stage files ft fname v] that by simp
  show ?thesis
    unfolding write_bundle_def
    by (rule triple_bind, rule w, rule refl)+ (rule w, simp add: bundle_files_def dict_set_def)
qed

lemma triple_swap_in:
  assumes "f stage = Some new" and "distinct [target, stage, backup]"
  shows "triple (\<lambda>dk. dirs dk = f \<and> at_most_one ft dk) (swap_in ft target stage backup)
     (\<lambda>_ dk. dirs dk = f(target \<mapsto> new, stage := None, backup := None) \<and> at_most_one ft dk)
     (\<lambda>_ dk. (\<exists>x. dirs dk \<in> {f(backup := x), f(target \<mapsto> new, stage := None, backup := x)}) \<and> quiet ft dk \<and> faulty ft)"
    (is "triple ?P _ ?Q ?E")
  unfolding swap_in_def
proof (rule triple_bind)
  show "triple ?P (io_when (dir_exists backup) (remove_tree ft backup)) (\<lambda>_ dk. dirs dk = f(backup := None) \<and> at_most_one ft dk) ?E"
    by (rule triple_weaken_post [OF triple_clear]) auto
  show "triple (\<lambda>dk. dirs dk = f(backup := None) \<and> at_most_one ft dk) (io_bind (io_when (dir_exists target) (rename_dir ft target backup)) (\<lambda>_.
     io_bind (io_compensate (rename_dir ft stage target) (io_when (dir_exists backup) (rename_dir ft backup target))) (\<lambda>_.
       io_when (dir_exists backup) (remove_tree ft backup)))) ?Q ?E" for u
  proof (rule triple_bind)
    show "triple (\<lambda>dk. dirs dk = f(backup := None) \<and> at_most_one ft dk) (io_when (dir_exists target) (rename_dir ft target backup))
        (\<lambda>_ dk. dirs dk = f(target := None, backup := f target) \<and> at_most_one ft dk) ?E"
      using assms(2) by (intro triple_weaken_post [OF triple_move]) (auto simp: fun_upd_twist)
    show "triple (\<lambda>dk. dirs dk = f(target := None, backup := f target) \<and> at_most_one ft dk)
        (io_bind (io_compensate (rename_dir ft stage target) (io_when (dir_exists backup) (rename_dir ft backup target))) (\<lambda>_.
           io_when (dir_exists backup) (remove_tree ft backup))) ?Q ?E" for u
    proof (rule triple_bind)
      show "triple (\<lambda>dk. dirs dk = f(target := None, backup := f target) \<and> at_most_one ft dk)
          (io_compensate (rename_dir ft stage target) (io_when (dir_exists backup) (rename_dir ft backup target)))
          (\<lambda>_ dk. dirs dk = f(target \<mapsto> new, stage := None, backup := f target) \<and> at_most_one ft dk) ?E"
      proof (rule triple_compensate)
        show "triple (\<lambda>dk. dirs dk = f(target := None, backup := f target) \<and> at_most_one ft dk) (rename_dir ft stage target)
          (\<lambda>_ dk. dirs dk = f(target \<mapsto> new, stage := None, backup := f target) \<and> at_most_one ft dk)
          (\<lambda>_ dk. dirs dk = f(target := None, backup := f target) \<and> quiet ft dk \<and> faulty ft)"
          using assms by (intro triple_weaken_post [OF triple_rename_dir [where files = new]]) (auto simp: fun_eq_iff)
        show "triple (\<lambda>dk. dirs dk = f(target := None, backup := f target) \<and> quiet ft dk \<and> faulty ft) (io_when (dir_exists backup) (rename_dir ft backup target))
           (\<lambda>_. ?E e) ?E" for e
          using assms(2) by (intro triple_weaken_post [OF triple_move_quiet]) (auto simp: fun_eq_iff)
      qed
      show "triple (\<lambda>dk. dirs dk = f(target \<mapsto> new, stage := None, backup := f target) \<and> at_most_one ft dk)
          (io_when (dir_exists backup) (remove_tree ft backup)) ?Q ?E" for u
        by (rule triple_weaken_post [OF triple_clear]) auto
    qed
  qed
qed

definition stage_dir :: "string \<Rightarrow> int \<Rightarrow> string" where
  "stage_dir uuid i = ''.npm-'' @ int_str i @ ''-'' @ uuid"

definition backup_dir :: "int \<Rightarrow> string" where
  "backup_dir i = ''.npm-'' @ int_str i @ ''-backup''"

definition quarantine_dir :: "string \<Rightarrow> int \<Rightarrow> string" where
  "quarantine_dir uuid i = ''.npm-'' @ int_str i @ ''-delete-'' @ uuid"

text \<open>A random name: hexadecimal, so neither a path nor one of the names with letters after f.\<close>

definition random_name :: "string \<Rightarrow> bool" where
  "random_name uuid \<longleftrightarrow> uuid \<noteq> [] \<and> (\<forall>c\<in>set uuid. c \<in> set ''0123456789abcdef'')"

lemma random_name_plain:
  assumes "random_name uuid"
  shows "CHR ''/'' \<notin> set uuid \<and> uuid \<noteq> ''backup'' \<and> uuid \<noteq> ''delete-'' @ u"
proof -
  have "c \<notin> set uuid" if "c \<notin> set ''0123456789abcdef''" for c using assms that unfolding random_name_def by blast
  from this [of "CHR ''/''"] this [of "CHR ''k''"] this [of "CHR ''l''"]
  have "CHR ''/'' \<notin> set uuid" "CHR ''k'' \<notin> set uuid" "CHR ''l'' \<notin> set uuid" by simp_all
  then show ?thesis by auto
qed

lemma store_dirs:
  assumes "1 \<le> i"
  shows "store_dir ''npm-'' i [] = Inr (live_dir i)" "random_name uuid \<Longrightarrow> store_dir ''.npm-'' i (''-'' @ uuid) = Inr (stage_dir uuid i)"
    "store_dir ''.npm-'' i ''-backup'' = Inr (backup_dir i)"
    "random_name uuid \<Longrightarrow> store_dir ''.npm-'' i (''-delete-'' @ uuid) = Inr (quarantine_dir uuid i)"
  using assms slash_int [of i] random_name_plain [of uuid]
  by (auto simp: store_dir_def live_dir_def stage_dir_def backup_dir_def quarantine_dir_def Let_def)

lemma live_dir_inj [simp]: "live_dir i = live_dir j \<longleftrightarrow> i = j"
  by (simp add: live_dir_def)

lemma live_not_hidden [simp]: "live_dir i \<noteq> stage_dir u j" "live_dir i \<noteq> backup_dir j" "live_dir i \<noteq> quarantine_dir u j"
  "stage_dir u j \<noteq> live_dir i" "backup_dir j \<noteq> live_dir i" "quarantine_dir u j \<noteq> live_dir i"
  by (simp_all add: live_dir_def stage_dir_def backup_dir_def quarantine_dir_def)

lemma stage_not_backup [simp]: "random_name u \<Longrightarrow> stage_dir u i \<noteq> backup_dir i" "random_name u \<Longrightarrow> backup_dir i \<noteq> stage_dir u i"
  using random_name_plain [of u] by (auto simp: stage_dir_def backup_dir_def)

lemma stage_not_quarantine [simp]: "random_name u \<Longrightarrow> stage_dir u i \<noteq> quarantine_dir v i" "random_name u \<Longrightarrow> quarantine_dir v i \<noteq> stage_dir u i"
  "quarantine_dir v i \<noteq> backup_dir i"
  using random_name_plain [of u v] by (auto simp: stage_dir_def quarantine_dir_def backup_dir_def)

lemma io_lift_bind [simp]: "io_bind (io_lift (Inr x)) f = f x" "io_bind (io_lift (Inl e)) f = io_raise e"
  by (auto simp: io_bind_def io_lift_def io_raise_def)

text \<open>What a publication leaves behind: on a normal end the new material alone; on an exception the old material or the new one,
  and then perhaps a backup or a staging directory.\<close>

lemma triple_exI: "(\<And>x. triple (P x) m Q E) \<Longrightarrow> triple (\<lambda>s. \<exists>x. P x s) m Q E"
  unfolding triple_def by blast

definition put_leftovers :: "(string \<Rightarrow> (string, string) dict option) \<Rightarrow> string \<Rightarrow> int \<Rightarrow> cert_bundle \<Rightarrow> (string \<Rightarrow> (string, string) dict option) set" where
  "put_leftovers f uuid i b =
     {g. \<exists>x y. g \<in> {f(backup_dir i := x, stage_dir uuid i := y), f(live_dir i \<mapsto> bundle_files b, backup_dir i := x, stage_dir uuid i := y)}}"

lemma put_leftovers_clean: "random_name uuid \<Longrightarrow> g \<in> put_leftovers f uuid i b \<Longrightarrow> g(stage_dir uuid i := y) \<in> put_leftovers f uuid i b"
  by (auto simp: put_leftovers_def) (metis fun_upd_upd)+

lemma put_leftoversI:
  assumes "f (stage_dir uuid i) = None" and "random_name uuid"
  shows "f \<in> put_leftovers f uuid i b" "f(stage_dir uuid i := y) \<in> put_leftovers f uuid i b"
    "f(stage_dir uuid i := y, backup_dir i := x) \<in> put_leftovers f uuid i b"
    "f(live_dir i \<mapsto> bundle_files b, backup_dir i := x) \<in> put_leftovers f uuid i b"
    "f(stage_dir uuid i := y, live_dir i \<mapsto> bundle_files b, stage_dir uuid i := z, backup_dir i := x) \<in> put_leftovers f uuid i b"
proof -
  have "f = f(backup_dir i := f (backup_dir i), stage_dir uuid i := f (stage_dir uuid i))" by simp
  then show "f \<in> put_leftovers f uuid i b" unfolding put_leftovers_def by blast
  have "f(stage_dir uuid i := y) = f(backup_dir i := f (backup_dir i), stage_dir uuid i := y)" by simp
  then show "f(stage_dir uuid i := y) \<in> put_leftovers f uuid i b" unfolding put_leftovers_def by blast
  have "f(stage_dir uuid i := y, backup_dir i := x) = f(backup_dir i := x, stage_dir uuid i := y)" using assms by (simp add: fun_upd_twist)
  then show "f(stage_dir uuid i := y, backup_dir i := x) \<in> put_leftovers f uuid i b" unfolding put_leftovers_def by blast
  have "f(live_dir i \<mapsto> bundle_files b, backup_dir i := x) = f(live_dir i \<mapsto> bundle_files b, backup_dir i := x, stage_dir uuid i := f (stage_dir uuid i))"
    using assms by (auto simp: fun_eq_iff)
  then show "f(live_dir i \<mapsto> bundle_files b, backup_dir i := x) \<in> put_leftovers f uuid i b" unfolding put_leftovers_def by blast
  have "f(stage_dir uuid i := y, live_dir i \<mapsto> bundle_files b, stage_dir uuid i := z, backup_dir i := x) =
      f(live_dir i \<mapsto> bundle_files b, backup_dir i := x, stage_dir uuid i := z)"
    using assms by (auto simp: fun_eq_iff)
  then show "f(stage_dir uuid i := y, live_dir i \<mapsto> bundle_files b, stage_dir uuid i := z, backup_dir i := x) \<in> put_leftovers f uuid i b"
    unfolding put_leftovers_def by blast
qed

lemma triple_store_put:
  assumes "1 \<le> i" and "random_name uuid" and "f (stage_dir uuid i) = None"
  shows "triple (\<lambda>dk. dirs dk = f \<and> at_most_one ft dk) (store_put ft uuid i b)
     (\<lambda>_ dk. dirs dk = f(live_dir i \<mapsto> bundle_files b, backup_dir i := None) \<and> at_most_one ft dk)
     (\<lambda>_ dk. dirs dk \<in> put_leftovers f uuid i b \<and> quiet ft dk \<and> faulty ft)"
    (is "triple ?P _ ?Q ?E")
proof -
  let ?t = "live_dir i" and ?s = "stage_dir uuid i" and ?b = "backup_dir i" and ?new = "bundle_files b"
  note L = put_leftoversI [of f uuid i, OF assms(3,2)]
  have "triple ?P (io_bind (make_dir ft ?s) (\<lambda>_. io_finally (io_bind (write_bundle ft ?s b) (\<lambda>_. swap_in ft ?t ?s ?b))
         (io_when (dir_exists ?s) (remove_tree ft ?s)))) ?Q ?E"
  proof (rule triple_bind)
    show "triple ?P (make_dir ft ?s) (\<lambda>_ dk. dirs dk = f(?s \<mapsto> []) \<and> at_most_one ft dk) ?E"
      by (rule triple_weaken_post [OF triple_make_dir [of f ?s ft, OF assms(3)]]) (use L in auto)
    have gone: "f(?t \<mapsto> ?new, ?s := None, ?b := None) = f(?t \<mapsto> ?new, ?b := None)" using assms by (auto simp: fun_eq_iff)
    have kept: "f(?t \<mapsto> ?new, ?b := None, ?s := None) = f(?t \<mapsto> ?new, ?b := None)" using assms by (auto simp: fun_eq_iff)
    have left: "f(?t \<mapsto> ?new, ?b := None, ?s := x) \<in> put_leftovers f uuid i b" for x unfolding put_leftovers_def by blast
    let ?body = "\<lambda>_ dk. dirs dk = f(?t \<mapsto> ?new, ?b := None) \<and> at_most_one ft dk"
    show "triple (\<lambda>dk. dirs dk = f(?s \<mapsto> []) \<and> at_most_one ft dk) (io_finally (io_bind (write_bundle ft ?s b) (\<lambda>_. swap_in ft ?t ?s ?b))
         (io_when (dir_exists ?s) (remove_tree ft ?s))) ?Q ?E" for u
    proof (rule triple_finally [where Q' = ?body and E' = ?E])
      show "triple (\<lambda>dk. dirs dk = f(?s \<mapsto> []) \<and> at_most_one ft dk) (io_bind (write_bundle ft ?s b) (\<lambda>_. swap_in ft ?t ?s ?b)) ?body ?E"
      proof (rule triple_bind)
        show "triple (\<lambda>dk. dirs dk = f(?s \<mapsto> []) \<and> at_most_one ft dk) (write_bundle ft ?s b)
            (\<lambda>_ dk. dirs dk = f(?s \<mapsto> ?new) \<and> at_most_one ft dk) ?E"
          by (rule triple_weaken_post [OF triple_write_bundle]) (use L in auto)
        show "triple (\<lambda>dk. dirs dk = f(?s \<mapsto> ?new) \<and> at_most_one ft dk) (swap_in ft ?t ?s ?b) ?body ?E" for u
          by (rule triple_weaken_post [OF triple_swap_in [where new = ?new and f = "f(?s \<mapsto> ?new)"]]) (use assms(2) L gone in auto)
      qed
      show "triple (?body x) (io_when (dir_exists ?s) (remove_tree ft ?s)) (\<lambda>_. ?Q x) ?E" for x
        by (rule triple_weaken_post [OF triple_clear]) (use kept left in auto)
      show "triple (?E err) (io_when (dir_exists ?s) (remove_tree ft ?s)) (\<lambda>_. ?E err) ?E" for err :: py_error
      proof -
        have "triple (\<lambda>dk. \<exists>g. dirs dk = g \<and> quiet ft dk \<and> faulty ft \<and> g \<in> put_leftovers f uuid i b)
            (io_when (dir_exists ?s) (remove_tree ft ?s)) (\<lambda>_. ?E err) ?E"
          by (intro triple_exI triple_weaken_post [OF triple_clear_quiet]) (use assms put_leftovers_clean in auto)
        then show ?thesis by (rule triple_weaken_pre) auto
      qed
    qed
  qed
  then show ?thesis by (simp only: store_put_def store_dirs [OF assms(1)] store_dirs(2) [OF assms(1,2)] io_lift_bind)
qed

lemma put_leftovers_dirs:
  assumes "g \<in> put_leftovers f uuid i b"
  shows "g (live_dir i) \<in> {f (live_dir i), Some (bundle_files b)}" "n \<notin> {live_dir i, stage_dir uuid i, backup_dir i} \<Longrightarrow> g n = f n"
  using assms by (auto simp: put_leftovers_def)

text \<open>C6. A publication is all or nothing under any single fault of the file system, whichever call it hits and whatever a
  failed write or removal leaves behind: the live directory of the certificate holds the old material, as it was, or the new
  bundle, complete; a normal end means the new one, and without a fault the publication ends normally. No other
  certificate's directory is touched.\<close>

theorem put_all_or_nothing:
  assumes "1 \<le> i" and "random_name uuid" and "dir_of (stage_dir uuid i) dk = None" and "at_most_one ft dk"
  shows "(\<forall>dk' r. store_put ft uuid i b dk = (dk', r) \<longrightarrow>
      dir_of (live_dir i) dk' \<in> {dir_of (live_dir i) dk, Some (bundle_files b)} \<and>
      (r = Inr () \<longrightarrow> dir_of (live_dir i) dk' = Some (bundle_files b)) \<and>
      (\<not> faulty ft \<longrightarrow> r = Inr ()) \<and>
      (\<forall>j. j \<noteq> i \<longrightarrow> dir_of (live_dir j) dk' = dir_of (live_dir j) dk))"
proof (intro allI impI)
  fix dk' r assume run: "store_put ft uuid i b dk = (dk', r)"
  have t: "triple (\<lambda>s. dirs s = dirs dk \<and> at_most_one ft s) (store_put ft uuid i b)
     (\<lambda>_ s. dirs s = (dirs dk)(live_dir i \<mapsto> bundle_files b, backup_dir i := None) \<and> at_most_one ft s)
     (\<lambda>_ s. dirs s \<in> put_leftovers (dirs dk) uuid i b \<and> quiet ft s \<and> faulty ft)"
    using assms(3) by (intro triple_store_put assms(1,2)) (simp add: dirs_def)
  show "dir_of (live_dir i) dk' \<in> {dir_of (live_dir i) dk, Some (bundle_files b)} \<and>
      (r = Inr () \<longrightarrow> dir_of (live_dir i) dk' = Some (bundle_files b)) \<and> (\<not> faulty ft \<longrightarrow> r = Inr ()) \<and>
      (\<forall>j. j \<noteq> i \<longrightarrow> dir_of (live_dir j) dk' = dir_of (live_dir j) dk)"
  proof (cases r)
    case (Inl e)
    from triple_Inl [OF t _ run [unfolded Inl]] assms(4) have g: "dirs dk' \<in> put_leftovers (dirs dk) uuid i b" "faulty ft" by simp_all
    from put_leftovers_dirs(1) [OF g(1)] put_leftovers_dirs(2) [OF g(1)] g(2) Inl show ?thesis by (simp add: dirs_at)
  next
    case (Inr u)
    from triple_Inr [OF t _ run [unfolded Inr]] assms(4)
    have "dirs dk' = (dirs dk)(live_dir i \<mapsto> bundle_files b, backup_dir i := None)" by simp
    then show ?thesis using Inr by (simp add: dirs_at)
  qed
qed

definition sample_bundle :: "string \<Rightarrow> cert_bundle" where
  "sample_bundle s = \<lparr>bd_certificate = s, bd_private_key = s, bd_intermediate_certificate = []\<rparr>"

definition sample_faults :: "(nat \<Rightarrow> bool) \<Rightarrow> faults" where
  "sample_faults fails = \<lparr>ft_fails = fails, ft_torn = (\<lambda>_ _. Some []), ft_left = (\<lambda>_ _. [])\<rparr>"

definition sample_disk :: disk where
  "sample_disk = \<lparr>dk_dirs = [(live_dir 1, bundle_files (sample_bundle ''old'')), (live_dir 2, [])], dk_calls = 0\<rparr>"

lemma sample_disk_facts: "random_name ''ab''" "dir_of (stage_dir ''ab'' 1) sample_disk = None" "at_most_one (sample_faults (\<lambda>n. n = k)) sample_disk"
  by (simp_all add: random_name_def sample_disk_def dir_of_def at_most_one_def sample_faults_def)

text \<open>The fault hits the renaming of the staging directory, the seventh call.\<close>

theorem put_all_or_nothing_witness:
  "(case store_put (sample_faults (\<lambda>n. n = 6)) ''ab'' 1 (sample_bundle ''new'') sample_disk of (dk', r) \<Rightarrow>
      r \<noteq> Inr () \<and> dir_of (live_dir 1) dk' = Some (bundle_files (sample_bundle ''old''))) \<and>
   dir_of (live_dir 2) (fst (store_put (sample_faults (\<lambda>n. n = 6)) ''ab'' 1 (sample_bundle ''new'') sample_disk)) =
     dir_of (live_dir 2) sample_disk"
proof
  show "case store_put (sample_faults (\<lambda>n. n = 6)) ''ab'' 1 (sample_bundle ''new'') sample_disk of (dk', r) \<Rightarrow>
      r \<noteq> Inr () \<and> dir_of (live_dir 1) dk' = Some (bundle_files (sample_bundle ''old''))"
    by code_simp
  obtain dk' r where run: "store_put (sample_faults (\<lambda>n. n = 6)) ''ab'' 1 (sample_bundle ''new'') sample_disk = (dk', r)" by (rule prod.exhaust)
  then show "dir_of (live_dir 2) (fst (store_put (sample_faults (\<lambda>n. n = 6)) ''ab'' 1 (sample_bundle ''new'') sample_disk)) = dir_of (live_dir 2) sample_disk"
    using put_all_or_nothing [of 1 "''ab''" sample_disk "sample_faults (\<lambda>n. n = 6)" "sample_bundle ''new''", OF _ sample_disk_facts] by simp
qed

text \<open>A process that dies between the two renamings leaves no live directory at all, and a fault in the removal of the backup
  makes the publication raise although the new material is live.\<close>

theorem put_gap:
  "case store_put (sample_faults (\<lambda>n. 6 \<le> n)) ''ab'' 1 (sample_bundle ''new'') sample_disk of (dk', r) \<Rightarrow>
     dir_of (live_dir 1) dk' = None"
  by code_simp

theorem put_raises_published:
  "case store_put (sample_faults (\<lambda>n. n = 7)) ''ab'' 1 (sample_bundle ''new'') sample_disk of (dk', r) \<Rightarrow>
     r \<noteq> Inr () \<and> dir_of (live_dir 1) dk' = Some (bundle_files (sample_bundle ''new''))"
  by code_simp

end
