(* ===== verification/Migration.thy ===== *)
theory Migration
  imports Access_Lists "HOL-Library.Multiset"
begin

text \<open>
  The import from Nginx Proxy Manager: \<open>migration/npm.py\<close> (decoding of rows, related tables folded into their parents,
  duplicates, soft-deleted rows and broken references put into quarantine) and the plan of an import,
  \<open>_apply_npm_report\<close> of \<open>api/compat/__init__.py\<close>. A source is a dictionary from table names to rows; the decoding of
  JSON text is a parameter, and reading the SQLite file is outside the model.
\<close>

section \<open>Tables and rows\<close>

definition table_collections :: "(string, string) dict" where
  "table_collections = [(''user'', ''users''), (''certificate'', ''certificates''), (''access_list'', ''access_lists''),
     (''proxy_host'', ''proxy_hosts''), (''redirection_host'', ''redirection_hosts''), (''dead_host'', ''dead_hosts''),
     (''stream'', ''streams''), (''setting'', ''settings''), (''audit_log'', ''audit_log''), (''_credentials'', ''_credentials'')]"

definition json_fields :: "string list" where
  "json_fields = [''domain_names'', ''meta'', ''roles'', ''permissions'', ''items'', ''clients'', ''locations'']"

record quarantined =
  qn_collection :: string
  qn_source_id :: string
  qn_reason :: string
  qn_resource :: payload

record preflight_report =
  pf_source_kind :: string
  pf_counts :: "(string, nat) dict"
  pf_records :: "(string, payload list) dict"
  pf_quarantine :: "quarantined list"
  pf_warnings :: "string list"

definition importable :: "preflight_report \<Rightarrow> nat" where
  "importable report = sum_list (map (\<lambda>(_, rs). length rs) (pf_records report))"

definition decode_field :: "(string \<Rightarrow> pyval option) \<Rightarrow> string \<times> pyval \<Rightarrow> string \<times> pyval" where
  "decode_field json = (\<lambda>(k, v).
     (k, if k \<notin> set json_fields then v
         else case v of PStr s \<Rightarrow> if s = [] then v else (case json s of None \<Rightarrow> v | Some w \<Rightarrow> w) | _ \<Rightarrow> v))"

definition decode_row :: "(string \<Rightarrow> pyval option) \<Rightarrow> payload \<Rightarrow> payload" where
  "decode_row json row = map (decode_field json) row"

section \<open>Related tables\<close>

definition row_id :: "payload \<Rightarrow> string" where
  "row_id row = py_str (pget ''id'' row)"

text \<open>The index by id keeps the last row of an id, and an update reaches that row through it.\<close>

fun update_first :: "('a \<Rightarrow> bool) \<Rightarrow> ('a \<Rightarrow> 'a) \<Rightarrow> 'a list \<Rightarrow> 'a list" where
  "update_first p f [] = []"
| "update_first p f (x # xs) = (if p x then f x # xs else x # update_first p f xs)"

definition update_by_id :: "string \<Rightarrow> (payload \<Rightarrow> payload) \<Rightarrow> payload list \<Rightarrow> payload list" where
  "update_by_id i f rows = rev (update_first (\<lambda>r. row_id r = i) f (rev rows))"

definition row_by_id :: "string \<Rightarrow> payload list \<Rightarrow> payload option" where
  "row_by_id i rows = find (\<lambda>r. row_id r = i) (rev rows)"

record normal_form =
  nf_tables :: "(string, payload list) dict"
  nf_warnings :: "string list"

definition warn :: "string \<Rightarrow> normal_form \<Rightarrow> normal_form" where
  "warn w nf = nf\<lparr>nf_warnings := nf_warnings nf @ [w]\<rparr>"

definition permission_sections :: "string list" where
  "permission_sections = [''proxy_hosts'', ''redirection_hosts'', ''dead_hosts'', ''streams'', ''access_lists'', ''certificates'']"

definition pop_table :: "string \<Rightarrow> normal_form \<Rightarrow> payload list \<times> normal_form" where
  "pop_table t nf = (dict_get_or (nf_tables nf) t [], nf\<lparr>nf_tables := dict_pop t (nf_tables nf)\<rparr>)"

definition fold_permission :: "payload \<Rightarrow> normal_form \<Rightarrow> normal_form" where
  "fold_permission permission nf =
     (let i = py_str (pget ''user_id'' permission) in
      case row_by_id i (dict_get_or (nf_tables nf) ''user'' []) of
        None \<Rightarrow> warn (''orphan user_permission ignored: user_id='' @ i) nf
      | Some _ \<Rightarrow>
          nf\<lparr>nf_tables := dict_set ''user''
             (update_by_id i (\<lambda>user. dict_set ''permissions''
                 (PDict (map (\<lambda>s. (s, dict_get_or permission s (PStr ''hidden''))) permission_sections))
                 (dict_set ''visibility'' (dict_get_or permission ''visibility'' (PStr ''user'')) user))
               (dict_get_or (nf_tables nf) ''user'' [])) (nf_tables nf)\<rparr>)"

definition fold_auth :: "payload \<Rightarrow> payload list \<times> normal_form \<Rightarrow> payload list \<times> normal_form" where
  "fold_auth auth = (\<lambda>(credentials, nf).
     if dict_get_or auth ''type'' (PStr ''password'') \<noteq> PStr ''password''
     then (credentials, warn (''unsupported auth type ignored: '' @ py_str (pget ''type'' auth)) nf)
     else
       case row_by_id (py_str (pget ''user_id'' auth)) (dict_get_or (nf_tables nf) ''user'' []) of
         Some user \<Rightarrow>
           if truthy (pget ''email'' user) \<and> truthy (pget ''secret'' auth)
           then (credentials @ [[(''id'', PStr (casefold (strip (py_str (pget ''email'' user))))),
                   (''password_hash'', PStr (py_str (pget ''secret'' auth)))]], nf)
           else (credentials, warn (''orphan auth record ignored: id='' @ py_str (pget ''id'' auth)) nf)
       | None \<Rightarrow> (credentials, warn (''orphan auth record ignored: id='' @ py_str (pget ''id'' auth)) nf))"

definition append_child :: "string \<Rightarrow> payload \<Rightarrow> payload \<Rightarrow> payload" where
  "append_child key child parent =
     dict_set key (PList ((case pget key parent of PList xs \<Rightarrow> xs | _ \<Rightarrow> []) @ [PDict child])) parent"

definition fold_child :: "string \<Rightarrow> string \<Rightarrow> payload \<Rightarrow> normal_form \<Rightarrow> py_error + normal_form" where
  "fold_child related key item nf =
     (let i = py_str (pget ''access_list_id'' item); lists = dict_get_or (nf_tables nf) ''access_list'' [] in
      case row_by_id i lists of
        None \<Rightarrow> Inr (warn (''orphan '' @ related @ '' ignored: access_list_id='' @ i) nf)
      | Some parent \<Rightarrow>
          if key \<in> dict_keys parent \<and> as_list (pget key parent) = None then Inl (AttributeError ''append'')
          else
            let child = filter (\<lambda>(k, _). k \<notin> {''id'', ''access_list_id'', ''created_on'', ''modified_on''}) item in
            Inr (nf\<lparr>nf_tables := dict_set ''access_list'' (update_by_id i (append_child key child) lists) (nf_tables nf)\<rparr>))"

definition normalize_related_tables :: "(string, payload list) dict \<Rightarrow> py_error + normal_form" where
  "normalize_related_tables source =
     (let (permissions, nf) = pop_table ''user_permission'' \<lparr>nf_tables = source, nf_warnings = []\<rparr>;
          nf = fold fold_permission permissions nf;
          (auths, nf) = pop_table ''auth'' nf;
          (credentials, nf) = fold fold_auth auths ([], nf);
          nf = (if credentials = [] then nf else nf\<lparr>nf_tables := dict_set ''_credentials'' credentials (nf_tables nf)\<rparr>);
          (items, nf) = pop_table ''access_list_auth'' nf in
      ebind (efold (fold_child ''access_list_auth'' ''items'') items nf) (\<lambda>nf.
      let (clients, nf) = pop_table ''access_list_client'' nf in
        efold (fold_child ''access_list_client'' ''clients'') clients nf))"

section \<open>The preflight\<close>

definition collection_of :: "string \<Rightarrow> string option" where
  "collection_of table =
     (case dict_get table_collections table of
        Some c \<Rightarrow> Some c
      | None \<Rightarrow> if table \<in> snd ` set table_collections then Some table else None)"

definition soft_deleted :: "payload \<Rightarrow> bool" where
  "soft_deleted row \<longleftrightarrow> pget ''is_deleted'' row \<in> {PInt 1, PBool True, PStr ''1''}"

definition source_id :: "payload \<Rightarrow> string" where
  "source_id row = py_str (dict_get_or row ''id'' (PStr []))"

definition row_problem :: "string list \<Rightarrow> payload \<Rightarrow> string option" where
  "row_problem seen row =
     (if source_id row = [] then Some ''missing id''
      else if source_id row \<in> set seen then Some ''duplicate id''
      else if soft_deleted row then Some ''soft-deleted source record''
      else None)"

text \<open>The rows of a collection that were accepted, with the ids seen so far.\<close>

record intake =
  in_seen :: "(string, string list) dict"
  in_records :: "(string, payload list) dict"
  in_quarantine :: "quarantined list"
  in_warnings :: "string list"

definition take_row :: "string \<Rightarrow> payload \<Rightarrow> intake \<Rightarrow> intake" where
  "take_row c row st =
     (case row_problem (dict_get_or (in_seen st) c []) row of
        Some reason \<Rightarrow>
          st\<lparr>in_quarantine := in_quarantine st @
            [\<lparr>qn_collection = c, qn_source_id = (if source_id row = [] then ''unknown'' else source_id row),
              qn_reason = reason, qn_resource = row\<rparr>]\<rparr>
      | None \<Rightarrow>
          st\<lparr>in_seen := dict_set c (source_id row # dict_get_or (in_seen st) c []) (in_seen st),
             in_records := dict_set c (dict_get_or (in_records st) c [] @ [row]) (in_records st)\<rparr>)"

definition take_table :: "(string \<Rightarrow> pyval option) \<Rightarrow> string \<times> payload list \<Rightarrow> intake \<Rightarrow> intake" where
  "take_table json = (\<lambda>(table, rows) st.
     case collection_of table of
       None \<Rightarrow> st\<lparr>in_warnings := in_warnings st @ [''unsupported source table ignored: '' @ table]\<rparr>
     | Some c \<Rightarrow>
         fold (\<lambda>row. take_row c (decode_row json row)) rows
           (st\<lparr>in_records := dict_setdefault c [] (in_records st)\<rparr>))"

definition host_collections :: "string list" where
  "host_collections = [''proxy_hosts'', ''redirection_hosts'', ''dead_hosts'', ''streams'']"

definition reference_rules :: "(string, string) dict" where
  "reference_rules = [(''certificate_id'', ''certificates''), (''access_list_id'', ''access_lists''), (''owner_user_id'', ''users'')]"

definition no_reference :: "pyval \<Rightarrow> bool" where
  "no_reference v \<longleftrightarrow> v \<in> {PNone, PInt 0, PBool False, PStr ''0'', PStr []}"

definition broken_references :: "(string, payload list) dict \<Rightarrow> payload \<Rightarrow> string list" where
  "broken_references records row =
     map (\<lambda>(field, target). field @ ''='' @ py_str (pget field row) @ '' does not resolve in '' @ target)
       (filter (\<lambda>(field, target). \<not> no_reference (pget field row) \<and>
          py_str (pget field row) \<notin> row_id ` set (dict_get_or records target [])) reference_rules)"

definition quarantine_hosts :: "(string, payload list) dict \<Rightarrow> string \<Rightarrow> preflight_report \<Rightarrow> preflight_report" where
  "quarantine_hosts existing c report =
     (let rows = dict_get_or (pf_records report) c [] in
      report\<lparr>pf_records := dict_set c (filter (\<lambda>r. broken_references existing r = []) rows) (pf_records report),
             pf_quarantine := pf_quarantine report @
               map (\<lambda>r. \<lparr>qn_collection = c, qn_source_id = row_id r, qn_reason = join ''; '' (broken_references existing r),
                     qn_resource = r\<rparr>) (filter (\<lambda>r. broken_references existing r \<noteq> []) rows)\<rparr>)"

definition quarantine_broken_references :: "preflight_report \<Rightarrow> preflight_report" where
  "quarantine_broken_references report = fold (quarantine_hosts (pf_records report)) host_collections report"

definition preflight_npm :: "(string \<Rightarrow> pyval option) \<Rightarrow> string \<Rightarrow> (string, payload list) dict \<Rightarrow> py_error + preflight_report" where
  "preflight_npm json source_kind source =
     ebind (normalize_related_tables source) (\<lambda>nf.
     let st = fold (take_table json) (nf_tables nf)
           \<lparr>in_seen = [], in_records = [], in_quarantine = [], in_warnings = nf_warnings nf\<rparr>;
         report = quarantine_broken_references \<lparr>pf_source_kind = source_kind, pf_counts = [], pf_records = in_records st,
           pf_quarantine = in_quarantine st, pf_warnings = in_warnings st\<rparr> in
     Inr (report\<lparr>pf_counts := sort_key fst (map (\<lambda>(c, rows). (c, length rows)) (pf_records report))\<rparr>))"

section \<open>Laws of the preflight\<close>

lemma row_id_source: "source_id row \<noteq> [] \<Longrightarrow> row_id row = source_id row"
  by (auto simp: row_id_def source_id_def pget_def dict_get_or_def split: option.splits)

text \<open>The rows of a collection in the source, and where a state or a report has them.\<close>

definition source_rows :: "(string \<Rightarrow> pyval option) \<Rightarrow> (string, payload list) dict \<Rightarrow> string \<Rightarrow> payload list" where
  "source_rows json tables c =
     concat (map (\<lambda>(t, rows). if collection_of t = Some c then map (decode_row json) rows else []) tables)"

definition held_back :: "string \<Rightarrow> quarantined list \<Rightarrow> payload list" where
  "held_back c qs = map qn_resource (filter (\<lambda>q. qn_collection q = c) qs)"

lemma held_back_append [simp]: "held_back c (qs @ qs') = held_back c qs @ held_back c qs'"
  by (simp add: held_back_def)

definition accounted :: "string \<Rightarrow> intake \<Rightarrow> payload multiset" where
  "accounted c st = mset (dict_get_or (in_records st) c []) + mset (held_back c (in_quarantine st))"

definition intake_ok :: "intake \<Rightarrow> bool" where
  "intake_ok st \<longleftrightarrow> (\<forall>c. let rows = dict_get_or (in_records st) c [] in
     distinct (map source_id rows) \<and> set (dict_get_or (in_seen st) c []) = source_id ` set rows \<and>
     (\<forall>r\<in>set rows. source_id r \<noteq> [] \<and> \<not> soft_deleted r))"

lemma take_row_ok: "intake_ok st \<Longrightarrow> intake_ok (take_row c row st)"
proof (cases "row_problem (dict_get_or (in_seen st) c []) row")
  case None
  assume ok: "intake_ok st"
  have p: "source_id row \<noteq> []" "source_id row \<notin> set (dict_get_or (in_seen st) c [])" "\<not> soft_deleted row"
    using None by (auto simp: row_problem_def split: if_splits)
  show ?thesis
    using ok p by (auto simp: intake_ok_def take_row_def None Let_def)
qed (simp add: intake_ok_def take_row_def)

lemma take_row_accounted: "accounted c' (take_row c row st) = accounted c' st + (if c' = c then {#row#} else {#})"
  by (simp add: accounted_def take_row_def held_back_def split: option.split)

lemma take_rows:
  "intake_ok st \<Longrightarrow> intake_ok (fold (\<lambda>row. take_row c (f row)) rows st) \<and>
     accounted c' (fold (\<lambda>row. take_row c (f row)) rows st) = accounted c' st + (if c' = c then mset (map f rows) else {#})"
proof (induction rows arbitrary: st)
  case (Cons row rows)
  from Cons.IH [OF take_row_ok [OF Cons.prems]] show ?case by (simp add: take_row_accounted)
qed simp

lemma take_table_ok:
  assumes "intake_ok st"
  shows "intake_ok (take_table json (t, rows) st)"
    "accounted c (take_table json (t, rows) st) = accounted c st + (if collection_of t = Some c then mset (map (decode_row json) rows) else {#})"
proof -
  have s: "dict_get_or (dict_setdefault c' [] d) k [] = dict_get_or d k []" for c' k and d :: "(string, payload list) dict"
    by (auto simp: dict_get_or_def split: option.splits)
  have ok: "intake_ok (st\<lparr>in_records := dict_setdefault c' [] (in_records st)\<rparr>)"
    "accounted c (st\<lparr>in_records := dict_setdefault c' [] (in_records st)\<rparr>) = accounted c st" for c'
    using assms by (simp_all add: intake_ok_def accounted_def s)
  have w: "intake_ok (st\<lparr>in_warnings := w\<rparr>) = intake_ok st" "accounted c (st\<lparr>in_warnings := w\<rparr>) = accounted c st" for w
    by (simp_all add: intake_ok_def accounted_def)
  show "intake_ok (take_table json (t, rows) st)"
    using take_rows [OF ok(1), where f = "decode_row json"] assms by (cases "collection_of t") (simp_all add: take_table_def w)
  show "accounted c (take_table json (t, rows) st) = accounted c st + (if collection_of t = Some c then mset (map (decode_row json) rows) else {#})"
    using take_rows [OF ok(1), where f = "decode_row json"] by (cases "collection_of t") (auto simp: take_table_def w ok(2))
qed

lemma take_tables:
  "intake_ok st \<Longrightarrow> intake_ok (fold (take_table json) tables st) \<and>
     accounted c (fold (take_table json) tables st) = accounted c st + mset (source_rows json tables c)"
proof (induction tables arbitrary: st)
  case (Cons tr tables)
  obtain t rows where tr: "tr = (t, rows)" by (cases tr)
  show ?case
    using Cons.IH [OF take_table_ok(1) [OF Cons.prems]] take_table_ok(2) [OF Cons.prems]
    by (simp add: tr source_rows_def)
qed (simp add: source_rows_def)

lemma quarantine_hosts_records:
  "dict_get_or (pf_records (quarantine_hosts e c report)) c' [] =
     (if c' = c then filter (\<lambda>r. broken_references e r = []) (dict_get_or (pf_records report) c []) else dict_get_or (pf_records report) c' [])"
  by (simp add: quarantine_hosts_def Let_def)

lemma quarantine_hosts_held_back:
  "held_back c' (pf_quarantine (quarantine_hosts e c report)) = held_back c' (pf_quarantine report) @
     (if c' = c then filter (\<lambda>r. broken_references e r \<noteq> []) (dict_get_or (pf_records report) c []) else [])"
  by (simp add: quarantine_hosts_def Let_def held_back_def filter_map comp_def)

lemma quarantine_all:
  assumes "distinct cs"
  shows "dict_get_or (pf_records (fold (quarantine_hosts e) cs report)) c [] =
      (if c \<in> set cs then filter (\<lambda>r. broken_references e r = []) (dict_get_or (pf_records report) c []) else dict_get_or (pf_records report) c [])"
    "held_back c (pf_quarantine (fold (quarantine_hosts e) cs report)) = held_back c (pf_quarantine report) @
      (if c \<in> set cs then filter (\<lambda>r. broken_references e r \<noteq> []) (dict_get_or (pf_records report) c []) else [])"
  using assms
proof (induction cs arbitrary: report)
  case (Cons x cs)
  { case 1 with Cons.IH(1) show ?case by (auto simp: quarantine_hosts_records) }
  { case 2 with Cons.IH(2) show ?case by (auto simp: quarantine_hosts_records quarantine_hosts_held_back) }
qed simp_all

lemma mset_filter_both: "mset (filter P xs) + mset (filter (\<lambda>x. \<not> P x) xs) = mset xs"
  by (induction xs) auto

lemma broken_references_cong:
  "(\<And>c. c \<notin> set host_collections \<Longrightarrow> dict_get_or d c [] = dict_get_or e c []) \<Longrightarrow> broken_references d r = broken_references e r"
  by (simp add: broken_references_def reference_rules_def host_collections_def)

lemma preflight_run:
  assumes "preflight_npm json kind source = Inr report" "normalize_related_tables source = Inr nf"
  obtains st where "intake_ok st" "\<And>c. accounted c st = mset (source_rows json (nf_tables nf) c)"
    "\<And>c. dict_get_or (pf_records report) c [] =
       (if c \<in> set host_collections then filter (\<lambda>r. broken_references (in_records st) r = []) (dict_get_or (in_records st) c [])
        else dict_get_or (in_records st) c [])"
    "\<And>c. held_back c (pf_quarantine report) = held_back c (in_quarantine st) @
       (if c \<in> set host_collections then filter (\<lambda>r. broken_references (in_records st) r \<noteq> []) (dict_get_or (in_records st) c []) else [])"
proof -
  define st0 where "st0 = \<lparr>in_seen = [], in_records = [], in_quarantine = [], in_warnings = nf_warnings nf\<rparr>"
  define st where "st = fold (take_table json) (nf_tables nf) st0"
  define mid where "mid = \<lparr>pf_source_kind = kind, pf_counts = [], pf_records = in_records st, pf_quarantine = in_quarantine st,
    pf_warnings = in_warnings st\<rparr>"
  have ok0: "intake_ok st0" "\<And>c. accounted c st0 = {#}" by (simp_all add: st0_def intake_ok_def accounted_def held_back_def)
  have st: "intake_ok st" "\<And>c. accounted c st = mset (source_rows json (nf_tables nf) c)"
    using take_tables [OF ok0(1)] by (simp_all add: st_def ok0(2))
  have r: "pf_records report = pf_records (fold (quarantine_hosts (in_records st)) host_collections mid)"
    "pf_quarantine report = pf_quarantine (fold (quarantine_hosts (in_records st)) host_collections mid)"
    using assms by (auto simp: preflight_npm_def Let_def st_def st0_def mid_def quarantine_broken_references_def)
  have d: "distinct host_collections" by code_simp
  show thesis
    by (rule that [OF st]) (simp_all add: r quarantine_all [OF d] mid_def)
qed

text \<open>C8. The preflight of an import loses nothing and lets no broken record through: every row of a collection, decoded,
  is either among the records to import or in quarantine, exactly once; the records have distinct ids and none is
  soft-deleted; and every certificate, access list and owner that a host or stream to import names is itself imported.\<close>

theorem preflight_sound:
  assumes "preflight_npm json kind source = Inr report" and "normalize_related_tables source = Inr nf"
  shows "mset (dict_get_or (pf_records report) c []) + mset (held_back c (pf_quarantine report)) = mset (source_rows json (nf_tables nf) c) \<and>
    distinct (map row_id (dict_get_or (pf_records report) c [])) \<and>
    (\<forall>r\<in>set (dict_get_or (pf_records report) c []). \<not> soft_deleted r) \<and>
    (c \<in> set host_collections \<longrightarrow> (\<forall>r\<in>set (dict_get_or (pf_records report) c []).
       broken_references (pf_records report) r = []))"
proof -
  obtain st where st: "intake_ok st" "\<And>c. accounted c st = mset (source_rows json (nf_tables nf) c)"
    and rec: "\<And>c. dict_get_or (pf_records report) c [] =
       (if c \<in> set host_collections then filter (\<lambda>r. broken_references (in_records st) r = []) (dict_get_or (in_records st) c [])
        else dict_get_or (in_records st) c [])"
    and held: "\<And>c. held_back c (pf_quarantine report) = held_back c (in_quarantine st) @
       (if c \<in> set host_collections then filter (\<lambda>r. broken_references (in_records st) r \<noteq> []) (dict_get_or (in_records st) c []) else [])"
    by (rule preflight_run [OF assms]) (rule that)
  let ?rows = "dict_get_or (in_records st) c []"
  have ok: "distinct (map source_id ?rows)" "\<forall>r\<in>set ?rows. source_id r \<noteq> [] \<and> \<not> soft_deleted r"
    using st(1) by (auto simp: intake_ok_def Let_def)
  have sub: "set (dict_get_or (pf_records report) c []) \<subseteq> set ?rows" by (auto simp: rec)
  have same: "map row_id ?rows = map source_id ?rows" using ok(2) by (auto simp: row_id_source)
  have ids: "distinct (map row_id ?rows)" using ok(1) by (simp only: same)
  have "distinct (map row_id (dict_get_or (pf_records report) c []))"
    using ids by (simp add: rec distinct_map_filter)
  moreover have "mset (dict_get_or (pf_records report) c []) + mset (held_back c (pf_quarantine report)) = accounted c st"
    using mset_filter_both [of "\<lambda>r. broken_references (in_records st) r = []" ?rows]
    by (auto simp: rec held accounted_def)
  moreover have "broken_references (pf_records report) r = broken_references (in_records st) r" for r
    by (rule broken_references_cong) (simp add: rec)
  ultimately show ?thesis using ok(2) sub st(2) by (auto simp: rec)
qed

definition sample_source :: "(string, payload list) dict" where
  "sample_source =
     [(''user'', [[(''id'', PInt 1), (''email'', PStr ''A@x.org'')]]),
      (''auth'', [[(''id'', PInt 1), (''user_id'', PInt 1), (''secret'', PStr ''h'')]]),
      (''proxy_host'', [[(''id'', PInt 1), (''owner_user_id'', PInt 1)], [(''id'', PInt 1)], [(''id'', PInt 2), (''owner_user_id'', PInt 9)]])]"

lemma sample_source_normal:
  "normalize_related_tables sample_source =
     Inr \<lparr>nf_tables = [(''user'', [[(''id'', PInt 1), (''email'', PStr ''A@x.org'')]]),
            (''proxy_host'', [[(''id'', PInt 1), (''owner_user_id'', PInt 1)], [(''id'', PInt 1)], [(''id'', PInt 2), (''owner_user_id'', PInt 9)]]),
            (''_credentials'', [[(''id'', PStr ''a@x.org''), (''password_hash'', PStr ''h'')]])], nf_warnings = []\<rparr>"
  by code_simp

theorem preflight_sound_witness:
  "\<exists>report. preflight_npm (\<lambda>_. None) ''mapping'' sample_source = Inr report \<and>
     distinct (map row_id (dict_get_or (pf_records report) ''proxy_hosts'' []))"
proof -
  obtain report where r: "preflight_npm (\<lambda>_. None) ''mapping'' sample_source = Inr report"
    by (simp add: preflight_npm_def sample_source_normal Let_def)
  from preflight_sound [OF r sample_source_normal, of "''proxy_hosts''"] r show ?thesis by blast
qed

end
