(* ===== verification/Compat_Api.thy ===== *)
theory Compat_Api
  imports Lifecycle Migration
begin

text \<open>
  The NPM-compatible HTTP interface: \<open>api/compat/contracts.py\<close> and the handlers of \<open>api/compat/__init__.py\<close> (who may
  call them, which resources they may touch, the checks of payloads and ids, the import of a preflight report). The
  service behind the handlers is a record of operations on a state of its own, as the protocol
  \<open>CompatibilityService\<close> is in the code; an exception that a handler lets through is \<open>Raised\<close>.
\<close>

section \<open>Collections\<close>

definition collections :: "(string, string \<times> bool) dict" where
  "collections = [(''proxy-hosts'', (''proxy_hosts'', False)), (''certificates'', (''certificates'', False)),
     (''access-lists'', (''access_lists'', False)), (''redirection-hosts'', (''redirection_hosts'', False)),
     (''dead-hosts'', (''dead_hosts'', False)), (''streams'', (''streams'', False)), (''users'', (''users'', True)),
     (''settings'', (''settings'', True))]"

definition section_by_collection :: "(string, string) dict" where
  "section_by_collection = map (\<lambda>c. (c, c))
     [''proxy_hosts'', ''certificates'', ''access_lists'', ''redirection_hosts'', ''dead_hosts'', ''streams'']"

definition toggle_collections :: "string list" where
  "toggle_collections = [''proxy_hosts'', ''redirection_hosts'', ''dead_hosts'', ''streams'']"

datatype api_error = Refused int | Raised py_error

datatype resource_id = Rid_Int int | Rid_Str string

fun rid_str :: "resource_id \<Rightarrow> string" where
  "rid_str (Rid_Int i) = int_str i"
| "rid_str (Rid_Str s) = s"

definition raised :: "py_error + 'a \<Rightarrow> api_error + 'a" where
  "raised r = map_sum Raised id r"

record 's service =
  sv_list :: "string \<Rightarrow> 's \<Rightarrow> py_error + payload list"
  sv_get :: "string \<Rightarrow> resource_id \<Rightarrow> 's \<Rightarrow> py_error + payload option"
  sv_create :: "string \<Rightarrow> payload \<Rightarrow> security_principal \<Rightarrow> 's \<Rightarrow> py_error + 's \<times> payload"
  sv_request :: "payload \<Rightarrow> security_principal \<Rightarrow> 's \<Rightarrow> py_error + 's \<times> payload"
  sv_update :: "string \<Rightarrow> resource_id \<Rightarrow> payload \<Rightarrow> security_principal \<Rightarrow> 's \<Rightarrow> py_error + 's \<times> payload option"
  sv_replace :: "string \<Rightarrow> resource_id \<Rightarrow> payload \<Rightarrow> security_principal \<Rightarrow> 's \<Rightarrow> py_error + 's \<times> payload option"
  sv_delete :: "string \<Rightarrow> resource_id \<Rightarrow> security_principal \<Rightarrow> 's \<Rightarrow> py_error + 's \<times> bool"
  sv_toggle :: "string \<Rightarrow> resource_id \<Rightarrow> bool \<Rightarrow> security_principal \<Rightarrow> 's \<Rightarrow> py_error + 's \<times> payload option"

section \<open>Guards\<close>

definition require_admin :: "security_principal \<Rightarrow> api_error + unit" where
  "require_admin p = (if sp_is_admin p then Inr () else Inl (Refused 403))"

definition authorize :: "security_principal \<Rightarrow> string \<Rightarrow> bool \<Rightarrow> string \<Rightarrow> api_error + unit" where
  "authorize p collection admin_only action =
     (if admin_only then require_admin p
      else
        ebind (raised (note_none (KeyError collection) (dict_get section_by_collection collection))) (\<lambda>s.
          if may p s False action then Inr () else Inl (Refused 403)))"

definition is_visible :: "payload \<Rightarrow> security_principal \<Rightarrow> bool" where
  "is_visible item p \<longleftrightarrow>
     sp_is_admin p \<or> sp_visibility p = ''all'' \<or>
     (let owner = pget2 ''owner_user_id'' ''owner_id'' item in owner \<noteq> PNone \<and> py_str owner = int_str (sp_user_id p))"

definition resource_id_of :: "string \<Rightarrow> bool \<Rightarrow> api_error + resource_id" where
  "resource_id_of value allow_string =
     (if value \<noteq> [] \<and> list_all is_digit value \<and> 0 < digits_val value then Inr (Rid_Int (int (digits_val value)))
      else if allow_string \<and> strip value \<noteq> [] then Inr (Rid_Str value)
      else Inl (Refused 422))"

definition check_payload :: "payload \<Rightarrow> api_error + unit" where
  "check_payload d =
     (if ''id'' \<in> dict_keys d then Inl (Refused 400)
      else if ''private_key'' \<in> dict_keys d \<or> ''private-key'' \<in> dict_keys d then Inl (Refused 400)
      else if pget ''meta'' d \<noteq> PNone \<and> as_dict (pget ''meta'' d) = None then Inl (Refused 422)
      else Inr ())"

definition valid_resource :: "payload \<Rightarrow> string \<Rightarrow> api_error + payload" where
  "valid_resource item collection =
     (case pget ''id'' item of
        PInt i \<Rightarrow> if i < 1 then Inl (Refused 500) else Inr item
      | PStr s \<Rightarrow> if collection = ''settings'' \<and> s \<noteq> [] then Inr item else Inl (Refused 500)
      | _ \<Rightarrow> Inl (Refused 500))"

definition query_bool :: "string option \<Rightarrow> bool \<Rightarrow> bool" where
  "query_bool value dflt = (case value of None \<Rightarrow> dflt | Some v \<Rightarrow> casefold (strip v) \<in> {''1'', ''true'', ''yes'', ''on''})"

definition as_principal :: "payload \<Rightarrow> string \<Rightarrow> py_error + security_principal" where
  "as_principal value fallback =
     ebind (py_int (dict_get_or value ''id'' (dict_get_or value ''user_id'' (PStr fallback)))) (\<lambda>i.
       Inr \<lparr>sp_user_id = i,
         sp_identity = casefold (py_str (dict_get_or value ''identity'' (dict_get_or value ''email'' (PStr fallback)))),
         sp_display_name = [], sp_is_admin = truthy (dict_get_or value ''is_admin'' (dict_get_or value ''admin'' (PBool False))),
         sp_must_change_password = truthy (dict_get_or value ''must_change_password'' (PBool False)),
         sp_permissions = (case pget ''permissions'' value of PDict d \<Rightarrow> d | _ \<Rightarrow> []),
         sp_visibility = (if pget ''visibility'' value = PStr ''all'' then ''all'' else ''user''),
         sp_scopes = [''user''], sp_owner = (if pget ''owner'' value = PNone then PNone else PStr (py_str (pget ''owner'' value)))\<rparr>)"

section \<open>Handlers\<close>

definition list_handler :: "'s service \<Rightarrow> string \<Rightarrow> bool \<Rightarrow> security_principal \<Rightarrow> 's \<Rightarrow> api_error + payload list" where
  "list_handler sv collection admin_only p st =
     ebind (authorize p collection admin_only ''read'') (\<lambda>_.
     ebind (raised (sv_list sv collection st)) (\<lambda>items. Inr (filter (\<lambda>i. is_visible i p) items)))"

text \<open>The resource a handler works on: its id is checked, it exists, and the principal may see it.\<close>

definition visible_resource :: "'s service \<Rightarrow> string \<Rightarrow> resource_id \<Rightarrow> security_principal \<Rightarrow> 's \<Rightarrow> api_error + payload" where
  "visible_resource sv collection rid p st =
     ebind (raised (sv_get sv collection rid st)) (\<lambda>item.
       case item of
         None \<Rightarrow> Inl (Refused 404)
       | Some d \<Rightarrow> if is_visible d p then Inr d else Inl (Refused 404))"

definition get_handler :: "'s service \<Rightarrow> string \<Rightarrow> bool \<Rightarrow> string \<Rightarrow> security_principal \<Rightarrow> 's \<Rightarrow> api_error + payload" where
  "get_handler sv collection admin_only rid p st =
     ebind (authorize p collection admin_only ''read'') (\<lambda>_.
     ebind (resource_id_of rid (collection = ''settings'')) (\<lambda>i. visible_resource sv collection i p st))"

text \<open>A certificate of Let's Encrypt is requested, not created.\<close>

definition is_letsencrypt :: "string \<Rightarrow> payload \<Rightarrow> bool" where
  "is_letsencrypt collection d \<longleftrightarrow>
     collection = ''certificates'' \<and>
     casefold (py_str (py_or (py_or (pget ''provider'' d) (pget ''certificate_type'' d)) (PStr []))) = ''letsencrypt''"

definition letsencrypt_request :: "payload \<Rightarrow> py_error + payload" where
  "letsencrypt_request d =
     ebind (dict_or_empty (pget ''meta'' d)) (\<lambda>meta.
       Inr (dict_update d
         [(''email'', py_or (py_or (py_or (pget ''email'' d) (pget ''letsencrypt_email'' meta)) (pget ''email'' meta)) (PStr [])),
          (''challenge_type'', py_or (py_or (pget ''challenge_type'' d) (pget ''challenge_type'' meta))
             (PStr (if truthy (pget ''dns_challenge'' meta) then ''dns-01'' else ''http-01''))),
          (''dns_provider'', py_or (pget ''dns_provider'' d) (pget ''dns_provider'' meta)),
          (''dns_credentials'', py_or (pget ''dns_credentials'' d) (pget ''dns_credentials'' meta)),
          (''meta'', PDict meta)]))"

definition request_error :: "py_error \<Rightarrow> api_error" where
  "request_error e =
     (case e of RuntimeError _ \<Rightarrow> Refused 422 | ValueError _ \<Rightarrow> Refused 422 | DomainValidationError _ \<Rightarrow> Refused 422
      | CollisionError _ \<Rightarrow> Refused 422 | _ \<Rightarrow> Raised e)"

definition service_create :: "'s service \<Rightarrow> string \<Rightarrow> payload \<Rightarrow> security_principal \<Rightarrow> 's \<Rightarrow> api_error + 's \<times> payload" where
  "service_create sv collection d p st =
     (if is_letsencrypt collection d
      then ebind (raised (letsencrypt_request d)) (\<lambda>r. map_sum request_error id (sv_request sv r p st))
      else raised (sv_create sv collection d p st))"

text \<open>A handler that may change the state: the state after it, and its answer. What is raised before the service has
  answered leaves the state as it was.\<close>

definition answer :: "'s \<Rightarrow> api_error + 's \<times> (api_error + 'a) \<Rightarrow> 's \<times> (api_error + 'a)" where
  "answer st r = (case r of Inl e \<Rightarrow> (st, Inl e) | Inr x \<Rightarrow> x)"

definition create_handler :: "'s service \<Rightarrow> string \<Rightarrow> bool \<Rightarrow> payload \<Rightarrow> security_principal \<Rightarrow> 's \<Rightarrow> 's \<times> (api_error + payload)" where
  "create_handler sv collection admin_only d p st = answer st (
     ebind (authorize p collection admin_only ''create'') (\<lambda>_.
     ebind (check_payload d) (\<lambda>_.
     ebind (service_create sv collection d p st) (\<lambda>(st, created). Inr (st, valid_resource created collection)))))"

definition found :: "string \<Rightarrow> 's \<times> payload option \<Rightarrow> api_error + 's \<times> (api_error + payload)" where
  "found collection = (\<lambda>(st, r). Inr (st, case r of None \<Rightarrow> Inl (Refused 404) | Some d \<Rightarrow> valid_resource d collection))"

definition id_of :: "payload \<Rightarrow> api_error + pyval" where
  "id_of d = raised (note_none (KeyError ''id'') (dict_get d ''id''))"

definition update_handler ::
  "'s service \<Rightarrow> string \<Rightarrow> bool \<Rightarrow> string \<Rightarrow> payload \<Rightarrow> security_principal \<Rightarrow> 's \<Rightarrow> 's \<times> (api_error + payload)" where
  "update_handler sv collection admin_only rid d p st = answer st (
     ebind (authorize p collection admin_only ''update'') (\<lambda>_.
     ebind (check_payload d) (\<lambda>_.
     ebind (resource_id_of rid (collection = ''settings'')) (\<lambda>i.
     ebind (visible_resource sv collection i p st) (\<lambda>existing.
     ebind (id_of existing) (\<lambda>v.
     ebind (raised (sv_update sv collection i (dict_set ''id'' v (dict_update existing d)) p st)) (found collection)))))))"

definition replace_handler ::
  "'s service \<Rightarrow> string \<Rightarrow> bool \<Rightarrow> string \<Rightarrow> payload \<Rightarrow> security_principal \<Rightarrow> 's \<Rightarrow> 's \<times> (api_error + payload)" where
  "replace_handler sv collection admin_only rid d p st = answer st (
     ebind (authorize p collection admin_only ''update'') (\<lambda>_.
     ebind (check_payload d) (\<lambda>_.
     ebind (resource_id_of rid (collection = ''settings'')) (\<lambda>i.
     ebind (visible_resource sv collection i p st) (\<lambda>existing.
     ebind (id_of existing) (\<lambda>v.
     ebind (raised (sv_replace sv collection i (dict_set ''id'' v d) p st)) (found collection)))))))"

definition delete_handler ::
  "'s service \<Rightarrow> string \<Rightarrow> bool \<Rightarrow> string \<Rightarrow> security_principal \<Rightarrow> 's \<Rightarrow> 's \<times> (api_error + bool)" where
  "delete_handler sv collection admin_only rid p st = answer st (
     ebind (authorize p collection admin_only ''delete'') (\<lambda>_.
     ebind (resource_id_of rid (collection = ''settings'')) (\<lambda>i.
     ebind (visible_resource sv collection i p st) (\<lambda>existing.
     if collection = ''users'' \<and> rid_str i = int_str (sp_user_id p) \<and>
        casefold (py_str (dict_get_or existing ''email'' (PStr []))) = casefold (sp_identity p)
     then Inl (Refused 409)
     else ebind (raised (sv_delete sv collection i p st)) (\<lambda>(st, deleted).
       Inr (st, if deleted then Inr True else Inl (Refused 404)))))))"

definition toggle_handler ::
  "'s service \<Rightarrow> string \<Rightarrow> bool \<Rightarrow> bool \<Rightarrow> string \<Rightarrow> security_principal \<Rightarrow> 's \<Rightarrow> 's \<times> (api_error + payload)" where
  "toggle_handler sv collection admin_only enabled rid p st = answer st (
     ebind (authorize p collection admin_only ''update'') (\<lambda>_.
     ebind (resource_id_of rid False) (\<lambda>i.
     ebind (visible_resource sv collection i p st) (\<lambda>_.
     ebind (raised (sv_toggle sv collection i enabled p st)) (found collection)))))"

section \<open>Importing a preflight report\<close>

text \<open>\<open>x == y\<close>: booleans are numbers, and the order of a dictionary does not count.\<close>

function py_eq :: "pyval \<Rightarrow> pyval \<Rightarrow> bool" where
  "py_eq (PDict d) y = (case y of PDict e \<Rightarrow> length d = length e \<and>
       list_all (\<lambda>p. case dict_get e (fst p) of None \<Rightarrow> False | Some w \<Rightarrow> py_eq (snd p) w) d | _ \<Rightarrow> False)"
| "py_eq (PList xs) y = (case y of PList ys \<Rightarrow> length xs = length ys \<and> list_all (\<lambda>(x, y). py_eq x y) (zip xs ys) | _ \<Rightarrow> False)"
| "py_eq (PStr s) y \<longleftrightarrow> y = PStr s"
| "py_eq PNone y \<longleftrightarrow> y = PNone"
| "py_eq (PInt i) y \<longleftrightarrow> num_val y = Some i"
| "py_eq (PBool b) y \<longleftrightarrow> num_val y = Some (of_bool b)"
  by pat_completeness auto

lemma size_of_item: "p \<in> set d \<Longrightarrow> size (snd p) < Suc (size_list (\<lambda>x. Suc (size (snd x))) d)"
  by (induction d) auto

termination py_eq
  by (relation "measure (size \<circ> fst)") (auto dest!: size_of_item set_zip_leftD simp: size_prod_simp less_Suc_eq_le size_list_estimation')


record import_outcome =
  io_created :: nat
  io_replaced :: nat
  io_unchanged :: nat
  io_quarantined :: nat
  io_dry_run :: bool

definition import_unsupported :: "string list" where
  "import_unsupported = [''_credentials'', ''audit_log'']"

text \<open>The service of the report takes the records without a principal; the outcome counts conflicts with the
  quarantine.\<close>

record 's import_service =
  is_get :: "string \<Rightarrow> pyval \<Rightarrow> 's \<Rightarrow> py_error + payload option"
  is_create :: "string \<Rightarrow> payload \<Rightarrow> 's \<Rightarrow> py_error + 's"
  is_update :: "string \<Rightarrow> pyval \<Rightarrow> payload \<Rightarrow> 's \<Rightarrow> py_error + 's"

definition import_record :: "'s import_service \<Rightarrow> bool \<Rightarrow> bool \<Rightarrow> string \<Rightarrow> payload \<Rightarrow> 's \<times> import_outcome \<Rightarrow> py_error + 's \<times> import_outcome" where
  "import_record sv dry_run rep collection resource = (\<lambda>(st, n).
     ebind (note_none (KeyError ''id'') (dict_get resource ''id'')) (\<lambda>rid.
     ebind (is_get sv collection rid st) (\<lambda>existing.
     case existing of
       None \<Rightarrow>
         ebind (if dry_run then Inr st else is_create sv collection resource st) (\<lambda>st.
           Inr (st, n\<lparr>io_created := io_created n + 1\<rparr>))
     | Some d \<Rightarrow>
         if py_eq (PDict d) (PDict resource) then Inr (st, n\<lparr>io_unchanged := io_unchanged n + 1\<rparr>)
         else if \<not> rep then Inr (st, n\<lparr>io_quarantined := io_quarantined n + 1\<rparr>)
         else ebind (if dry_run then Inr st else is_update sv collection rid resource st) (\<lambda>st.
           Inr (st, n\<lparr>io_replaced := io_replaced n + 1\<rparr>)))))"

definition import_collection ::
  "'s import_service \<Rightarrow> bool \<Rightarrow> bool \<Rightarrow> string \<times> payload list \<Rightarrow> 's \<times> import_outcome \<Rightarrow> py_error + 's \<times> import_outcome" where
  "import_collection sv dry_run rep = (\<lambda>(collection, records) (st, n).
     if collection \<in> set import_unsupported then Inr (st, n\<lparr>io_quarantined := io_quarantined n + length records\<rparr>)
     else efold (import_record sv dry_run rep collection) records (st, n))"

definition apply_npm_report :: "'s import_service \<Rightarrow> preflight_report \<Rightarrow> bool \<Rightarrow> bool \<Rightarrow> 's \<Rightarrow> py_error + 's \<times> import_outcome" where
  "apply_npm_report sv report dry_run rep st =
     efold (import_collection sv dry_run rep) (pf_records report)
       (st, \<lparr>io_created = 0, io_replaced = 0, io_unchanged = 0, io_quarantined = length (pf_quarantine report), io_dry_run = dry_run\<rparr>)"

section \<open>Laws\<close>

declare py_eq.simps [simp del]

definition counted :: "import_outcome \<Rightarrow> nat" where
  "counted n = io_created n + io_replaced n + io_unchanged n + io_quarantined n"

lemma import_record_counts:
  assumes "import_record sv dry rep c r (st, n) = Inr (st', n')"
  shows "counted n' = counted n + 1 \<and> (dry \<longrightarrow> st' = st) \<and> (\<not> rep \<longrightarrow> io_replaced n' = io_replaced n) \<and> io_dry_run n' = io_dry_run n"
proof -
  from assms obtain rid where rid: "dict_get r ''id'' = Some rid"
    unfolding import_record_def by (cases "dict_get r ''id''") (auto simp: note_none_def)
  show ?thesis
  proof (cases "is_get sv c rid st")
    case (Inl e)
    then show ?thesis using assms rid by (simp add: import_record_def note_none_def)
  next
    case (Inr ex)
    then show ?thesis using assms rid
      by (cases ex) (auto simp: import_record_def note_none_def ebind_Inr_iff counted_def split: if_splits)
  qed
qed

lemma import_records_count:
  "efold (import_record sv dry rep c) rs (st, n) = Inr (st', n') \<Longrightarrow>
   counted n' = counted n + length rs \<and> (dry \<longrightarrow> st' = st) \<and> (\<not> rep \<longrightarrow> io_replaced n' = io_replaced n) \<and> io_dry_run n' = io_dry_run n"
proof (induction rs arbitrary: st n)
  case (Cons r rs)
  then obtain st1 n1 where "import_record sv dry rep c r (st, n) = Inr (st1, n1)" "efold (import_record sv dry rep c) rs (st1, n1) = Inr (st', n')"
    by (auto simp: ebind_Inr_iff)
  from Cons.IH [OF this(2)] import_record_counts [OF this(1)] show ?case by auto
qed simp

lemma import_collection_counts:
  assumes "import_collection sv dry rep x (st, n) = Inr (st', n')"
  shows "counted n' = counted n + length (snd x) \<and> (dry \<longrightarrow> st' = st) \<and> (\<not> rep \<longrightarrow> io_replaced n' = io_replaced n) \<and> io_dry_run n' = io_dry_run n"
proof (cases "fst x \<in> set import_unsupported")
  case True
  then show ?thesis using assms by (auto simp: import_collection_def counted_def case_prod_beta)
next
  case False
  then have "efold (import_record sv dry rep (fst x)) (snd x) (st, n) = Inr (st', n')"
    using assms by (simp add: import_collection_def case_prod_beta)
  then show ?thesis by (rule import_records_count)
qed

lemma import_collections_count:
  "efold (import_collection sv dry rep) xs (st, n) = Inr (st', n') \<Longrightarrow>
   counted n' = counted n + sum_list (map (\<lambda>(_, rs). length rs) xs) \<and> (dry \<longrightarrow> st' = st) \<and> (\<not> rep \<longrightarrow> io_replaced n' = io_replaced n) \<and>
   io_dry_run n' = io_dry_run n"
proof (induction xs arbitrary: st n)
  case (Cons x xs)
  then obtain st1 n1 where "import_collection sv dry rep x (st, n) = Inr (st1, n1)" "efold (import_collection sv dry rep) xs (st1, n1) = Inr (st', n')"
    by (auto simp: ebind_Inr_iff)
  from Cons.IH [OF this(2)] import_collection_counts [OF this(1)] show ?case by (auto simp: case_prod_beta)
qed simp

text \<open>C10. Applying a preflight report accounts for every record: what is created, replaced, left unchanged and quarantined
  adds up to the records of the report and its quarantine; a dry run counts the same way and leaves the state as it was; and
  nothing is replaced unless that was asked for.\<close>

theorem import_accounts_for_all:
  assumes "apply_npm_report sv report dry_run rep st = Inr (st', n)"
  shows "io_created n + io_replaced n + io_unchanged n + io_quarantined n =
      importable report + length (pf_quarantine report) \<and>
    io_dry_run n = dry_run \<and> (dry_run \<longrightarrow> st' = st) \<and> (\<not> rep \<longrightarrow> io_replaced n = 0)"
  using import_collections_count [OF assms [unfolded apply_npm_report_def]] by (simp add: counted_def importable_def)

theorem import_accounts_for_all_witness:
  "let report = \<lparr>pf_source_kind = ''npm'', pf_counts = [], pf_records = [(''streams'', [[(''id'', PInt 3)], [(''id'', PInt 4)]]), (''audit_log'', [[]])],
         pf_quarantine = [], pf_warnings = []\<rparr>;
       sv = \<lparr>is_get = (\<lambda>_ i st. Inr (dict_get st i)), is_create = (\<lambda>_ d st. Inr (dict_set (pget ''id'' d) d st)),
         is_update = (\<lambda>_ i d st. Inr (dict_set i d st))\<rparr> in
   \<exists>n. apply_npm_report sv report True False [(PInt 4, [(''id'', PInt 4), (''x'', PNone)])] =
         Inr ([(PInt 4, [(''id'', PInt 4), (''x'', PNone)])], n) \<and>
       io_created n = 1 \<and> io_replaced n = 0 \<and> io_created n + io_replaced n + io_unchanged n + io_quarantined n = importable report"
proof -
  define report :: preflight_report where "report = \<lparr>pf_source_kind = ''npm'', pf_counts = [],
     pf_records = [(''streams'', [[(''id'', PInt 3)], [(''id'', PInt 4)]]), (''audit_log'', [[]])], pf_quarantine = [], pf_warnings = []\<rparr>"
  define sv :: "(pyval, payload) dict import_service" where
    "sv = \<lparr>is_get = (\<lambda>_ i st. Inr (dict_get st i)), is_create = (\<lambda>_ d st. Inr (dict_set (pget ''id'' d) d st)),
         is_update = (\<lambda>_ i d st. Inr (dict_set i d st))\<rparr>"
  define n where "n = \<lparr>io_created = 1, io_replaced = 0, io_unchanged = 0, io_quarantined = 2, io_dry_run = True\<rparr>"
  have run: "apply_npm_report sv report True False [(PInt 4, [(''id'', PInt 4), (''x'', PNone)])] =
      Inr ([(PInt 4, [(''id'', PInt 4), (''x'', PNone)])], n)"
    by (simp add: apply_npm_report_def report_def sv_def n_def import_collection_def import_unsupported_def import_record_def
        note_none_def py_eq.simps)
  from import_accounts_for_all [OF run]
  have "io_replaced n = 0" "io_created n + io_replaced n + io_unchanged n + io_quarantined n = importable report"
    by (simp_all add: report_def)
  moreover have "io_created n = 1" by (simp add: n_def)
  ultimately show ?thesis using run unfolding Let_def report_def [symmetric] sv_def [symmetric] by blast
qed

section \<open>What the handlers may change\<close>

text \<open>A call of a handler that writes, for a collection of the routes.\<close>

datatype compat_call = Create payload | Update string payload | Replace string payload | Delete string | Toggle bool string

fun run_call :: "'s service \<Rightarrow> string \<Rightarrow> bool \<Rightarrow> security_principal \<Rightarrow> compat_call \<Rightarrow> 's \<Rightarrow> 's" where
  "run_call sv c admin_only p (Create d) st = fst (create_handler sv c admin_only d p st)"
| "run_call sv c admin_only p (Update rid d) st = fst (update_handler sv c admin_only rid d p st)"
| "run_call sv c admin_only p (Replace rid d) st = fst (replace_handler sv c admin_only rid d p st)"
| "run_call sv c admin_only p (Delete rid) st = fst (delete_handler sv c admin_only rid p st)"
| "run_call sv c admin_only p (Toggle enabled rid) st = fst (toggle_handler sv c admin_only enabled rid p st)"

lemma answer_changes: "fst (answer st r) \<noteq> st \<Longrightarrow> \<exists>x. r = Inr x \<and> fst (answer st r) = fst x"
  by (cases r) (auto simp: answer_def)

lemma resource_id_of_int: "resource_id_of rid False = Inr i \<Longrightarrow> \<exists>j. i = Rid_Int j"
  by (auto simp: resource_id_of_def split: if_splits)

lemma visible_resource_Inr: "visible_resource sv c i p st = Inr d \<longleftrightarrow> sv_get sv c i st = Inr (Some d) \<and> is_visible d p"
  by (cases "sv_get sv c i st") (auto simp: visible_resource_def raised_def split: option.splits)

lemma raised_Inr: "raised r = Inr x \<longleftrightarrow> r = Inr x"
  by (cases r) (auto simp: raised_def)

lemma map_sum_Inr: "map_sum f id r = Inr x \<longleftrightarrow> r = Inr x"
  by (cases r) auto

lemma create_changes:
  assumes "fst (create_handler sv c ao d p st) \<noteq> st"
  shows "\<exists>r. service_create sv c d p st = Inr (fst (create_handler sv c ao d p st), r)"
  using answer_changes [OF assms [unfolded create_handler_def]] unfolding create_handler_def by (auto simp: ebind_Inr_iff)

lemma update_changes:
  assumes "fst (update_handler sv c ao rid d p st) \<noteq> st"
  shows "\<exists>i x d' r. resource_id_of rid (c = ''settings'') = Inr i \<and> visible_resource sv c i p st = Inr x \<and>
    sv_update sv c i d' p st = Inr (fst (update_handler sv c ao rid d p st), r)"
  using answer_changes [OF assms [unfolded update_handler_def]] unfolding update_handler_def
  by (auto simp: ebind_Inr_iff raised_Inr found_def) blast

lemma replace_changes:
  assumes "fst (replace_handler sv c ao rid d p st) \<noteq> st"
  shows "\<exists>i x d' r. resource_id_of rid (c = ''settings'') = Inr i \<and> visible_resource sv c i p st = Inr x \<and>
    sv_replace sv c i d' p st = Inr (fst (replace_handler sv c ao rid d p st), r)"
  using answer_changes [OF assms [unfolded replace_handler_def]] unfolding replace_handler_def
  by (auto simp: ebind_Inr_iff raised_Inr found_def) blast

lemma delete_changes:
  assumes "fst (delete_handler sv c ao rid p st) \<noteq> st"
  shows "\<exists>i x r. resource_id_of rid (c = ''settings'') = Inr i \<and> visible_resource sv c i p st = Inr x \<and>
    sv_delete sv c i p st = Inr (fst (delete_handler sv c ao rid p st), r)"
  using answer_changes [OF assms [unfolded delete_handler_def]] unfolding delete_handler_def
  by (auto simp: ebind_Inr_iff raised_Inr split: if_splits)

lemma toggle_changes:
  assumes "fst (toggle_handler sv c ao e rid p st) \<noteq> st"
  shows "\<exists>i x r. resource_id_of rid False = Inr i \<and> visible_resource sv c i p st = Inr x \<and>
    sv_toggle sv c i e p st = Inr (fst (toggle_handler sv c ao e rid p st), r)"
  using answer_changes [OF assms [unfolded toggle_handler_def]] unfolding toggle_handler_def
  by (auto simp: ebind_Inr_iff raised_Inr found_def)

text \<open>What the provider of a collection promises: a creation keeps the items that are there, and a change of one item
  keeps the others.\<close>

locale resource_service =
  fixes sv :: "'s service" and c :: string and ok :: "'s \<Rightarrow> bool"
  assumes no_names: "c \<noteq> ''settings''"
    and create_frame: "ok st \<Longrightarrow> sv_create sv c d p st = Inr (st', r) \<Longrightarrow>
      ok st' \<and> (\<forall>j x. sv_get sv c (Rid_Int j) st = Inr (Some x) \<longrightarrow> sv_get sv c (Rid_Int j) st' = Inr (Some x))"
    and request_frame: "ok st \<Longrightarrow> c = ''certificates'' \<Longrightarrow> sv_request sv d p st = Inr (st', r) \<Longrightarrow>
      ok st' \<and> (\<forall>j x. sv_get sv c (Rid_Int j) st = Inr (Some x) \<longrightarrow> sv_get sv c (Rid_Int j) st' = Inr (Some x))"
    and update_frame: "ok st \<Longrightarrow> sv_update sv c (Rid_Int i) d p st = Inr (st', r') \<Longrightarrow>
      ok st' \<and> (\<forall>j. j \<noteq> i \<longrightarrow> sv_get sv c (Rid_Int j) st' = sv_get sv c (Rid_Int j) st)"
    and replace_frame: "ok st \<Longrightarrow> sv_replace sv c (Rid_Int i) d p st = Inr (st', r') \<Longrightarrow>
      ok st' \<and> (\<forall>j. j \<noteq> i \<longrightarrow> sv_get sv c (Rid_Int j) st' = sv_get sv c (Rid_Int j) st)"
    and delete_frame: "ok st \<Longrightarrow> sv_delete sv c (Rid_Int i) p st = Inr (st', b) \<Longrightarrow>
      ok st' \<and> (\<forall>j. j \<noteq> i \<longrightarrow> sv_get sv c (Rid_Int j) st' = sv_get sv c (Rid_Int j) st)"
    and toggle_frame: "ok st \<Longrightarrow> sv_toggle sv c (Rid_Int i) e p st = Inr (st', r') \<Longrightarrow>
      ok st' \<and> (\<forall>j. j \<noteq> i \<longrightarrow> sv_get sv c (Rid_Int j) st' = sv_get sv c (Rid_Int j) st)"
begin

lemma member_call:
  assumes "ok st" and "run_call sv c ao p call st \<noteq> st"
  shows "ok (run_call sv c ao p call st) \<and>
    ((\<forall>j x. sv_get sv c (Rid_Int j) st = Inr (Some x) \<longrightarrow> sv_get sv c (Rid_Int j) (run_call sv c ao p call st) = Inr (Some x)) \<or>
     (\<exists>i x. sv_get sv c (Rid_Int i) st = Inr (Some x) \<and> is_visible x p \<and>
        (\<forall>j. j \<noteq> i \<longrightarrow> sv_get sv c (Rid_Int j) (run_call sv c ao p call st) = sv_get sv c (Rid_Int j) st)))"
proof (cases call)
  case (Create d)
  then have call: "run_call sv c ao p call st = fst (create_handler sv c ao d p st)" by simp
  from create_changes [OF assms(2) [unfolded call]] obtain r
    where "service_create sv c d p st = Inr (fst (create_handler sv c ao d p st), r)" ..
  then have "(c = ''certificates'' \<and> (\<exists>q. sv_request sv q p st = Inr (fst (create_handler sv c ao d p st), r))) \<or>
      sv_create sv c d p st = Inr (fst (create_handler sv c ao d p st), r)"
    by (auto simp: service_create_def raised_Inr ebind_Inr_iff is_letsencrypt_def map_sum_Inr split: if_splits)
  then show ?thesis using create_frame [OF assms(1)] request_frame [OF assms(1)] unfolding call by blast
next
  case (Update rid d)
  then have call: "run_call sv c ao p call st = fst (update_handler sv c ao rid d p st)" by simp
  from update_changes [OF assms(2) [unfolded call]] no_names obtain i x d' r where "resource_id_of rid False = Inr i"
    and "visible_resource sv c i p st = Inr x" "sv_update sv c i d' p st = Inr (fst (update_handler sv c ao rid d p st), r)" by auto
  with update_frame [OF assms(1)] resource_id_of_int [of rid i] show ?thesis unfolding call visible_resource_Inr by blast
next
  case (Replace rid d)
  then have call: "run_call sv c ao p call st = fst (replace_handler sv c ao rid d p st)" by simp
  from replace_changes [OF assms(2) [unfolded call]] no_names obtain i x d' r where "resource_id_of rid False = Inr i"
    and "visible_resource sv c i p st = Inr x" "sv_replace sv c i d' p st = Inr (fst (replace_handler sv c ao rid d p st), r)" by auto
  with replace_frame [OF assms(1)] resource_id_of_int [of rid i] show ?thesis unfolding call visible_resource_Inr by blast
next
  case (Delete rid)
  then have call: "run_call sv c ao p call st = fst (delete_handler sv c ao rid p st)" by simp
  from delete_changes [OF assms(2) [unfolded call]] no_names obtain i x r where "resource_id_of rid False = Inr i"
    and "visible_resource sv c i p st = Inr x" "sv_delete sv c i p st = Inr (fst (delete_handler sv c ao rid p st), r)" by auto
  with delete_frame [OF assms(1)] resource_id_of_int [of rid i] show ?thesis unfolding call visible_resource_Inr by blast
next
  case (Toggle e rid)
  then have call: "run_call sv c ao p call st = fst (toggle_handler sv c ao e rid p st)" by simp
  from toggle_changes [OF assms(2) [unfolded call]] obtain i x r where "resource_id_of rid False = Inr i"
    and "visible_resource sv c i p st = Inr x" "sv_toggle sv c i e p st = Inr (fst (toggle_handler sv c ao e rid p st), r)" by auto
  with toggle_frame [OF assms(1)] resource_id_of_int [of rid i] show ?thesis unfolding call visible_resource_Inr by blast
qed

lemma hidden_untouched:
  "ok st \<Longrightarrow> sv_get sv c (Rid_Int j) st = Inr (Some x) \<Longrightarrow> \<not> is_visible x p \<Longrightarrow>
   ok (fold (run_call sv c ao p) calls st) \<and> sv_get sv c (Rid_Int j) (fold (run_call sv c ao p) calls st) = Inr (Some x)"
proof (induction calls arbitrary: st)
  case (Cons call calls)
  have "ok (run_call sv c ao p call st) \<and> sv_get sv c (Rid_Int j) (run_call sv c ao p call st) = Inr (Some x)"
  proof (cases "run_call sv c ao p call st = st")
    case False
    from member_call [OF Cons.prems(1) False] Cons.prems show ?thesis by (metis Inr_inject option.inject)
  qed (use Cons.prems in simp)
  with Cons.IH Cons.prems(3) show ?case by simp
qed simp

end

end
