(* ===== verification/Resources.thy ===== *)
theory Resources
  imports Compat_Api Routing_Table
begin

text \<open>
  \<open>api/compat/resources.py\<close>: the rows of the tables as NPM sees them. The streams are modelled end to end, as the service
  behind the handlers of \<open>Compat_Api\<close>: values and projection, the lifecycle hooks of a write, the constraints of the table.
  The projections of users and hosts, the cleaning of aggregates and the audit log are here as well.
\<close>

section \<open>Projections\<close>

definition wire_host_kind :: "(string, string) dict" where
  "wire_host_kind = [(''proxy_hosts'', ''proxy''), (''redirection_hosts'', ''redirect''), (''dead_hosts'', ''dead'')]"

definition table_of_collection :: "(string, string) dict" where
  "table_of_collection = [(''access_lists'', ''AccessListStore''), (''certificates'', ''CertificateStore''), (''settings'', ''SettingStore''),
     (''streams'', ''StreamRouteStore''), (''users'', ''PrincipalStore'')]"

definition table_name :: "string \<Rightarrow> py_error + string" where
  "table_name collection =
     note_none (ValueError (''unknown compatibility collection '' @ str_repr collection)) (dict_get table_of_collection collection)"

definition wire_iso :: "string \<Rightarrow> pyval \<Rightarrow> pyval" where
  "wire_iso now v = PStr (if v = PNone then now else py_str v)"

definition dict_at :: "payload \<Rightarrow> string \<Rightarrow> py_error + pyval" where
  "dict_at d k = note_none (KeyError k) (dict_get d k)"

definition clean_aggregate :: "string \<Rightarrow> payload \<Rightarrow> payload" where
  "clean_aggregate collection row =
     (let ignored = [''metadata_json'', ''created_at'', ''updated_at''] @
            (if collection \<in> dict_keys wire_host_kind
             then [''force_ssl'', ''websocket_enabled'', ''cache_enabled'', ''http2_enabled'', ''redirect_target'', ''redirect_scheme'',
               ''redirect_code''] else []) in
      filter (\<lambda>(k, _). k \<notin> set ignored) row)"

definition stream_fields :: "payload \<Rightarrow> py_error + payload" where
  "stream_fields row =
     ebind (dict_at row ''incoming_port'') (\<lambda>incoming.
     ebind (dict_at row ''target'') (\<lambda>target.
     ebind (dict_at row ''target_port'') (\<lambda>port.
     ebind (dict_at row ''target_kind'') (\<lambda>kind.
     ebind (dict_at row ''protocol'') (\<lambda>protocol.
     ebind (dict_at row ''enabled'') (\<lambda>enabled.
       Inr [(''incoming_port'', incoming), (''forwarding_host'', target), (''forwarding_port'', port), (''target_kind'', kind),
         (''tcp_forwarding'', PBool (protocol \<in> {PStr ''tcp'', PStr ''tcp+udp''})),
         (''udp_forwarding'', PBool (protocol \<in> {PStr ''udp'', PStr ''tcp+udp''})), (''enabled'', PBool (truthy enabled))]))))))"

definition user_fields :: "payload \<Rightarrow> py_error + payload" where
  "user_fields row =
     ebind (dict_at row ''email'') (\<lambda>email.
       Inr [(''email'', email), (''name'', dict_get_or row ''display_name'' (PStr [])), (''nickname'', dict_get_or row ''nickname'' (PStr [])),
         (''is_admin'', PBool (truthy (pget ''is_admin'' row))),
         (''must_change_password'', PBool (truthy (pget ''must_change_password'' row))),
         (''is_disabled'', PBool (truthy (pget ''is_disabled'' row))), (''is_deleted'', PBool (truthy (pget ''is_deleted'' row))),
         (''visibility'', dict_get_or row ''visibility'' (PStr ''user''))])"

definition project_row :: "string \<Rightarrow> string \<Rightarrow> payload \<Rightarrow> py_error + payload" where
  "project_row now collection row =
     ebind (dict_or_empty (pget ''metadata_json'' row)) (\<lambda>metadata.
     ebind (dict_or_empty (pget ''compat'' metadata)) (\<lambda>compat.
     ebind (dict_at row ''id'') (\<lambda>i.
     let payload = dict_set ''modified_on'' (wire_iso now (dict_get_or row ''updated_at'' (pget ''created_at'' row)))
           (dict_setdefault ''created_on'' (wire_iso now (pget ''created_at'' row)) (dict_set ''id'' i compat)) in
     ebind (case dict_get wire_host_kind collection of
              None \<Rightarrow> Inr payload
            | Some kind \<Rightarrow>
                ebind (py_int (dict_get_or row ''enabled'' (dict_get_or payload ''enabled'' (PInt 1)))) (\<lambda>enabled.
                  Inr (dict_set ''enabled'' (PInt enabled) (dict_set ''kind'' (PStr kind) payload)))) (\<lambda>payload.
     ebind (if collection = ''streams'' then stream_fields row else if collection = ''users'' then user_fields row else Inr []) (\<lambda>fields.
       Inr (dict_update payload fields))))))"

section \<open>Stored values\<close>

definition compat_values :: "payload \<Rightarrow> payload" where
  "compat_values d = filter (\<lambda>(k, _). k \<notin> set [''id'', ''created_at'', ''updated_at'', ''created_on'', ''modified_on'']) d"

definition int_or_zero :: "string \<Rightarrow> payload \<Rightarrow> py_error + int" where
  "int_or_zero k d = py_int (py_or (pget k d) (PInt 0))"

definition stream_protocol_text :: "payload \<Rightarrow> string" where
  "stream_protocol_text d =
     (let tcp = truthy (pget ''tcp_forwarding'' d); udp = truthy (pget ''udp_forwarding'' d) in
      if tcp \<and> udp then ''tcp+udp'' else if udp then ''udp'' else ''tcp'')"

definition stream_values :: "payload \<Rightarrow> py_error + payload" where
  "stream_values d =
     ebind (int_or_zero ''incoming_port'' d) (\<lambda>incoming.
     ebind (int_or_zero ''forwarding_port'' d) (\<lambda>port.
     ebind (int_or_zero ''certificate_id'' d) (\<lambda>certificate.
       Inr [(''owner_principal_id'', pget ''owner_principal_id'' d), (''protocol'', PStr (stream_protocol_text d)),
         (''incoming_port'', PInt incoming), (''target_kind'', PStr (text_or ''target_kind'' ''dns'' d)),
         (''target'', PStr (text_or ''forwarding_host'' [] d)), (''target_port'', PInt port),
         (''certificate_id'', if certificate = 0 then PNone else PInt certificate),
         (''enabled'', PBool (truthy (dict_get_or d ''enabled'' (PBool True)))),
         (''metadata_json'', PDict [(''compat'', PDict (compat_values d))])])))"

definition user_values :: "payload \<Rightarrow> py_error + payload" where
  "user_values d =
     ebind (dict_at d ''email'') (\<lambda>email.
       Inr [(''email'', PStr (casefold (py_str email))),
         (''display_name'', PStr (py_str (dict_get_or d ''name'' (dict_get_or d ''display_name'' (PStr []))))),
         (''nickname'', PStr (text_or ''nickname'' [] d)), (''is_admin'', PBool (truthy (pget ''is_admin'' d))),
         (''is_disabled'', PBool (truthy (pget ''is_disabled'' d))), (''is_deleted'', PBool (truthy (pget ''is_deleted'' d))),
         (''visibility'', PStr (text_or ''visibility'' ''user'' d)),
         (''metadata_json'', PDict [(''compat'', PDict (compat_values d))])])"

section \<open>The table of streams\<close>

record wire_stream = stream_row +
  ws_created_at :: string
  ws_updated_at :: string

definition base_rows :: "wire_stream list \<Rightarrow> stream_row list" where
  "base_rows rows = map stream_row.truncate rows"

definition opt_val :: "int option \<Rightarrow> pyval" where
  "opt_val x = (case x of None \<Rightarrow> PNone | Some i \<Rightarrow> PInt i)"

definition stream_columns :: "wire_stream \<Rightarrow> payload" where
  "stream_columns r =
     [(''id'', PInt (sw_id r)), (''owner_principal_id'', opt_val (sw_owner_principal_id r)), (''protocol'', PStr (sw_protocol r)),
      (''incoming_port'', PInt (sw_incoming_port r)), (''target_kind'', PStr (sw_target_kind r)), (''target'', PStr (sw_target r)),
      (''target_port'', PInt (sw_target_port r)), (''certificate_id'', opt_val (sw_certificate_id r)),
      (''enabled'', PBool (sw_enabled r)), (''metadata_json'', PDict (sw_metadata r)), (''created_at'', PStr (ws_created_at r)),
      (''updated_at'', PStr (ws_updated_at r))]"

definition find_stream :: "int \<Rightarrow> wire_stream list \<Rightarrow> wire_stream option" where
  "find_stream i rows = find (\<lambda>r. sw_id r = i) rows"

text \<open>A write assigns the columns that its values name, and the database refuses what its constraints exclude.\<close>

definition opt_int_field :: "pyval \<Rightarrow> py_error + int option" where
  "opt_int_field v = (if v = PNone then Inr None else map_sum id Some (field_int v))"

definition assign_stream :: "string \<Rightarrow> payload \<Rightarrow> wire_stream \<Rightarrow> py_error + wire_stream" where
  "assign_stream now d r =
     ebind (optional_field opt_int_field (sw_owner_principal_id r) ''owner_principal_id'' d) (\<lambda>owner.
     ebind (optional_field field_str (sw_protocol r) ''protocol'' d) (\<lambda>protocol.
     ebind (optional_field field_int (sw_incoming_port r) ''incoming_port'' d) (\<lambda>incoming.
     ebind (optional_field field_str (sw_target_kind r) ''target_kind'' d) (\<lambda>kind.
     ebind (optional_field field_str (sw_target r) ''target'' d) (\<lambda>target.
     ebind (optional_field field_int (sw_target_port r) ''target_port'' d) (\<lambda>port.
     ebind (optional_field opt_int_field (sw_certificate_id r) ''certificate_id'' d) (\<lambda>certificate.
     ebind (optional_field field_bool (sw_enabled r) ''enabled'' d) (\<lambda>enabled.
     ebind (optional_field field_dict (sw_metadata r) ''metadata_json'' d) (\<lambda>metadata.
       Inr \<lparr>sw_id = sw_id r, sw_owner_principal_id = owner, sw_protocol = protocol, sw_incoming_port = incoming, sw_target_kind = kind,
         sw_target = target, sw_target_port = port, sw_certificate_id = certificate, sw_enabled = enabled, sw_metadata = metadata,
         ws_created_at = ws_created_at r, ws_updated_at = now\<rparr>)))))))))"

definition blank_stream :: "string \<Rightarrow> int \<Rightarrow> wire_stream" where
  "blank_stream now i = \<lparr>sw_id = i, sw_owner_principal_id = None, sw_protocol = [], sw_incoming_port = 0, sw_target_kind = [],
     sw_target = [], sw_target_port = 0, sw_certificate_id = None, sw_enabled = True, sw_metadata = [], ws_created_at = now,
     ws_updated_at = now\<rparr>"

definition streams_ok :: "wire_stream list \<Rightarrow> bool" where
  "streams_ok rows \<longleftrightarrow> distinct (map sw_id rows) \<and> stream_unique (base_rows rows) \<and> list_all stream_checks (base_rows rows)"

definition commit_streams :: "wire_stream list \<Rightarrow> py_error + wire_stream list" where
  "commit_streams rows =
     (if stream_unique (base_rows rows) \<and> list_all stream_checks (base_rows rows) then Inr rows else Inl (RuntimeError ''IntegrityError''))"

definition actor_of :: "security_principal \<Rightarrow> caller" where
  "actor_of p = Fields
     [(''id'', PInt (sp_user_id p)), (''email'', PStr (sp_identity p)), (''is_admin'', PBool (sp_is_admin p)),
      (''permissions'', PDict (sp_permissions p)), (''visibility'', PStr (sp_visibility p)),
      (''scopes'', PList (map PStr (sp_scopes p))), (''owner'', sp_owner p)]"

definition stream_context :: "security_principal \<Rightarrow> string \<Rightarrow> payload \<Rightarrow> op_context" where
  "stream_context p alias d =
     \<lparr>cx_op = alias, cx_alias = alias, cx_target = alias, cx_table = ''stream_routes'', cx_principal = Some (actor_of p),
      cx_actor = None, cx_payload = PDict d, cx_result = PNone, cx_temp = [], cx_obj_id = PNone, cx_target_principal_id = PNone,
      cx_attribution = PNone\<rparr>"

definition stream_lookup :: "wire_stream list \<Rightarrow> row_lookup" where
  "stream_lookup rows table i = (if table = ''stream_routes'' then map_option stream_columns (find_stream i rows) else None)"

text \<open>The payload of a write after the hooks before the handler.\<close>

definition hooked :: "security_principal \<Rightarrow> string \<Rightarrow> payload \<Rightarrow> wire_stream list \<Rightarrow> py_error + payload" where
  "hooked p alias d rows =
     ebind (pre_handler (stream_lookup rows) id (stream_context p alias d)) (\<lambda>cx. field_dict (cx_payload cx))"

definition write_stream :: "string \<Rightarrow> security_principal \<Rightarrow> string \<Rightarrow> int \<Rightarrow> payload \<Rightarrow> wire_stream list \<Rightarrow>
    py_error + wire_stream list \<times> wire_stream" where
  "write_stream now p alias i d rows =
     ebind (hooked p alias (dict_update [(''id'', PInt i)] d) rows) (\<lambda>d.
     ebind (note_none (LookupError ''not found'') (find_stream i rows)) (\<lambda>r.
     ebind (assign_stream now d r) (\<lambda>r'.
     ebind (commit_streams (update_where (\<lambda>q. sw_id q = i) (\<lambda>_. r') rows)) (\<lambda>rows. Inr (rows, r')))))"

section \<open>The service of the streams\<close>

fun rid_int :: "resource_id \<Rightarrow> py_error + int" where
  "rid_int (Rid_Int i) = Inr i"
| "rid_int (Rid_Str s) = py_int (PStr s)"

definition list_streams :: "string \<Rightarrow> wire_stream list \<Rightarrow> py_error + payload list" where
  "list_streams now rows = emap (\<lambda>r. project_row now ''streams'' (stream_columns r)) rows"

definition get_stream :: "string \<Rightarrow> resource_id \<Rightarrow> wire_stream list \<Rightarrow> py_error + payload option" where
  "get_stream now rid rows =
     (case rid_int rid of
        Inl _ \<Rightarrow> Inr None
      | Inr i \<Rightarrow>
          (case find_stream i rows of
             None \<Rightarrow> Inr None
           | Some r \<Rightarrow> map_sum id Some (project_row now ''streams'' (stream_columns r))))"

definition create_stream :: "string \<Rightarrow> payload \<Rightarrow> security_principal \<Rightarrow> wire_stream list \<Rightarrow> py_error + wire_stream list \<times> payload" where
  "create_stream now d p rows =
     ebind (stream_values d) (\<lambda>v.
     ebind (stream_validate v (base_rows rows)) (\<lambda>_.
     ebind (hooked p ''create'' v rows) (\<lambda>v.
     ebind (assign_stream now v (blank_stream now (next_id sw_id rows))) (\<lambda>r.
     ebind (commit_streams (rows @ [r])) (\<lambda>rows.
     ebind (project_row now ''streams'' (stream_columns r)) (\<lambda>x. Inr (rows, x)))))))"

definition update_stream :: "string \<Rightarrow> resource_id \<Rightarrow> payload \<Rightarrow> security_principal \<Rightarrow> wire_stream list \<Rightarrow>
    py_error + wire_stream list \<times> payload option" where
  "update_stream now rid d p rows =
     ebind (get_stream now rid rows) (\<lambda>current.
     case current of
       None \<Rightarrow> Inr (rows, None)
     | Some current \<Rightarrow>
         ebind (stream_values (dict_update current d)) (\<lambda>v.
         ebind (rid_int rid) (\<lambda>i.
         ebind (stream_validate (dict_update [(''id'', PInt i)] v) (base_rows rows)) (\<lambda>_.
         ebind (write_stream now p ''update'' i v rows) (\<lambda>(rows, r).
         ebind (project_row now ''streams'' (stream_columns r)) (\<lambda>x. Inr (rows, Some x)))))))"

definition replace_stream :: "string \<Rightarrow> resource_id \<Rightarrow> payload \<Rightarrow> security_principal \<Rightarrow> wire_stream list \<Rightarrow>
    py_error + wire_stream list \<times> payload option" where
  "replace_stream now rid d p rows =
     ebind (get_stream now rid rows) (\<lambda>current.
     case current of
       None \<Rightarrow> Inr (rows, None)
     | Some _ \<Rightarrow>
         ebind (rid_int rid) (\<lambda>i.
         ebind (stream_values (dict_set ''id'' (PInt i) d)) (\<lambda>v.
         ebind (write_stream now p ''replace'' i v rows) (\<lambda>(rows, r).
         ebind (project_row now ''streams'' (stream_columns r)) (\<lambda>x. Inr (rows, Some x))))))"

definition delete_stream :: "string \<Rightarrow> resource_id \<Rightarrow> security_principal \<Rightarrow> wire_stream list \<Rightarrow> py_error + wire_stream list \<times> bool" where
  "delete_stream now rid p rows =
     ebind (get_stream now rid rows) (\<lambda>current.
     case current of
       None \<Rightarrow> Inr (rows, False)
     | Some _ \<Rightarrow>
         ebind (rid_int rid) (\<lambda>i.
         ebind (hooked p ''delete'' [(''id'', PInt i)] rows) (\<lambda>_.
           Inr (filter (\<lambda>r. sw_id r \<noteq> i) rows, True))))"

fun absent_error :: "py_error \<Rightarrow> bool" where
  "absent_error (LookupError _) = True"
| "absent_error (KeyError _) = True"
| "absent_error (ValueError _) = True"
| "absent_error (DomainValidationError _) = True"
| "absent_error (CollisionError _) = True"
| "absent_error _ = False"

definition toggle_stream :: "string \<Rightarrow> resource_id \<Rightarrow> bool \<Rightarrow> security_principal \<Rightarrow> wire_stream list \<Rightarrow>
    py_error + wire_stream list \<times> payload option" where
  "toggle_stream now rid enabled p rows =
     (case ebind (rid_int rid) (\<lambda>i. write_stream now p ''update'' i [(''enabled'', PBool enabled)] rows) of
        Inl e \<Rightarrow> if absent_error e then Inr (rows, None) else Inl e
      | Inr (rows, _) \<Rightarrow> ebind (get_stream now rid rows) (\<lambda>x. Inr (rows, x)))"

text \<open>The other collections have tables of their own.\<close>

definition stream_service :: "string \<Rightarrow> wire_stream list service" where
  "stream_service now =
     \<lparr>sv_list = (\<lambda>c rows. list_streams now rows), sv_get = (\<lambda>c rid rows. get_stream now rid rows),
      sv_create = (\<lambda>c d p rows. create_stream now d p rows),
      sv_request = (\<lambda>d p rows. Inl (RuntimeError ''certificate workflow is not configured'')),
      sv_update = (\<lambda>c rid d p rows. update_stream now rid d p rows),
      sv_replace = (\<lambda>c rid d p rows. replace_stream now rid d p rows),
      sv_delete = (\<lambda>c rid p rows. delete_stream now rid p rows),
      sv_toggle = (\<lambda>c rid e p rows. toggle_stream now rid e p rows)\<rparr>"

section \<open>The audit log\<close>

definition audit_actor :: "pyval \<Rightarrow> (int, payload) dict \<Rightarrow> py_error + payload" where
  "audit_actor actor_id principals =
     (if actor_id = PNone
      then Inr [(''actor_id'', PNone), (''actor_kind'', PStr ''system''), (''actor_name'', PStr ''System''), (''actor_email'', PNone)]
      else ebind (py_int actor_id) (\<lambda>i.
        let principal = dict_get_or principals i [] in
        Inr [(''actor_id'', PInt i), (''actor_kind'', PStr ''user''),
          (''actor_name'', py_or (py_or (py_or (pget ''nickname'' principal) (pget ''display_name'' principal)) (pget ''email'' principal))
             (PStr (''Principal '' @ py_str actor_id))),
          (''actor_email'', pget ''email'' principal)]))"

definition audit_resource_label :: "payload \<Rightarrow> py_error + string" where
  "audit_resource_label row =
     ebind (dict_or_empty (pget ''details'' row)) (\<lambda>details.
     let source = (case pget ''deleted_resource'' details of PDict d \<Rightarrow> d | _ \<Rightarrow> details) in
     case pget ''domain_names'' source of
       PList (x # xs) \<Rightarrow> Inr (join '', '' (map py_str (x # xs)))
     | _ \<Rightarrow>
         ebind (dict_at row ''object_type'') (\<lambda>t.
         ebind (dict_at row ''object_id'') (\<lambda>i. Inr (py_str t @ '' #'' @ py_str i))))"

definition snapshot_actor :: "payload \<Rightarrow> payload" where
  "snapshot_actor snapshot =
     [(''actor_id'', pget ''principal_id'' snapshot),
      (''actor_kind'', PStr (if truthy (pget ''principal_id'' snapshot) then ''user'' else ''system'')),
      (''actor_name'', py_or (py_or (pget ''actor_name'' snapshot) (pget ''display_name'' snapshot)) (pget ''email'' snapshot)),
      (''actor_email'', pget ''email'' snapshot)]"

definition audit_entry :: "string \<Rightarrow> (int, payload) dict \<Rightarrow> payload \<Rightarrow> py_error + payload" where
  "audit_entry now principals row =
     ebind (dict_or_empty (pget ''actor_snapshot'' row)) (\<lambda>snapshot.
     ebind (audit_actor (pget ''actor_principal_id'' row) principals) (\<lambda>actor.
     let actor = (if snapshot \<noteq> [] then snapshot_actor snapshot else actor) in
     ebind (dict_at row ''id'') (\<lambda>i.
     ebind (dict_at row ''action'') (\<lambda>action.
     ebind (dict_at row ''object_type'') (\<lambda>object_type.
     ebind (dict_at row ''object_id'') (\<lambda>object_id.
     ebind (audit_resource_label row) (\<lambda>label.
     ebind (py_get ''attribution'' (PDict []) (py_or (pget ''details'' row) (PDict []))) (\<lambda>attribution.
     ebind (py_get ''executor_name'' PNone attribution) (\<lambda>executor.
       Inr (dict_update (dict_update
         [(''id'', i), (''created_on'', wire_iso now (pget ''created_at'' row)), (''action'', action), (''object_type'', object_type),
          (''object_id'', object_id), (''resource_label'', PStr label), (''summary'', PStr (py_str action @ '' '' @ label)),
          (''user_id'', pget ''actor_principal_id'' row), (''target_principal_id'', pget ''target_principal_id'' row),
          (''outcome'', py_or (pget ''outcome'' row) (PStr ''success''))] actor)
         [(''executor_name'', executor), (''meta'', py_or (pget ''details'' row) (PDict []))]))))))))))"

definition list_audit :: "string \<Rightarrow> payload list \<Rightarrow> (int, payload) dict \<Rightarrow> string option \<Rightarrow> py_error + payload list" where
  "list_audit now rows principals since =
     ebind (emap (audit_entry now principals) rows) (\<lambda>entries.
       Inr (filter (\<lambda>e. case since of None \<Rightarrow> True | Some s \<Rightarrow> s \<le> py_str (pget ''created_on'' e)) entries))"

section \<open>Laws\<close>

lemma find_update_other: "j \<noteq> i \<Longrightarrow> (\<And>r. key (f r) = i) \<Longrightarrow>
   find (\<lambda>r. key r = j) (update_where (\<lambda>r. key r = i) f rows) = find (\<lambda>r. key r = j) rows"
  unfolding update_where_def by (induction rows) auto

lemma find_filter_other: "j \<noteq> i \<Longrightarrow> find (\<lambda>r. key r = j) (filter (\<lambda>r. key r \<noteq> i) rows) = find (\<lambda>r. key r = j) rows"
  by (induction rows) auto

lemma find_append_some: "find P xs = Some x \<Longrightarrow> find P (xs @ ys) = Some x"
  by (induction xs) auto

lemma assign_keeps: "assign_stream now d r = Inr r' \<Longrightarrow> sw_id r' = sw_id r \<and> ws_created_at r' = ws_created_at r \<and> ws_updated_at r' = now"
  by (auto simp: assign_stream_def ebind_Inr_iff)

lemma commit_ok: "commit_streams rows = Inr rows' \<Longrightarrow> distinct (map sw_id rows) \<Longrightarrow> rows' = rows \<and> streams_ok rows"
  by (auto simp: commit_streams_def streams_ok_def split: if_splits)

lemma find_stream_id: "find_stream i rows = Some r \<Longrightarrow> sw_id r = i \<and> r \<in> set rows"
  by (auto simp: find_stream_def find_Some_iff)

lemma write_frame:
  assumes "write_stream now p alias i d rows = Inr (rows', r)" and "streams_ok rows"
  shows "streams_ok rows' \<and> sw_id r = i \<and> find_stream i rows' = Some r \<and> (\<forall>j. j \<noteq> i \<longrightarrow> find_stream j rows' = find_stream j rows)"
proof -
  from assms(1) obtain q d' where q: "find_stream i rows = Some q" and r: "assign_stream now d' q = Inr r"
    and c: "commit_streams (update_where (\<lambda>q. sw_id q = i) (\<lambda>_. r) rows) = Inr rows'"
    by (auto simp: write_stream_def ebind_Inr_iff note_none_def split: option.splits)
  from find_stream_id [OF q] assign_keeps [OF r] have i: "sw_id r = i" by simp
  have "map sw_id (update_where (\<lambda>q. sw_id q = i) (\<lambda>_. r) rows) = map sw_id rows"
    using i by (intro map_update_where) simp
  with assms(2) commit_ok [OF c] have ok: "rows' = update_where (\<lambda>q. sw_id q = i) (\<lambda>_. r) rows" "streams_ok rows'"
    by (simp_all add: streams_ok_def)
  have "find_stream i rows' = Some r"
    using q i unfolding ok(1) find_stream_def update_where_def by (induction rows) (auto split: if_splits)
  moreover have "find_stream j rows' = find_stream j rows" if "j \<noteq> i" for j
    unfolding ok(1) find_stream_def using that i by (intro find_update_other) simp_all
  ultimately show ?thesis using ok(2) i by blast
qed

lemma create_stream_facts:
  assumes "create_stream now d p rows = Inr (rows', x)" and "streams_ok rows"
  shows "\<exists>v v' r. stream_values d = Inr v \<and> stream_validate v (base_rows rows) = Inr [(''valid'', PBool True)] \<and>
    hooked p ''create'' v rows = Inr v' \<and> assign_stream now v' (blank_stream now (next_id sw_id rows)) = Inr r \<and>
    rows' = rows @ [r] \<and> streams_ok rows' \<and> find_stream (sw_id r) rows' = Some r \<and> sw_id r \<notin> sw_id ` set rows \<and>
    project_row now ''streams'' (stream_columns r) = Inr x"
proof -
  from assms(1) obtain v u v' r where v: "stream_values d = Inr v" "stream_validate v (base_rows rows) = Inr u" "hooked p ''create'' v rows = Inr v'"
    and r: "assign_stream now v' (blank_stream now (next_id sw_id rows)) = Inr r" and c: "commit_streams (rows @ [r]) = Inr rows'"
    and x: "project_row now ''streams'' (stream_columns r) = Inr x"
    by (auto simp: create_stream_def ebind_Inr_iff)
  have fresh: "sw_id r \<notin> sw_id ` set rows"
    using assign_keeps [OF r] next_id_fresh [of sw_id rows] by (simp add: blank_stream_def)
  with commit_ok [OF c] assms(2) have "rows' = rows @ [r]" "streams_ok rows'" by (auto simp: streams_ok_def)
  moreover have "find_stream (sw_id r) (rows @ [r]) = Some r"
    using fresh unfolding find_stream_def by (induction rows) auto
  moreover have "u = [(''valid'', PBool True)]" using v(2) by (auto simp: stream_validate_def ebind_Inr_iff)
  ultimately show ?thesis using v r x fresh by blast
qed

lemma get_stream_find: "get_stream now (Rid_Int i) rows =
   (case find_stream i rows of None \<Rightarrow> Inr None | Some r \<Rightarrow> map_sum id Some (project_row now ''streams'' (stream_columns r)))"
  by (simp add: get_stream_def)

lemma get_stream_cong: "find_stream j rows' = find_stream j rows \<Longrightarrow> get_stream now (Rid_Int j) rows' = get_stream now (Rid_Int j) rows"
  by (simp add: get_stream_find)

lemma write_frame_get:
  assumes "write_stream now p alias i d rows = Inr (rows', r)" and "streams_ok rows"
  shows "streams_ok rows' \<and> (\<forall>j. j \<noteq> i \<longrightarrow> get_stream now' (Rid_Int j) rows' = get_stream now' (Rid_Int j) rows)"
  using write_frame [OF assms] get_stream_cong by metis

lemma service_ops [simp]:
  "sv_get (stream_service now) c rid rows = get_stream now rid rows"
  "sv_create (stream_service now) c d p rows = create_stream now d p rows"
  "sv_update (stream_service now) c rid d p rows = update_stream now rid d p rows"
  "sv_replace (stream_service now) c rid d p rows = replace_stream now rid d p rows"
  "sv_delete (stream_service now) c rid p rows = delete_stream now rid p rows"
  "sv_toggle (stream_service now) c rid e p rows = toggle_stream now rid e p rows"
  by (simp_all add: stream_service_def)

interpretation streams_api: resource_service "stream_service now" "''streams''" streams_ok for now
proof (unfold_locales, goal_cases)
  case (2 st d p st' r)
  then have c: "create_stream now d p st = Inr (st', r)" by (simp add: stream_service_def)
  from create_stream_facts [OF c 2(1)] obtain q where q: "st' = st @ [q]" "streams_ok st'" by blast
  have "find_stream j st' = Some w" if "find_stream j st = Some w" for j w
    using that unfolding q(1) find_stream_def by (rule find_append_some)
  then show ?case using q(2) by (auto simp: get_stream_find split: option.splits)
next
  case (4 st i d p st' r')
  then have u: "update_stream now (Rid_Int i) d p st = Inr (st', r')" by (simp add: stream_service_def)
  then consider "st' = st" | v r where "write_stream now p ''update'' i v st = Inr (st', r)"
    by (auto simp: update_stream_def ebind_Inr_iff split: option.splits)
  then show ?case 
  proof cases
    case 2
    from write_frame_get [OF 2 4(1)] show ?thesis by simp
  qed (use 4(1) in simp)
next
  case (5 st i d p st' r')
  then have u: "replace_stream now (Rid_Int i) d p st = Inr (st', r')" by (simp add: stream_service_def)
  then consider "st' = st" | v r where "write_stream now p ''replace'' i v st = Inr (st', r)"
    by (auto simp: replace_stream_def ebind_Inr_iff split: option.splits)
  then show ?case 
  proof cases
    case 2
    from write_frame_get [OF 2 5(1)] show ?thesis by simp
  qed (use 5(1) in simp)
next
  case (6 st i p st' b)
  then have "delete_stream now (Rid_Int i) p st = Inr (st', b)" by (simp add: stream_service_def)
  then have "st' = st \<or> st' = filter (\<lambda>r. sw_id r \<noteq> i) st"
    by (auto simp: delete_stream_def ebind_Inr_iff split: option.splits)
  moreover have "find_stream j (filter (\<lambda>r. sw_id r \<noteq> i) st) = find_stream j st" if "j \<noteq> i" for j
    unfolding find_stream_def using that by (rule find_filter_other)
  moreover have "streams_ok (filter (\<lambda>r. sw_id r \<noteq> i) st)"
    using 6(1) by (auto simp: streams_ok_def stream_unique_def base_rows_def list_all_iff distinct_map_filter comp_def)
  ultimately show ?case using 6(1) by (auto simp: get_stream_find)
next
  case (7 st i e p st' r')
  then have "toggle_stream now (Rid_Int i) e p st = Inr (st', r')" by (simp add: stream_service_def)
  then consider "st' = st" | v r where "write_stream now p ''update'' i v st = Inr (st', r)"
    by (auto simp: toggle_stream_def ebind_Inr_iff split: sum.splits if_splits)
  then show ?case 
  proof cases
    case 2
    from write_frame_get [OF 2 7(1)] show ?thesis by simp
  qed (use 7(1) in simp)
qed (simp_all add: stream_service_def)

text \<open>C5. A principal reaches only the streams that the compatibility API shows to it: whatever sequence of creations,
  updates, replacements, deletions and toggles it sends, on any ids and with any payloads, a stream that is not visible to
  it reads exactly as before, and the table keeps its constraints (distinct ids, one row per port and protocol, every row
  in bounds).\<close>

theorem hidden_streams_untouched:
  assumes "streams_ok rows" and "get_stream now (Rid_Int j) rows = Inr (Some x)" and "\<not> is_visible x p"
  shows "streams_ok (fold (run_call (stream_service now) ''streams'' False p) calls rows) \<and>
    get_stream now (Rid_Int j) (fold (run_call (stream_service now) ''streams'' False p) calls rows) = Inr (Some x)"
  using streams_api.hidden_untouched [of rows now j x p False calls] assms by (simp add: stream_service_def)

lemma hooked_payload:
  assumes "hooked p alias d rows = Inr d'"
  shows "d' = d \<or> d' = dict_set ''owner_principal_id'' (PInt (sp_user_id p)) d"
proof -
  let ?cx = "stream_context p alias d"
  have pid: "principal_id_of ?cx = Inr (Some (sp_user_id p))"
    by (simp add: principal_id_of_def stream_context_def acting_def actor_of_def pget2_def pget_def dict_get_or_def Let_def)
  have pl: "cx_payload ?cx = PDict d" and tab: "cx_table ?cx = ''stream_routes''" by (simp_all add: stream_context_def)
  from assms obtain cx where own: "enforce_ownership (stream_lookup rows) id ?cx = Inr cx" and d': "field_dict (cx_payload cx) = Inr d'"
    by (auto simp: hooked_def pre_handler_def ebind_Inr_iff)
  have noted: "note_routing_row id v row ?cx = Inr ?cx" for v row by (simp add: note_routing_row_def tab)
  from own have "cx_payload cx = PDict d \<or> cx_payload cx = PDict (dict_set ''owner_principal_id'' (PInt (sp_user_id p)) d)"
    unfolding enforce_ownership_def pl pid by (auto simp: pl noted ebind_Inr_iff split: if_splits option.splits)
  with d' show ?thesis by auto
qed

text \<open>What a stream is stored as, from the payload of NPM.\<close>

lemma stored_stream:
  assumes "stream_values d = Inr v" and "w = v \<or> w = (''id'', PInt i) # v" and "hooked p alias w rows = Inr w'"
    and "assign_stream now w' r = Inr r'"
  shows "int_or_zero ''incoming_port'' d = Inr (sw_incoming_port r') \<and> int_or_zero ''forwarding_port'' d = Inr (sw_target_port r') \<and>
    sw_target r' = text_or ''forwarding_host'' [] d \<and> sw_target_kind r' = text_or ''target_kind'' ''dns'' d \<and>
    sw_enabled r' = truthy (dict_get_or d ''enabled'' (PBool True)) \<and>
    sw_protocol r' = stream_protocol_text d \<and>
    sw_metadata r' = [(''compat'', PDict (compat_values d))]"
proof -
  from assms(1) obtain incoming port cert where n: "int_or_zero ''incoming_port'' d = Inr incoming" "int_or_zero ''forwarding_port'' d = Inr port"
      "int_or_zero ''certificate_id'' d = Inr cert"
    by (auto simp: stream_values_def Let_def ebind_Inr_iff)
  let ?rest = "\<lambda>owner. [(''owner_principal_id'', owner), (''protocol'', PStr (stream_protocol_text d)), (''incoming_port'', PInt incoming),
          (''target_kind'', PStr (text_or ''target_kind'' ''dns'' d)), (''target'', PStr (text_or ''forwarding_host'' [] d)),
          (''target_port'', PInt port), (''certificate_id'', if cert = 0 then PNone else PInt cert),
          (''enabled'', PBool (truthy (dict_get_or d ''enabled'' (PBool True)))),
          (''metadata_json'', PDict [(''compat'', PDict (compat_values d))])]"
  have v: "v = ?rest (pget ''owner_principal_id'' d)"
    using assms(1) unfolding stream_values_def n by simp
  from assms(2) obtain ident where w: "w = ident @ v" and ident: "ident = [] \<or> ident = [(''id'', PInt i)]" by auto
  from hooked_payload [OF assms(3)] ident obtain owner where d: "w' = ident @ ?rest owner"
    unfolding w v by (auto simp: dict_set_def)
  have get: "optional_field f c k (ident @ xs) = optional_field f c k xs" if "k \<noteq> ''id''" for f :: "pyval \<Rightarrow> py_error + 'x" and c k xs
    using ident that by (auto simp: optional_field_def)
  have "assign_stream now (ident @ xs) r = assign_stream now xs r" for xs
    unfolding assign_stream_def by (simp add: get)
  then have "assign_stream now (?rest owner) r = Inr r'" using assms(4) unfolding d by simp
  then have "sw_incoming_port r' = incoming \<and> sw_target_port r' = port \<and> sw_target r' = text_or ''forwarding_host'' [] d \<and>
      sw_target_kind r' = text_or ''target_kind'' ''dns'' d \<and> sw_enabled r' = truthy (dict_get_or d ''enabled'' (PBool True)) \<and>
      sw_protocol r' = stream_protocol_text d \<and> sw_metadata r' = [(''compat'', PDict (compat_values d))]"
    unfolding assign_stream_def ebind_Inr_iff by (elim exE conjE) (auto simp: optional_field_def)
  then show ?thesis unfolding n by simp
qed

section \<open>Ports\<close>

definition transport_names :: "string \<Rightarrow> string list" where
  "transport_names protocol = split_on CHR ''+'' protocol"

definition ports_disjoint :: "wire_stream list \<Rightarrow> bool" where
  "ports_disjoint rows \<longleftrightarrow>
     (\<forall>r\<in>set rows. \<forall>q\<in>set rows. sw_id q \<noteq> sw_id r \<and> sw_incoming_port q = sw_incoming_port r \<longrightarrow>
        set (transport_names (sw_protocol q)) \<inter> set (transport_names (sw_protocol r)) = {})"

lemma conflicts_transports: "s \<in> {''tcp'', ''udp'', ''tcp+udp''} \<Longrightarrow>
   s \<notin> set (stream_conflicts p) \<longleftrightarrow> set (transport_names s) \<inter> set (transport_names (stream_protocol_value p)) = {}"
  by (cases p) (auto simp: stream_conflicts_def transport_names_def)

lemma stream_protocol_text_cases: "stream_protocol_text d \<in> {''tcp'', ''udp'', ''tcp+udp''}"
  by (simp add: stream_protocol_text_def Let_def)

lemma base_rows_simps [simp]: "sw_id (stream_row.truncate r) = sw_id r" "sw_protocol (stream_row.truncate r) = sw_protocol r"
  "sw_incoming_port (stream_row.truncate r) = sw_incoming_port r"
  by (simp_all add: stream_row.truncate_def)

lemma port_available_base: "assert_port_available (base_rows rows) n p exclude = Inr () \<longleftrightarrow>
   (\<forall>r\<in>set rows. sw_incoming_port r = n \<and> exclude \<noteq> Some (sw_id r) \<longrightarrow> sw_protocol r \<notin> set (stream_conflicts p))"
  by (auto simp: assert_port_available_def base_rows_def)

lemma stored_protocols: "streams_ok rows \<Longrightarrow> r \<in> set rows \<Longrightarrow> sw_protocol r \<in> {''tcp'', ''udp'', ''tcp+udp''}"
  by (auto simp: streams_ok_def list_all_iff base_rows_def stream_checks_def)

lemma port_of_Inr: "port_of (PInt n) name = Inr m \<longleftrightarrow> m = n \<and> 1 \<le> n \<and> n \<le> 65535"
  by (auto simp: port_of_def)

lemma stream_validate_Inr:
  assumes "stream_validate p rows = Inr u"
  shows "\<exists>protocol incoming exclude. stream_protocol_of (text_or ''protocol'' ''tcp'' p) = Inr protocol \<and>
    ebind (note_none (KeyError ''incoming_port'') (dict_get p ''incoming_port'')) py_int = Inr incoming \<and>
    (if pget ''id'' p = PNone then Inr None else map_sum id Some (py_int (pget ''id'' p))) = Inr exclude \<and>
    assert_port_available rows incoming protocol exclude = Inr ()"
proof -
  from assms obtain protocol incoming port exclude where "stream_protocol_of (text_or ''protocol'' ''tcp'' p) = Inr protocol"
    and n: "ebind (note_none (KeyError ''incoming_port'') (dict_get p ''incoming_port'')) py_int = Inr incoming"
    and port: "port_of (PInt incoming) ''incoming_port'' = Inr port"
    and "(if pget ''id'' p = PNone then Inr None else map_sum id Some (py_int (pget ''id'' p))) = Inr exclude"
    and "assert_port_available rows port protocol exclude = Inr ()"
    unfolding stream_validate_def by (elim ebind_InrE) (rule that, assumption, simp only: ebind.simps, assumption+, simp)
  moreover from port have "port = incoming" by (simp add: port_of_Inr)
  ultimately show ?thesis by blast
qed

lemma validated_stream:
  assumes "stream_values d = Inr v" and "stream_validate (ident @ v) rows = Inr u" and "ident = [] \<or> ident = [(''id'', PInt i)]"
  shows "\<exists>protocol n. stream_protocol_value protocol = stream_protocol_text d \<and> int_or_zero ''incoming_port'' d = Inr n \<and>
    assert_port_available rows n protocol (if ident = [] then None else Some i) = Inr ()"
proof -
  from assms(1) obtain n where n: "int_or_zero ''incoming_port'' d = Inr n" by (auto simp: stream_values_def ebind_Inr_iff)
  with assms(1) obtain rest owner where v: "v = [(''owner_principal_id'', owner), (''protocol'', PStr (stream_protocol_text d)), (''incoming_port'', PInt n)] @ rest"
      and no_id: "dict_get rest ''id'' = None"
    by (auto simp: stream_values_def ebind_Inr_iff)
  have t: "text_or ''protocol'' ''tcp'' (ident @ v) = stream_protocol_text d"
    using assms(3) stream_protocol_text_cases [of d] by (auto simp: text_or_def pget_def dict_get_or_def v py_or_def)
  have i: "dict_get (ident @ v) ''incoming_port'' = Some (PInt n)" using assms(3) by (auto simp: v)
  have e: "pget ''id'' (ident @ v) = (if ident = [] then PNone else PInt i)"
    using assms(3) no_id by (auto simp: pget_def dict_get_or_def v)
  have excl: "(if pget ''id'' (ident @ v) = PNone then Inr None else map_sum id Some (py_int (pget ''id'' (ident @ v)))) =
      (Inr (if ident = [] then None else Some i) :: py_error + int option)" by (simp add: e)
  from stream_validate_Inr [OF assms(2), unfolded t i excl] obtain protocol
    where pr: "stream_protocol_of (stream_protocol_text d) = Inr protocol"
    and free: "assert_port_available rows n protocol (if ident = [] then None else Some i) = Inr ()" by auto
  from pr have "stream_protocol_value protocol = stream_protocol_text d"
    using enum_of_value unfolding stream_protocol_of_def by metis
  then show ?thesis using n free by blast
qed

lemma ports_disjoint_join:
  assumes ok: "streams_ok rows" and free: "assert_port_available (base_rows rows) (sw_incoming_port r) protocol (Some (sw_id r)) = Inr ()"
    and p: "stream_protocol_value protocol = sw_protocol r" and sub: "set rows' \<subseteq> insert r (set rows)" and "ports_disjoint rows"
  shows "ports_disjoint rows'"
proof -
  have r: "set (transport_names (sw_protocol q)) \<inter> set (transport_names (sw_protocol r)) = {}"
    if "q \<in> set rows" "sw_id q \<noteq> sw_id r" "sw_incoming_port q = sw_incoming_port r" for q
    using free that conflicts_transports [OF stored_protocols [OF ok that(1)], of protocol] unfolding port_available_base p by fastforce
  have rows: "set (transport_names (sw_protocol q)) \<inter> set (transport_names (sw_protocol t)) = {}"
    if "t \<in> set rows" "q \<in> set rows" "sw_id q \<noteq> sw_id t" "sw_incoming_port q = sw_incoming_port t" for t q
    using assms(5) that unfolding ports_disjoint_def by simp
  show ?thesis unfolding ports_disjoint_def
  proof (intro ballI impI, elim conjE)
    fix t q assume "t \<in> set rows'" "q \<in> set rows'" and d: "sw_id q \<noteq> sw_id t" and n: "sw_incoming_port q = sw_incoming_port t"
    with sub consider "t = r" "q \<in> set rows" | "q = r" "t \<in> set rows" | "t \<in> set rows" "q \<in> set rows" by auto
    then show "set (transport_names (sw_protocol q)) \<inter> set (transport_names (sw_protocol t)) = {}"
    proof cases
      case 1
      then show ?thesis using r d n by simp
    next
      case 2
      then show ?thesis using r [of t] d n by (simp add: Int_commute)
    next
      case 3
      then show ?thesis using rows d n by simp
    qed
  qed
qed

lemma port_available_fresh: "assert_port_available (base_rows rows) n p None = Inr () \<Longrightarrow> assert_port_available (base_rows rows) n p (Some i) = Inr ()"
  by (auto simp: port_available_base)

lemma create_ports:
  assumes "create_stream now d p rows = Inr (rows', x)" and "streams_ok rows" and "ports_disjoint rows"
  shows "ports_disjoint rows'"
proof -
  from create_stream_facts [OF assms(1,2)] obtain v v' r where v: "stream_values d = Inr v"
      "stream_validate v (base_rows rows) = Inr [(''valid'', PBool True)]" "hooked p ''create'' v rows = Inr v'"
      "assign_stream now v' (blank_stream now (next_id sw_id rows)) = Inr r" "rows' = rows @ [r]" by blast
  have "stream_validate ([] @ v) (base_rows rows) = Inr [(''valid'', PBool True)]" using v(2) by simp
  from validated_stream [OF v(1) this] obtain protocol n
    where pr: "stream_protocol_value protocol = stream_protocol_text d" "int_or_zero ''incoming_port'' d = Inr n"
      "assert_port_available (base_rows rows) n protocol None = Inr ()" by auto
  from stored_stream [OF v(1) _ v(3,4)] have s: "sw_incoming_port r = n" "sw_protocol r = stream_protocol_text d" using pr(2) by simp_all
  show ?thesis
    by (rule ports_disjoint_join [OF assms(2) _ _ _ assms(3), of r protocol])
      (use pr s v(5) port_available_fresh in auto)
qed

lemma write_stream_row:
  assumes "write_stream now p alias i d rows = Inr (rows', r)" and "streams_ok rows"
  shows "\<exists>d' q. hooked p alias (dict_update [(''id'', PInt i)] d) rows = Inr d' \<and> find_stream i rows = Some q \<and>
    assign_stream now d' q = Inr r \<and> set rows' \<subseteq> insert r (set rows) \<and> sw_id r = i"
proof -
  from assms(1) obtain d' q where h: "hooked p alias (dict_update [(''id'', PInt i)] d) rows = Inr d'" and q: "find_stream i rows = Some q"
    and r: "assign_stream now d' q = Inr r" and c: "commit_streams (update_where (\<lambda>q. sw_id q = i) (\<lambda>_. r) rows) = Inr rows'"
    by (auto simp: write_stream_def ebind_Inr_iff)
  from c have "rows' = update_where (\<lambda>q. sw_id q = i) (\<lambda>_. r) rows" by (auto simp: commit_streams_def split: if_splits)
  then have "set rows' \<subseteq> insert r (set rows)" by (auto simp: update_where_def)
  then show ?thesis using h q r find_stream_id [OF q] assign_keeps [OF r] by blast
qed

lemma values_keys: "stream_values d = Inr v \<Longrightarrow> dict_update [(''id'', w)] v = (''id'', w) # v"
  by (auto simp: stream_values_def ebind_Inr_iff dict_update_def dict_set_def)

lemma update_ports:
  assumes "update_stream now (Rid_Int i) d p rows = Inr (rows', x)" and "streams_ok rows" and "ports_disjoint rows"
  shows "ports_disjoint rows'"
proof (cases "rows' = rows")
  case False
  with assms(1) obtain e v r where v: "stream_values e = Inr v" and u: "stream_validate (dict_update [(''id'', PInt i)] v) (base_rows rows) = Inr [(''valid'', PBool True)]"
    and w: "write_stream now p ''update'' i v rows = Inr (rows', r)"
    by (auto simp: update_stream_def ebind_Inr_iff stream_validate_def split: option.splits)
  from write_stream_row [OF w assms(2)] obtain d' q where h: "hooked p ''update'' ((''id'', PInt i) # v) rows = Inr d'"
    and r: "assign_stream now d' q = Inr r" "set rows' \<subseteq> insert r (set rows)" "sw_id r = i"
    unfolding values_keys [OF v] by blast
  from u have "stream_validate ([(''id'', PInt i)] @ v) (base_rows rows) = Inr [(''valid'', PBool True)]" unfolding values_keys [OF v] by simp
  from validated_stream [OF v this, of i] obtain protocol n where pr: "stream_protocol_value protocol = stream_protocol_text e"
      "int_or_zero ''incoming_port'' e = Inr n" "assert_port_available (base_rows rows) n protocol (Some i) = Inr ()" by auto
  from stored_stream [OF v _ h r(1)] have s: "sw_incoming_port r = n" "sw_protocol r = stream_protocol_text e" using pr(2) by auto
  show ?thesis
    by (rule ports_disjoint_join [OF assms(2) _ _ r(2) assms(3), of protocol]) (use pr s r(3) in auto)
qed (use assms in simp)

lemma toggle_ports:
  assumes "toggle_stream now (Rid_Int i) e p rows = Inr (rows', x)" and "streams_ok rows" and "ports_disjoint rows"
  shows "ports_disjoint rows'"
proof (cases "rows' = rows")
  case False
  with assms(1) obtain r where w: "write_stream now p ''update'' i [(''enabled'', PBool e)] rows = Inr (rows', r)"
    by (auto simp: toggle_stream_def ebind_Inr_iff split: sum.splits if_splits)
  from write_stream_row [OF w assms(2)] obtain d' q where h: "hooked p ''update'' [(''id'', PInt i), (''enabled'', PBool e)] rows = Inr d'"
    and q: "find_stream i rows = Some q" and r: "assign_stream now d' q = Inr r" "set rows' \<subseteq> insert r (set rows)" "sw_id r = i"
    by (auto simp: dict_update_def dict_set_def)
  from hooked_payload [OF h] r(1) have s: "sw_incoming_port r = sw_incoming_port q" "sw_protocol r = sw_protocol q"
    by (auto simp: assign_stream_def optional_field_def ebind_Inr_iff dict_set_def)
  from find_stream_id [OF q] have i: "sw_id q = i" "q \<in> set rows" by simp_all
  from stored_protocols [OF assms(2) i(2)] obtain protocol where pr: "stream_protocol_value protocol = sw_protocol q"
    by (metis insertE singletonD stream_protocol_value.simps)
  have "sw_protocol t \<notin> set (stream_conflicts protocol)" if "t \<in> set rows" "sw_incoming_port t = sw_incoming_port q" "sw_id t \<noteq> i" for t
  proof -
    from assms(3) that i have "set (transport_names (sw_protocol t)) \<inter> set (transport_names (sw_protocol q)) = {}"
      unfolding ports_disjoint_def by simp
    then show ?thesis using conflicts_transports [OF stored_protocols [OF assms(2) that(1)], of protocol] pr by simp
  qed
  then show ?thesis
    by (intro ports_disjoint_join [OF assms(2) _ _ r(2) assms(3), of protocol]) (use pr s r(3) in \<open>auto simp: port_available_base\<close>)
qed (use assms in simp)

lemma delete_ports:
  assumes "delete_stream now (Rid_Int i) p rows = Inr (rows', b)" and "ports_disjoint rows"
  shows "ports_disjoint rows'"
proof -
  from assms(1) have "set rows' \<subseteq> set rows" by (auto simp: delete_stream_def ebind_Inr_iff split: option.splits)
  then show ?thesis using assms(2) unfolding ports_disjoint_def by blast
qed

fun replaces :: "compat_call \<Rightarrow> bool" where
  "replaces (Replace rid d) = True"
| "replaces _ = False"

lemma call_ports:
  assumes "streams_ok rows" and "ports_disjoint rows" and "\<not> replaces call"
  shows "streams_ok (run_call (stream_service now) ''streams'' ao p call rows) \<and>
    ports_disjoint (run_call (stream_service now) ''streams'' ao p call rows)"
proof (cases "run_call (stream_service now) ''streams'' ao p call rows = rows")
  case False
  have "streams_ok (run_call (stream_service now) ''streams'' ao p call rows)"
    using streams_api.member_call [OF assms(1) False] by blast
  moreover have "ports_disjoint (run_call (stream_service now) ''streams'' ao p call rows)"
  proof (cases call)
    case (Create d)
    from create_changes [OF False [unfolded Create run_call.simps]]
    have "\<exists>x. create_stream now d p rows = Inr (run_call (stream_service now) ''streams'' ao p call rows, x)"
      by (auto simp: Create service_create_def is_letsencrypt_def raised_Inr)
    then show ?thesis using create_ports assms by blast
  next
    case (Update rid d)
    from update_changes [OF False [unfolded Update run_call.simps]] obtain j d' r
      where "update_stream now (Rid_Int j) d' p rows = Inr (run_call (stream_service now) ''streams'' ao p call rows, r)"
      by (auto simp: Update dest!: resource_id_of_int)
    then show ?thesis by (rule update_ports [OF _ assms(1,2)])
  next
    case (Delete rid)
    from delete_changes [OF False [unfolded Delete run_call.simps]] obtain j r
      where "delete_stream now (Rid_Int j) p rows = Inr (run_call (stream_service now) ''streams'' ao p call rows, r)"
      by (auto simp: Delete dest!: resource_id_of_int)
    then show ?thesis by (rule delete_ports [OF _ assms(2)])
  next
    case (Toggle e rid)
    from toggle_changes [OF False [unfolded Toggle run_call.simps]] obtain j r
      where "toggle_stream now (Rid_Int j) e p rows = Inr (run_call (stream_service now) ''streams'' ao p call rows, r)"
      by (auto simp: Toggle dest!: resource_id_of_int)
    then show ?thesis by (rule toggle_ports [OF _ assms(1,2)])
  qed (use assms(3) in simp)
  ultimately show ?thesis ..
qed (use assms in simp)

lemma calls_ports:
  "streams_ok rows \<Longrightarrow> ports_disjoint rows \<Longrightarrow> list_all (\<lambda>c. \<not> replaces c) calls \<Longrightarrow>
   ports_disjoint (fold (run_call (stream_service now) ''streams'' ao p) calls rows)"
proof (induction calls arbitrary: rows)
  case (Cons call calls)
  then show ?case using call_ports [of rows call now ao p] by simp
qed simp

text \<open>C7. The compatibility API keeps the ports of the streams apart: whatever sequence of creations, updates, deletions and
  toggles a principal sends, no two streams come to share an incoming port and a transport. (A replacement, the PUT of the
  API, is left out: it skips the check, see \<open>replace_breaks_ports\<close>.)\<close>

theorem compat_ports_disjoint:
  assumes "streams_ok rows" and "ports_disjoint rows" and "list_all (\<lambda>c. \<not> replaces c) calls"
  shows "ports_disjoint (fold (run_call (stream_service now) ''streams'' admin_only p) calls rows)"
  by (rule calls_ports [OF assms])

definition wire_row :: "int \<Rightarrow> int \<Rightarrow> string \<Rightarrow> wire_stream" where
  "wire_row i port protocol = \<lparr>sw_id = i, sw_owner_principal_id = Some 7, sw_protocol = protocol, sw_incoming_port = port,
     sw_target_kind = ''dns'', sw_target = ''ns'', sw_target_port = 53, sw_certificate_id = None, sw_enabled = True,
     sw_metadata = [], ws_created_at = ''t0'', ws_updated_at = ''t0''\<rparr>"

definition wire_rows :: "wire_stream list" where
  "wire_rows = [wire_row 1 9000 ''tcp+udp'', wire_row 2 9001 ''tcp'']"

definition wire_payload :: "int \<Rightarrow> payload" where
  "wire_payload port = [(''incoming_port'', PInt port), (''forwarding_host'', PStr ''ns''), (''forwarding_port'', PInt 80),
     (''target_kind'', PStr ''dns''), (''tcp_forwarding'', PBool True)]"

definition wire_user :: "bool \<Rightarrow> security_principal" where
  "wire_user admin = sample_member\<lparr>sp_is_admin := admin, sp_permissions := [(''streams'', PStr ''manage'')]\<rparr>"

lemma wire_rows_ok: "streams_ok wire_rows" "ports_disjoint wire_rows"
  by code_simp+

theorem hidden_streams_untouched_witness:
  "fold (run_call (stream_service ''t1'') ''streams'' False (wire_user False)) [Delete ''1'', Create (wire_payload 9002)] wire_rows \<noteq> wire_rows \<and>
   get_stream ''t1'' (Rid_Int 1) (fold (run_call (stream_service ''t1'') ''streams'' False (wire_user False))
      [Delete ''1'', Create (wire_payload 9002)] wire_rows) = get_stream ''t1'' (Rid_Int 1) wire_rows"
proof -
  define x where "x = (case get_stream ''t1'' (Rid_Int 1) wire_rows of Inr (Some x) \<Rightarrow> x | _ \<Rightarrow> [])"
  have g: "get_stream ''t1'' (Rid_Int 1) wire_rows = Inr (Some x)" unfolding x_def by code_simp
  have v: "\<not> is_visible x (wire_user False)" unfolding x_def by code_simp
  have c: "fold (run_call (stream_service ''t1'') ''streams'' False (wire_user False)) [Delete ''1'', Create (wire_payload 9002)] wire_rows \<noteq> wire_rows"
    by code_simp
  from hidden_streams_untouched [OF wire_rows_ok(1) g v] c show ?thesis unfolding g by blast
qed

theorem compat_ports_disjoint_witness:
  "length (fold (run_call (stream_service ''t1'') ''streams'' False (wire_user True)) [Create (wire_payload 9002), Toggle False ''1'', Delete ''2''] wire_rows) = 2 \<and>
   ports_disjoint (fold (run_call (stream_service ''t1'') ''streams'' False (wire_user True)) [Create (wire_payload 9002), Toggle False ''1'', Delete ''2''] wire_rows)"
proof
  show "length (fold (run_call (stream_service ''t1'') ''streams'' False (wire_user True)) [Create (wire_payload 9002), Toggle False ''1'', Delete ''2''] wire_rows) = 2"
    by code_simp
  show "ports_disjoint (fold (run_call (stream_service ''t1'') ''streams'' False (wire_user True)) [Create (wire_payload 9002), Toggle False ''1'', Delete ''2''] wire_rows)"
    by (rule compat_ports_disjoint [OF wire_rows_ok]) simp
qed

section \<open>What the API gets wrong\<close>

text \<open>A replacement is stored without the port check that an update and a creation make.\<close>

theorem replace_breaks_ports:
  "assert_port_available (base_rows wire_rows) 9000 Stream_Tcp (Some 2) \<noteq> Inr () \<and>
   \<not> ports_disjoint (run_call (stream_service ''t1'') ''streams'' False (wire_user True) (Replace ''2'' (wire_payload 9000)) wire_rows)"
proof
  show "assert_port_available (base_rows wire_rows) 9000 Stream_Tcp (Some 2) \<noteq> Inr ()"
    by (simp add: port_available_base wire_rows_def wire_row_def stream_conflicts_def)
  show "\<not> ports_disjoint (run_call (stream_service ''t1'') ''streams'' False (wire_user True) (Replace ''2'' (wire_payload 9000)) wire_rows)"
    by code_simp
qed

text \<open>The projection of a stream has no owner: its creator may not see it, and an update clears the owner.\<close>

theorem creator_loses_stream:
  "(let (rows, created) = create_handler (stream_service ''t1'') ''streams'' False (wire_payload 9002) (wire_user False) wire_rows in
    map_option sw_owner_principal_id (find_stream 3 rows) = Some (Some 7) \<and>
    map_sum id (pget ''id'') created = Inr (PInt 3) \<and>
    get_handler (stream_service ''t2'') ''streams'' False ''3'' (wire_user False) rows = Inl (Refused 404))"
  by code_simp

theorem update_drops_owner:
  "map_option sw_owner_principal_id (find_stream 2
     (run_call (stream_service ''t1'') ''streams'' False (wire_user True) (Update ''2'' [(''enabled'', PBool False)]) wire_rows)) = Some None"
  by code_simp

section \<open>A stream reads back as it was written\<close>

definition wire_keys :: "string list" where
  "wire_keys = [''id'', ''created_at'', ''updated_at'', ''created_on'', ''modified_on'', ''incoming_port'', ''forwarding_host'', ''forwarding_port'',
     ''target_kind'', ''tcp_forwarding'', ''udp_forwarding'', ''enabled'']"

definition stream_part :: "wire_stream \<Rightarrow> payload" where
  "stream_part r =
     [(''incoming_port'', PInt (sw_incoming_port r)), (''forwarding_host'', PStr (sw_target r)), (''forwarding_port'', PInt (sw_target_port r)),
      (''target_kind'', PStr (sw_target_kind r)), (''tcp_forwarding'', PBool (sw_protocol r \<in> {''tcp'', ''tcp+udp''})),
      (''udp_forwarding'', PBool (sw_protocol r \<in> {''udp'', ''tcp+udp''})), (''enabled'', PBool (sw_enabled r))]"

lemma project_stream:
  assumes "dict_or_empty (pget ''compat'' (sw_metadata r)) = Inr c"
  shows "project_row now ''streams'' (stream_columns r) = Inr (dict_update
     (dict_set ''modified_on'' (PStr (ws_updated_at r)) (dict_setdefault ''created_on'' (PStr (ws_created_at r)) (dict_set ''id'' (PInt (sw_id r)) c)))
     (stream_part r))"
proof -
  have meta: "dict_or_empty (PDict (sw_metadata r)) = Inr (sw_metadata r)" by (simp add: dict_or_empty_def)
  have host: "dict_get wire_host_kind ''streams'' = None" by code_simp
  have fields: "stream_fields (stream_columns r) = Inr (stream_part r)"
    by (simp add: stream_fields_def stream_columns_def dict_at_def stream_part_def)
  have cols: "pget ''metadata_json'' (stream_columns r) = PDict (sw_metadata r)" "dict_at (stream_columns r) ''id'' = Inr (PInt (sw_id r))"
    "pget ''created_at'' (stream_columns r) = PStr (ws_created_at r)"
    "dict_get_or (stream_columns r) ''updated_at'' v = PStr (ws_updated_at r)" for v
    by (simp_all add: stream_columns_def pget_def dict_get_or_def dict_at_def)
  show ?thesis by (simp add: project_row_def cols meta assms host fields wire_iso_def Let_def)
qed

lemma wire_fields:
  assumes "project_row now ''streams'' (stream_columns r) = Inr x" and "sw_metadata r = [(''compat'', PDict c)]"
  shows "dict_get x ''id'' = Some (PInt (sw_id r)) \<and> (\<forall>k v. dict_get (stream_part r) k = Some v \<longrightarrow> dict_get x k = Some v) \<and>
    (\<forall>k. k \<notin> set wire_keys \<longrightarrow> dict_get x k = dict_get c k)"
proof -
  have compat_eq: "dict_or_empty (pget ''compat'' (sw_metadata r)) = Inr c"
    using assms(2) by (simp add: pget_def dict_get_or_def dict_or_empty_def)
  from assms(1) have x: "x = dict_update (dict_set ''modified_on'' (PStr (ws_updated_at r))
      (dict_setdefault ''created_on'' (PStr (ws_created_at r)) (dict_set ''id'' (PInt (sw_id r)) c))) (stream_part r)"
    unfolding project_stream [OF compat_eq] by simp
  have ok: "dict_ok (stream_part r)" by (simp add: stream_part_def dict_ok_def)
  show ?thesis unfolding x dict_get_update [OF ok] by (auto simp: stream_part_def wire_keys_def split: option.splits)
qed

lemma compat_values_get: "k \<notin> set wire_keys \<Longrightarrow> dict_get (compat_values d) k = dict_get d k"
  unfolding compat_values_def wire_keys_def by (induction d) auto

text \<open>C11. A stream that is created through the compatibility API reads back under its new id as the creation answered, now
  and later: the ports as numbers, the target, the transports (TCP when neither is asked for), the flag, and every other field
  of the payload as it was sent.\<close>

theorem compat_stream_reads_back:
  assumes "create_stream now d p rows = Inr (rows', x)" and "streams_ok rows"
  shows "\<exists>i incoming port. i \<notin> sw_id ` set rows \<and> get_stream later (Rid_Int i) rows' = Inr (Some x) \<and> dict_get x ''id'' = Some (PInt i) \<and>
    int_or_zero ''incoming_port'' d = Inr incoming \<and> dict_get x ''incoming_port'' = Some (PInt incoming) \<and>
    int_or_zero ''forwarding_port'' d = Inr port \<and> dict_get x ''forwarding_port'' = Some (PInt port) \<and>
    dict_get x ''forwarding_host'' = Some (PStr (text_or ''forwarding_host'' [] d)) \<and>
    dict_get x ''tcp_forwarding'' = Some (PBool (truthy (pget ''tcp_forwarding'' d) \<or> \<not> truthy (pget ''udp_forwarding'' d))) \<and>
    dict_get x ''udp_forwarding'' = Some (PBool (truthy (pget ''udp_forwarding'' d))) \<and>
    dict_get x ''enabled'' = Some (PBool (truthy (dict_get_or d ''enabled'' (PBool True)))) \<and>
    (\<forall>k. k \<notin> set wire_keys \<longrightarrow> dict_get x k = dict_get d k)"
proof -
  from create_stream_facts [OF assms] obtain v v' r where v: "stream_values d = Inr v" "hooked p ''create'' v rows = Inr v'"
      "assign_stream now v' (blank_stream now (next_id sw_id rows)) = Inr r" and find: "find_stream (sw_id r) rows' = Some r"
    and fresh: "sw_id r \<notin> sw_id ` set rows" and x: "project_row now ''streams'' (stream_columns r) = Inr x" by blast
  from stored_stream [OF v(1) _ v(2,3)] have s: "int_or_zero ''incoming_port'' d = Inr (sw_incoming_port r)"
      "int_or_zero ''forwarding_port'' d = Inr (sw_target_port r)" "sw_target r = text_or ''forwarding_host'' [] d"
      "sw_enabled r = truthy (dict_get_or d ''enabled'' (PBool True))" "sw_protocol r = stream_protocol_text d"
      "sw_metadata r = [(''compat'', PDict (compat_values d))]" by blast+
  have later: "project_row later ''streams'' (stream_columns r) = Inr x"
    using x s(6) by (simp add: project_stream [where c = "compat_values d"] pget_def dict_get_or_def dict_or_empty_def)
  have part: "dict_get x k = Some w" if "dict_get (stream_part r) k = Some w" for k w using wire_fields [OF x s(6)] that by blast
  have protocol: "stream_protocol_text d \<in> {''tcp'', ''tcp+udp''} \<longleftrightarrow> truthy (pget ''tcp_forwarding'' d) \<or> \<not> truthy (pget ''udp_forwarding'' d)"
    "stream_protocol_text d \<in> {''udp'', ''tcp+udp''} \<longleftrightarrow> truthy (pget ''udp_forwarding'' d)"
    by (simp_all add: stream_protocol_text_def Let_def)
  have "get_stream later (Rid_Int (sw_id r)) rows' = Inr (Some x)" by (simp add: get_stream_find find later)
  moreover have "dict_get x ''incoming_port'' = Some (PInt (sw_incoming_port r))" "dict_get x ''forwarding_port'' = Some (PInt (sw_target_port r))"
    "dict_get x ''forwarding_host'' = Some (PStr (sw_target r))" "dict_get x ''enabled'' = Some (PBool (sw_enabled r))"
    "dict_get x ''tcp_forwarding'' = Some (PBool (sw_protocol r \<in> {''tcp'', ''tcp+udp''}))"
    "dict_get x ''udp_forwarding'' = Some (PBool (sw_protocol r \<in> {''udp'', ''tcp+udp''}))"
    by (intro part, simp add: stream_part_def)+
  moreover have "dict_get x ''id'' = Some (PInt (sw_id r)) \<and> (\<forall>k. k \<notin> set wire_keys \<longrightarrow> dict_get x k = dict_get d k)"
    using wire_fields [OF x s(6)] compat_values_get by auto
  ultimately show ?thesis using s fresh protocol by (intro exI [of _ "sw_id r"] exI [of _ "sw_incoming_port r"] exI [of _ "sw_target_port r"]) simp
qed

theorem compat_stream_reads_back_witness:
  "\<exists>rows' x i. create_stream ''t1'' (wire_payload 9002) (wire_user False) wire_rows = Inr (rows', x) \<and>
     get_stream ''t2'' (Rid_Int i) rows' = Inr (Some x) \<and> dict_get x ''incoming_port'' = Some (PInt 9002)"
proof -
  define c where "c = (case create_stream ''t1'' (wire_payload 9002) (wire_user False) wire_rows of Inr c \<Rightarrow> c | Inl _ \<Rightarrow> ([], []))"
  have run: "create_stream ''t1'' (wire_payload 9002) (wire_user False) wire_rows = Inr (fst c, snd c)" unfolding c_def by code_simp
  have "int_or_zero ''incoming_port'' (wire_payload 9002) = Inr 9002" by code_simp
  with compat_stream_reads_back [OF run wire_rows_ok(1), of "''t2''"] run show ?thesis
    by (intro exI [of _ "fst c"] exI [of _ "snd c"]) auto
qed

end
