(* ===== verification/Certificates.thy ===== *)
theory Certificates
  imports Cert_Store Resources Access_Lists
begin

text \<open>
  Certificates as resources: the table of \<open>tables/certificates.py\<close> (aggregates, hooks, the operations of \<open>CertificateStore\<close>),
  its part of \<open>TableResources\<close>, and the workflows of \<open>certificates/table_manager.py\<close>, which keep the table and the material
  store of \<open>Cert_Store\<close> together: upload, request, renewal, download and deletion, each with its compensation. The issuer,
  the validator and the clock are parameters; the asynchronous calls run in the order of the code.
\<close>

section \<open>The table\<close>

record cert_row =
  ct_id :: int
  ct_owner_principal_id :: pyval
  ct_nice_name :: string
  ct_provider :: string
  ct_challenge_type :: pyval
  ct_key_type :: string
  ct_material_ref :: pyval
  ct_expires_at :: pyval
  ct_status :: string
  ct_metadata :: payload
  ct_created_at :: string
  ct_updated_at :: string

record cert_db =
  cdb_rows :: "cert_row list"
  cdb_domains :: "(int \<times> string) list"
  cdb_challenges :: "(int \<times> string) list"

definition certificate_known :: "string set" where
  "certificate_known = set [''id'', ''owner_principal_id'', ''owner_user_id'', ''nice_name'', ''provider'', ''challenge_type'', ''key_type'',
     ''material_ref'', ''expires_at'', ''status'', ''domain_names'', ''created_on'', ''modified_on'', ''created_at'', ''updated_at'']"

definition cert_values :: "payload \<Rightarrow> py_error + payload" where
  "cert_values d =
     ebind (if truthy (pget ''challenge_type'' d) then Inr (pget ''challenge_type'' d)
            else py_get ''challenge_type'' PNone (py_or (pget ''meta'' d) (PDict []))) (\<lambda>challenge.
       Inr [(''owner_principal_id'', pget2 ''owner_principal_id'' ''owner_user_id'' d),
         (''nice_name'', PStr (text_or ''nice_name'' ''Certificate'' d)), (''provider'', PStr (text_or ''provider'' ''custom'' d)),
         (''challenge_type'', challenge), (''key_type'', PStr (text_or ''key_type'' ''rsa'' d)),
         (''material_ref'', pget ''material_ref'' d), (''expires_at'', pget ''expires_at'' d),
         (''status'', PStr (text_or ''status'' ''pending'' d)),
         (''metadata_json'', PDict (extension_metadata d certificate_known))])"

definition cert_domains :: "int \<Rightarrow> cert_db \<Rightarrow> string list" where
  "cert_domains i db = map snd (filter (\<lambda>p. fst p = i) (cdb_domains db))"

definition cert_project :: "cert_db \<Rightarrow> cert_row \<Rightarrow> payload" where
  "cert_project db row =
     dict_update (extensions_of (ct_metadata row))
       [(''id'', PInt (ct_id row)), (''owner_principal_id'', ct_owner_principal_id row), (''owner_user_id'', ct_owner_principal_id row),
        (''nice_name'', PStr (ct_nice_name row)), (''provider'', PStr (ct_provider row)), (''challenge_type'', ct_challenge_type row),
        (''key_type'', PStr (ct_key_type row)), (''material_ref'', ct_material_ref row), (''expires_at'', ct_expires_at row),
        (''status'', PStr (ct_status row)), (''domain_names'', PList (map PStr (cert_domains (ct_id row) db))),
        (''created_on'', PStr (ct_created_at row)), (''modified_on'', PStr (ct_updated_at row))]"

definition find_cert :: "int \<Rightarrow> cert_db \<Rightarrow> cert_row option" where
  "find_cert i db = find (\<lambda>r. ct_id r = i) (cdb_rows db)"

text \<open>The hooks around the handler: the aggregate and the root values, the domains, what a deletion takes along. A name
  that a certificate has twice violates the constraint of the domain table.\<close>

definition cert_prepare :: "string \<Rightarrow> payload \<Rightarrow> cert_db \<Rightarrow> py_error + payload \<times> payload" where
  "cert_prepare alias d db =
     ebind (if alias = ''update''
            then ebind (ebind (dict_at d ''id'') py_int) (\<lambda>i.
              Inr (case find_cert i db of None \<Rightarrow> d | Some row \<Rightarrow> dict_update (cert_project db row) d))
            else Inr d) (\<lambda>d.
     ebind (cert_values d) (\<lambda>root.
     if pget ''id'' d = PNone then Inr (d, root)
     else ebind (py_int (pget ''id'' d)) (\<lambda>i. Inr (d, root @ [(''id'', PInt i)]))))"

definition replace_domains :: "int \<Rightarrow> payload \<Rightarrow> cert_db \<Rightarrow> py_error + cert_db" where
  "replace_domains i d db =
     ebind (py_iter (py_or (pget ''domain_names'' d) (PList []))) (\<lambda>names.
     let new = map (\<lambda>v. (i, casefold (py_str v))) names in
     if distinct new then Inr (db\<lparr>cdb_domains := filter (\<lambda>p. fst p \<noteq> i) (cdb_domains db) @ new\<rparr>)
     else Inl (RuntimeError ''IntegrityError''))"

definition assign_cert :: "string \<Rightarrow> payload \<Rightarrow> cert_row \<Rightarrow> py_error + cert_row" where
  "assign_cert now root r =
     ebind (optional_field field_str (ct_nice_name r) ''nice_name'' root) (\<lambda>name.
     ebind (optional_field field_str (ct_provider r) ''provider'' root) (\<lambda>provider.
     ebind (optional_field field_str (ct_key_type r) ''key_type'' root) (\<lambda>key_type.
     ebind (optional_field field_str (ct_status r) ''status'' root) (\<lambda>status.
     ebind (optional_field field_dict (ct_metadata r) ''metadata_json'' root) (\<lambda>metadata.
       Inr \<lparr>ct_id = ct_id r, ct_owner_principal_id = dict_get_or root ''owner_principal_id'' (ct_owner_principal_id r),
         ct_nice_name = name, ct_provider = provider, ct_challenge_type = dict_get_or root ''challenge_type'' (ct_challenge_type r),
         ct_key_type = key_type, ct_material_ref = dict_get_or root ''material_ref'' (ct_material_ref r),
         ct_expires_at = dict_get_or root ''expires_at'' (ct_expires_at r), ct_status = status, ct_metadata = metadata,
         ct_created_at = ct_created_at r, ct_updated_at = now\<rparr>)))))"

definition blank_cert :: "string \<Rightarrow> int \<Rightarrow> cert_row" where
  "blank_cert now i = \<lparr>ct_id = i, ct_owner_principal_id = PNone, ct_nice_name = [], ct_provider = [], ct_challenge_type = PNone,
     ct_key_type = ''rsa'', ct_material_ref = PNone, ct_expires_at = PNone, ct_status = ''pending'', ct_metadata = [],
     ct_created_at = now, ct_updated_at = now\<rparr>"

definition cert_columns :: "cert_row \<Rightarrow> payload" where
  "cert_columns r = [(''id'', PInt (ct_id r)), (''owner_principal_id'', ct_owner_principal_id r), (''metadata_json'', PDict (ct_metadata r))]"

definition cert_lookup :: "cert_db \<Rightarrow> row_lookup" where
  "cert_lookup db table i = (if table = ''certificates'' then map_option cert_columns (find_cert i db) else None)"

definition cert_context :: "caller option \<Rightarrow> string \<Rightarrow> payload \<Rightarrow> op_context" where
  "cert_context actor alias d =
     \<lparr>cx_op = alias, cx_alias = alias, cx_target = alias, cx_table = ''certificates'', cx_principal = actor, cx_actor = None,
      cx_payload = PDict d, cx_result = PNone, cx_temp = [], cx_obj_id = PNone, cx_target_principal_id = PNone,
      cx_attribution = PNone\<rparr>"

definition cert_hooked :: "caller option \<Rightarrow> string \<Rightarrow> payload \<Rightarrow> cert_db \<Rightarrow> py_error + payload" where
  "cert_hooked actor alias d db =
     ebind (pre_handler (cert_lookup db) id (cert_context actor alias d)) (\<lambda>cx. field_dict (cx_payload cx))"

section \<open>Certificates of the compatibility service\<close>

definition cert_get :: "int \<Rightarrow> cert_db \<Rightarrow> payload option" where
  "cert_get i db = map_option (\<lambda>r. clean_aggregate ''certificates'' (cert_project db r)) (find_cert i db)"

definition cert_create :: "string \<Rightarrow> payload \<Rightarrow> caller option \<Rightarrow> cert_db \<Rightarrow> py_error + cert_db \<times> payload" where
  "cert_create now d actor db =
     ebind (cert_hooked actor ''create'' d db) (\<lambda>d.
     ebind (cert_prepare ''create'' d db) (\<lambda>(aggregate, root).
     let i = next_id ct_id (cdb_rows db) in
     ebind (assign_cert now root (blank_cert now i)) (\<lambda>row.
     ebind (replace_domains i aggregate (db\<lparr>cdb_rows := cdb_rows db @ [row]\<rparr>)) (\<lambda>db.
       Inr (db, clean_aggregate ''certificates'' (cert_project db row))))))"

definition cert_write :: "string \<Rightarrow> string \<Rightarrow> int \<Rightarrow> payload \<Rightarrow> caller option \<Rightarrow> cert_db \<Rightarrow> py_error + cert_db" where
  "cert_write now alias i d actor db =
     ebind (cert_hooked actor alias d db) (\<lambda>d.
     ebind (cert_prepare alias d db) (\<lambda>(aggregate, root).
     ebind (note_none (LookupError ''not found'') (find_cert i db)) (\<lambda>r.
     ebind (assign_cert now root r) (\<lambda>row.
       replace_domains i aggregate (db\<lparr>cdb_rows := update_where (\<lambda>q. ct_id q = i) (\<lambda>_. row) (cdb_rows db)\<rparr>)))))"

definition cert_update :: "string \<Rightarrow> int \<Rightarrow> payload \<Rightarrow> caller option \<Rightarrow> cert_db \<Rightarrow> py_error + cert_db \<times> payload option" where
  "cert_update now i d actor db =
     (case cert_get i db of
        None \<Rightarrow> Inr (db, None)
      | Some current \<Rightarrow>
          let candidate = dict_update [(''id'', PInt i)] (dict_update current d) in
          ebind (ebind (dict_at candidate ''id'') py_int) (\<lambda>j.
          ebind (cert_write now ''update'' j candidate actor db) (\<lambda>db. Inr (db, cert_get i db))))"

definition cert_replace :: "string \<Rightarrow> int \<Rightarrow> payload \<Rightarrow> caller option \<Rightarrow> cert_db \<Rightarrow> py_error + cert_db \<times> payload option" where
  "cert_replace now i d actor db =
     (case cert_get i db of
        None \<Rightarrow> Inr (db, None)
      | Some _ \<Rightarrow>
          ebind (cert_write now ''replace'' i (dict_set ''id'' (PInt i) d) actor db) (\<lambda>db. Inr (db, cert_get i db)))"

definition cert_delete :: "int \<Rightarrow> caller option \<Rightarrow> cert_db \<Rightarrow> py_error + cert_db \<times> bool" where
  "cert_delete i actor db =
     (case cert_get i db of
        None \<Rightarrow> Inr (db, False)
      | Some _ \<Rightarrow>
          ebind (cert_hooked actor ''delete'' [(''id'', PInt i)] db) (\<lambda>_.
            Inr (db\<lparr>cdb_rows := filter (\<lambda>r. ct_id r \<noteq> i) (cdb_rows db), cdb_domains := filter (\<lambda>p. fst p \<noteq> i) (cdb_domains db),
                   cdb_challenges := filter (\<lambda>p. fst p \<noteq> i) (cdb_challenges db)\<rparr>, True)))"

section \<open>The workflows\<close>

text \<open>What the manager asks of the compatibility service, and its state: the tables behind it, the material store and the
  temporary files of DNS credentials.\<close>

record 'r cert_ops =
  co_get :: "int \<Rightarrow> 'r \<Rightarrow> py_error + payload option"
  co_create :: "payload \<Rightarrow> caller option \<Rightarrow> 'r \<Rightarrow> py_error + 'r \<times> payload"
  co_update :: "int \<Rightarrow> payload \<Rightarrow> caller option \<Rightarrow> 'r \<Rightarrow> py_error + 'r \<times> payload option"
  co_delete :: "int \<Rightarrow> caller option \<Rightarrow> 'r \<Rightarrow> py_error + 'r \<times> bool"
  co_list :: "string \<Rightarrow> 'r \<Rightarrow> py_error + payload list"

record 'r vault =
  va_table :: 'r
  va_disk :: disk
  va_temp :: "(string, string) dict"

record cert_request =
  rq_nice_name :: string
  rq_domain_names :: "string list"
  rq_email :: string
  rq_challenge_type :: challenge_type
  rq_key_type :: string
  rq_provider :: "string option"

record manager =
  mg_validate :: "cert_bundle \<Rightarrow> py_error + cert_info"
  mg_issue :: "(cert_request \<Rightarrow> string option \<Rightarrow> py_error + issued_certificate) option"
  mg_faults :: faults
  mg_isoformat :: "int \<Rightarrow> string"
  mg_fromisoformat :: "string \<Rightarrow> py_error + int"
  mg_now :: int

definition on_table :: "('r \<Rightarrow> py_error + 'r \<times> 'a) \<Rightarrow> ('r vault, 'a) io" where
  "on_table f v = (case f (va_table v) of Inl e \<Rightarrow> (v, Inl e) | Inr (t, x) \<Rightarrow> (v\<lparr>va_table := t\<rparr>, Inr x))"

definition reading :: "('r \<Rightarrow> py_error + 'a) \<Rightarrow> ('r vault, 'a) io" where
  "reading f v = (v, f (va_table v))"

definition on_disk :: "(disk, 'a) io \<Rightarrow> ('r vault, 'a) io" where
  "on_disk m v = (case m (va_disk v) of (dk, r) \<Rightarrow> (v\<lparr>va_disk := dk\<rparr>, r))"

definition io_ignore :: "('s, 'a) io \<Rightarrow> ('s, unit) io" where
  "io_ignore m = io_bind m (\<lambda>_. io_return ())"

definition missing_certificate :: "int \<Rightarrow> py_error" where
  "missing_certificate i = OSError (''certificate '' @ int_str i @ '' was not found'')"

definition or_missing :: "int \<Rightarrow> payload option \<Rightarrow> ('s, payload) io" where
  "or_missing i x = io_lift (note_none (missing_certificate i) x)"

definition activate_certificate :: "'r cert_ops \<Rightarrow> int \<Rightarrow> caller option \<Rightarrow> ('r vault, payload) io" where
  "activate_certificate co i actor = io_bind (on_table (co_update co i [(''status'', PStr ''active'')] actor)) (or_missing i)"

text \<open>The material and the activation of a record that was just created, or neither and no record.\<close>

definition publish_new :: "manager \<Rightarrow> 'r cert_ops \<Rightarrow> string \<Rightarrow> cert_bundle \<Rightarrow> payload \<Rightarrow> caller option \<Rightarrow> ('r vault, payload) io" where
  "publish_new mg co uuid b rec actor =
     io_bind (io_lift (ebind (dict_at rec ''id'') py_int)) (\<lambda>i.
       io_compensate
         (io_bind (on_disk (store_put (mg_faults mg) uuid i b)) (\<lambda>_. activate_certificate co i actor))
         (io_bind (on_disk (store_delete (mg_faults mg) i)) (\<lambda>_. io_ignore (on_table (co_delete co i None)))))"

definition upload_payload :: "manager \<Rightarrow> cert_info \<Rightarrow> string \<Rightarrow> bool \<Rightarrow> int option \<Rightarrow> payload \<Rightarrow> payload" where
  "upload_payload mg info nice_name created owner meta =
     [(''nice_name'', PStr (if strip nice_name \<noteq> [] then strip nice_name else ci_subject info)), (''provider'', PStr ''other''),
      (''domain_names'', PList (map PStr (ci_domain_names info))), (''expires_at'', PInt (ci_not_after info)),
      (''expires_on'', PStr (mg_isoformat mg (ci_not_after info))), (''status'', PStr (if created then ''pending'' else ''active'')),
      (''owner_principal_id'', opt_val owner),
      (''meta'', PDict (dict_update meta [(''subject'', PStr (ci_subject info)), (''issuer'', PStr (ci_issuer info)),
         (''serial'', PStr (ci_serial info))]))]"

definition upload_certificate :: "manager \<Rightarrow> 'r cert_ops \<Rightarrow> string \<Rightarrow> cert_bundle \<Rightarrow> string \<Rightarrow> int option \<Rightarrow> caller option \<Rightarrow>
    int option \<Rightarrow> payload \<Rightarrow> ('r vault, payload) io" where
  "upload_certificate mg co uuid b nice_name certificate_id actor owner meta =
     io_bind (io_lift (mg_validate mg b)) (\<lambda>info.
     let d = upload_payload mg info nice_name (certificate_id = None) owner meta in
     case certificate_id of
       None \<Rightarrow> io_bind (on_table (co_create co d actor)) (\<lambda>rec. publish_new mg co uuid b rec actor)
     | Some i \<Rightarrow>
         io_bind (reading (co_get co i)) (\<lambda>previous.
         io_bind (or_missing i previous) (\<lambda>previous.
         io_bind (on_table (co_update co i d actor)) (\<lambda>rec.
         io_bind (or_missing i rec) (\<lambda>rec.
         io_compensate
           (io_bind (on_disk (store_put (mg_faults mg) uuid i b)) (\<lambda>_. io_return rec))
           (io_ignore (on_table (co_update co i previous None))))))))"

definition issued_bundle :: "issued_certificate \<Rightarrow> cert_bundle" where
  "issued_bundle c = \<lparr>bd_certificate = iss_certificate c, bd_private_key = iss_private_key c, bd_intermediate_certificate = iss_chain c\<rparr>"

definition run_issuer :: "manager \<Rightarrow> cert_request \<Rightarrow> string option \<Rightarrow> ('s, issued_certificate) io" where
  "run_issuer mg rq credentials_file =
     (case mg_issue mg of None \<Rightarrow> io_raise (RuntimeError ''ACME issuer is not configured'') | Some issue \<Rightarrow> io_lift (issue rq credentials_file))"

definition text_or_none :: "string option \<Rightarrow> pyval" where
  "text_or_none x = (case x of None \<Rightarrow> PNone | Some s \<Rightarrow> PStr s)"

definition request_payload :: "manager \<Rightarrow> cert_request \<Rightarrow> issued_certificate \<Rightarrow> int option \<Rightarrow> payload \<Rightarrow> payload" where
  "request_payload mg rq issued owner meta =
     (let challenge = PStr (challenge_value (rq_challenge_type rq)) in
      [(''nice_name'', PStr (rq_nice_name rq)), (''provider'', PStr ''letsencrypt''),
       (''domain_names'', PList (map PStr (rq_domain_names rq))), (''expires_at'', PInt (iss_expires_at issued)),
       (''expires_on'', PStr (mg_isoformat mg (iss_expires_at issued))), (''challenge_type'', challenge),
       (''key_type'', PStr (rq_key_type rq)), (''status'', PStr ''pending''), (''owner_principal_id'', opt_val owner),
       (''meta'', PDict (dict_update meta [(''email'', PStr (rq_email rq)), (''dns_provider'', text_or_none (rq_provider rq)),
          (''challenge_type'', challenge), (''key_type'', PStr (rq_key_type rq))]))])"

definition request_certificate :: "manager \<Rightarrow> 'r cert_ops \<Rightarrow> string \<Rightarrow> cert_request \<Rightarrow> string option \<Rightarrow> caller option \<Rightarrow>
    int option \<Rightarrow> payload \<Rightarrow> ('r vault, payload) io" where
  "request_certificate mg co uuid rq credentials_file actor owner meta =
     io_bind (run_issuer mg rq credentials_file) (\<lambda>issued.
     io_bind (on_table (co_create co (request_payload mg rq issued owner meta) actor)) (\<lambda>rec.
       publish_new mg co uuid (issued_bundle issued) rec actor))"

text \<open>A renewal sets the old material aside, and puts it back when anything fails.\<close>

definition replace_acme :: "manager \<Rightarrow> 'r cert_ops \<Rightarrow> string \<Rightarrow> string \<Rightarrow> int \<Rightarrow> cert_request \<Rightarrow> caller option \<Rightarrow> ('r vault, payload) io" where
  "replace_acme mg co uuid uuid' i rq actor =
     io_bind (run_issuer mg rq None) (\<lambda>issued.
     io_bind (reading (co_get co i)) (\<lambda>previous.
     io_bind (on_disk (store_detach (mg_faults mg) uuid i)) (\<lambda>quarantine.
     let restore = io_bind (on_disk (store_delete (mg_faults mg) i)) (\<lambda>_. on_disk (rollback_detach (mg_faults mg) i quarantine)) in
     io_bind
       (io_compensate
         (io_bind (on_disk (store_put (mg_faults mg) uuid' i (issued_bundle issued))) (\<lambda>_.
          io_bind (on_table (co_update co i
              [(''expires_at'', PInt (iss_expires_at issued)), (''expires_on'', PStr (mg_isoformat mg (iss_expires_at issued))),
               (''status'', PStr ''active'')] actor)) (or_missing i)))
         restore) (\<lambda>result.
     io_compensate (io_bind (on_disk (commit_detach (mg_faults mg) quarantine)) (\<lambda>_. io_return result))
       (io_bind restore (\<lambda>_. io_ignore (on_table (co_update co i (case previous of None \<Rightarrow> [] | Some d \<Rightarrow> d) None))))))))"

definition renewal_request :: "payload \<Rightarrow> py_error + cert_request" where
  "renewal_request rec =
     ebind (dict_or_empty (pget ''meta'' rec)) (\<lambda>meta.
     ebind (py_iter (py_or (pget ''domain_names'' rec) (PList []))) (\<lambda>names.
     let challenge = py_or (py_or (pget ''challenge_type'' rec) (pget ''challenge_type'' meta))
           (PStr (if truthy (pget ''dns_challenge'' meta) then ''dns-01'' else ''http-01'')) in
     ebind (case challenge of PStr s \<Rightarrow> challenge_of s | v \<Rightarrow> Inl (ValueError (py_repr v @ '' is not a valid ChallengeType''))) (\<lambda>challenge.
       Inr \<lparr>rq_nice_name = text_or ''nice_name'' ''Certificate'' rec, rq_domain_names = map py_str names,
         rq_email = py_str (py_or (py_or (py_or (py_or (pget ''email'' rec) (pget ''letsencrypt_email'' rec)) (pget ''email'' meta))
           (pget ''letsencrypt_email'' meta)) (PStr [])),
         rq_challenge_type = challenge,
         rq_key_type = py_str (py_or (py_or (pget ''key_type'' rec) (pget ''key_type'' meta)) (PStr ''rsa'')),
         rq_provider = as_str (py_or (pget ''dns_provider'' rec) (pget ''dns_provider'' meta))\<rparr>)))"

definition renewal_wanted :: "manager \<Rightarrow> bool \<Rightarrow> payload \<Rightarrow> py_error + bool" where
  "renewal_wanted mg force rec =
     (if force \<or> pget ''expires_on'' rec = PNone then Inr True
      else map_sum id (\<lambda>expires. renewal_due expires (mg_now mg)) (mg_fromisoformat mg (py_str (pget ''expires_on'' rec))))"

definition renew_certificate :: "manager \<Rightarrow> 'r cert_ops \<Rightarrow> string \<Rightarrow> string \<Rightarrow> int \<Rightarrow> bool \<Rightarrow> caller option \<Rightarrow> ('r vault, payload) io" where
  "renew_certificate mg co uuid uuid' i force actor =
     io_bind (reading (co_get co i)) (\<lambda>found.
     io_bind (or_missing i found) (\<lambda>rec.
     if pget ''provider'' rec \<noteq> PStr ''letsencrypt'' then io_raise (ValueError ''only ACME certificates can be renewed'')
     else
       io_bind (io_lift (renewal_wanted mg force rec)) (\<lambda>wanted.
       if \<not> wanted then io_return rec
       else io_bind (io_lift (renewal_request rec)) (\<lambda>rq. replace_acme mg co uuid uuid' i rq actor))))"

definition download_certificate :: "'r cert_ops \<Rightarrow> int \<Rightarrow> ('r vault, (string, string) dict) io" where
  "download_certificate co i =
     io_bind (reading (co_get co i)) (\<lambda>found.
     io_bind (or_missing i found) (\<lambda>_ v. (v, store_archive i (va_disk v))))"

fun any_assigned :: "int \<Rightarrow> payload list \<Rightarrow> py_error + bool" where
  "any_assigned i [] = Inr False"
| "any_assigned i (row # rows) =
     ebind (int_or_zero ''certificate_id'' row) (\<lambda>c. if c = i then Inr True else any_assigned i rows)"

fun assigned_in :: "'r cert_ops \<Rightarrow> int \<Rightarrow> string list \<Rightarrow> 'r \<Rightarrow> py_error + bool" where
  "assigned_in co i [] t = Inr False"
| "assigned_in co i (c # cs) t =
     ebind (co_list co c t) (\<lambda>rows. ebind (any_assigned i rows) (\<lambda>b. if b then Inr True else assigned_in co i cs t))"

definition assignable_collections :: "string list" where
  "assignable_collections = [''proxy_hosts'', ''redirection_hosts'', ''dead_hosts'', ''streams'']"

definition delete_certificate :: "manager \<Rightarrow> 'r cert_ops \<Rightarrow> string \<Rightarrow> int \<Rightarrow> ('r vault, unit) io" where
  "delete_certificate mg co uuid i =
     io_bind (reading (assigned_in co i assignable_collections)) (\<lambda>assigned.
     if assigned then io_raise (ValueError ''certificate is still assigned to an active resource'')
     else
       io_bind (on_disk (store_detach (mg_faults mg) uuid i)) (\<lambda>quarantine.
       io_bind
         (io_compensate
           (io_bind (on_table (co_delete co i None)) (\<lambda>deleted.
              if deleted then io_return () else io_raise (missing_certificate i)))
           (on_disk (rollback_detach (mg_faults mg) i quarantine))) (\<lambda>_.
         on_disk (commit_detach (mg_faults mg) quarantine))))"

section \<open>The operations of \<open>CertificateStore\<close>\<close>

definition bundle_of :: "payload \<Rightarrow> py_error + cert_bundle" where
  "bundle_of d =
     ebind (dict_at d ''certificate'') (\<lambda>certificate.
     ebind (dict_at d ''private_key'') (\<lambda>private_key.
       Inr \<lparr>bd_certificate = py_str certificate, bd_private_key = py_str private_key,
         bd_intermediate_certificate = text_or ''intermediate_certificate'' [] d\<rparr>))"

definition caller_id :: "caller option \<Rightarrow> py_error + int option" where
  "caller_id actor =
     (let v = (case actor of None \<Rightarrow> PNone | Some c \<Rightarrow> pget2 ''user_id'' ''id'' (caller_dict c)) in
      if v = PNone then Inr None else map_sum id Some (py_int v))"

definition op_validate :: "manager \<Rightarrow> payload \<Rightarrow> py_error + payload" where
  "op_validate mg d =
     ebind (bundle_of d) (\<lambda>b.
     ebind (mg_validate mg b) (\<lambda>info.
       Inr [(''subject'', PStr (ci_subject info)), (''issuer'', PStr (ci_issuer info)), (''serial'', PStr (ci_serial info)),
         (''domain_names'', PList (map PStr (ci_domain_names info))), (''not_before'', PStr (mg_isoformat mg (ci_not_before info))),
         (''not_after'', PStr (mg_isoformat mg (ci_not_after info)))]))"

definition op_upload :: "manager \<Rightarrow> 'r cert_ops \<Rightarrow> string \<Rightarrow> payload \<Rightarrow> caller option \<Rightarrow> ('r vault, payload) io" where
  "op_upload mg co uuid d actor =
     io_bind (io_lift (bundle_of d)) (\<lambda>b.
     io_bind (io_lift (if pget ''id'' d = PNone then Inr None else map_sum id Some (py_int (pget ''id'' d)))) (\<lambda>i.
     io_bind (io_lift (caller_id actor)) (\<lambda>owner.
     io_bind (io_lift (dict_or_empty (pget ''meta'' d))) (\<lambda>meta.
       upload_certificate mg co uuid b (text_or ''nice_name'' [] d) i actor owner meta))))"

definition request_of :: "payload \<Rightarrow> py_error + cert_request" where
  "request_of d =
     ebind (py_iter (py_or (pget ''domain_names'' d) (PList []))) (\<lambda>names.
     ebind (challenge_of (text_or ''challenge_type'' ''http-01'' d)) (\<lambda>challenge.
       Inr \<lparr>rq_nice_name = text_or ''nice_name'' ''Certificate'' d, rq_domain_names = map py_str names, rq_email = text_or ''email'' [] d,
         rq_challenge_type = challenge, rq_key_type = text_or ''key_type'' ''rsa'' d,
         rq_provider = (if truthy (pget ''dns_provider'' d) then Some (py_str (pget ''dns_provider'' d)) else None)\<rparr>))"

text \<open>DNS credentials are checked against the catalogue, written to a temporary file for the issuer and removed in any case.\<close>

definition credentials_text :: "(string, string) dict \<Rightarrow> string" where
  "credentials_text values = concat (map (\<lambda>(k, v). k @ '' = '' @ v @ newline) values)"

definition op_request :: "manager \<Rightarrow> 'r cert_ops \<Rightarrow> (string, dns_provider) dict \<Rightarrow> string \<Rightarrow> string \<Rightarrow> payload \<Rightarrow> caller option \<Rightarrow>
    ('r vault, payload) io" where
  "op_request mg co catalog uuid temp d actor =
     io_bind (io_lift (request_of d)) (\<lambda>rq.
     let run = (\<lambda>credentials_file.
           io_bind (io_lift (caller_id actor)) (\<lambda>owner.
           io_bind (io_lift (dict_or_empty (pget ''meta'' d))) (\<lambda>meta.
             request_certificate mg co uuid rq credentials_file actor owner meta))) in
     if rq_challenge_type rq \<noteq> Dns_01 then run None
     else
       case (rq_provider rq, pget ''dns_credentials'' d) of
         (Some provider, PDict credentials) \<Rightarrow>
           let values = fold (\<lambda>(k, v). dict_set k (py_str v)) credentials [] in
           io_bind (io_lift (validate_credentials catalog provider values)) (\<lambda>_.
             io_finally
               (\<lambda>v. run (Some temp) (v\<lparr>va_temp := dict_set temp (credentials_text values) (va_temp v)\<rparr>))
               (\<lambda>v. (v\<lparr>va_temp := dict_pop temp (va_temp v)\<rparr>, Inr ())))
       | _ \<Rightarrow> io_raise (ValueError ''DNS-01 requires dns_provider and dns_credentials''))"

definition op_renew :: "manager \<Rightarrow> 'r cert_ops \<Rightarrow> string \<Rightarrow> string \<Rightarrow> payload \<Rightarrow> caller option \<Rightarrow> ('r vault, payload) io" where
  "op_renew mg co uuid uuid' d actor =
     io_bind (io_lift (ebind (dict_at d ''id'') py_int)) (\<lambda>i.
       renew_certificate mg co uuid uuid' i (truthy (pget ''force'' d)) actor)"

definition op_remove :: "manager \<Rightarrow> 'r cert_ops \<Rightarrow> string \<Rightarrow> payload \<Rightarrow> ('r vault, payload) io" where
  "op_remove mg co uuid d =
     io_bind (io_lift (ebind (dict_at d ''id'') py_int)) (\<lambda>i.
     io_bind (delete_certificate mg co uuid i) (\<lambda>_. io_return [(''deleted'', PBool True), (''id'', PInt i)]))"

end
