(* ===== verification/Cert_Laws.thy ===== *)
theory Cert_Laws
  imports Certificates
begin

text \<open>
  What the certificate workflows promise: the interface \<open>certificate_table\<close> says what they rely on of the table, and is
  interpreted on the certificates of \<open>Cert_Table\<close> beside the hosts and streams that may name them. With one fault of
  the file system at most, record and material come and go together.
\<close>

section \<open>Rules for the parts of a vault\<close>

lemma triple_on_disk:
  assumes "triple D m Q E"
  shows "triple (\<lambda>v. C (va_table v) (va_temp v) \<and> D (va_disk v)) (on_disk m) (\<lambda>x v. C (va_table v) (va_temp v) \<and> Q x (va_disk v))
     (\<lambda>e v. C (va_table v) (va_temp v) \<and> E e (va_disk v))"
proof (rule tripleI)
  fix v v' x assume "C (va_table v) (va_temp v) \<and> D (va_disk v)" and "on_disk m v = (v', Inr x)"
  then show "C (va_table v') (va_temp v') \<and> Q x (va_disk v')"
    using triple_Inr [OF assms] by (auto simp: on_disk_def split: prod.splits)
next
  fix v v' e assume "C (va_table v) (va_temp v) \<and> D (va_disk v)" and "on_disk m v = (v', Inl e)"
  then show "C (va_table v') (va_temp v') \<and> E e (va_disk v')"
    using triple_Inl [OF assms] by (auto simp: on_disk_def split: prod.splits)
qed

lemma triple_on_table:
  assumes "\<And>t t' x. C t \<Longrightarrow> f t = Inr (t', x) \<Longrightarrow> Q x t'" and "\<And>t e. C t \<Longrightarrow> f t = Inl e \<Longrightarrow> E e t"
  shows "triple (\<lambda>v. C (va_table v) \<and> K (va_temp v) (va_disk v)) (on_table f) (\<lambda>x v. Q x (va_table v) \<and> K (va_temp v) (va_disk v))
     (\<lambda>e v. E e (va_table v) \<and> K (va_temp v) (va_disk v))"
  using assms by (intro tripleI) (auto simp: on_table_def split: sum.splits prod.splits)

lemma triple_reading:
  assumes "\<And>x v. P v \<Longrightarrow> f (va_table v) = Inr x \<Longrightarrow> Q x v" and "\<And>e v. P v \<Longrightarrow> f (va_table v) = Inl e \<Longrightarrow> E e v"
  shows "triple P (reading f) Q E"
  using assms by (intro tripleI) (auto simp: reading_def)

lemma triple_ignore: "triple P m (\<lambda>_. Q) E \<Longrightarrow> triple P (io_ignore m) (\<lambda>_. Q) E"
  unfolding io_ignore_def by (rule triple_bind [where R = "\<lambda>_. Q"]) (simp_all add: triple_def io_return_def)

lemma triple_pre_False: "triple (\<lambda>_. False) m Q E"
  by (simp add: triple_def)

lemma triple_cong: "triple P m' Q E \<Longrightarrow> (\<And>s. P s \<Longrightarrow> m s = m' s) \<Longrightarrow> triple P m Q E"
  by (simp add: triple_def)

lemma triple_store_delete:
  assumes "1 \<le> i"
  shows "triple (\<lambda>dk. dirs dk = f \<and> quiet ft dk \<and> k) (store_delete ft i) (\<lambda>_ dk. dirs dk = f(live_dir i := None) \<and> quiet ft dk \<and> k) E"
proof -
  have d: "store_delete ft i dk = (if \<not> dir_exists (live_dir i) dk then (dk, Inr False) else io_bind (remove_tree ft (live_dir i)) (\<lambda>_. io_return True) dk)" for dk
    by (simp add: store_delete_def store_dirs [OF assms])
  show ?thesis
  proof (cases "f (live_dir i)")
    case None
    then have "f(live_dir i := None) = f" by auto
    with None show ?thesis by (intro tripleI) (auto simp: d dirs_at)
  next
    case (Some x)
    have "triple (\<lambda>dk. dirs dk = f \<and> quiet ft dk \<and> k) (io_bind (remove_tree ft (live_dir i)) (\<lambda>_. io_return True))
        (\<lambda>_ dk. dirs dk = f(live_dir i := None) \<and> quiet ft dk \<and> k) E"
    proof (rule triple_bind)
      show "triple (\<lambda>dk. dirs dk = f \<and> quiet ft dk \<and> k) (remove_tree ft (live_dir i)) (\<lambda>_ dk. dirs dk = f(live_dir i := None) \<and> quiet ft dk \<and> k) E"
        by (rule triple_remove_quiet) (simp add: Some)
    qed (simp add: triple_def io_return_def)
    then show ?thesis by (rule triple_cong) (simp add: d dirs_at Some)
  qed
qed

lemma faultless_quiet: "\<not> faulty ft \<Longrightarrow> quiet ft dk"
  by (simp add: faulty_def quiet_def)

lemma triple_store_detach:
  assumes "1 \<le> i" and "random_name uuid" and "f (quarantine_dir uuid i) = None"
  shows "triple (\<lambda>dk. dirs dk = f \<and> at_most_one ft dk) (store_detach ft uuid i)
     (\<lambda>q dk. q = map_option (\<lambda>_. quarantine_dir uuid i) (f (live_dir i)) \<and>
        dirs dk = f(live_dir i := None, quarantine_dir uuid i := f (live_dir i)) \<and> at_most_one ft dk)
     (\<lambda>_ dk. dirs dk = f)"
proof -
  have d: "store_detach ft uuid i dk = (if \<not> dir_exists (live_dir i) dk then (dk, Inr None)
      else io_bind (rename_dir ft (live_dir i) (quarantine_dir uuid i)) (\<lambda>_. io_return (Some (quarantine_dir uuid i))) dk)" for dk
    unfolding store_detach_def store_dirs(1) [OF assms(1)] store_dirs(4) [OF assms(1,2)] io_lift_bind ..
  show ?thesis
  proof (cases "f (live_dir i)")
    case None
    then have "f(live_dir i := None, quarantine_dir uuid i := None) = f" using assms(3) by auto
    with None show ?thesis by (intro tripleI) (auto simp: d dirs_at)
  next
    case (Some x)
    have "triple (\<lambda>dk. dirs dk = f \<and> at_most_one ft dk)
        (io_bind (rename_dir ft (live_dir i) (quarantine_dir uuid i)) (\<lambda>_. io_return (Some (quarantine_dir uuid i))))
        (\<lambda>q dk. q = Some (quarantine_dir uuid i) \<and> dirs dk = f(live_dir i := None, quarantine_dir uuid i \<mapsto> x) \<and> at_most_one ft dk)
        (\<lambda>_ dk. dirs dk = f)"
    proof (rule triple_bind)
      show "triple (\<lambda>dk. dirs dk = f \<and> at_most_one ft dk) (rename_dir ft (live_dir i) (quarantine_dir uuid i))
         (\<lambda>_ dk. dirs dk = f(live_dir i := None, quarantine_dir uuid i \<mapsto> x) \<and> at_most_one ft dk) (\<lambda>_ dk. dirs dk = f)"
        by (rule triple_weaken_post [OF triple_rename_dir [of f _ x]]) (use assms(3) Some in simp_all)
    qed (simp add: triple_def io_return_def)
    then show ?thesis by (rule triple_cong [OF triple_weaken_post]) (auto simp: d dirs_at Some)
  qed
qed

lemma triple_rollback:
  assumes "1 \<le> i" and "f (quarantine_dir uuid i) = None" and "q = map_option (\<lambda>_. quarantine_dir uuid i) (f (live_dir i))"
  shows "triple (\<lambda>dk. dirs dk = f(live_dir i := None, quarantine_dir uuid i := f (live_dir i)) \<and> (quiet ft dk \<or> f (live_dir i) = None))
     (rollback_detach ft i q) (\<lambda>_ dk. dirs dk = f) E"
proof (cases "f (live_dir i)")
  case None
  then have "f(live_dir i := None, quarantine_dir uuid i := None) = f" using assms(2) by auto
  with None show ?thesis by (simp add: assms(3) rollback_detach_def triple_def io_return_def)
next
  case (Some x)
  let ?g = "f(live_dir i := None, quarantine_dir uuid i \<mapsto> x)"
  have restored: "?g(quarantine_dir uuid i := None, live_dir i \<mapsto> x) = f" using assms(2) Some by (auto simp: fun_eq_iff)
  have "triple (\<lambda>dk. dirs dk = ?g \<and> quiet ft dk \<and> True) (rename_dir ft (quarantine_dir uuid i) (live_dir i)) (\<lambda>_ dk. dirs dk = f) E"
    by (rule triple_weaken_post [OF triple_rename_quiet [of ?g _ x]]) (use restored in simp_all)
  then have r: "triple (\<lambda>dk. (dirs dk = ?g \<and> quiet ft dk) \<and> dir_exists (quarantine_dir uuid i) dk)
      (rename_dir ft (quarantine_dir uuid i) (live_dir i)) (\<lambda>_ dk. dirs dk = f) E"
    by (rule triple_weaken_pre) simp
  have "rollback_detach ft i q = io_when (dir_exists (quarantine_dir uuid i)) (rename_dir ft (quarantine_dir uuid i) (live_dir i))"
    by (simp add: assms(3) Some rollback_detach_def store_dirs(1) [OF assms(1)])
  moreover have "triple (\<lambda>dk. dirs dk = ?g \<and> quiet ft dk) (io_when (dir_exists (quarantine_dir uuid i))
      (rename_dir ft (quarantine_dir uuid i) (live_dir i))) (\<lambda>_ dk. dirs dk = f) E"
    by (rule triple_when [OF r]) (simp add: dirs_at)
  ultimately show ?thesis by (simp add: Some)
qed

lemma triple_commit:
  assumes "f (quarantine_dir uuid i) = None" and "q = map_option (\<lambda>_. quarantine_dir uuid i) (f (live_dir i))"
  shows "triple (\<lambda>dk. dirs dk = f(live_dir i := None, quarantine_dir uuid i := f (live_dir i)) \<and> at_most_one ft dk) (commit_detach ft q)
     (\<lambda>_ dk. dirs dk = f(live_dir i := None, quarantine_dir uuid i := None))
     (\<lambda>_ dk. (\<exists>x. dirs dk = f(live_dir i := None, quarantine_dir uuid i := x)) \<and> faulty ft)"
proof (cases "f (live_dir i)")
  case None
  then show ?thesis by (simp add: assms(2) commit_detach_def triple_def io_return_def)
next
  case (Some x)
  then show ?thesis
    by (simp add: assms(2) commit_detach_def) (rule triple_weaken_post [OF triple_clear], auto)
qed

section \<open>What the workflows rely on\<close>

text \<open>Record and material of one new certificate, and of none.\<close>

definition certificate_published :: "(int \<Rightarrow> 'r \<Rightarrow> payload option) \<Rightarrow> cert_bundle \<Rightarrow> 'r vault \<Rightarrow> payload \<Rightarrow> 'r vault \<Rightarrow> bool" where
  "certificate_published look b v rec v' \<longleftrightarrow>
     (\<exists>i. look i (va_table v) = None \<and> look i (va_table v') = Some rec \<and> pget ''status'' rec = PStr ''active'' \<and>
        dir_of (live_dir i) (va_disk v') = Some (bundle_files b) \<and>
        (\<forall>j. j \<noteq> i \<longrightarrow> look j (va_table v') = look j (va_table v) \<and>
           dir_of (live_dir j) (va_disk v') = dir_of (live_dir j) (va_disk v)))"

definition certificates_kept :: "(int \<Rightarrow> 'r \<Rightarrow> payload option) \<Rightarrow> 'r vault \<Rightarrow> 'r vault \<Rightarrow> bool" where
  "certificates_kept look v v' \<longleftrightarrow>
     (\<forall>j. look j (va_table v') = look j (va_table v) \<and> dir_of (live_dir j) (va_disk v') = dir_of (live_dir j) (va_disk v))"

definition certificate_gone :: "(int \<Rightarrow> 'r \<Rightarrow> payload option) \<Rightarrow> int \<Rightarrow> 'r vault \<Rightarrow> 'r vault \<Rightarrow> bool" where
  "certificate_gone look i v v' \<longleftrightarrow>
     look i (va_table v) \<noteq> None \<and> look i (va_table v') = None \<and> dir_of (live_dir i) (va_disk v') = None \<and>
     (\<forall>j. j \<noteq> i \<longrightarrow> look j (va_table v') = look j (va_table v) \<and>
        dir_of (live_dir j) (va_disk v') = dir_of (live_dir j) (va_disk v))"

text \<open>No material without a record, and none under the names that a workflow is about to use.\<close>

definition tidy_vault :: "(int \<Rightarrow> 'r \<Rightarrow> payload option) \<Rightarrow> string \<Rightarrow> 'r vault \<Rightarrow> bool" where
  "tidy_vault look uuid v \<longleftrightarrow>
     (\<forall>i. look i (va_table v) = None \<longrightarrow> dir_of (live_dir i) (va_disk v) = None) \<and>
     (\<forall>i. dir_of (stage_dir uuid i) (va_disk v) = None \<and> dir_of (quarantine_dir uuid i) (va_disk v) = None)"

definition active :: payload where
  "active = [(''status'', PStr ''active'')]"

text \<open>The fields that the workflows set on a record that is there.\<close>

definition plain :: "payload \<Rightarrow> bool" where
  "plain d \<longleftrightarrow> dict_ok d \<and> dict_keys d \<subseteq> {''status'', ''expires_at'', ''expires_on''}"

lemma plain_active [simp]: "plain active"
  by (simp add: plain_def active_def dict_ok_def)

lemma plain_ok: "plain d \<Longrightarrow> dict_ok d" "plain d \<Longrightarrow> dict_get d ''id'' \<in> {None, Some (PInt i)}"
  by (auto simp: plain_def dict_get_None)

text \<open>\<open>look\<close> is the table as its reader sees it, \<open>sound\<close> says that a record does not block its own compensation, and
  \<open>trusted\<close> that a caller passes the hooks.\<close>

locale certificate_table =
  fixes co :: "'r cert_ops" and look :: "int \<Rightarrow> 'r \<Rightarrow> payload option" and ok :: "'r \<Rightarrow> bool"
    and sound :: "payload \<Rightarrow> bool" and trusted :: "caller option \<Rightarrow> bool"
  assumes get: "co_get co i t = Inr (look i t)"
    and shape: "ok t \<Longrightarrow> look i t = Some x \<Longrightarrow> dict_ok x \<and> dict_get x ''id'' = Some (PInt i) \<and> 1 \<le> i"
    and create: "ok t \<Longrightarrow> sound d \<Longrightarrow> co_create co d a t = Inr (t', rec) \<Longrightarrow>
      ok t' \<and> sound rec \<and> (\<exists>i\<ge>1. ebind (dict_at rec ''id'') py_int = Inr i \<and> look i t = None \<and> look i t' = Some rec \<and>
        (\<forall>j. j \<noteq> i \<longrightarrow> look j t' = look j t))"
    and update: "ok t \<Longrightarrow> look i t = Some x \<Longrightarrow> dict_ok d \<Longrightarrow> dict_get d ''id'' \<in> {None, Some (PInt i)} \<Longrightarrow>
      co_update co i d a t = Inr (t', r) \<Longrightarrow>
      ok t' \<and> look i t' = r \<and> (\<forall>j. j \<noteq> i \<longrightarrow> look j t' = look j t) \<and>
      (\<exists>y. r = Some y \<and> (\<forall>s. dict_get d ''status'' = Some (PStr s) \<and> s \<noteq> [] \<longrightarrow> pget ''status'' y = PStr s) \<and>
        (\<forall>e. dict_get d ''expires_at'' = Some e \<longrightarrow> pget ''expires_at'' y = e))"
    and update_trusted: "ok t \<Longrightarrow> look i t = Some x \<Longrightarrow> sound x \<Longrightarrow> trusted a \<Longrightarrow> plain d \<Longrightarrow> \<exists>t' r. co_update co i d a t = Inr (t', r)"
    and delete: "ok t \<Longrightarrow> co_delete co i a t = Inr (t', b) \<Longrightarrow>
      ok t' \<and> look i t' = None \<and> (b \<longleftrightarrow> look i t \<noteq> None) \<and> (\<forall>j. j \<noteq> i \<longrightarrow> look j t' = look j t)"
    and delete_sound: "ok t \<Longrightarrow> look i t = Some x \<Longrightarrow> sound x \<Longrightarrow> \<exists>t'. co_delete co i None t = Inr (t', True)"
begin

text \<open>The states between which a workflow moves: a table, temporary files, directories, and faults still to come.\<close>

definition holds :: "('r \<Rightarrow> bool) \<Rightarrow> (string, string) dict \<Rightarrow> (disk \<Rightarrow> bool) \<Rightarrow> 'r vault \<Rightarrow> bool" where
  "holds T tmp D v \<longleftrightarrow> T (va_table v) \<and> va_temp v = tmp \<and> D (va_disk v)"

lemma hold_disk:
  assumes "triple D m Q E"
  shows "triple (holds T tmp D) (on_disk m) (\<lambda>x. holds T tmp (Q x)) (\<lambda>e. holds T tmp (E e))"
  using triple_on_disk [OF assms, of "\<lambda>t tm. T t \<and> tm = tmp"] unfolding holds_def by (simp add: conj_assoc)

lemma hold_table:
  assumes "\<And>t t' x. T t \<Longrightarrow> f t = Inr (t', x) \<Longrightarrow> Q x t'" and "\<And>t e. T t \<Longrightarrow> f t = Inl e \<Longrightarrow> E e t"
  shows "triple (holds T tmp D) (on_table f) (\<lambda>x. holds (Q x) tmp D) (\<lambda>e. holds (E e) tmp D)"
  using triple_on_table [of T f Q E "\<lambda>tm dk. tm = tmp \<and> D dk", OF assms] unfolding holds_def by simp

text \<open>A change of a record that is there, by a trusted caller.\<close>

definition changed :: "'r \<Rightarrow> int \<Rightarrow> payload \<Rightarrow> payload \<Rightarrow> 'r \<Rightarrow> bool" where
  "changed t i d r t' \<longleftrightarrow> ok t' \<and> look i t' = Some r \<and> (\<forall>j. j \<noteq> i \<longrightarrow> look j t' = look j t) \<and>
     (\<forall>s. dict_get d ''status'' = Some (PStr s) \<and> s \<noteq> [] \<longrightarrow> pget ''status'' r = PStr s) \<and>
     (\<forall>e. dict_get d ''expires_at'' = Some e \<longrightarrow> pget ''expires_at'' r = e)"

lemma change:
  assumes "ok t" and "look i t = Some x" and "sound x" and "\<not> faulty ft \<or> trusted a" and "plain d"
  shows "triple (holds ((=) t) tmp D) (io_bind (on_table (co_update co i d a)) (or_missing i))
     (\<lambda>r. holds (changed t i d r) tmp D) (\<lambda>_. holds (\<lambda>t'. t' = t \<and> \<not> faulty ft) tmp D)"
proof (rule triple_bind [OF hold_table])
  fix u u' r assume "t = u" and u: "co_update co i d a u = Inr (u', r)"
  then show "\<exists>y. r = Some y \<and> changed t i d y u'"
    using update [OF assms(1,2) plain_ok [OF assms(5)]] unfolding changed_def by blast
next
  fix u e assume "t = u" and "co_update co i d a u = Inl e"
  then show "u = t \<and> \<not> faulty ft" using update_trusted [OF assms(1-3) _ assms(5), of a] assms(4) by auto
next
  show "triple (holds (\<lambda>u'. \<exists>y. r = Some y \<and> changed t i d y u') tmp D) (or_missing i r)
      (\<lambda>r. holds (changed t i d r) tmp D) (\<lambda>_. holds (\<lambda>t'. t' = t \<and> \<not> faulty ft) tmp D)" for r
    unfolding or_missing_def by (rule triple_lift) (cases r; auto simp: holds_def)+
qed

lemma activate:
  assumes "ok t" and "look i t = Some x" and "sound x" and "\<not> faulty ft \<or> trusted a"
  shows "triple (holds ((=) t) tmp D) (activate_certificate co i a)
     (\<lambda>r. holds (\<lambda>t'. ok t' \<and> look i t' = Some r \<and> pget ''status'' r = PStr ''active'' \<and> (\<forall>j. j \<noteq> i \<longrightarrow> look j t' = look j t)) tmp D)
     (\<lambda>_. holds (\<lambda>t'. t' = t \<and> \<not> faulty ft) tmp D)"
  unfolding activate_certificate_def active_def [symmetric]
  by (rule triple_weaken_post [OF change [OF assms plain_active]]) (auto simp: holds_def changed_def active_def)

definition added_to :: "'r \<Rightarrow> int \<Rightarrow> payload \<Rightarrow> 'r \<Rightarrow> bool" where
  "added_to t i r t' \<longleftrightarrow> ok t' \<and> look i t' = Some r \<and> pget ''status'' r = PStr ''active'' \<and> (\<forall>j. j \<noteq> i \<longrightarrow> look j t' = look j t)"

definition removed_from :: "'r \<Rightarrow> int \<Rightarrow> 'r \<Rightarrow> bool" where
  "removed_from t i t' \<longleftrightarrow> ok t' \<and> look i t' = None \<and> (\<forall>j. j \<noteq> i \<longrightarrow> look j t' = look j t)"

lemma withdraw:
  assumes "ok t" and "look i t = Some rec" and "sound rec" and "1 \<le> i" and "random_name uuid" and "f (live_dir i) = None"
  shows "triple (holds ((=) t) tmp (\<lambda>dk. dirs dk \<in> put_leftovers f uuid i b \<and> quiet ft dk))
     (io_bind (on_disk (store_delete ft i)) (\<lambda>_. io_ignore (on_table (co_delete co i None))))
     (\<lambda>_. holds (removed_from t i) tmp (\<lambda>dk. \<exists>x y. dirs dk = f(backup_dir i := x, stage_dir uuid i := y))) E"
proof (rule triple_bind)
  have "triple (\<lambda>dk. \<exists>g. dirs dk = g \<and> quiet ft dk \<and> g \<in> put_leftovers f uuid i b) (store_delete ft i)
      (\<lambda>_ dk. \<exists>x y. dirs dk = f(backup_dir i := x, stage_dir uuid i := y)) (\<lambda>_ _. False)"
  proof (rule triple_exI, rule triple_weaken_post [OF triple_store_delete [OF assms(4)]])
    fix g x dk assume d: "dirs dk = g(live_dir i := None) \<and> quiet ft dk \<and> g \<in> put_leftovers f uuid i b"
    then obtain x y where "g = f(backup_dir i := x, stage_dir uuid i := y) \<or>
        g = f(live_dir i \<mapsto> bundle_files b, backup_dir i := x, stage_dir uuid i := y)" by (auto simp: put_leftovers_def)
    then have "g(live_dir i := None) = f(backup_dir i := x, stage_dir uuid i := y)" using assms(6) by (auto simp: fun_eq_iff)
    with d show "\<exists>x y. dirs dk = f(backup_dir i := x, stage_dir uuid i := y)" by auto
  qed
  then have del: "triple (\<lambda>dk. dirs dk \<in> put_leftovers f uuid i b \<and> quiet ft dk) (store_delete ft i)
      (\<lambda>_ dk. \<exists>x y. dirs dk = f(backup_dir i := x, stage_dir uuid i := y)) (\<lambda>_ _. False)"
    by (rule triple_weaken_pre) auto
  show "triple (holds ((=) t) tmp (\<lambda>dk. dirs dk \<in> put_leftovers f uuid i b \<and> quiet ft dk)) (on_disk (store_delete ft i))
      (\<lambda>_. holds ((=) t) tmp (\<lambda>dk. \<exists>x y. dirs dk = f(backup_dir i := x, stage_dir uuid i := y))) E"
    by (rule triple_weaken_post [OF hold_disk [OF del]]) (simp_all add: holds_def)
  show "triple (holds ((=) t) tmp (\<lambda>dk. \<exists>x y. dirs dk = f(backup_dir i := x, stage_dir uuid i := y)))
      (io_ignore (on_table (co_delete co i None)))
      (\<lambda>_. holds (removed_from t i) tmp (\<lambda>dk. \<exists>x y. dirs dk = f(backup_dir i := x, stage_dir uuid i := y))) E" for u :: bool
  proof (rule triple_ignore, rule triple_weaken_post [OF hold_table [where Q = "\<lambda>_. removed_from t i" and E = "\<lambda>_ _. False"]])
    fix u u' r assume "t = u" and "co_delete co i None u = Inr (u', r)"
    then show "removed_from t i u'" using delete [OF assms(1), of i None u' r] by (simp add: removed_from_def)
  next
    fix u e assume "t = u" and "co_delete co i None u = Inl e"
    then show False using delete_sound [OF assms(1-3)] by auto
  qed (simp_all add: holds_def)
qed

lemma publish_new:
  assumes "ok t" and "look i t = Some rec" and "sound rec" and "1 \<le> i" and "ebind (dict_at rec ''id'') py_int = Inr i"
    and "random_name uuid" and "f (stage_dir uuid i) = None" and "f (live_dir i) = None" and "\<not> faulty (mg_faults mg) \<or> trusted a"
  shows "triple (holds ((=) t) tmp (\<lambda>dk. dirs dk = f \<and> at_most_one (mg_faults mg) dk)) (publish_new mg co uuid b rec a)
     (\<lambda>r. holds (added_to t i r) tmp (\<lambda>dk. dirs dk = f(live_dir i \<mapsto> bundle_files b, backup_dir i := None)))
     (\<lambda>_. holds (removed_from t i) tmp (\<lambda>dk. \<exists>x y. dirs dk = f(backup_dir i := x, stage_dir uuid i := y)))"
  unfolding publish_new_def assms(5) io_lift_bind
proof (rule triple_compensate)
  let ?ft = "mg_faults mg"
  let ?F = "\<lambda>_::py_error. holds ((=) t) tmp (\<lambda>dk. dirs dk \<in> put_leftovers f uuid i b \<and> quiet ?ft dk)"
  show "triple (holds ((=) t) tmp (\<lambda>dk. dirs dk = f \<and> at_most_one ?ft dk))
      (io_bind (on_disk (store_put ?ft uuid i b)) (\<lambda>_. activate_certificate co i a))
      (\<lambda>r. holds (added_to t i r) tmp (\<lambda>dk. dirs dk = f(live_dir i \<mapsto> bundle_files b, backup_dir i := None))) ?F"
  proof (rule triple_bind)
    show "triple (holds ((=) t) tmp (\<lambda>dk. dirs dk = f \<and> at_most_one ?ft dk)) (on_disk (store_put ?ft uuid i b))
       (\<lambda>_. holds ((=) t) tmp (\<lambda>dk. dirs dk = f(live_dir i \<mapsto> bundle_files b, backup_dir i := None) \<and> at_most_one ?ft dk)) ?F"
      by (rule triple_weaken_post [OF hold_disk [OF triple_store_put [of i uuid f ?ft b, OF assms(4,6,7)]]]) (simp_all add: holds_def)
    have left: "f(live_dir i \<mapsto> bundle_files b, backup_dir i := None) \<in> put_leftovers f uuid i b"
      by (rule put_leftoversI(4)) (use assms in simp_all)
    show "triple (holds ((=) t) tmp (\<lambda>dk. dirs dk = f(live_dir i \<mapsto> bundle_files b, backup_dir i := None) \<and> at_most_one ?ft dk))
        (activate_certificate co i a)
        (\<lambda>r. holds (added_to t i r) tmp (\<lambda>dk. dirs dk = f(live_dir i \<mapsto> bundle_files b, backup_dir i := None))) ?F" for u :: unit
      by (rule triple_weaken_post [OF activate [OF assms(1-3,9)]])
        (use left in \<open>auto simp: holds_def added_to_def faultless_quiet\<close>)
  qed
  show "triple (?F e) (io_bind (on_disk (store_delete ?ft i)) (\<lambda>_. io_ignore (on_table (co_delete co i None))))
      (\<lambda>_. (\<lambda>_. holds (removed_from t i) tmp (\<lambda>dk. \<exists>x y. dirs dk = f(backup_dir i := x, stage_dir uuid i := y))) e)
      (\<lambda>_. holds (removed_from t i) tmp (\<lambda>dk. \<exists>x y. dirs dk = f(backup_dir i := x, stage_dir uuid i := y)))" for e :: py_error
    by (rule withdraw [of t i rec uuid f, OF assms(1-4,6,8)])
qed

lemma create_and_publish:
  assumes "ok (va_table v)" and "sound d" and "random_name uuid" and "tidy_vault look uuid v"
    and "at_most_one (mg_faults mg) (va_disk v)" and "\<not> faulty (mg_faults mg) \<or> trusted a"
    and "io_bind (on_table (co_create co d a)) (\<lambda>rec. publish_new mg co uuid b rec a) v = (v', r)"
  shows "ok (va_table v') \<and> va_temp v' = va_temp v \<and>
    (case r of Inr rec \<Rightarrow> certificate_published look b v rec v' | Inl _ \<Rightarrow> certificates_kept look v v')"
proof (cases "co_create co d a (va_table v)")
  case (Inl e)
  with assms(7) have "v' = v" "r = Inl e" by (simp_all add: io_bind_def on_table_def)
  then show ?thesis using assms(1) by (simp add: certificates_kept_def)
next
  case (Inr z)
  then obtain t rec where c: "co_create co d a (va_table v) = Inr (t, rec)" by (cases z) auto
  obtain i where t: "ok t" "sound rec" and i: "1 \<le> i" "ebind (dict_at rec ''id'') py_int = Inr i"
    "look i (va_table v) = None" "look i t = Some rec" "\<forall>j. j \<noteq> i \<longrightarrow> look j t = look j (va_table v)"
    using create [OF assms(1,2) c] by blast
  let ?v = "v\<lparr>va_table := t\<rparr>" and ?f = "dirs (va_disk v)"
  have free: "?f (stage_dir uuid i) = None" "?f (live_dir i) = None"
    using assms(4) i(3) by (simp_all add: tidy_vault_def dirs_at)
  have run: "publish_new mg co uuid b rec a ?v = (v', r)" using assms(7) c by (simp add: io_bind_def on_table_def)
  have pre: "holds ((=) t) (va_temp v) (\<lambda>dk. dirs dk = ?f \<and> at_most_one (mg_faults mg) dk) ?v"
    using assms(5) by (simp add: holds_def)
  note post = triple_run [OF publish_new [of t i rec uuid ?f, OF t(1) i(4) t(2) i(1,2) assms(3) free assms(6)] pre run]
  show ?thesis
  proof (cases r)
    case (Inl e)
    then have q: "holds (removed_from t i) (va_temp v) (\<lambda>dk. \<exists>x y. dirs dk = ?f(backup_dir i := x, stage_dir uuid i := y)) v'" using post by simp
    then obtain x y where "dirs (va_disk v') = ?f(backup_dir i := x, stage_dir uuid i := y)" by (auto simp: holds_def)
    moreover have "look j (va_table v') = look j (va_table v)" for j using q i(3,5) by (cases "j = i") (auto simp: holds_def removed_from_def)
    ultimately show ?thesis using q Inl by (auto simp: holds_def removed_from_def certificates_kept_def dirs_at)
  next
    case (Inr rec')
    then have q: "holds (added_to t i rec') (va_temp v) (\<lambda>dk. dirs dk = ?f(live_dir i \<mapsto> bundle_files b, backup_dir i := None)) v'" using post by simp
    then have "certificate_published look b v rec' v'"
      using i(3,5) unfolding certificate_published_def by (intro exI [of _ i]) (auto simp: holds_def added_to_def dirs_at)
    then show ?thesis using q Inr by (simp add: holds_def added_to_def)
  qed
qed

lemma upload_new:
  assumes "ok (va_table v)" and "\<And>info. mg_validate mg b = Inr info \<Longrightarrow> sound (upload_payload mg info nice_name True owner meta)"
    and "random_name uuid" and "tidy_vault look uuid v" and "at_most_one (mg_faults mg) (va_disk v)"
    and "\<not> faulty (mg_faults mg) \<or> trusted a" and "upload_certificate mg co uuid b nice_name None a owner meta v = (v', r)"
  shows "ok (va_table v') \<and> va_temp v' = va_temp v \<and>
    (case r of Inr rec \<Rightarrow> certificate_published look b v rec v' | Inl _ \<Rightarrow> certificates_kept look v v')"
proof (cases "mg_validate mg b")
  case (Inl e)
  with assms(7) have "v' = v" "r = Inl e" by (simp_all add: upload_certificate_def io_raise_def)
  then show ?thesis using assms(1) by (simp add: certificates_kept_def)
next
  case (Inr info)
  have s: "sound (upload_payload mg info nice_name True owner meta)" by (rule assms(2)) fact
  have "io_bind (on_table (co_create co (upload_payload mg info nice_name True owner meta) a)) (\<lambda>rec. publish_new mg co uuid b rec a) v = (v', r)"
    using assms(7) Inr by (simp add: upload_certificate_def Let_def)
  then show ?thesis by (rule create_and_publish [OF assms(1) s assms(3-6)])
qed

lemma request_new:
  assumes "ok (va_table v)" and "\<And>issued. sound (request_payload mg rq issued owner meta)"
    and "random_name uuid" and "tidy_vault look uuid v" and "at_most_one (mg_faults mg) (va_disk v)"
    and "\<not> faulty (mg_faults mg) \<or> trusted a" and "request_certificate mg co uuid rq cf a owner meta v = (v', r)"
  shows "ok (va_table v') \<and> va_temp v' = va_temp v \<and>
    (case r of Inr rec \<Rightarrow> \<exists>issue issued. mg_issue mg = Some issue \<and> issue rq cf = Inr issued \<and>
         certificate_published look (issued_bundle issued) v rec v'
     | Inl _ \<Rightarrow> certificates_kept look v v')"
proof (cases "\<exists>issue issued. mg_issue mg = Some issue \<and> issue rq cf = Inr issued")
  case True
  then obtain issue issued where i: "mg_issue mg = Some issue" "issue rq cf = Inr issued" by blast
  have "io_bind (on_table (co_create co (request_payload mg rq issued owner meta) a))
      (\<lambda>rec. publish_new mg co uuid (issued_bundle issued) rec a) v = (v', r)"
    using assms(7) i by (simp add: request_certificate_def run_issuer_def)
  from create_and_publish [OF assms(1,2,3-6) this] show ?thesis using i by (auto split: sum.splits)
next
  case False
  then have "run_issuer mg rq cf v = (v, Inl e) \<and> v' = v \<and> r = Inl e" if "run_issuer mg rq cf v = (u, Inl e)" for u e
    using that assms(7) by (auto simp: request_certificate_def run_issuer_def io_raise_def io_lift_def io_bind_def split: option.splits)
  moreover obtain u e where "run_issuer mg rq cf v = (u, Inl e)"
    using False by (cases "mg_issue mg") (auto simp: run_issuer_def io_raise_def io_lift_def, metis sum.exhaust)
  ultimately show ?thesis using assms(1) by (simp add: certificates_kept_def)
qed

section \<open>Deletion\<close>

definition spared :: "'r \<Rightarrow> 'r \<Rightarrow> bool" where
  "spared t t' \<longleftrightarrow> ok t' \<and> (\<forall>j. look j t' = look j t)"

lemma delete_rest:
  assumes "ok t" and "1 \<le> i" and "random_name uuid" and "f (quarantine_dir uuid i) = None" and "look i t = None \<Longrightarrow> f (live_dir i) = None"
    and "\<not> faulty ft \<or> (\<forall>x. look i t = Some x \<longrightarrow> sound x)"
  shows "triple (holds ((=) t) tmp (\<lambda>dk. dirs dk = f \<and> at_most_one ft dk))
     (io_bind (on_disk (store_detach ft uuid i)) (\<lambda>q.
        io_bind
          (io_compensate
            (io_bind (on_table (co_delete co i None)) (\<lambda>deleted. if deleted then io_return () else io_raise (missing_certificate i)))
            (on_disk (rollback_detach ft i q))) (\<lambda>_. on_disk (commit_detach ft q))))
     (\<lambda>_. holds (\<lambda>t'. look i t \<noteq> None \<and> removed_from t i t') tmp (\<lambda>dk. dirs dk = f(live_dir i := None, quarantine_dir uuid i := None)))
     (\<lambda>_ v. holds (spared t) tmp (\<lambda>dk. dirs dk = f) v \<or>
        faulty ft \<and> holds (\<lambda>t'. look i t \<noteq> None \<and> removed_from t i t') tmp (\<lambda>dk. \<exists>x. dirs dk = f(live_dir i := None, quarantine_dir uuid i := x)) v)"
    (is "triple ?P _ ?Q ?E")
proof (rule triple_bind)
  let ?q = "map_option (\<lambda>_. quarantine_dir uuid i) (f (live_dir i))"
    and ?g = "f(live_dir i := None, quarantine_dir uuid i := f (live_dir i))"
  let ?moved = "\<lambda>dk. dirs dk = ?g \<and> at_most_one ft dk"
  show "triple ?P (on_disk (store_detach ft uuid i)) (\<lambda>q. holds ((=) t) tmp (\<lambda>dk. q = ?q \<and> ?moved dk)) ?E"
    by (rule triple_weaken_post [OF hold_disk [OF triple_store_detach [of i uuid f ft, OF assms(2-4)]]])
      (use assms(1) in \<open>auto simp: holds_def spared_def\<close>)
  have rest: "triple (holds ((=) t) tmp ?moved)
      (io_bind
        (io_compensate
          (io_bind (on_table (co_delete co i None)) (\<lambda>deleted. if deleted then io_return () else io_raise (missing_certificate i)))
          (on_disk (rollback_detach ft i ?q))) (\<lambda>_. on_disk (commit_detach ft ?q))) ?Q ?E"
  proof (rule triple_bind, rule triple_compensate)
    let ?F = "\<lambda>_::py_error. holds (spared t) tmp (\<lambda>dk. dirs dk = ?g \<and> (quiet ft dk \<or> f (live_dir i) = None))"
    let ?R = "\<lambda>deleted t'. removed_from t i t' \<and> (deleted \<longleftrightarrow> look i t \<noteq> None)"
    show "triple (holds ((=) t) tmp ?moved)
        (io_bind (on_table (co_delete co i None)) (\<lambda>deleted. if deleted then io_return () else io_raise (missing_certificate i)))
        (\<lambda>_. holds (\<lambda>t'. look i t \<noteq> None \<and> removed_from t i t') tmp ?moved) ?F"
    proof (rule triple_bind)
      show "triple (holds ((=) t) tmp ?moved) (on_table (co_delete co i None)) (\<lambda>deleted. holds (?R deleted) tmp ?moved) ?F"
      proof (rule triple_weaken_post [OF hold_table [where Q = ?R and E = "\<lambda>_ t'. t' = t \<and> (look i t = None \<or> \<not> faulty ft)"]])
        fix u u' deleted assume "t = u" and "co_delete co i None u = Inr (u', deleted)"
        then show "?R deleted u'" using delete [OF assms(1), of i None u' deleted] by (simp add: removed_from_def)
      next
        fix u e assume "t = u" and "co_delete co i None u = Inl e"
        then show "u = t \<and> (look i t = None \<or> \<not> faulty ft)" using delete_sound [OF assms(1), of i] assms(6) by force
      qed (use assms(1,5) in \<open>auto simp: holds_def spared_def faultless_quiet\<close>)
      show "triple (holds (?R deleted) tmp ?moved) (if deleted then io_return () else io_raise (missing_certificate i))
          (\<lambda>_. holds (\<lambda>t'. look i t \<noteq> None \<and> removed_from t i t') tmp ?moved) ?F" for deleted
        using assms(5) by (auto simp: triple_def io_return_def io_raise_def holds_def removed_from_def spared_def) metis+
    qed
    show "triple (?F e) (on_disk (rollback_detach ft i ?q)) (\<lambda>_. ?E e) ?E" for e :: py_error
      by (rule triple_weaken_post [OF hold_disk [OF triple_rollback [of i f uuid ?q ft "\<lambda>_ _. False", OF assms(2,4) refl]]]) (simp_all add: holds_def)
    show "triple (holds (\<lambda>t'. look i t \<noteq> None \<and> removed_from t i t') tmp ?moved) (on_disk (commit_detach ft ?q)) ?Q ?E" for u :: unit
      by (rule triple_weaken_post [OF hold_disk [OF triple_commit [of f uuid i ?q ft, OF assms(4) refl]]]) (auto simp: holds_def)
  qed
  show "triple (holds ((=) t) tmp (\<lambda>dk. q = ?q \<and> ?moved dk))
      (io_bind
        (io_compensate
          (io_bind (on_table (co_delete co i None)) (\<lambda>deleted. if deleted then io_return () else io_raise (missing_certificate i)))
          (on_disk (rollback_detach ft i q))) (\<lambda>_. on_disk (commit_detach ft q))) ?Q ?E" for q
  proof (cases "q = ?q")
    case True
    show ?thesis unfolding True by (rule triple_weaken_pre [OF rest]) (simp add: holds_def)
  next
    case False
    then show ?thesis by (simp add: holds_def triple_def)
  qed
qed

lemma delete_all_or_nothing:
  assumes "ok (va_table v)" and "random_name uuid" and "tidy_vault look uuid v" and "at_most_one (mg_faults mg) (va_disk v)"
    and "\<not> faulty (mg_faults mg) \<or> (\<forall>x. look i (va_table v) = Some x \<longrightarrow> sound x)"
    and "delete_certificate mg co uuid i v = (v', r)"
  shows "ok (va_table v') \<and> va_temp v' = va_temp v \<and>
    (certificates_kept look v v' \<and> r \<noteq> Inr () \<or>
     assigned_in co i assignable_collections (va_table v) = Inr False \<and> certificate_gone look i v v' \<and> (r = Inr () \<or> faulty (mg_faults mg)))"
proof (cases "assigned_in co i assignable_collections (va_table v) = Inr False \<and> 1 \<le> i")
  case False
  then have "v' = v \<and> r \<noteq> Inr ()"
    using assms(6) by (auto simp: delete_certificate_def reading_def io_bind_def io_raise_def on_disk_def store_detach_def store_dir_def
      io_lift_def split: sum.splits if_splits prod.splits)
  then show ?thesis using assms(1) by (simp add: certificates_kept_def)
next
  case True
  let ?f = "dirs (va_disk v)" and ?ft = "mg_faults mg"
  have free: "?f (quarantine_dir uuid i) = None" "look i (va_table v) = None \<Longrightarrow> ?f (live_dir i) = None"
    using assms(3) by (auto simp: tidy_vault_def dirs_at)
  let ?rest = "io_bind (on_disk (store_detach ?ft uuid i)) (\<lambda>q.
        io_bind
          (io_compensate
            (io_bind (on_table (co_delete co i None)) (\<lambda>deleted. if deleted then io_return () else io_raise (missing_certificate i)))
            (on_disk (rollback_detach ?ft i q))) (\<lambda>_. on_disk (commit_detach ?ft q)))"
  have run: "?rest v = (v', r)"
    using assms(6) True by (simp add: delete_certificate_def reading_def io_bind_def)
  have pre: "holds ((=) (va_table v)) (va_temp v) (\<lambda>dk. dirs dk = ?f \<and> at_most_one ?ft dk) v" using assms(4) by (simp add: holds_def)
  have i: "1 \<le> i" using True by simp
  note post = triple_run [OF delete_rest [of "va_table v" i uuid ?f ?ft, OF assms(1) i assms(2) free assms(5)] pre run]
  have gone: "certificate_gone look i v v'" "ok (va_table v')" "va_temp v' = va_temp v"
    if "holds (\<lambda>t'. look i (va_table v) \<noteq> None \<and> removed_from (va_table v) i t') (va_temp v)
      (\<lambda>dk. \<exists>x. dirs dk = ?f(live_dir i := None, quarantine_dir uuid i := x)) v'"
    using that by (auto simp: holds_def removed_from_def certificate_gone_def dirs_at)
  show ?thesis
  proof (cases r)
    case (Inl e)
    with post consider "holds (spared (va_table v)) (va_temp v) (\<lambda>dk. dirs dk = ?f) v'"
      | "faulty ?ft" "holds (\<lambda>t'. look i (va_table v) \<noteq> None \<and> removed_from (va_table v) i t') (va_temp v)
          (\<lambda>dk. \<exists>x. dirs dk = ?f(live_dir i := None, quarantine_dir uuid i := x)) v'" by auto
    then show ?thesis
    proof cases
      case 1
      then show ?thesis using Inl by (simp add: holds_def spared_def certificates_kept_def dirs_at)
    next
      case 2
      from gone [OF 2(2)] show ?thesis using Inl 2(1) True by simp
    qed
  next
    case (Inr u)
    with post have "holds (\<lambda>t'. look i (va_table v) \<noteq> None \<and> removed_from (va_table v) i t') (va_temp v)
        (\<lambda>dk. \<exists>x. dirs dk = ?f(live_dir i := None, quarantine_dir uuid i := x)) v'" by (auto simp: holds_def)
    from gone [OF this] show ?thesis using Inr True by simp
  qed
qed

section \<open>Renewal\<close>

abbreviation restoring :: "faults \<Rightarrow> int \<Rightarrow> string option \<Rightarrow> ('r vault, unit) io" where
  "restoring ft i q \<equiv> io_bind (on_disk (store_delete ft i)) (\<lambda>_. on_disk (rollback_detach ft i q))"

lemma restore_material:
  assumes "1 \<le> i"
  shows "triple (holds T tmp (\<lambda>dk. dirs dk = h \<and> quiet ft dk)) (restoring ft i (Some (quarantine_dir uuid i)))
     (\<lambda>_. holds T tmp (\<lambda>dk. dirs dk = h(live_dir i := h (quarantine_dir uuid i), quarantine_dir uuid i := None))) E"
proof (rule triple_bind)
  let ?g = "h(live_dir i := None)"
  have d: "triple (\<lambda>dk. dirs dk = h \<and> quiet ft dk) (store_delete ft i) (\<lambda>_ dk. dirs dk = ?g \<and> quiet ft dk) (\<lambda>_ _. False)"
    using triple_store_delete [OF assms, of h ft True "\<lambda>_ _. False"] by simp
  show "triple (holds T tmp (\<lambda>dk. dirs dk = h \<and> quiet ft dk)) (on_disk (store_delete ft i)) (\<lambda>_. holds T tmp (\<lambda>dk. dirs dk = ?g \<and> quiet ft dk)) E"
    by (rule triple_weaken_post [OF hold_disk [OF d]]) (simp_all add: holds_def)
  have r: "triple (\<lambda>dk. dirs dk = ?g \<and> quiet ft dk \<and> True) (io_when (dir_exists (quarantine_dir uuid i)) (rename_dir ft (quarantine_dir uuid i) (live_dir i)))
      (\<lambda>_ dk. dirs dk = ?g(quarantine_dir uuid i := None, live_dir i := ?g (quarantine_dir uuid i)) \<and> quiet ft dk \<and> True) (\<lambda>_ _. False)"
    by (rule triple_move_quiet) simp_all
  have q: "rollback_detach ft i (Some (quarantine_dir uuid i)) = io_when (dir_exists (quarantine_dir uuid i)) (rename_dir ft (quarantine_dir uuid i) (live_dir i))"
    by (simp add: rollback_detach_def store_dirs(1) [OF assms])
  have e: "?g(quarantine_dir uuid i := None, live_dir i := ?g (quarantine_dir uuid i)) = h(live_dir i := h (quarantine_dir uuid i), quarantine_dir uuid i := None)"
    by (auto simp: fun_eq_iff)
  have r': "triple (\<lambda>dk. dirs dk = ?g \<and> quiet ft dk) (rollback_detach ft i (Some (quarantine_dir uuid i)))
      (\<lambda>_ dk. dirs dk = h(live_dir i := h (quarantine_dir uuid i), quarantine_dir uuid i := None)) (\<lambda>_ _. False)"
    unfolding q by (rule triple_weaken [OF r]) (simp_all add: e [symmetric])
  show "triple (holds T tmp (\<lambda>dk. dirs dk = ?g \<and> quiet ft dk)) (on_disk (rollback_detach ft i (Some (quarantine_dir uuid i))))
      (\<lambda>_. holds T tmp (\<lambda>dk. dirs dk = h(live_dir i := h (quarantine_dir uuid i), quarantine_dir uuid i := None))) E" for u :: bool
    by (rule triple_weaken_post [OF hold_disk [OF r']]) (simp_all add: holds_def)
qed

definition renewed :: "issued_certificate \<Rightarrow> manager \<Rightarrow> payload" where
  "renewed issued mg = [(''expires_at'', PInt (iss_expires_at issued)), (''expires_on'', PStr (mg_isoformat mg (iss_expires_at issued))),
     (''status'', PStr ''active'')]"

lemma plain_renewed [simp]: "plain (renewed issued mg)"
  by (simp add: plain_def renewed_def dict_ok_def)

text \<open>The publication of the renewed material, with the old one in quarantine.\<close>

lemma republish:
  assumes "ok t" and "look i t = Some x" and "sound x" and "1 \<le> i" and "random_name uuid" and "random_name uuid'"
    and "f (stage_dir uuid' i) = None" and "f (quarantine_dir uuid i) = None" and "f (live_dir i) = Some old"
    and "\<not> faulty ft \<or> trusted a" and "g = f(live_dir i := None, quarantine_dir uuid i \<mapsto> old)" and "plain d"
  shows "triple (holds ((=) t) tmp (\<lambda>dk. dirs dk = g \<and> at_most_one ft dk))
     (io_compensate
        (io_bind (on_disk (store_put ft uuid' i b)) (\<lambda>_. io_bind (on_table (co_update co i d a)) (or_missing i)))
        (restoring ft i (Some (quarantine_dir uuid i))))
     (\<lambda>r. holds (changed t i d r) tmp (\<lambda>dk. dirs dk = g(live_dir i \<mapsto> bundle_files b, backup_dir i := None) \<and> at_most_one ft dk))
     (\<lambda>_. holds ((=) t) tmp (\<lambda>dk. \<exists>x y. dirs dk = f(backup_dir i := x, stage_dir uuid' i := y)))"
proof (rule triple_compensate)
  let ?F = "\<lambda>_::py_error. holds ((=) t) tmp (\<lambda>dk. dirs dk \<in> put_leftovers g uuid' i b \<and> quiet ft dk)"
  let ?E = "\<lambda>_::py_error. holds ((=) t) tmp (\<lambda>dk. \<exists>x y. dirs dk = f(backup_dir i := x, stage_dir uuid' i := y))"
  have free: "g (stage_dir uuid' i) = None" using assms(6,7) by (simp add: assms(11))
  have left: "g(live_dir i \<mapsto> bundle_files b, backup_dir i := None) \<in> put_leftovers g uuid' i b"
    by (rule put_leftoversI(4)) (use free assms(6) in simp_all)
  show "triple (holds ((=) t) tmp (\<lambda>dk. dirs dk = g \<and> at_most_one ft dk))
      (io_bind (on_disk (store_put ft uuid' i b)) (\<lambda>_. io_bind (on_table (co_update co i d a)) (or_missing i)))
      (\<lambda>r. holds (changed t i d r) tmp (\<lambda>dk. dirs dk = g(live_dir i \<mapsto> bundle_files b, backup_dir i := None) \<and> at_most_one ft dk)) ?F"
  proof (rule triple_bind)
    show "triple (holds ((=) t) tmp (\<lambda>dk. dirs dk = g \<and> at_most_one ft dk)) (on_disk (store_put ft uuid' i b))
       (\<lambda>_. holds ((=) t) tmp (\<lambda>dk. dirs dk = g(live_dir i \<mapsto> bundle_files b, backup_dir i := None) \<and> at_most_one ft dk)) ?F"
      by (rule triple_weaken_post [OF hold_disk [OF triple_store_put [of i uuid' g ft b, OF assms(4,6) free]]]) (simp_all add: holds_def)
    show "triple (holds ((=) t) tmp (\<lambda>dk. dirs dk = g(live_dir i \<mapsto> bundle_files b, backup_dir i := None) \<and> at_most_one ft dk))
       (io_bind (on_table (co_update co i d a)) (or_missing i))
       (\<lambda>r. holds (changed t i d r) tmp (\<lambda>dk. dirs dk = g(live_dir i \<mapsto> bundle_files b, backup_dir i := None) \<and> at_most_one ft dk)) ?F" for u :: unit
      by (rule triple_weaken_post [OF change [OF assms(1-3,10,12)]]) (use left in \<open>auto simp: holds_def faultless_quiet\<close>)
  qed
  show "triple (?F e) (restoring ft i (Some (quarantine_dir uuid i))) (\<lambda>_. ?E e) ?E" for e :: py_error
  proof -
    have "triple (\<lambda>v. \<exists>h. holds (\<lambda>t'. t = t' \<and> h \<in> put_leftovers g uuid' i b) tmp (\<lambda>dk. dirs dk = h \<and> quiet ft dk) v)
        (restoring ft i (Some (quarantine_dir uuid i))) (\<lambda>_. ?E e) ?E"
    proof (rule triple_exI, rule triple_weaken_post [OF restore_material [OF assms(4)]])
      fix h u v
      assume v: "holds (\<lambda>t'. t = t' \<and> h \<in> put_leftovers g uuid' i b) tmp
        (\<lambda>dk. dirs dk = h(live_dir i := h (quarantine_dir uuid i), quarantine_dir uuid i := None)) v"
      then obtain x y where "h = g(backup_dir i := x, stage_dir uuid' i := y) \<or>
          h = g(live_dir i \<mapsto> bundle_files b, backup_dir i := x, stage_dir uuid' i := y)" by (auto simp: holds_def put_leftovers_def)
      then have "h(live_dir i := h (quarantine_dir uuid i), quarantine_dir uuid i := None) = f(backup_dir i := x, stage_dir uuid' i := y)"
        using assms(6,8,9) stage_not_quarantine(3) [of uuid i, symmetric] by (auto simp: fun_eq_iff assms(11))
      with v show "?E e v" by (auto simp: holds_def)
    qed (simp add: holds_def)
    then show ?thesis by (rule triple_weaken_pre) (auto simp: holds_def)
  qed
qed

definition present_still :: "'r \<Rightarrow> int \<Rightarrow> 'r \<Rightarrow> bool" where
  "present_still t i t' \<longleftrightarrow> ok t' \<and> look i t' \<noteq> None \<and> (\<forall>j. j \<noteq> i \<longrightarrow> look j t' = look j t)"

lemma clear_quarantine:
  assumes "ok t" and "look i t = Some x" and "1 \<le> i" and "random_name uuid"
    and "g = f(live_dir i := None, quarantine_dir uuid i \<mapsto> old)" and "h = g(live_dir i \<mapsto> new, backup_dir i := None)"
  shows "triple (holds (changed t i d r) tmp (\<lambda>dk. dirs dk = h \<and> at_most_one ft dk))
     (io_compensate (io_bind (on_disk (commit_detach ft (Some (quarantine_dir uuid i)))) (\<lambda>_. io_return r))
        (io_bind (restoring ft i (Some (quarantine_dir uuid i))) (\<lambda>_. io_ignore (on_table (co_update co i x None)))))
     (\<lambda>q. holds (\<lambda>t'. q = r \<and> changed t i d r t') tmp (\<lambda>dk. dirs dk = f(live_dir i \<mapsto> new, backup_dir i := None, quarantine_dir uuid i := None)))
     (\<lambda>_ v. faulty ft \<and> holds (present_still t i) tmp (\<lambda>dk. \<exists>z. dirs dk = f(live_dir i := z, backup_dir i := None, quarantine_dir uuid i := None)) v)"
    (is "triple ?P _ ?Q ?E")
proof (rule triple_compensate)
  let ?q = "quarantine_dir uuid i"
  let ?F = "\<lambda>(_::py_error) v. \<exists>z. holds (\<lambda>t'. faulty ft \<and> changed t i d r t') tmp (\<lambda>dk. dirs dk = h(?q := z) \<and> quiet ft dk) v"
  have c: "triple (\<lambda>dk. dirs dk = h \<and> at_most_one ft dk) (commit_detach ft (Some ?q)) (\<lambda>_ dk. dirs dk = h(?q := None))
      (\<lambda>_ dk. faulty ft \<and> (\<exists>z. dirs dk = h(?q := z)) \<and> quiet ft dk)"
    by (simp add: commit_detach_def) (rule triple_weaken_post [OF triple_clear], auto)
  have hq: "h(?q := None) = f(live_dir i \<mapsto> new, backup_dir i := None, ?q := None)" using stage_not_quarantine(3) [of uuid i, symmetric] by (auto simp: fun_eq_iff assms(5,6))
  show "triple ?P (io_bind (on_disk (commit_detach ft (Some ?q))) (\<lambda>_. io_return r)) ?Q ?F"
  proof (rule triple_bind)
    show "triple ?P (on_disk (commit_detach ft (Some ?q))) (\<lambda>_. holds (changed t i d r) tmp (\<lambda>dk. dirs dk = h(?q := None))) ?F"
      by (rule triple_weaken_post [OF hold_disk [OF c]]) (auto simp: holds_def)
  qed (simp add: triple_def io_return_def holds_def hq)
  show "triple (?F e) (io_bind (restoring ft i (Some ?q)) (\<lambda>_. io_ignore (on_table (co_update co i x None)))) (\<lambda>_. ?E e) ?E" for e :: py_error
  proof (rule triple_exI, rule triple_bind [OF restore_material [OF assms(3)]])
    fix z u
    let ?k = "(h(?q := z))(live_dir i := (h(?q := z)) ?q, ?q := None)"
    have k: "?k = f(live_dir i := z, backup_dir i := None, ?q := None)" using stage_not_quarantine(3) [of uuid i, symmetric] by (auto simp: fun_eq_iff assms(5,6))
    show "triple (holds (\<lambda>t'. faulty ft \<and> changed t i d r t') tmp (\<lambda>dk. dirs dk = ?k)) (io_ignore (on_table (co_update co i x None))) (\<lambda>_. ?E e) ?E"
    proof (rule triple_ignore, rule triple_weaken_post [OF hold_table
        [where Q = "\<lambda>_ t'. faulty ft \<and> present_still t i t'" and E = "\<lambda>_ t'. faulty ft \<and> present_still t i t'"]])
      fix t1 t2 q assume c: "faulty ft \<and> changed t i d r t1" and u: "co_update co i x None t1 = Inr (t2, q)"
      then have "ok t1" "look i t1 = Some r" by (simp_all add: changed_def)
      from update [OF this _ _ u] shape [OF assms(1,2)] c show "faulty ft \<and> present_still t i t2"
        by (auto simp: present_still_def changed_def)
    qed (unfold k, auto simp: holds_def present_still_def changed_def)
  qed
qed

lemma replace_material:
  assumes "ok t" and "look i t = Some x" and "sound x" and "1 \<le> i" and "random_name uuid" and "random_name uuid'"
    and "f (stage_dir uuid' i) = None" and "f (quarantine_dir uuid i) = None" and "f (live_dir i) = Some old"
    and "\<not> faulty ft \<or> trusted a" and "plain d"
  shows "triple (holds ((=) t) tmp (\<lambda>dk. dirs dk = f \<and> at_most_one ft dk))
     (io_bind (on_disk (store_detach ft uuid i)) (\<lambda>q.
        io_bind
          (io_compensate (io_bind (on_disk (store_put ft uuid' i b)) (\<lambda>_. io_bind (on_table (co_update co i d a)) (or_missing i)))
             (restoring ft i q)) (\<lambda>result.
          io_compensate (io_bind (on_disk (commit_detach ft q)) (\<lambda>_. io_return result))
            (io_bind (restoring ft i q) (\<lambda>_. io_ignore (on_table (co_update co i x None)))))))
     (\<lambda>r. holds (changed t i d r) tmp (\<lambda>dk. dirs dk = f(live_dir i \<mapsto> bundle_files b, backup_dir i := None, quarantine_dir uuid i := None)))
     (\<lambda>_ v. holds ((=) t) tmp (\<lambda>dk. \<exists>x y. dirs dk = f(backup_dir i := x, stage_dir uuid' i := y)) v \<or>
        faulty ft \<and> holds (present_still t i) tmp (\<lambda>dk. \<exists>z. dirs dk = f(live_dir i := z, backup_dir i := None, quarantine_dir uuid i := None)) v)"
    (is "triple ?P _ ?Q ?E")
proof (rule triple_bind)
  let ?q = "quarantine_dir uuid i"
  let ?g = "f(live_dir i := None, ?q \<mapsto> old)"
  let ?h = "?g(live_dir i \<mapsto> bundle_files b, backup_dir i := None)"
  have same: "\<exists>x y. f = f(backup_dir i := x, stage_dir uuid' i := y)" by (metis fun_upd_triv)
  show "triple ?P (on_disk (store_detach ft uuid i)) (\<lambda>q. holds (\<lambda>t'. t = t' \<and> q = Some ?q) tmp (\<lambda>dk. dirs dk = ?g \<and> at_most_one ft dk)) ?E"
    by (rule triple_weaken_post [OF hold_disk [OF triple_store_detach [of i uuid f ft, OF assms(4,5,8)]]])
      (use same assms(9) in \<open>auto simp: holds_def\<close>)
  show "triple (holds (\<lambda>t'. t = t' \<and> q = Some ?q) tmp (\<lambda>dk. dirs dk = ?g \<and> at_most_one ft dk))
     (io_bind
        (io_compensate (io_bind (on_disk (store_put ft uuid' i b)) (\<lambda>_. io_bind (on_table (co_update co i d a)) (or_missing i)))
           (restoring ft i q)) (\<lambda>result.
        io_compensate (io_bind (on_disk (commit_detach ft q)) (\<lambda>_. io_return result))
          (io_bind (restoring ft i q) (\<lambda>_. io_ignore (on_table (co_update co i x None)))))) ?Q ?E" for q
  proof (cases "q = Some ?q")
    case True
    have "triple (holds ((=) t) tmp (\<lambda>dk. dirs dk = ?g \<and> at_most_one ft dk))
       (io_bind
          (io_compensate (io_bind (on_disk (store_put ft uuid' i b)) (\<lambda>_. io_bind (on_table (co_update co i d a)) (or_missing i)))
             (restoring ft i (Some ?q))) (\<lambda>result.
          io_compensate (io_bind (on_disk (commit_detach ft (Some ?q))) (\<lambda>_. io_return result))
            (io_bind (restoring ft i (Some ?q)) (\<lambda>_. io_ignore (on_table (co_update co i x None)))))) ?Q ?E"
      by (rule triple_bind, rule triple_weaken_post [OF republish [of t i x uuid uuid' f old ft a ?g d, OF assms(1-10) refl assms(11)]], assumption, blast,
          rule triple_weaken_post [OF clear_quarantine [of t i x uuid ?g f old ?h, OF assms(1,2,4,5) refl refl]])
        (auto simp: holds_def)
    then show ?thesis unfolding True by (rule triple_weaken_pre) (simp add: holds_def)
  next
    case False
    then show ?thesis by (simp add: triple_def holds_def)
  qed
qed

lemma renew_safe:
  assumes "ok (va_table v)" and "tidy_vault look uuid v" and "tidy_vault look uuid' v" and "random_name uuid" and "random_name uuid'"
    and "at_most_one (mg_faults mg) (va_disk v)" and "\<not> faulty (mg_faults mg) \<or> trusted a"
    and "\<And>x. look i (va_table v) = Some x \<Longrightarrow> sound x \<and> dir_of (live_dir i) (va_disk v) \<noteq> None"
    and "renew_certificate mg co uuid uuid' i force a v = (v', r)"
  shows "ok (va_table v') \<and> va_temp v' = va_temp v \<and>
    (\<forall>j. j \<noteq> i \<longrightarrow> look j (va_table v') = look j (va_table v) \<and> dir_of (live_dir j) (va_disk v') = dir_of (live_dir j) (va_disk v)) \<and>
    (case r of
       Inr rec \<Rightarrow> (look i (va_table v) = Some rec \<and> renewal_wanted mg force rec = Inr False \<and> v' = v) \<or>
         (\<exists>x issue rq issued. look i (va_table v) = Some x \<and> renewal_wanted mg force x = Inr True \<and> renewal_request x = Inr rq \<and>
            mg_issue mg = Some issue \<and> issue rq None = Inr issued \<and> look i (va_table v') = Some rec \<and>
            pget ''status'' rec = PStr ''active'' \<and> pget ''expires_at'' rec = PInt (iss_expires_at issued) \<and>
            dir_of (live_dir i) (va_disk v') = Some (bundle_files (issued_bundle issued)))
     | Inl _ \<Rightarrow> certificates_kept look v v' \<or> faulty (mg_faults mg) \<and> look i (va_table v') \<noteq> None)"
proof (cases "\<exists>x rq issue issued. look i (va_table v) = Some x \<and> pget ''provider'' x = PStr ''letsencrypt'' \<and> renewal_wanted mg force x = Inr True \<and>
    renewal_request x = Inr rq \<and> mg_issue mg = Some issue \<and> issue rq None = Inr issued")
  case False
  then have "v' = v \<and> (\<forall>rec. r = Inr rec \<longrightarrow> look i (va_table v) = Some rec \<and> renewal_wanted mg force rec = Inr False)"
    using assms(9) get
    by (auto simp: renew_certificate_def reading_def io_bind_def or_missing_def io_lift_def note_none_def io_raise_def io_return_def
        replace_acme_def run_issuer_def split: option.splits if_splits sum.splits)
  then show ?thesis using assms(1) by (cases r) (auto simp: certificates_kept_def)
next
  case True
  then obtain x rq issue issued where x: "look i (va_table v) = Some x" "pget ''provider'' x = PStr ''letsencrypt''" "renewal_wanted mg force x = Inr True"
    "renewal_request x = Inr rq" "mg_issue mg = Some issue" "issue rq None = Inr issued" by blast
  let ?ft = "mg_faults mg" and ?f = "dirs (va_disk v)" and ?d = "renewed issued mg" and ?b = "issued_bundle issued"
  from assms(8) [OF x(1)] obtain old where s: "sound x" "?f (live_dir i) = Some old" by (auto simp: dirs_at)
  have free: "?f (stage_dir uuid' i) = None" "?f (quarantine_dir uuid i) = None" using assms(2,3) by (simp_all add: tidy_vault_def dirs_at)
  have i: "1 \<le> i" using shape [OF assms(1) x(1)] by simp
  have run: "io_bind (on_disk (store_detach ?ft uuid i)) (\<lambda>q.
        io_bind
          (io_compensate (io_bind (on_disk (store_put ?ft uuid' i ?b)) (\<lambda>_. io_bind (on_table (co_update co i ?d a)) (or_missing i)))
             (restoring ?ft i q)) (\<lambda>result.
          io_compensate (io_bind (on_disk (commit_detach ?ft q)) (\<lambda>_. io_return result))
            (io_bind (restoring ?ft i q) (\<lambda>_. io_ignore (on_table (co_update co i x None)))))) v = (v', r)"
    using assms(9) x get by (simp add: renew_certificate_def reading_def or_missing_def note_none_def replace_acme_def run_issuer_def
        io_bind_def [of "\<lambda>v. (v, f v)" for f] renewed_def Let_def io_bind_def [of "reading g" for g])
  have pre: "holds ((=) (va_table v)) (va_temp v) (\<lambda>dk. dirs dk = ?f \<and> at_most_one ?ft dk) v" using assms(6) by (simp add: holds_def)
  note R = replace_material [of "va_table v" i x uuid uuid' ?f old ?ft a ?d "va_temp v" ?b, OF assms(1) x(1) s(1) i assms(4,5) free s(2) assms(7) plain_renewed]
  note post = triple_run [OF R, OF pre run]
  show ?thesis
  proof (cases r)
    case (Inl e)
    with post consider "holds ((=) (va_table v)) (va_temp v) (\<lambda>dk. \<exists>x y. dirs dk = ?f(backup_dir i := x, stage_dir uuid' i := y)) v'"
      | "faulty ?ft" "holds (present_still (va_table v) i) (va_temp v)
          (\<lambda>dk. \<exists>z. dirs dk = ?f(live_dir i := z, backup_dir i := None, quarantine_dir uuid i := None)) v'" by auto
    then show ?thesis
    proof cases
      case 1
      then have "certificates_kept look v v'" "ok (va_table v')" "va_temp v' = va_temp v"
        using assms(1) by (auto simp: holds_def certificates_kept_def dirs_at)
      then show ?thesis using Inl by (simp add: certificates_kept_def)
    next
      case 2
      then show ?thesis using Inl by (auto simp: holds_def present_still_def dirs_at)
    qed
  next
    case (Inr rec)
    with post have q: "holds (changed (va_table v) i ?d rec) (va_temp v)
        (\<lambda>dk. dirs dk = ?f(live_dir i \<mapsto> bundle_files ?b, backup_dir i := None, quarantine_dir uuid i := None)) v'" by simp
    have "pget ''status'' rec = PStr ''active''" "pget ''expires_at'' rec = PInt (iss_expires_at issued)"
      using q by (simp_all add: holds_def changed_def renewed_def)
    then show ?thesis using q x(1,3,4,5,6) Inr by (auto simp: holds_def changed_def dirs_at)
  qed
qed

end

end
