(* ===== verification/Cert_Table.thy ===== *)
theory Cert_Table
  imports Cert_Laws
begin

text \<open>
  The table of certificates as the provider of \<open>certificate_table\<close>: the inventory of certificates, hosts and streams behind
  \<open>TableResources\<close>, the laws of its operations, and what follows for the operations of \<open>CertificateStore\<close>.
\<close>

section \<open>The inventory\<close>

record inventory =
  iv_certs :: cert_db
  iv_routing :: routing_db
  iv_streams :: "wire_stream list"

definition on_certs :: "(cert_db \<Rightarrow> py_error + cert_db \<times> 'a) \<Rightarrow> inventory \<Rightarrow> py_error + inventory \<times> 'a" where
  "on_certs f iv = ebind (f (iv_certs iv)) (\<lambda>(db, x). Inr (iv\<lparr>iv_certs := db\<rparr>, x))"

definition list_collection :: "string \<Rightarrow> string \<Rightarrow> inventory \<Rightarrow> py_error + payload list" where
  "list_collection now collection iv =
     (case dict_get wire_host_kind collection of
        Some kind \<Rightarrow> Inr (project_list now (Some kind) (iv_routing iv) (rdb_hosts (iv_routing iv)))
      | None \<Rightarrow> if collection = ''streams'' then list_streams now (iv_streams iv) else Inl (ValueError collection))"

definition table_ops :: "string \<Rightarrow> inventory cert_ops" where
  "table_ops now =
     \<lparr>co_get = (\<lambda>i iv. Inr (cert_get i (iv_certs iv))), co_create = (\<lambda>d actor. on_certs (cert_create now d actor)),
      co_update = (\<lambda>i d actor. on_certs (cert_update now i d actor)), co_delete = (\<lambda>i actor. on_certs (cert_delete i actor)),
      co_list = list_collection now\<rparr>"

definition cert_look :: "int \<Rightarrow> inventory \<Rightarrow> payload option" where
  "cert_look i iv = cert_get i (iv_certs iv)"

section \<open>The invariant of the table\<close>

definition metadata_ok :: "payload \<Rightarrow> bool" where
  "metadata_ok m \<longleftrightarrow> (\<exists>e. dict_ok e \<and> m = extension_metadata e certificate_known)"

definition certs_ok :: "cert_db \<Rightarrow> bool" where
  "certs_ok db \<longleftrightarrow> distinct (map ct_id (cdb_rows db)) \<and> (\<forall>r\<in>set (cdb_rows db). 1 \<le> ct_id r \<and> metadata_ok (ct_metadata r)) \<and>
     distinct (cdb_domains db) \<and> (\<forall>p\<in>set (cdb_domains db). casefold (snd p) = snd p)"

text \<open>A record that the hooks let its own compensation through: what ownership metadata it has is well-formed, and no
  extension field is taken for a caller.\<close>

definition hooks_pass :: "payload \<Rightarrow> bool" where
  "hooks_pass d \<longleftrightarrow> pget ''principal_id'' d = PNone \<and> pget ''principal'' d = PNone \<and>
     (case pget ''meta'' d of PNone \<Rightarrow> True | PDict m \<Rightarrow> (\<exists>x. ownership_from_meta m = Inr x) | _ \<Rightarrow> False)"

definition sound_record :: "payload \<Rightarrow> bool" where
  "sound_record d \<longleftrightarrow> dict_ok d \<and> hooks_pass d"

definition passes_hooks :: "caller option \<Rightarrow> bool" where
  "passes_hooks actor \<longleftrightarrow> (case actor of None \<Rightarrow> True | Some (Authenticated p) \<Rightarrow> sp_is_admin p | Some (Fields _) \<Rightarrow> False)"

lemma extensions_of_metadata [simp]: "extensions_of (extension_metadata e K) = filter (\<lambda>(k, v). k \<notin> K) e"
  by (simp add: extensions_of_def extension_metadata_def pget_def dict_get_or_def Let_def)

lemma dict_get_filter: "dict_get (filter (\<lambda>(k, v). P k) d) k = (if P k then dict_get d k else None)"
  by (induction d) auto

lemma dict_ok_filter: "dict_ok d \<Longrightarrow> dict_ok (filter P d)"
  by (simp add: dict_ok_def distinct_map_filter)

lemma metadata_ok_extensions:
  assumes "metadata_ok m"
  shows "dict_ok (extensions_of m)" "k \<in> certificate_known \<Longrightarrow> dict_get (extensions_of m) k = None"
    "dict_or_empty (PDict m) = Inr m" "dict_or_empty (pget ''extensions'' m) = Inr (extensions_of m)"
proof -
  from assms obtain e where e: "dict_ok e" "m = extension_metadata e certificate_known" by (auto simp: metadata_ok_def)
  then show "dict_ok (extensions_of m)" "k \<in> certificate_known \<Longrightarrow> dict_get (extensions_of m) k = None"
    by (simp_all add: dict_ok_filter dict_get_filter)
  show "dict_or_empty (PDict m) = Inr m" by (simp add: dict_or_empty_def)
  show "dict_or_empty (pget ''extensions'' m) = Inr (extensions_of m)"
    unfolding e(2) extensions_of_metadata
    by (simp add: dict_or_empty_def extension_metadata_def pget_def dict_get_or_def Let_def)
qed

text \<open>What a reader sees of a row.\<close>

definition cert_fields :: "cert_db \<Rightarrow> cert_row \<Rightarrow> payload" where
  "cert_fields db row =
     [(''id'', PInt (ct_id row)), (''owner_principal_id'', ct_owner_principal_id row), (''owner_user_id'', ct_owner_principal_id row),
      (''nice_name'', PStr (ct_nice_name row)), (''provider'', PStr (ct_provider row)), (''challenge_type'', ct_challenge_type row),
      (''key_type'', PStr (ct_key_type row)), (''material_ref'', ct_material_ref row), (''expires_at'', ct_expires_at row),
      (''status'', PStr (ct_status row)), (''domain_names'', PList (map PStr (cert_domains (ct_id row) db))),
      (''created_on'', PStr (ct_created_at row)), (''modified_on'', PStr (ct_updated_at row))]"

lemma cert_fields_ok [simp]: "dict_ok (cert_fields db row)"
  by (simp add: cert_fields_def dict_ok_def)

lemma cert_wire:
  assumes "metadata_ok (ct_metadata row)"
  shows "dict_get (cert_project db row) k = (case dict_get (cert_fields db row) k of None \<Rightarrow> dict_get (extensions_of (ct_metadata row)) k | Some v \<Rightarrow> Some v)"
    and "dict_ok (cert_project db row)"
    and "dict_ok (clean_aggregate ''certificates'' (cert_project db row))"
    and "dict_get (clean_aggregate ''certificates'' (cert_project db row)) k =
      (if k \<in> {''metadata_json'', ''created_at'', ''updated_at''} then None else dict_get (cert_project db row) k)"
proof -
  have p: "cert_project db row = dict_update (extensions_of (ct_metadata row)) (cert_fields db row)"
    by (simp add: cert_project_def cert_fields_def)
  show "dict_get (cert_project db row) k = (case dict_get (cert_fields db row) k of None \<Rightarrow> dict_get (extensions_of (ct_metadata row)) k | Some v \<Rightarrow> Some v)"
    unfolding p by (simp add: dict_get_update)
  show ok: "dict_ok (cert_project db row)" unfolding p using metadata_ok_extensions(1) [OF assms] by simp
  then show "dict_ok (clean_aggregate ''certificates'' (cert_project db row))" by (simp add: clean_aggregate_def dict_ok_filter Let_def)
  have h: "''certificates'' \<notin> dict_keys wire_host_kind" by (simp add: wire_host_kind_def)
  show "dict_get (clean_aggregate ''certificates'' (cert_project db row)) k =
      (if k \<in> {''metadata_json'', ''created_at'', ''updated_at''} then None else dict_get (cert_project db row) k)"
    using h by (simp add: clean_aggregate_def dict_get_filter Let_def)
qed

section \<open>The hooks\<close>

lemma cert_alias: "alias_of (cert_context actor alias d) = casefold alias"
  by (simp add: alias_of_def cert_context_def first_text_def)

lemma cert_hooked_payload:
  assumes "cert_hooked actor alias d db = Inr d'"
  shows "d' = d \<or> casefold alias = ''create'' \<and> (\<exists>v. d' = dict_set ''owner_principal_id'' v d)"
proof -
  let ?cx = "cert_context actor alias d"
  from assms obtain cx where own: "enforce_ownership (cert_lookup db) id ?cx = Inr cx" and d': "field_dict (cx_payload cx) = Inr d'"
    by (auto simp: cert_hooked_def pre_handler_def ebind_Inr_iff)
  have pl: "cx_payload ?cx = PDict d" and noted: "note_routing_row id v row ?cx = Inr ?cx" for v row
    by (simp_all add: cert_context_def note_routing_row_def)
  have "cx_payload cx = PDict d \<or> casefold alias = ''create'' \<and> (\<exists>v. cx_payload cx = PDict (dict_set ''owner_principal_id'' v d))"
  proof (cases "casefold alias \<in> set ownership_mutations")
    case False
    then have "cx = ?cx" using own by (simp add: enforce_ownership_def cert_alias)
    then show ?thesis by (simp add: pl)
  next
    case True
    obtain pid where pid: "principal_id_of ?cx = Inr pid"
      using own True by (auto simp: enforce_ownership_def cert_alias pl ebind_Inr_iff)
    show ?thesis
    proof (cases "casefold alias = ''create'' \<and> pid \<noteq> None \<and> cx_table ?cx \<in> set owned_tables")
      case True
      then show ?thesis using own \<open>casefold alias \<in> set ownership_mutations\<close> unfolding enforce_ownership_def pl cert_alias pid
        by (auto simp: pl split: if_splits)
    next
      case False
      then have "cx = ?cx" using own \<open>casefold alias \<in> set ownership_mutations\<close> unfolding enforce_ownership_def pl cert_alias pid
        by (simp only: noted if_False pyval.case ebind.simps simp_thms) (auto simp: ebind_Inr_iff noted split: if_splits option.splits)
      then show ?thesis by (simp add: pl)
    qed
  qed
  with d' show ?thesis by auto
qed

definition owned_well :: "payload \<Rightarrow> bool" where
  "owned_well ext \<longleftrightarrow> (case pget ''meta'' ext of PDict m \<Rightarrow> \<exists>x. ownership_from_meta m = Inr x | _ \<Rightarrow> True)"

lemma cert_hooked_passes:
  assumes "passes_hooks actor" and "alias \<in> {''update'', ''delete''}" and "pget ''id'' d = PInt i" and "find_cert i db = Some row"
    and "metadata_ok (ct_metadata row)" and "owned_well (extensions_of (ct_metadata row))"
    and "pget ''principal_id'' d = PNone" and "pget ''principal'' d = PNone"
  shows "cert_hooked actor alias d db = Inr d"
proof -
  let ?cx = "cert_context actor alias d"
  have "casefold ''update'' = ''update''" "casefold ''delete'' = ''delete''" by code_simp+
  then have al: "alias_of ?cx = alias" using assms(2) unfolding cert_alias by auto
  have pl: "cx_payload ?cx = PDict d" and noted: "note_routing_row id v r ?cx = Inr ?cx" and tab: "cx_table ?cx = ''certificates''"
    and res: "cx_result ?cx = PNone" for v r
    by (simp_all add: cert_context_def note_routing_row_def)
  consider (nobody) "actor = None" | (admin) p where "actor = Some (Authenticated p)" "sp_is_admin p"
    using assms(1) by (auto simp: passes_hooks_def split: option.splits caller.splits)
  note who = this
  have act: "acting ?cx = actor"
    by (cases rule: who) (simp_all add: acting_def cert_context_def)
  have admin: "is_admin_caller ?cx \<or> actor = None"
    unfolding is_admin_caller_def principal_value_def act by (cases rule: who) (simp_all add: pget_def dict_get_or_def)
  have pid: "\<exists>p. principal_id_of ?cx = Inr p \<and> (actor = None \<longrightarrow> p = None)"
    unfolding principal_id_of_def act pl res by (cases rule: who) (simp_all add: assms(7,8) pget2_def dict_get_or_def Let_def)
  have auth: "enforce_authorization (cert_lookup db) ?cx = Inr ()"
    using admin by (auto simp: enforce_authorization_def act split: option.splits)
  have raw: "enforce_raw_nginx_policy ?cx = Inr ()" by (simp add: enforce_raw_nginx_policy_def tab)
  have look: "cert_lookup db (cx_table ?cx) i = Some (cert_columns row)" by (simp add: cert_lookup_def tab assms(4))
  have own: "\<exists>x. ownership_from_row (cert_columns row) = Inr x"
  proof -
    have m: "pget ''metadata_json'' (cert_columns row) = PDict (ct_metadata row)" by (simp add: cert_columns_def pget_def dict_get_or_def)
    show ?thesis using assms(6) metadata_ok_extensions(3,4) [OF assms(5)]
      by (auto simp: ownership_from_row_def m owned_well_def split: pyval.splits)
  qed
  have "enforce_ownership (cert_lookup db) id ?cx = Inr ?cx"
  proof (cases "actor = None")
    case True
    then have "principal_id_of ?cx = Inr None" using pid by auto
    moreover have "check_owner ?cx None (cert_columns row) = Inr ()"
      using own unfolding check_owner_def principal_value_def act by (auto simp: True split: option.splits)
    ultimately show ?thesis
      using assms(2) unfolding enforce_ownership_def pl al by (auto simp: pl assms(3) look noted)
  next
    case False
    then have "is_admin_caller ?cx" using admin by blast
    moreover obtain p where "principal_id_of ?cx = Inr p" using pid by blast
    ultimately show ?thesis
      using assms(2) unfolding enforce_ownership_def pl al by (auto simp: pl assms(3) look noted)
  qed
  then show ?thesis by (simp add: cert_hooked_def pre_handler_def auth raw pl)
qed

section \<open>The steps of a write\<close>

lemma cert_values_facts:
  assumes "cert_values d = Inr v"
  shows "dict_get v ''metadata_json'' = Some (PDict (extension_metadata d certificate_known))"
    and "dict_get v ''status'' = Some (PStr (text_or ''status'' ''pending'' d))"
    and "dict_get v ''expires_at'' = Some (pget ''expires_at'' d)"
  using assms by (auto simp: cert_values_def ebind_Inr_iff)

lemma cert_prepare_facts:
  assumes "cert_prepare alias d db = Inr (d', root)"
  shows "d' = d \<or> alias = ''update'' \<and> (\<exists>i row. dict_get d ''id'' = Some (PInt i) \<longrightarrow> find_cert i db = Some row \<and> d' = dict_update (cert_project db row) d)"
    and "dict_get root ''metadata_json'' = Some (PDict (extension_metadata d' certificate_known))"
    and "dict_get root ''status'' = Some (PStr (text_or ''status'' ''pending'' d'))"
    and "dict_get root ''expires_at'' = Some (pget ''expires_at'' d')"
proof -
  from assms obtain d2 v where d2: "(if alias = ''update''
            then ebind (ebind (dict_at d ''id'') py_int) (\<lambda>i.
              Inr (case find_cert i db of None \<Rightarrow> d | Some row \<Rightarrow> dict_update (cert_project db row) d))
            else Inr d) = Inr d2"
    and v: "cert_values d2 = Inr v" and r: "d' = d2" "root = v \<or> (\<exists>i. root = v @ [(''id'', PInt i)])"
    unfolding cert_prepare_def by (elim ebind_InrE) (auto simp: ebind_Inr_iff split: if_splits)
  then show "d' = d \<or> alias = ''update'' \<and> (\<exists>i row. dict_get d ''id'' = Some (PInt i) \<longrightarrow> find_cert i db = Some row \<and> d' = dict_update (cert_project db row) d)"
    by (auto simp: ebind_Inr_iff split: if_splits option.splits)
  from cert_values_facts [OF v] r show "dict_get root ''metadata_json'' = Some (PDict (extension_metadata d' certificate_known))"
    and "dict_get root ''status'' = Some (PStr (text_or ''status'' ''pending'' d'))"
    and "dict_get root ''expires_at'' = Some (pget ''expires_at'' d')"
    by (auto simp: map_add_Some_iff)
qed

lemma cert_prepare_update:
  assumes "dict_get d ''id'' = Some (PInt i)" and "find_cert i db = Some row"
  shows "cert_prepare ''update'' d db = Inr (d', root) \<Longrightarrow> d' = dict_update (cert_project db row) d"
  using assms by (auto simp: cert_prepare_def dict_at_def note_none_def ebind_Inr_iff split: if_splits)

lemma assign_cert_facts:
  assumes "assign_cert now root r = Inr row"
  shows "ct_id row = ct_id r"
    and "dict_get root ''metadata_json'' = Some (PDict m) \<Longrightarrow> ct_metadata row = m"
    and "dict_get root ''status'' = Some (PStr s) \<Longrightarrow> ct_status row = s"
    and "dict_get root ''expires_at'' = Some e \<Longrightarrow> ct_expires_at row = e"
  using assms unfolding assign_cert_def by (elim ebind_InrE, auto simp: optional_field_def dict_get_or_def)+

lemma replace_domains_facts:
  assumes "replace_domains i d db = Inr db'"
  shows "cdb_rows db' = cdb_rows db" and "j \<noteq> i \<Longrightarrow> cert_domains j db' = cert_domains j db"
    and "distinct (cdb_domains db) \<Longrightarrow> distinct (cdb_domains db')"
    and "\<forall>p\<in>set (cdb_domains db). casefold (snd p) = snd p \<Longrightarrow> \<forall>p\<in>set (cdb_domains db'). casefold (snd p) = snd p"
proof -
  from assms obtain names where n: "distinct (map (\<lambda>v. (i, casefold (py_str v))) names)"
    "db' = db\<lparr>cdb_domains := filter (\<lambda>p. fst p \<noteq> i) (cdb_domains db) @ map (\<lambda>v. (i, casefold (py_str v))) names\<rparr>"
    unfolding replace_domains_def Let_def by (elim ebind_InrE) (auto split: if_splits)
  show "cdb_rows db' = cdb_rows db" by (simp add: n(2))
  have "filter (\<lambda>p. fst p = j) (filter (\<lambda>p. fst p \<noteq> i) xs) = filter (\<lambda>p. fst p = j) xs" if "j \<noteq> i" for xs :: "(int \<times> string) list"
    using that by (induction xs) auto
  then show "cert_domains j db' = cert_domains j db" if "j \<noteq> i"
    using that by (simp add: n(2) cert_domains_def filter_empty_conv)
  show "distinct (cdb_domains db) \<Longrightarrow> distinct (cdb_domains db')" using n(1) by (auto simp: n(2))
  show "\<forall>p\<in>set (cdb_domains db). casefold (snd p) = snd p \<Longrightarrow> \<forall>p\<in>set (cdb_domains db'). casefold (snd p) = snd p"
    by (auto simp: n(2))
qed

lemma find_cert_id: "find_cert i db = Some r \<Longrightarrow> ct_id r = i \<and> r \<in> set (cdb_rows db)"
  by (auto simp: find_cert_def find_Some_iff)

lemma cert_get_cong:
  "find_cert j db' = find_cert j db \<Longrightarrow> cert_domains j db' = cert_domains j db \<Longrightarrow> cert_get j db' = cert_get j db"
  by (cases "find_cert j db") (auto simp: cert_get_def cert_project_def dest: find_cert_id)

lemma cert_get_Some: "cert_get i db = Some x \<longleftrightarrow> (\<exists>row. find_cert i db = Some row \<and> x = clean_aggregate ''certificates'' (cert_project db row))"
  by (auto simp: cert_get_def)

lemma cert_get_None: "cert_get i db = None \<longleftrightarrow> find_cert i db = None"
  by (simp add: cert_get_def)

lemma metadata_okI: "dict_ok d \<Longrightarrow> metadata_ok (extension_metadata d certificate_known)"
  by (auto simp: metadata_ok_def)

lemma metadata_ok_row: "certs_ok db \<Longrightarrow> find_cert i db = Some row \<Longrightarrow> metadata_ok (ct_metadata row) \<and> 1 \<le> i"
  using find_cert_id [of i db row] by (auto simp: certs_ok_def)

lemma hooks_pass_cong:
  assumes "\<And>k. k \<in> {''principal_id'', ''principal'', ''meta''} \<Longrightarrow> dict_get d k = dict_get e k"
  shows "hooks_pass d = hooks_pass e"
  using assms [of "''principal_id''"] assms [of "''principal''"] assms [of "''meta''"]
  by (simp add: hooks_pass_def pget_def dict_get_or_def)

lemma cert_field_known: "k \<notin> certificate_known \<Longrightarrow> dict_get (cert_fields db row) k = None"
  unfolding dict_get_None cert_fields_def certificate_known_def by (rule contrapos_nn, assumption) auto

lemma record_keys:
  assumes "k \<in> {''principal_id'', ''principal'', ''meta''}"
  shows "k \<notin> certificate_known" and "k \<notin> {''metadata_json'', ''created_at'', ''updated_at''}"
  using assms by (auto simp: certificate_known_def)

lemma sound_row:
  assumes "metadata_ok (ct_metadata row)"
  shows "sound_record (clean_aggregate ''certificates'' (cert_project db row)) \<longleftrightarrow> hooks_pass (extensions_of (ct_metadata row))"
proof -
  have "dict_get (clean_aggregate ''certificates'' (cert_project db row)) k = dict_get (extensions_of (ct_metadata row)) k"
    if "k \<in> {''principal_id'', ''principal'', ''meta''}" for k
    unfolding cert_wire(4) [OF assms] cert_wire(1) [OF assms] cert_field_known [OF record_keys(1) [OF that]] option.case
    by (rule if_not_P) (rule record_keys(2) [OF that])
  from hooks_pass_cong [OF this] show ?thesis using cert_wire(3) [OF assms] by (simp add: sound_record_def)
qed

lemma hooks_pass_extensions: "hooks_pass (extensions_of (extension_metadata d certificate_known)) = hooks_pass d"
proof (rule hooks_pass_cong)
  fix k assume "k \<in> {''principal_id'', ''principal'', ''meta''}"
  from record_keys(1) [OF this] show "dict_get (extensions_of (extension_metadata d certificate_known)) k = dict_get d k"
    by (simp add: dict_get_filter)
qed

section \<open>The laws of the table\<close>

lemma cert_create_law:
  assumes "certs_ok db" and "sound_record d" and "cert_create now d actor db = Inr (db', rec)"
  shows "certs_ok db' \<and> sound_record rec \<and> (\<exists>i\<ge>1. ebind (dict_at rec ''id'') py_int = Inr i \<and> cert_get i db = None \<and>
    cert_get i db' = Some rec \<and> (\<forall>j. j \<noteq> i \<longrightarrow> cert_get j db' = cert_get j db))"
proof -
  let ?i = "next_id ct_id (cdb_rows db)"
  from assms(3) obtain d1 d2 root row db2 where d1: "cert_hooked actor ''create'' d db = Inr d1" and p: "cert_prepare ''create'' d1 db = Inr (d2, root)"
    and row: "assign_cert now root (blank_cert now ?i) = Inr row"
    and db: "replace_domains ?i d2 (db\<lparr>cdb_rows := cdb_rows db @ [row]\<rparr>) = Inr db'"
    and rec: "rec = clean_aggregate ''certificates'' (cert_project db' row)"
    unfolding cert_create_def Let_def by (elim ebind_InrE) (auto simp: ebind_Inr_iff)
  have d2: "d2 = d1" using cert_prepare_facts(1) [OF p] by simp
  have hp: "hooks_pass d1 = hooks_pass d \<and> dict_ok d1"
  proof -
    from cert_hooked_payload [OF d1] consider "d1 = d" | v where "d1 = dict_set ''owner_principal_id'' v d" by blast
    then show ?thesis
    proof cases
      case (2 v)
      have "hooks_pass d1 = hooks_pass d" unfolding 2 by (rule hooks_pass_cong) auto
      then show ?thesis using assms(2) by (simp add: 2 sound_record_def)
    qed (use assms(2) in \<open>simp add: sound_record_def\<close>)
  qed
  have m: "ct_metadata row = extension_metadata d1 certificate_known" and i: "ct_id row = ?i"
    using assign_cert_facts(1,2) [OF row] cert_prepare_facts(2) [OF p] by (simp_all add: d2 blank_cert_def)
  have mok: "metadata_ok (ct_metadata row)" using hp m by (simp add: metadata_okI)
  note R = replace_domains_facts [OF db]
  have rows: "cdb_rows db' = cdb_rows db @ [row]" using R(1) by simp
  have fresh: "?i \<notin> ct_id ` set (cdb_rows db)" by (rule next_id_fresh)
  have pos: "1 \<le> ?i" using fold_max [of "map ct_id (cdb_rows db)" 0] by (simp add: next_id_def)
  have none: "find_cert ?i db = None" using fresh unfolding find_cert_def find_None_iff by (metis imageI)
  moreover have "find_cert ?i db' = Some row" using none i unfolding find_cert_def rows find_append by simp
  moreover have "cert_get j db' = cert_get j db" if "j \<noteq> ?i" for j
  proof (rule cert_get_cong)
    show "find_cert j db' = find_cert j db" using that i by (simp add: find_cert_def rows find_append split: option.splits)
    show "cert_domains j db' = cert_domains j db" using R(2) [OF that] by (simp add: cert_domains_def)
  qed
  moreover have "certs_ok db'"
    using assms(1) R(3,4) fresh i pos mok unfolding certs_ok_def rows by auto
  moreover have "sound_record rec"
    unfolding rec sound_row [OF mok] m hooks_pass_extensions using hp assms(2) by (simp add: sound_record_def)
  moreover have "dict_get rec ''id'' = Some (PInt ?i)"
    by (simp add: rec cert_wire(4) [OF mok] cert_wire(1) [OF mok] cert_fields_def i)
  then have "ebind (dict_at rec ''id'') py_int = Inr ?i" by (simp add: dict_at_def note_none_def)
  ultimately show ?thesis using pos rec unfolding cert_get_def by auto
qed

lemma find_update_same: "find (\<lambda>r. key r = i) rows = Some q \<Longrightarrow> key r = i \<Longrightarrow>
   find (\<lambda>r. key r = i) (update_where (\<lambda>q. key q = i) (\<lambda>_. r) rows) = Some r"
  unfolding update_where_def by (induction rows) (auto split: if_splits)

lemma cert_write_frame:
  assumes "certs_ok db" and "alias \<noteq> ''create''" and "casefold alias = alias" and "cert_write now alias i d actor db = Inr db'" and "dict_ok d"
  shows "certs_ok db' \<and> (\<forall>j. j \<noteq> i \<longrightarrow> cert_get j db' = cert_get j db) \<and>
    (\<exists>d2 root row r. cert_prepare alias d db = Inr (d2, root) \<and> find_cert i db = Some r \<and> assign_cert now root r = Inr row \<and> find_cert i db' = Some row)"
proof -
  from assms(4) obtain d1 d2 root r row where d1: "cert_hooked actor alias d db = Inr d1" and p: "cert_prepare alias d1 db = Inr (d2, root)"
    and r: "find_cert i db = Some r" and row: "assign_cert now root r = Inr row"
    and db: "replace_domains i d2 (db\<lparr>cdb_rows := update_where (\<lambda>q. ct_id q = i) (\<lambda>_. row) (cdb_rows db)\<rparr>) = Inr db'"
    unfolding cert_write_def by (elim ebind_InrE) (auto simp: note_none_def ebind_Inr_iff split: option.splits)
  have d: "d1 = d" using cert_hooked_payload [OF d1] assms(2,3) by simp
  note R = replace_domains_facts [OF db]
  have i: "ct_id row = i" using assign_cert_facts(1) [OF row] find_cert_id [OF r] by simp
  have rows: "cdb_rows db' = update_where (\<lambda>q. ct_id q = i) (\<lambda>_. row) (cdb_rows db)" using R(1) by simp
  have ids: "map ct_id (cdb_rows db') = map ct_id (cdb_rows db)" unfolding rows using i by (intro map_update_where) simp
  have mok: "metadata_ok (ct_metadata row)"
  proof -
    have "dict_ok d2"
      using cert_prepare_facts(1) [OF p] assms(5) p r d cert_wire(2) metadata_ok_row [OF assms(1)]
      by (auto simp: cert_prepare_def ebind_Inr_iff split: if_splits option.splits)
    then show ?thesis using assign_cert_facts(2) [OF row] cert_prepare_facts(2) [OF p] by (simp add: metadata_okI)
  qed
  have f: "find_cert i db' = Some row"
    using r unfolding find_cert_def rows by (rule find_update_same) (rule i)
  have other: "cert_get j db' = cert_get j db" if "j \<noteq> i" for j
  proof (rule cert_get_cong)
    show "find_cert j db' = find_cert j db" unfolding find_cert_def rows using that i by (intro find_update_other) simp_all
    show "cert_domains j db' = cert_domains j db" using R(2) [OF that] by (simp add: cert_domains_def)
  qed
  have "\<forall>q\<in>set (cdb_rows db'). 1 \<le> ct_id q \<and> metadata_ok (ct_metadata q)"
    using assms(1) mok metadata_ok_row [OF assms(1) r] i unfolding rows by (auto simp: certs_ok_def update_where_def)
  then have "certs_ok db'" using assms(1) R(3,4) unfolding certs_ok_def ids by simp
  then show ?thesis using other p r row f unfolding d by blast
qed

text \<open>An update: the aggregate that is written is what the reader saw, with the fields of the payload.\<close>

definition overlay :: "int \<Rightarrow> payload \<Rightarrow> payload \<Rightarrow> payload" where
  "overlay i x d = dict_update [(''id'', PInt i)] (dict_update x d)"

lemma dict_get_overlay:
  assumes "dict_ok x" and "dict_get x ''id'' = Some (PInt i)" and "dict_ok d" and "dict_get d ''id'' \<in> {None, Some (PInt i)}"
  shows "dict_ok (overlay i x d)"
    and "dict_get (overlay i x d) k = (case dict_get d k of None \<Rightarrow> dict_get x k | Some v \<Rightarrow> Some v)"
    and "dict_get (overlay i x d) ''id'' = Some (PInt i)"
proof -
  show "dict_ok (overlay i x d)" by (simp add: overlay_def dict_ok_def [of "[(''id'', PInt i)]"])
  show g: "dict_get (overlay i x d) k = (case dict_get d k of None \<Rightarrow> dict_get x k | Some v \<Rightarrow> Some v)" for k
    using assms by (auto simp: overlay_def dict_get_update split: option.splits)
  show "dict_get (overlay i x d) ''id'' = Some (PInt i)" using assms(2,4) by (auto simp: g split: option.splits)
qed

lemma cert_id_field: "metadata_ok (ct_metadata row) \<Longrightarrow> find_cert i db = Some row \<Longrightarrow>
   dict_get (clean_aggregate ''certificates'' (cert_project db row)) ''id'' = Some (PInt i)"
  using find_cert_id [of i db row] by (simp add: cert_wire(4) cert_wire(1) cert_fields_def)

lemma cert_look_shape: "certs_ok db \<Longrightarrow> cert_get i db = Some x \<Longrightarrow> dict_ok x \<and> dict_get x ''id'' = Some (PInt i) \<and> 1 \<le> i"
  using metadata_ok_row [of db i] cert_wire(3) cert_id_field by (auto simp: cert_get_Some)

lemma cert_update_write:
  assumes "certs_ok db" and "cert_get i db = Some x" and "dict_ok d" and "dict_get d ''id'' \<in> {None, Some (PInt i)}"
  shows "cert_update now i d actor db = ebind (cert_write now ''update'' i (overlay i x d) actor db) (\<lambda>db. Inr (db, cert_get i db))"
  using dict_get_overlay(3) [of x i d] cert_look_shape [OF assms(1,2)] assms(3,4)
  by (simp add: cert_update_def assms(2) overlay_def dict_at_def note_none_def Let_def)

lemma cert_update_law:
  assumes "certs_ok db" and "cert_get i db = Some x" and "dict_ok d" and "dict_get d ''id'' \<in> {None, Some (PInt i)}"
    and "cert_update now i d actor db = Inr (db', r)"
  shows "certs_ok db' \<and> cert_get i db' = r \<and> (\<forall>j. j \<noteq> i \<longrightarrow> cert_get j db' = cert_get j db) \<and>
    (\<exists>y. r = Some y \<and> (\<forall>s. dict_get d ''status'' = Some (PStr s) \<and> s \<noteq> [] \<longrightarrow> pget ''status'' y = PStr s) \<and>
      (\<forall>e. dict_get d ''expires_at'' = Some e \<longrightarrow> pget ''expires_at'' y = e))"
proof -
  from assms(2) obtain row where row: "find_cert i db = Some row" and x: "x = clean_aggregate ''certificates'' (cert_project db row)"
    by (auto simp: cert_get_Some)
  have m: "metadata_ok (ct_metadata row)" using metadata_ok_row [OF assms(1) row] by simp
  have sh: "dict_ok x" "dict_get x ''id'' = Some (PInt i)" using cert_look_shape [OF assms(1,2)] by simp_all
  note A = dict_get_overlay [OF sh assms(3,4)]
  have u: "casefold ''update'' = ''update''" by code_simp
  from assms(5) have w: "cert_write now ''update'' i (overlay i x d) actor db = Inr db'" and r: "r = cert_get i db'"
    by (auto simp: cert_update_write [OF assms(1-4)] ebind_Inr_iff)
  obtain d2 root row' where F: "certs_ok db'" "\<forall>j. j \<noteq> i \<longrightarrow> cert_get j db' = cert_get j db"
      "cert_prepare ''update'' (overlay i x d) db = Inr (d2, root)" "assign_cert now root row = Inr row'" "find_cert i db' = Some row'"
    using cert_write_frame [OF assms(1) _ u w A(1)] row by auto
  have d2: "d2 = dict_update (cert_project db row) (overlay i x d)" by (rule cert_prepare_update [OF A(3) row F(3)])
  have got: "dict_get d2 k = Some v" if "dict_get d k = Some v" for k v
    by (simp add: d2 dict_get_update [OF A(1)] A(2) that)
  have m': "metadata_ok (ct_metadata row')" using metadata_ok_row [OF F(1,5)] by simp
  let ?y = "clean_aggregate ''certificates'' (cert_project db' row')"
  have y: "pget ''status'' ?y = PStr (ct_status row')" "pget ''expires_at'' ?y = ct_expires_at row'"
    by (simp_all add: pget_def dict_get_or_def cert_wire(4) [OF m'] cert_wire(1) [OF m'] cert_fields_def)
  have "pget ''status'' ?y = PStr s" if "dict_get d ''status'' = Some (PStr s) \<and> s \<noteq> []" for s
  proof -
    have "text_or ''status'' ''pending'' d2 = s" using got that by (simp add: text_or_def pget_def dict_get_or_def py_or_def)
    then show ?thesis using assign_cert_facts(3) [OF F(4)] cert_prepare_facts(3) [OF F(3)] by (simp add: y)
  qed
  moreover have "pget ''expires_at'' ?y = e" if "dict_get d ''expires_at'' = Some e" for e
  proof -
    have "pget ''expires_at'' d2 = e" using got [OF that] by (simp add: pget_def dict_get_or_def)
    then show ?thesis using assign_cert_facts(4) [OF F(4)] cert_prepare_facts(4) [OF F(3)] by (simp add: y)
  qed
  ultimately show ?thesis using F(1,2,5) r by (simp add: cert_get_def)
qed

lemma cert_delete_law:
  assumes "certs_ok db" and "cert_delete i actor db = Inr (db', b)"
  shows "certs_ok db' \<and> cert_get i db' = None \<and> (b \<longleftrightarrow> cert_get i db \<noteq> None) \<and> (\<forall>j. j \<noteq> i \<longrightarrow> cert_get j db' = cert_get j db)"
proof (cases "cert_get i db")
  case None
  then show ?thesis using assms by (simp add: cert_delete_def)
next
  case (Some x)
  with assms(2) have db': "db' = db\<lparr>cdb_rows := filter (\<lambda>r. ct_id r \<noteq> i) (cdb_rows db), cdb_domains := filter (\<lambda>p. fst p \<noteq> i) (cdb_domains db),
      cdb_challenges := filter (\<lambda>p. fst p \<noteq> i) (cdb_challenges db)\<rparr>" and b: "b"
    by (auto simp: cert_delete_def ebind_Inr_iff)
  have "cert_get j db' = cert_get j db" if "j \<noteq> i" for j
  proof (rule cert_get_cong)
    show "find_cert j db' = find_cert j db" using that by (simp add: find_cert_def db' find_filter_other)
    have "filter (\<lambda>p. fst p = j) (filter (\<lambda>p. fst p \<noteq> i) xs) = filter (\<lambda>p. fst p = j) xs" for xs :: "(int \<times> string) list"
      using that by (induction xs) auto
    then show "cert_domains j db' = cert_domains j db" by (simp add: cert_domains_def db')
  qed
  moreover have "find_cert i db' = None" by (simp add: find_cert_def db' find_None_iff)
  moreover have "certs_ok db'" using assms(1) by (auto simp: certs_ok_def db' distinct_map_filter)
  ultimately show ?thesis using Some b by (simp add: cert_get_None)
qed

lemma cert_delete_sound:
  assumes "certs_ok db" and "cert_get i db = Some x" and "sound_record x"
  shows "\<exists>db'. cert_delete i None db = Inr (db', True)"
proof -
  from assms(2) obtain row where row: "find_cert i db = Some row" and x: "x = clean_aggregate ''certificates'' (cert_project db row)"
    by (auto simp: cert_get_Some)
  have m: "metadata_ok (ct_metadata row)" using metadata_ok_row [OF assms(1) row] by simp
  have "hooks_pass (extensions_of (ct_metadata row))" using assms(3) sound_row [OF m] by (simp add: x)
  then have "owned_well (extensions_of (ct_metadata row))" by (auto simp: hooks_pass_def owned_well_def split: pyval.splits)
  then have "cert_hooked None ''delete'' [(''id'', PInt i)] db = Inr [(''id'', PInt i)]"
    by (intro cert_hooked_passes [where row = row and i = i] m row) (simp_all add: passes_hooks_def pget_def dict_get_or_def)
  then show ?thesis by (simp add: cert_delete_def assms(2))
qed

lemma cert_values_succeeds:
  assumes "pget ''meta'' d = PNone \<or> (\<exists>m. pget ''meta'' d = PDict m)"
  shows "\<exists>v. cert_values d = Inr v \<and> (\<forall>rest. \<exists>row. assign_cert now (v @ rest) r = Inr row)"
proof -
  have "\<exists>c. (if truthy (pget ''challenge_type'' d) then Inr (pget ''challenge_type'' d)
            else py_get ''challenge_type'' PNone (py_or (pget ''meta'' d) (PDict []))) = Inr c"
    using assms by (auto simp: py_or_def)
  then obtain c where "(if truthy (pget ''challenge_type'' d) then Inr (pget ''challenge_type'' d)
            else py_get ''challenge_type'' PNone (py_or (pget ''meta'' d) (PDict []))) = Inr c" by blast
  note v = this
  show ?thesis
    unfolding cert_values_def v ebind.simps by (intro exI [of _ "_ # _"] conjI allI, rule refl) (simp add: assign_cert_def optional_field_def)
qed

lemma domains_kept:
  assumes "certs_ok db" and "pget ''domain_names'' d = PList (map PStr (cert_domains i db))"
  shows "\<exists>db'. replace_domains i d (db\<lparr>cdb_rows := rows\<rparr>) = Inr db'"
proof -
  let ?ds = "cert_domains i db"
  have "py_or (pget ''domain_names'' d) (PList []) = PList (map PStr ?ds)" by (simp add: assms(2) py_or_def)
  moreover have "distinct (map (\<lambda>v. (i, casefold (py_str v))) (map PStr ?ds))"
  proof -
    have "distinct (filter (\<lambda>p. fst p = i) (cdb_domains db))" using assms(1) by (simp add: certs_ok_def)
    moreover have "map (\<lambda>v. (i, casefold (py_str v))) (map PStr ?ds) = filter (\<lambda>p. fst p = i) (cdb_domains db)"
      unfolding cert_domains_def map_map comp_def using assms(1)
      by (intro map_idI) (auto simp: certs_ok_def)
    ultimately show ?thesis by simp
  qed
  ultimately show ?thesis by (simp add: replace_domains_def Let_def)
qed

lemma cert_update_trusted:
  assumes "certs_ok db" and "cert_get i db = Some x" and "sound_record x" and "passes_hooks actor" and "plain d"
  shows "\<exists>db' r. cert_update now i d actor db = Inr (db', r)"
proof -
  from assms(2) obtain row where row: "find_cert i db = Some row" and x: "x = clean_aggregate ''certificates'' (cert_project db row)"
    by (auto simp: cert_get_Some)
  have m: "metadata_ok (ct_metadata row)" using metadata_ok_row [OF assms(1) row] by simp
  have hp: "hooks_pass (extensions_of (ct_metadata row))" using assms(3) sound_row [OF m] by (simp add: x)
  then have own: "owned_well (extensions_of (ct_metadata row))" by (auto simp: hooks_pass_def owned_well_def split: pyval.splits)
  let ?a = "overlay i x d"
  have sh: "dict_ok x" "dict_get x ''id'' = Some (PInt i)" using cert_look_shape [OF assms(1,2)] by simp_all
  note A = dict_get_overlay [OF sh plain_ok [OF assms(5)]]
  have kept: "dict_get ?a k = dict_get x k" if "k \<notin> {''status'', ''expires_at'', ''expires_on''}" for k
  proof -
    have "dict_get d k = None" using that assms(5) unfolding plain_def dict_get_None by blast
    then show ?thesis by (simp add: A(2))
  qed
  have hx: "hooks_pass x" using assms(3) by (simp add: sound_record_def)
  have "hooks_pass ?a = hooks_pass x" by (rule hooks_pass_cong) (rule kept, auto)
  then have ha: "pget ''principal_id'' ?a = PNone" "pget ''principal'' ?a = PNone" using hx by (simp_all add: hooks_pass_def)
  have hooked: "cert_hooked actor ''update'' ?a db = Inr ?a"
    by (intro cert_hooked_passes [where row = row and i = i] assms(4) m row own ha) (simp_all add: pget_def dict_get_or_def A(3))
  let ?d = "dict_update (cert_project db row) ?a"
  have dget: "dict_get ?d k = dict_get x k" if "k \<in> {''id'', ''meta'', ''domain_names''}" for k
  proof -
    have a: "dict_get ?a k = dict_get x k" using that by (intro kept) auto
    show ?thesis
    proof (cases "dict_get x k")
      case None
      then have "dict_get (cert_project db row) k = None" using that unfolding x cert_wire(4) [OF m] by auto
      with None show ?thesis by (simp add: dict_get_update [OF A(1)] a)
    qed (simp add: dict_get_update [OF A(1)] a)
  qed
  have dom: "pget ''domain_names'' ?d = PList (map PStr (cert_domains i db))"
  proof -
    have "dict_get x ''domain_names'' = Some (PList (map PStr (cert_domains i db)))"
      using find_cert_id [OF row] by (simp add: x cert_wire(4) [OF m] cert_wire(1) [OF m] cert_fields_def)
    then show ?thesis using dget [of "''domain_names''"] by (simp add: pget_def dict_get_or_def)
  qed
  have "pget ''meta'' ?d = pget ''meta'' x" using dget [of "''meta''"] by (simp add: pget_def dict_get_or_def)
  then have "pget ''meta'' ?d = PNone \<or> (\<exists>m. pget ''meta'' ?d = PDict m)" using hx by (auto simp: hooks_pass_def split: pyval.splits)
  from cert_values_succeeds [OF this] obtain v where v: "cert_values ?d = Inr v" "\<And>rest. \<exists>row'. assign_cert now (v @ rest) row = Inr row'"
    by blast
  have prep: "cert_prepare ''update'' ?a db = Inr (?d, v @ [(''id'', PInt i)])"
    using dget [of "''id''"] by (simp add: cert_prepare_def dict_at_def note_none_def A(3) sh(2) row v(1) pget_def dict_get_or_def)
  obtain row' where "assign_cert now (v @ [(''id'', PInt i)]) row = Inr row'" using v(2) by blast
  then have "\<exists>db'. cert_write now ''update'' i ?a actor db = Inr db'"
    using domains_kept [OF assms(1) dom] by (simp add: cert_write_def hooked prep row note_none_def)
  then show ?thesis unfolding cert_update_write [OF assms(1,2) plain_ok [OF assms(5)]] by auto
qed

section \<open>The interface, discharged\<close>

lemma table_ops_simps [simp]:
  "co_get (table_ops now) i iv = Inr (cert_look i iv)" "co_create (table_ops now) d a iv = on_certs (cert_create now d a) iv"
  "co_update (table_ops now) i d a iv = on_certs (cert_update now i d a) iv" "co_delete (table_ops now) i a iv = on_certs (cert_delete i a) iv"
  "co_list (table_ops now) c iv = list_collection now c iv"
  by (simp_all add: table_ops_def cert_look_def)

lemma on_certs_Inr: "on_certs f iv = Inr (iv', x) \<longleftrightarrow> (\<exists>db. f (iv_certs iv) = Inr (db, x) \<and> iv' = iv\<lparr>iv_certs := db\<rparr>)"
  by (auto simp: on_certs_def ebind_Inr_iff)

interpretation certs: certificate_table "table_ops now" cert_look "\<lambda>iv. certs_ok (iv_certs iv)" sound_record passes_hooks for now
proof (unfold_locales, goal_cases)
  case (2 t i x)
  then show ?case using cert_look_shape [of "iv_certs t" i x] by (simp add: cert_look_def)
next
  case (3 t d a t' rec)
  then obtain db where c: "cert_create now d a (iv_certs t) = Inr (db, rec)" "t' = t\<lparr>iv_certs := db\<rparr>" by (auto simp: on_certs_Inr)
  from cert_create_law [OF 3(1,2) c(1)] show ?case by (simp add: c(2) cert_look_def)
next
  case (4 t i x d a t' r)
  then obtain db where c: "cert_update now i d a (iv_certs t) = Inr (db, r)" "t' = t\<lparr>iv_certs := db\<rparr>" by (auto simp: on_certs_Inr)
  from 4(2) have "cert_get i (iv_certs t) = Some x" by (simp add: cert_look_def)
  from cert_update_law [OF 4(1) this 4(3,4) c(1)] show ?case by (simp add: c(2) cert_look_def)
next
  case (5 t i x a d)
  then have "cert_get i (iv_certs t) = Some x" by (simp add: cert_look_def)
  from cert_update_trusted [OF 5(1) this 5(3,4,5)] show ?case by (simp add: on_certs_def) (metis ebind.simps(2) case_prod_conv)
next
  case (6 t i a t' b)
  then obtain db where c: "cert_delete i a (iv_certs t) = Inr (db, b)" "t' = t\<lparr>iv_certs := db\<rparr>" by (auto simp: on_certs_Inr)
  from cert_delete_law [OF 6(1) c(1)] show ?case by (simp add: c(2) cert_look_def)
next
  case (7 t i x)
  then have "cert_get i (iv_certs t) = Some x" by (simp add: cert_look_def)
  from cert_delete_sound [OF 7(1) this 7(3)] show ?case by (auto simp: on_certs_def)
qed simp_all

end
