(* ===== verification/Cert_Workflows.thy ===== *)
theory Cert_Workflows
  imports Cert_Table
begin

text \<open>
  What the operations of \<open>CertificateStore\<close> promise over the table and the material store together: uploads, requests,
  renewals and removals under a fault of the file system, what a removal checks, and where the code falls short.
\<close>

section \<open>The operations of \<open>CertificateStore\<close>, all or nothing\<close>

lemma ownership_from_meta_update:
  assumes "dict_keys e \<inter> set ownership_keys = {}"
  shows "ownership_from_meta (dict_update m e) = ownership_from_meta m"
proof -
  have k: "k \<notin> dict_keys e" if "k \<in> set ownership_keys" for k using assms that by blast
  have g: "pget k (dict_update m e) = pget k m" if "k \<in> set ownership_keys" for k
    using k [OF that] by (simp add: pget_def dict_get_or_def dict_get_update_absent)
  have "map (\<lambda>k. k \<in> dict_keys (dict_update m e)) ownership_keys = map (\<lambda>k. k \<in> dict_keys m) ownership_keys"
    using k by (intro map_cong) auto
  then show ?thesis using g by (simp add: ownership_from_meta_def ownership_field_def ownership_keys_def Let_def)
qed

lemma owned_meta:
  assumes "owned_well d" and "dict_or_empty (pget ''meta'' d) = Inr m"
  shows "\<exists>x. ownership_from_meta m = Inr x"
proof (cases "truthy (pget ''meta'' d)")
  case True
  with assms show ?thesis by (cases "pget ''meta'' d") (auto simp: dict_or_empty_def owned_well_def note_none_def)
next
  case False
  with assms(2) have "m = []" by (simp add: dict_or_empty_def)
  then show ?thesis by (simp add: ownership_from_meta_def ownership_keys_def)
qed

lemma upload_payload_sound:
  assumes "\<exists>x. ownership_from_meta meta = Inr x"
  shows "sound_record (upload_payload mg info nice_name created owner meta)"
proof -
  let ?e = "[(''subject'', PStr (ci_subject info)), (''issuer'', PStr (ci_issuer info)), (''serial'', PStr (ci_serial info))]"
  have "ownership_from_meta (dict_update meta ?e) = ownership_from_meta meta"
    by (rule ownership_from_meta_update) (simp add: ownership_keys_def)
  with assms show ?thesis
    by (simp add: sound_record_def hooks_pass_def upload_payload_def pget_def dict_get_or_def dict_ok_def)
qed

lemma request_payload_sound:
  assumes "\<exists>x. ownership_from_meta meta = Inr x"
  shows "sound_record (request_payload mg rq issued owner meta)"
proof -
  let ?e = "[(''email'', PStr (rq_email rq)), (''dns_provider'', text_or_none (rq_provider rq)),
     (''challenge_type'', PStr (challenge_value (rq_challenge_type rq))), (''key_type'', PStr (rq_key_type rq))]"
  have "ownership_from_meta (dict_update meta ?e) = ownership_from_meta meta"
    by (rule ownership_from_meta_update) (simp add: ownership_keys_def)
  with assms show ?thesis
    by (simp add: sound_record_def hooks_pass_def request_payload_def pget_def dict_get_or_def dict_ok_def Let_def)
qed

lemma certificates_kept_refl [simp]: "certificates_kept look v v"
  by (simp add: certificates_kept_def)

lemma dict_pop_set: "k \<notin> dict_keys d \<Longrightarrow> dict_pop k (dict_set k v d) = d"
  by (induction d) (auto simp: dict_pop_def dict_set_def)

lemma io_bind_lift_cases:
  assumes "io_bind (io_lift m) f v = (v', r)"
  obtains (raised) e where "m = Inl e" "v' = v" "r = Inl e" | (returned) x where "m = Inr x" "f x v = (v', r)"
  using assms by (cases m) (auto simp: io_raise_def)

text \<open>C1. An upload of a new certificate is all or nothing, for a payload whose ownership metadata is complete or absent: if it
  returns, there is exactly one more record, which is active, and its directory holds the uploaded bundle, complete; if it
  raises, whatever the reason (a bad payload, the validator, the table, a fault of the file system at any one call), every record
  and every certificate's material is as it was. At most one call of the file system fails, and if one does, there is no actor
  or it is an administrator; no material lies about without a record. With partial ownership metadata a pending record
  stays (\<open>partial_ownership_sticks\<close>).\<close>

theorem upload_all_or_nothing:
  assumes "certs_ok (iv_certs (va_table v))" and "tidy_vault cert_look uuid v" and "random_name uuid"
    and "at_most_one (mg_faults mg) (va_disk v)" and "\<not> faulty (mg_faults mg) \<or> passes_hooks actor"
    and "pget ''id'' d = PNone" and "owned_well d"
    and "op_upload mg (table_ops now) uuid d actor v = (v', r)"
  shows "certs_ok (iv_certs (va_table v')) \<and> va_temp v' = va_temp v \<and>
    (case r of Inr rec \<Rightarrow> \<exists>b. bundle_of d = Inr b \<and> certificate_published cert_look b v rec v'
     | Inl _ \<Rightarrow> certificates_kept cert_look v v')"
proof -
  from assms(8) show ?thesis
    unfolding op_upload_def assms(6)
  proof (cases rule: io_bind_lift_cases)
    case (returned b)
    from returned(2) show ?thesis
      unfolding if_P [OF refl] io_lift_bind
    proof (cases rule: io_bind_lift_cases)
      case owner: (returned owner)
      from owner(2) show ?thesis
      proof (cases rule: io_bind_lift_cases)
        case meta: (returned meta)
        note s = upload_payload_sound [OF owned_meta [OF assms(7) meta(1)]]
        from certs.upload_new [OF assms(1) s assms(3,2,4,5) meta(2)] show ?thesis using returned(1) by (cases r) auto
      qed (use assms(1) in simp)
    qed (use assms(1) in simp)
  qed (use assms(1) in simp)
qed

lemma request_run:
  assumes "certs_ok (iv_certs (va_table v))" and "tidy_vault cert_look uuid v" and "random_name uuid"
    and "at_most_one (mg_faults mg) (va_disk v)" and "\<not> faulty (mg_faults mg) \<or> passes_hooks actor" and "owned_well d"
    and "io_bind (io_lift (caller_id actor)) (\<lambda>owner. io_bind (io_lift (dict_or_empty (pget ''meta'' d))) (\<lambda>meta.
           request_certificate mg (table_ops now) uuid rq cf actor owner meta)) v = (v', r)"
  shows "certs_ok (iv_certs (va_table v')) \<and> va_temp v' = va_temp v \<and>
    (case r of
       Inr rec \<Rightarrow> \<exists>issue issued. mg_issue mg = Some issue \<and> issue rq cf = Inr issued \<and>
         certificate_published cert_look (issued_bundle issued) v rec v'
     | Inl _ \<Rightarrow> certificates_kept cert_look v v')"
  using assms(7)
proof (cases rule: io_bind_lift_cases)
  case (returned owner)
  from returned(2) show ?thesis
  proof (cases rule: io_bind_lift_cases)
    case meta: (returned meta)
    note s = request_payload_sound [OF owned_meta [OF assms(6) meta(1)]]
    show ?thesis by (rule certs.request_new [OF assms(1) s assms(3,2,4,5) meta(2)])
  qed (use assms(1) in simp)
qed (use assms(1) in simp)

text \<open>C3. A request of a certificate is all or nothing as well, under the conditions of the upload (ownership metadata complete or
  absent, at most one fault of the file system and then no actor or an administrator, no material without a record), and leaves
  no credentials behind: whether it returns or raises, the temporary file with the DNS credentials is gone; if it returns,
  the one new record is active and its directory holds exactly what the issuer gave for the request, which for DNS-01 was
  made with that file; if it raises, every record and all material is as it was.\<close>

theorem request_all_or_nothing:
  assumes "certs_ok (iv_certs (va_table v))" and "tidy_vault cert_look uuid v" and "random_name uuid"
    and "at_most_one (mg_faults mg) (va_disk v)" and "\<not> faulty (mg_faults mg) \<or> passes_hooks actor"
    and "owned_well d" and "temp \<notin> dict_keys (va_temp v)"
    and "op_request mg (table_ops now) catalog uuid temp d actor v = (v', r)"
  shows "certs_ok (iv_certs (va_table v')) \<and> va_temp v' = va_temp v \<and>
    (case r of
       Inr rec \<Rightarrow> \<exists>rq issue issued. request_of d = Inr rq \<and> mg_issue mg = Some issue \<and>
         issue rq (if rq_challenge_type rq = Dns_01 then Some temp else None) = Inr issued \<and>
         certificate_published cert_look (issued_bundle issued) v rec v'
     | Inl _ \<Rightarrow> certificates_kept cert_look v v')"
proof -
  let ?run = "\<lambda>rq cf. io_bind (io_lift (caller_id actor)) (\<lambda>owner. io_bind (io_lift (dict_or_empty (pget ''meta'' d))) (\<lambda>meta.
           request_certificate mg (table_ops now) uuid rq cf actor owner meta))"
  from assms(8) show ?thesis
    unfolding op_request_def
  proof (cases rule: io_bind_lift_cases)
    case (returned rq)
    show ?thesis
    proof (cases "rq_challenge_type rq = Dns_01")
      case False
      with returned(2) have "?run rq None v = (v', r)" by (simp add: Let_def)
      from request_run [OF assms(1-6) this] show ?thesis using returned(1) False by (cases r) auto
    next
      case True
      show ?thesis
      proof (cases "\<exists>provider credentials. rq_provider rq = Some provider \<and> pget ''dns_credentials'' d = PDict credentials")
        case False
        with returned(2) True have "v' = v" "\<exists>e. r = Inl e"
          by (auto simp: Let_def io_raise_def split: option.splits pyval.splits)
        then show ?thesis using assms(1) by auto
      next
        case True
        then obtain provider credentials where p: "rq_provider rq = Some provider" "pget ''dns_credentials'' d = PDict credentials" by blast
        let ?pairs = "fold (\<lambda>(k, v). dict_set k (py_str v)) credentials []"
        let ?v = "v\<lparr>va_temp := dict_set temp (credentials_text ?pairs) (va_temp v)\<rparr>"
        from returned(2) \<open>rq_challenge_type rq = Dns_01\<close> p
        have "io_bind (io_lift (validate_credentials catalog provider ?pairs)) (\<lambda>_.
             io_finally (\<lambda>v. ?run rq (Some temp) (v\<lparr>va_temp := dict_set temp (credentials_text ?pairs) (va_temp v)\<rparr>))
               (\<lambda>v. (v\<lparr>va_temp := dict_pop temp (va_temp v)\<rparr>, Inr ()))) v = (v', r)"
          by (simp add: Let_def)
        then show ?thesis
        proof (cases rule: io_bind_lift_cases)
          case ran: (returned u)
          obtain w r1 where w: "?run rq (Some temp) ?v = (w, r1)" by (rule prod.exhaust)
          with ran(2) have v': "v' = w\<lparr>va_temp := dict_pop temp (va_temp w)\<rparr>" and r: "r = r1"
            by (simp_all add: io_finally_def io_bind_def io_lift_def)
          have "certs_ok (iv_certs (va_table ?v))" "tidy_vault cert_look uuid ?v" "at_most_one (mg_faults mg) (va_disk ?v)"
            using assms(1,2,4) by (simp_all add: tidy_vault_def)
          from request_run [OF this(1,2) assms(3) this(3) assms(5,6) w]
          have R: "certs_ok (iv_certs (va_table w))" "va_temp w = dict_set temp (credentials_text ?pairs) (va_temp v)"
            "case r1 of Inr rec \<Rightarrow> \<exists>issue issued. mg_issue mg = Some issue \<and> issue rq (Some temp) = Inr issued \<and>
               certificate_published cert_look (issued_bundle issued) ?v rec w | Inl _ \<Rightarrow> certificates_kept cert_look ?v w"
            by simp_all
          have "dict_pop temp (va_temp w) = va_temp v" unfolding R(2) using assms(7) by (rule dict_pop_set)
          then show ?thesis using R(1,3) returned(1) \<open>rq_challenge_type rq = Dns_01\<close>
            by (cases r1) (auto simp: v' r certificate_published_def certificates_kept_def)
        qed (use assms(1) in simp)
      qed
    qed
  qed (use assms(1) in simp)
qed

text \<open>What a deletion looks at: every host, and every stream as the compatibility API shows it.\<close>

definition unassigned :: "string \<Rightarrow> int \<Rightarrow> inventory \<Rightarrow> bool" where
  "unassigned now i iv \<longleftrightarrow>
     (\<forall>h\<in>set (rdb_hosts (iv_routing iv)). hr_kind h \<in> {''proxy'', ''redirect'', ''dead''} \<longrightarrow> hr_certificate_id h \<noteq> Some i) \<and>
     (\<forall>w\<in>set (iv_streams iv). \<exists>x c. project_row now ''streams'' (stream_columns w) = Inr x \<and> int_or_zero ''certificate_id'' x = Inr c \<and> c \<noteq> i)"

lemma any_assigned_False: "any_assigned i rows = Inr False \<longleftrightarrow> (\<forall>row\<in>set rows. \<exists>c. int_or_zero ''certificate_id'' row = Inr c \<and> c \<noteq> i)"
  by (induction rows) (auto simp: ebind_Inr_iff split: if_splits)

lemma assigned_in_False: "assigned_in co i cs t = Inr False \<longleftrightarrow> (\<forall>c\<in>set cs. \<exists>rows. co_list co c t = Inr rows \<and> any_assigned i rows = Inr False)"
  by (induction cs) (auto simp: ebind_Inr_iff split: if_splits)

lemma host_certificate: "int_or_zero ''certificate_id'' (project now db h) = Inr (case hr_certificate_id h of None \<Rightarrow> 0 | Some i \<Rightarrow> i)"
proof -
  have "dict_get (project now db h) ''certificate_id'' = Some (PInt (case hr_certificate_id h of None \<Rightarrow> 0 | Some i \<Rightarrow> i))"
    unfolding project_def Let_def by (subst dict_get_update) (simp_all add: dict_ok_def)
  then show ?thesis by (simp add: int_or_zero_def pget_def dict_get_or_def py_or_def)
qed

lemma unassignedI:
  assumes "assigned_in (table_ops now) i assignable_collections iv = Inr False"
  shows "unassigned now i iv"
proof -
  from assms have A: "\<exists>rows. list_collection now c iv = Inr rows \<and> any_assigned i rows = Inr False"
    if "c \<in> set assignable_collections" for c using that by (simp add: assigned_in_False)
  have "hr_certificate_id h \<noteq> Some i"
    if h: "h \<in> set (rdb_hosts (iv_routing iv))" and k: "hr_kind h \<in> {''proxy'', ''redirect'', ''dead''}" for h
  proof -
    from k obtain c where c: "c \<in> set assignable_collections" "dict_get wire_host_kind c = Some (hr_kind h)"
    proof -
      have "dict_get wire_host_kind ''proxy_hosts'' = Some ''proxy''" "dict_get wire_host_kind ''redirection_hosts'' = Some ''redirect''"
        "dict_get wire_host_kind ''dead_hosts'' = Some ''dead''" by (simp_all add: wire_host_kind_def)
      then show thesis using k that [of "''proxy_hosts''"] that [of "''redirection_hosts''"] that [of "''dead_hosts''"]
        by (elim insertE emptyE) (simp_all add: assignable_collections_def)
    qed
    from A [OF c(1)] have "any_assigned i (project_list now (Some (hr_kind h)) (iv_routing iv) (rdb_hosts (iv_routing iv))) = Inr False"
      by (simp add: list_collection_def c(2))
    then have "\<exists>c. int_or_zero ''certificate_id'' (project now (iv_routing iv) h) = Inr c \<and> c \<noteq> i"
      using h by (simp add: any_assigned_False project_list_def)
    then show ?thesis by (simp add: host_certificate) auto
  qed
  moreover have "\<exists>x c. project_row now ''streams'' (stream_columns w) = Inr x \<and> int_or_zero ''certificate_id'' x = Inr c \<and> c \<noteq> i"
    if w: "w \<in> set (iv_streams iv)" for w
  proof -
    have s: "''streams'' \<in> set assignable_collections" "dict_get wire_host_kind ''streams'' = None" by (simp_all add: assignable_collections_def wire_host_kind_def)
    from A [OF s(1)] obtain rows where r: "list_streams now (iv_streams iv) = Inr rows" "any_assigned i rows = Inr False"
      by (auto simp: list_collection_def s(2))
    from r(1) w obtain x where "project_row now ''streams'' (stream_columns w) = Inr x" "x \<in> set rows"
      unfolding list_streams_def emap_Inr_iff by (auto simp: list_all2_conv_all_nth in_set_conv_nth) blast
    then show ?thesis using r(2) by (auto simp: any_assigned_False)
  qed
  ultimately show ?thesis unfolding unassigned_def by blast
qed

text \<open>C4. A removal takes the record and its material together or neither, and it takes a certificate only if no host names it and
  no stream shows it. When it returns, record and directory are gone; when it raises, everything is as it was, or
  (a fault of the file system in the very last call, which clears the quarantine) both are gone as well. At most one call of
  the file system fails, and if one does, the record is one that the hooks let a compensation put back.\<close>

theorem remove_all_or_nothing:
  assumes "certs_ok (iv_certs (va_table v))" and "tidy_vault cert_look uuid v" and "random_name uuid"
    and "at_most_one (mg_faults mg) (va_disk v)" and "ebind (dict_at d ''id'') py_int = Inr i"
    and "\<not> faulty (mg_faults mg) \<or> (\<forall>x. cert_look i (va_table v) = Some x \<longrightarrow> sound_record x)"
    and "op_remove mg (table_ops now) uuid d v = (v', r)"
  shows "certs_ok (iv_certs (va_table v')) \<and> va_temp v' = va_temp v \<and>
    (case r of Inr x \<Rightarrow> unassigned now i (va_table v) \<and> certificate_gone cert_look i v v'
     | Inl _ \<Rightarrow> certificates_kept cert_look v v' \<or>
         faulty (mg_faults mg) \<and> unassigned now i (va_table v) \<and> certificate_gone cert_look i v v')"
proof -
  from assms(7) have run: "io_bind (delete_certificate mg (table_ops now) uuid i) (\<lambda>_. io_return [(''deleted'', PBool True), (''id'', PInt i)]) v = (v', r)"
    by (simp add: op_remove_def assms(5))
  obtain w q where w: "delete_certificate mg (table_ops now) uuid i v = (w, q)" by (rule prod.exhaust)
  with run have "v' = w" and r: "r = (case q of Inl e \<Rightarrow> Inl e | Inr _ \<Rightarrow> Inr [(''deleted'', PBool True), (''id'', PInt i)])"
    by (auto simp: io_bind_def io_return_def split: sum.splits)
  with certs.delete_all_or_nothing [OF assms(1,3,2,4,6) w] show ?thesis
    using unassignedI [of now i "va_table v"] by (cases q) auto
qed



text \<open>C28. A certificate that was issued by a DNS-01 challenge can never be renewed: the credentials file is removed after the first
  issuance and a renewal gives the issuer none, so the Certbot adapter refuses, before it runs anything, every renewal
  that is due or forced. Nothing changes, and the certificate expires.\<close>

theorem dns_renewal_refused:
  assumes "mg_issue mg = Some (\<lambda>rq file. certbot_issue cb catalog (rq_domain_names rq) (rq_challenge_type rq) (rq_key_type rq)
      (rq_email rq) (rq_provider rq) file)"
    and "ebind (dict_at d ''id'') py_int = Inr i" and "cert_look i (va_table v) = Some rec" and "pget ''provider'' rec = PStr ''letsencrypt''"
    and "renewal_wanted mg (truthy (pget ''force'' d)) rec = Inr True"
    and "renewal_request rec = Inr rq" and "rq_challenge_type rq = Dns_01"
  shows "op_renew mg (table_ops now) uuid uuid' d actor v = (v, Inl (ValueError ''DNS-01 requires a provider and credentials file''))"
proof -
  have "run_issuer mg rq None v = (v, Inl (ValueError ''DNS-01 requires a provider and credentials file''))"
    by (simp add: run_issuer_def assms(1,7) io_lift_def certbot_issue_def challenge_args_def split: option.splits)
  then have "replace_acme mg (table_ops now) uuid uuid' i rq actor v = (v, Inl (ValueError ''DNS-01 requires a provider and credentials file''))"
    by (simp add: replace_acme_def io_bind_def)
  then show ?thesis
    using assms(3-6) by (simp add: op_renew_def assms(2) renew_certificate_def reading_def or_missing_def note_none_def io_bind_def io_lift_def)
qed

section \<open>Examples\<close>

definition sample_openssl :: openssl where
  "sample_openssl = \<lparr>os_details = (\<lambda>_. Inr []), os_cert_public = (\<lambda>_. Inr []), os_key_public = (\<lambda>_. Inr []), os_strptime = (\<lambda>_. Some 0)\<rparr>"

definition sample_certbot :: certbot where
  "sample_certbot =
     \<lparr>cb_webroot = ''w'', cb_config_root = ''c'', cb_server = [], cb_staging = False, cb_scratch = ''s'', cb_sha256 = (\<lambda>s. s),
      cb_installed = (\<lambda>_. True), cb_run = (\<lambda>_. (0, [], [])), cb_read = (\<lambda>_. Inr ''new''),
      cb_ssl = sample_openssl, cb_now = 0\<rparr>"

definition sample_issue :: "cert_request \<Rightarrow> string option \<Rightarrow> py_error + issued_certificate" where
  "sample_issue rq credentials_file = Inr \<lparr>iss_certificate = ''new'', iss_private_key = ''new'', iss_chain = [], iss_expires_at = 9\<rparr>"

definition sample_manager :: "(nat \<Rightarrow> bool) \<Rightarrow> manager" where
  "sample_manager fails =
     \<lparr>mg_validate = (\<lambda>b. Inr \<lparr>ci_subject = ''www'', ci_issuer = ''ca'', ci_serial = ''01'', ci_not_before = 0, ci_not_after = 9,
        ci_domain_names = [''www'']\<rparr>),
      mg_issue = Some sample_issue, mg_faults = sample_faults fails, mg_isoformat = (\<lambda>t. ''t''),
      mg_fromisoformat = (\<lambda>s. Inr 0), mg_now = 0\<rparr>"

definition sample_cert :: "int \<Rightarrow> cert_row" where
  "sample_cert i = (blank_cert ''then'' i)\<lparr>ct_nice_name := ''old'', ct_provider := ''letsencrypt'', ct_status := ''active''\<rparr>"

definition sample_routing :: routing_db where
  "sample_routing = \<lparr>rdb_hosts = [], rdb_sources = [], rdb_upstreams = [], rdb_locations = [], rdb_access = [], rdb_observations = [],
     rdb_revisions = []\<rparr>"

definition sample_inventory :: inventory where
  "sample_inventory =
     \<lparr>iv_certs = \<lparr>cdb_rows = [sample_cert 1, (sample_cert 2)\<lparr>ct_challenge_type := PStr ''dns-01''\<rparr>], cdb_domains = [], cdb_challenges = []\<rparr>,
      iv_routing = sample_routing, iv_streams = []\<rparr>"

definition sample_vault :: "inventory vault" where
  "sample_vault = \<lparr>va_table = sample_inventory, va_disk = sample_disk, va_temp = []\<rparr>"

definition sample_upload :: "payload \<Rightarrow> payload" where
  "sample_upload meta = [(''certificate'', PStr ''new''), (''private_key'', PStr ''new''), (''meta'', PDict meta)]"

definition sample_request :: payload where
  "sample_request = [(''domain_names'', PList [PStr ''www'']), (''challenge_type'', PStr ''dns-01''), (''dns_provider'', PStr ''x''),
     (''dns_credentials'', PDict [(''k'', PStr ''secret'')])]"

definition sample_catalog :: "(string, dns_provider) dict" where
  "sample_catalog = [(''x'', \<lparr>dp_id = ''x'', dp_name = ''X'', dp_package_name = ''p'', dp_credential_fields = [''k'']\<rparr>)]"

lemma sample_certs_ok: "certs_ok (iv_certs (va_table sample_vault))"
proof -
  have "metadata_ok []" using metadata_okI [of "[]"] by (simp add: extension_metadata_def)
  then show ?thesis by (simp add: certs_ok_def sample_vault_def sample_inventory_def sample_cert_def blank_cert_def)
qed

lemma hidden_dirs: "stage_dir uuid i \<noteq> live_dir j" "quarantine_dir uuid i \<noteq> live_dir j"
  by simp_all

lemma sample_tidy: "tidy_vault cert_look uuid sample_vault"
proof -
  have d: "dir_of n (va_disk sample_vault) = (if n = live_dir 1 then Some (bundle_files (sample_bundle ''old'')) else if n = live_dir 2 then Some [] else None)" for n
    by (auto simp: sample_vault_def sample_disk_def dir_of_def)
  have "cert_look 1 (va_table sample_vault) \<noteq> None" "cert_look 2 (va_table sample_vault) \<noteq> None" by code_simp+
  then have "i \<noteq> 1 \<and> i \<noteq> 2" if "cert_look i (va_table sample_vault) = None" for i using that by metis
  then show ?thesis unfolding tidy_vault_def d by auto
qed

lemma sample_runs: "random_name ''ab''" "random_name ''cd''" "at_most_one (mg_faults (sample_manager (\<lambda>n. n = k))) (va_disk sample_vault)"
  "passes_hooks None"
  by (simp_all add: random_name_def at_most_one_def sample_faults_def sample_manager_def passes_hooks_def)

lemma owned_well_sample: "owned_well (sample_upload [])" "owned_well sample_request"
  by (simp_all add: owned_well_def sample_upload_def sample_request_def pget_def dict_get_or_def ownership_from_meta_def ownership_keys_def)

text \<open>An upload whose sixth call, the renaming of the staging directory, fails.\<close>

theorem upload_all_or_nothing_witness:
  "case op_upload (sample_manager (\<lambda>n. n = 5)) (table_ops ''now'') ''ab'' (sample_upload []) None sample_vault of (v, r) \<Rightarrow>
     r = Inl (OSError ''I/O error'') \<and> certificates_kept cert_look sample_vault v"
proof -
  have "snd (op_upload (sample_manager (\<lambda>n. n = 5)) (table_ops ''now'') ''ab'' (sample_upload []) None sample_vault) = Inl (OSError ''I/O error'')"
    by code_simp
  moreover obtain v r where run: "op_upload (sample_manager (\<lambda>n. n = 5)) (table_ops ''now'') ''ab'' (sample_upload []) None sample_vault = (v, r)"
    by (rule prod.exhaust)
  moreover have "pget ''id'' (sample_upload []) = PNone" by code_simp
  from upload_all_or_nothing [OF sample_certs_ok sample_tidy sample_runs(1,3) _ this owned_well_sample(1) run] sample_runs(4)
  have "case r of Inr rec \<Rightarrow> \<exists>b. bundle_of (sample_upload []) = Inr b \<and> certificate_published cert_look b sample_vault rec v
     | Inl _ \<Rightarrow> certificates_kept cert_look sample_vault v" by simp
  ultimately show ?thesis by simp
qed

theorem request_all_or_nothing_witness:
  "case op_request (sample_manager (\<lambda>n. n = 99)) (table_ops ''now'') sample_catalog ''ab'' ''t'' sample_request None sample_vault of (v, r) \<Rightarrow>
     \<not> isl r \<and> va_temp v = [] \<and> dir_of (live_dir 3) (va_disk v) = Some (bundle_files (sample_bundle ''new'')) \<and> certs_ok (iv_certs (va_table v))"
proof -
  have "case op_request (sample_manager (\<lambda>n. n = 99)) (table_ops ''now'') sample_catalog ''ab'' ''t'' sample_request None sample_vault of (v, r) \<Rightarrow>
     \<not> isl r \<and> dir_of (live_dir 3) (va_disk v) = Some (bundle_files (sample_bundle ''new''))"
    by code_simp
  moreover obtain v r where run: "op_request (sample_manager (\<lambda>n. n = 99)) (table_ops ''now'') sample_catalog ''ab'' ''t'' sample_request None sample_vault = (v, r)"
    by (rule prod.exhaust)
  moreover have "''t'' \<notin> dict_keys (va_temp sample_vault)" "va_temp sample_vault = []" by (simp_all add: sample_vault_def)
  moreover from request_all_or_nothing [OF sample_certs_ok sample_tidy sample_runs(1,3) _ owned_well_sample(2) this(1) run] sample_runs(4)
  have "certs_ok (iv_certs (va_table v)) \<and> va_temp v = va_temp sample_vault" by simp
  ultimately show ?thesis by simp
qed

lemma sample_deletable:
  "cert_look 1 (va_table sample_vault) = Some x \<Longrightarrow> sound_record x \<and> dir_of (live_dir 1) (va_disk sample_vault) \<noteq> None"
proof -
  assume x: "cert_look 1 (va_table sample_vault) = Some x"
  then obtain row where row: "row \<in> set (cdb_rows (iv_certs (va_table sample_vault)))"
    "x = clean_aggregate ''certificates'' (cert_project (iv_certs (va_table sample_vault)) row)"
    unfolding cert_look_def cert_get_Some using find_cert_id by blast
  then have m: "ct_metadata row = []" by (auto simp: sample_vault_def sample_inventory_def sample_cert_def blank_cert_def)
  then have "metadata_ok (ct_metadata row)" using metadata_okI [of "[]"] by (simp add: extension_metadata_def)
  from sound_row [OF this] have "sound_record x"
    by (simp add: row(2) m hooks_pass_def extensions_of_def pget_def dict_get_or_def)
  then show ?thesis by (simp add: sample_vault_def sample_disk_def dir_of_def)
qed

text \<open>A removal whose second call, which clears the quarantine, fails.\<close>

theorem remove_all_or_nothing_witness:
  "case op_remove (sample_manager (\<lambda>n. n = 1)) (table_ops ''now'') ''ab'' [(''id'', PInt 1)] sample_vault of (v, r) \<Rightarrow>
     isl r \<and> cert_look 1 (va_table v) = None \<and> dir_of (live_dir 1) (va_disk v) = None \<and> certs_ok (iv_certs (va_table v))"
proof -
  have "case op_remove (sample_manager (\<lambda>n. n = 1)) (table_ops ''now'') ''ab'' [(''id'', PInt 1)] sample_vault of (v, r) \<Rightarrow>
     isl r \<and> cert_look 1 (va_table v) = None \<and> dir_of (live_dir 1) (va_disk v) = None"
    by code_simp
  moreover obtain v r where run: "op_remove (sample_manager (\<lambda>n. n = 1)) (table_ops ''now'') ''ab'' [(''id'', PInt 1)] sample_vault = (v, r)"
    by (rule prod.exhaust)
  moreover have i: "ebind (dict_at [(''id'', PInt 1)] ''id'') py_int = Inr 1" by (simp add: dict_at_def note_none_def)
  from remove_all_or_nothing [OF sample_certs_ok sample_tidy sample_runs(1,3) i _ run] sample_deletable
  have "certs_ok (iv_certs (va_table v))" by blast
  ultimately show ?thesis by simp
qed


theorem dns_renewal_refused_witness:
  "op_renew ((sample_manager (\<lambda>n. False))\<lparr>mg_issue := Some (\<lambda>rq file. certbot_issue sample_certbot sample_catalog (rq_domain_names rq)
      (rq_challenge_type rq) (rq_key_type rq) (rq_email rq) (rq_provider rq) file)\<rparr>)
     (table_ops ''now'') ''ab'' ''cd'' [(''id'', PInt 2), (''force'', PBool True)] None sample_vault =
   (sample_vault, Inl (ValueError ''DNS-01 requires a provider and credentials file''))"
proof -
  let ?mg = "(sample_manager (\<lambda>n. False))\<lparr>mg_issue := Some (\<lambda>rq file. certbot_issue sample_certbot sample_catalog (rq_domain_names rq)
      (rq_challenge_type rq) (rq_key_type rq) (rq_email rq) (rq_provider rq) file)\<rparr>"
    and ?d = "[(''id'', PInt 2), (''force'', PBool True)]"
  have i: "ebind (dict_at ?d ''id'') py_int = Inr 2" by (simp add: dict_at_def note_none_def)
  obtain rec where rec: "cert_look 2 (va_table sample_vault) = Some rec" and p: "pget ''provider'' rec = PStr ''letsencrypt''"
    and q: "\<exists>rq. renewal_request rec = Inr rq \<and> rq_challenge_type rq = Dns_01"
  proof -
    have "case cert_look 2 (va_table sample_vault) of None \<Rightarrow> False | Some rec \<Rightarrow> pget ''provider'' rec = PStr ''letsencrypt'' \<and>
        (case renewal_request rec of Inl _ \<Rightarrow> False | Inr rq \<Rightarrow> rq_challenge_type rq = Dns_01)" by code_simp
    then show thesis using that by (auto split: option.splits sum.splits)
  qed
  then obtain rq where rq: "renewal_request rec = Inr rq" "rq_challenge_type rq = Dns_01" by blast
  have w: "renewal_wanted ?mg (truthy (pget ''force'' ?d)) rec = Inr True"
    by (simp add: renewal_wanted_def pget_def dict_get_or_def)
  show ?thesis by (rule dns_renewal_refused [OF _ i rec p w rq]) simp
qed

section \<open>Where the workflows fall short\<close>

text \<open>An upload whose metadata names a manager but not an owner is refused only after its record was written: the activation trips
  over the ownership hook, and so does the deletion that should compensate it. What stays is a pending record
  without material, and no removal gets rid of it.\<close>

lemma partial_ownership_sticks:
  "case op_upload (sample_manager (\<lambda>n. False)) (table_ops ''now'') ''ab'' (sample_upload [(''managed_by'', PStr ''npmctl'')]) None sample_vault of
     (v, r) \<Rightarrow> isl r \<and> dir_of (live_dir 3) (va_disk v) = None \<and> map_option (pget ''status'') (cert_look 3 (va_table v)) = Some (PStr ''pending'') \<and>
       (case op_remove (sample_manager (\<lambda>n. False)) (table_ops ''now'') ''cd'' [(''id'', PInt 3)] v of
          (w, q) \<Rightarrow> isl q \<and> cert_look 3 (va_table w) \<noteq> None)"
  by code_simp

text \<open>A renewal whose last call fails, when the new material is in place: what is put back is what the failed removal left.\<close>

lemma renewal_loses_old_material:
  "case op_renew (sample_manager (\<lambda>n. n = 7)) (table_ops ''now'') ''ab'' ''cd'' [(''id'', PInt 1), (''force'', PBool True)] None sample_vault of
     (v, r) \<Rightarrow> isl r \<and> dir_of (live_dir 1) (va_disk v) = Some []"
  by code_simp

text \<open>A stream that was not written through the compatibility API keeps its certificate in a column that the check does not see.\<close>

definition native_stream :: wire_stream where
  "native_stream = (blank_stream ''then'' 1)\<lparr>sw_certificate_id := Some 1, sw_protocol := ''tcp'', sw_target := ''db'', sw_target_kind := ''dns'',
     sw_target_port := 5432, sw_incoming_port := 5432\<rparr>"

lemma removal_orphans_stream:
  "case op_remove (sample_manager (\<lambda>n. False)) (table_ops ''now'') ''ab'' [(''id'', PInt 1)]
       (sample_vault\<lparr>va_table := sample_inventory\<lparr>iv_streams := [native_stream]\<rparr>\<rparr>) of
     (v, r) \<Rightarrow> \<not> isl r \<and> cert_look 1 (va_table v) = None \<and> map sw_certificate_id (iv_streams (va_table v)) = [Some 1]"
  by code_simp

end
