(* ===== verification/Spec2Isabelle.thy ===== *)
theory Spec2Isabelle
  imports Quic_Router Nginx_Laws Routing_Laws Controller Mfa Lifecycle Cert_Workflows
begin

text \<open>
  Portwyrm (\<open>src/portwyrm\<close>) is a control plane in Python for Nginx: proxied hosts, streams, QUIC passthrough routes, access
  lists and certificates are rows of tables; a change of one is authorized, validated, written, audited, and then
  compiled into a generation of Nginx files that a reconciler publishes. Beside Nginx runs a UDP router that
  forwards QUIC connections by the server name of their first packet. This library models these parts as they are written
  and proves what they promise. All file names below are relative to \<open>src/portwyrm\<close>.

  \<^bold>\<open>How the parts interact.\<close> A request carries a bearer token, which \<open>api/security.py\<close> turns into a principal
  (\<open>Tokens\<close>, \<open>Identity\<close>, with the second factor in \<open>Mfa\<close>). The compatibility API (\<open>Compat_Api\<close>, \<open>Resources\<close>)
  checks its permissions and visibility and calls the tables (\<open>Routing_Table\<close>, \<open>Access_Lists\<close>, \<open>Quic_Passthrough\<close>,
  \<open>Certificates\<close>); around each table operation run the hooks of \<open>tables/lifecycle.py\<close> (\<open>Lifecycle\<close>).
  After a commit the controller (\<open>Controller\<close>) renders the tables (\<open>Nginx_Render\<close>), has the files
  validated and published (\<open>Reconcile\<close>), and records generation, attempt and revisions (\<open>Runtime_Tables\<close>). The rendered QUIC
  document is what the router of \<open>Quic_Router\<close> loads.

  \<^bold>\<open>Foundations.\<close>
  \<^item> \<open>Prelude\<close>: results (\<open>py_error + 'a\<close>, bind \<open>ebind\<close>, loop \<open>emap\<close>), insertion-ordered dictionaries (\<open>dict_get\<close>,
    \<open>dict_set\<close>), stable sorting by a key, and the rules their proofs share.
  \<^item> \<open>Py_Text\<close>, \<open>Py_Value\<close>: what the program uses of \<open>str\<close> (strip, split, lower case, decimal \<open>int\<close>) and JSON-like values
    (\<open>pyval\<close>), with truth, equality and coercions as Python has them. Text is ASCII: outside it the model of \<open>str\<close> says nothing.
  \<^item> \<open>Ip_Address\<close>: parsing and canonical text of IPv4 and IPv6 addresses and networks, as \<open>ipaddress\<close> does it.

  \<^bold>\<open>The router\<close> (\<open>runtime/quic_router.py\<close>).
  \<^item> \<open>Quic_Wire\<close>: variable-length integers, key derivation, header protection, CRYPTO frames and ClientHello. Bytes are
    \<open>8 word\<close>; HMAC, AES-ECB and AEAD are parameters. Lemmas: round trips of integers and packets, and that the server name of a
    client that was sealed as RFC 9001 says is the one that the router reads.
  \<^item> \<open>Quic_Router\<close>: the state of the router as a record and one function per callback (datagram received, endpoint
    opened, refused or ended by any other exception, timers, reload). Lemmas: an invariant of every callback, the queues that
    nobody looks after (\<open>orphans\<close>) and where they come from, isolation of clients from one another, affinity by
    connection id, release of the ingress pause.

  \<^bold>\<open>Tables and rendering.\<close>
  \<^item> \<open>Routing_Model\<close>, \<open>Routing_Table\<close>, \<open>Routing_Laws\<close>: \<open>tables/routing.py\<close> and \<open>health.py\<close>. \<open>prepare\<close> and \<open>persist\<close> are the hooks before and
    after the root row is written; the database's unique constraints are \<open>database_accepts\<close>. Lemmas: domain names stay unique,
    every field of a stored host reads back as the payload gave it (\<open>reads_as\<close>), normal forms of TLS options.
  \<^item> \<open>Access_Lists\<close> (\<open>tables/access.py\<close>), \<open>Quic_Passthrough\<close> (\<open>tables/quic_passthrough.py\<close>): validation, children, projections.
  \<^item> \<open>Nginx_Render\<close>, \<open>Nginx_Laws\<close>: \<open>runtime/nginx*.py\<close>, every file as text. Lemmas: the file names and their resources, independence
    of the order of the rows, the QUIC document read back by the router.
  \<^item> \<open>Reconcile\<close>: \<open>runtime/reconcile.py\<close>, \<open>publisher.py\<close>, \<open>hooks.py\<close>. The abstract specification is the
    served generation; \<open>reconcile\<close> refines it: success installs the new one, every failure leaves the old one, and generations never change.
  \<^item> \<open>Runtime_Tables\<close>, \<open>Controller\<close>: \<open>tables/runtime.py\<close>, \<open>runtime/controller.py\<close>. Lemmas: mutual exclusion by leases, agreement of the
    active row with the active link, and that what is served is what the tables render to.

  \<^bold>\<open>Identity and policy.\<close>
  \<^item> \<open>Identity\<close>: \<open>identity/permissions.py\<close>, \<open>identity/token_policy.py\<close>, \<open>tables/identities.py\<close>, \<open>rbac.py\<close>, \<open>credentials.py\<close>.
  \<^item> \<open>Tokens\<close>: \<open>identity/api_keys.py\<close>, \<open>tables/tokens.py\<close>, \<open>sessions.py\<close>, \<open>api/security.py\<close>. Lemmas: the authority of a token is the
    meet of its stored scopes with the current rights of its owner; a revoked token stays so.
  \<^item> \<open>Mfa\<close>: \<open>identity/mfa.py\<close>, \<open>tables/mfa.py\<close>. Lemmas: the window of accepted codes, recovery codes used once.
  \<^item> \<open>Lifecycle\<close>: \<open>tables/lifecycle.py\<close>, \<open>domain/ownership.py\<close>, \<open>attribution.py\<close>. Lemmas: what a member can write, what a
    principal can see, and that audit rows do not show the fields that are hidden by name.

  \<^bold>\<open>Certificates, import and the compatibility API.\<close>
  \<^item> \<open>Effects\<close>: code that changes a state and may raise (\<open>io_bind\<close>, \<open>io_compensate\<close>, \<open>io_finally\<close>), with rules for \<open>triple\<close>
    (a precondition, a postcondition for a normal end and one for an exception).
  \<^item> \<open>Acme\<close>: \<open>certificates/pem.py\<close>, \<open>providers.py\<close>, \<open>acme.py\<close>. Lemmas: which challenges an issuance presents and takes down,
    also when a cleanup raises. \<open>Cert_Store\<close>: \<open>certificates/manager.py\<close>, a state of directories and a plan of faults. \<open>Certificates\<close>: \<open>tables/certificates.py\<close> and \<open>certificates/table_manager.py\<close>.
  \<^item> \<open>Cert_Laws\<close>, \<open>Cert_Table\<close>, \<open>Cert_Workflows\<close>: what the workflows of \<open>table_manager.py\<close> promise. The locale
    \<open>certificate_table\<close> states what they rely on of the table; \<open>Cert_Table\<close> interprets it on the certificates beside the hosts and
    streams that may name them (\<open>table_ops\<close>). Lemmas: an upload, a request, a renewal and a removal change row and
    material together or neither of them, under one fault of the file system, from a vault without stray material and for
    complete or absent ownership metadata; the last section of \<open>Cert_Workflows\<close> shows where they fall short without.
  \<^item> \<open>Migration\<close>: \<open>migration/npm.py\<close>. \<open>Compat_Api\<close>: \<open>api/compat/__init__.py\<close> and \<open>contracts.py\<close>, the handlers over a record \<open>service\<close>
    of operations. \<open>Resources\<close>: \<open>api/compat/resources.py\<close>.

  \<^bold>\<open>Interfaces.\<close> A locale states what a client relies on and is interpreted on the operations of the component that
  provides it; its lemmas then hold of the model, and the numbered properties rest on them.

  \<^bold>\<open>Effects, loops and bounds.\<close> An exception is \<open>Inl\<close> of the error and the state reached when it was raised is returned with it.
  A loop of the source is structural recursion or \<open>function\<close> with a termination proof; no definition has
  fuel, so every operation is total and its properties do not depend on a bound. Python's integers are \<open>int\<close>;
  bytes and wire fields are \<open>8 word\<close>. Asynchronous code runs one callback or one request at a time, in the order given by the list of steps.

  \<^bold>\<open>Not modelled.\<close> Sockets, processes, clocks, random bytes, hashing and ciphers are parameters with their documented behaviour as named
  hypotheses. The framework that stores a row and calls the hooks, schema migrations, settings and environment variables,
  the assembly of the application, HTTP transport and middleware, the probing of upstreams, telemetry, log
  files, the bootstrap file and the command line hold no logic that could be stated without the libraries they call. Of the
  compatibility API the endpoints for login, tokens and second factors only compose operations that are modelled in
  \<open>Tokens\<close>, \<open>Identity\<close> and \<open>Mfa\<close>, and are not modelled themselves.
\<close>

end
